(* ===== verification/Prelude.thy ===== *)
theory Prelude
  imports Main "HOL-Library.Char_ord" "HOL-Library.List_Lexorder"
begin

text \<open>
  What every component shares: Python values, the exceptions the code raises or catches, the
  effect type of a Python function that calls services, loops over lists, string helpers
  (\<open>str.split\<close>, \<open>str.startswith\<close>, \<open>format\<close> of an integer) and list slicing into batches.

  A function of the code that talks to a service is an \<open>io\<close> computation over a state \<open>'s\<close>: it
  returns \<open>None\<close> when it never returns (a \<open>while True\<close> that is never left), and otherwise the
  final state with either the exception that escapes (\<open>Inl\<close>) or the value returned (\<open>Inr\<close>).
\<close>

named_theorems io_defs
named_theorems hoare_intros
named_theorems model_defs

section \<open>Python values and exceptions\<close>

datatype pyval =
    PNone
  | PBool bool
  | PInt int
  | PStr string
  | PList "pyval list"
  | PDict "(string \<times> pyval) list"

datatype exn =
    ClientError string string \<comment> \<open>botocore: the error's code and message\<close>
  | ServiceFailure string \<comment> \<open>any other exception a service call raises\<close>
  | StateTableException bool bool \<comment> \<open>caused by throttling, caused by condition\<close>
  | TaskQueueException
  | GenericException string
  | KeyError
  | TypeError
  | AttributeError
  | IndexError
  | ValueError
  | UnboundLocalError
  | AssertionError
  | NotImplementedError
  | BadRequest string \<comment> \<open>a malformed request to the orchestrator: the message\<close>
  | KubeApiException int \<comment> \<open>kubernetes: the HTTP status\<close>

text \<open>
  \<open>str(e)\<close>.  The texts are abbreviated: a \<open>ClientError\<close> gives its code and message without the
  name of the operation, and exceptions of the interpreter give their class.
\<close>

fun exn_str :: "exn \<Rightarrow> string" where
  "exn_str (ClientError code msg) = ''An error occurred ('' @ code @ ''): '' @ msg"
| "exn_str (ServiceFailure msg) = msg"
| "exn_str (GenericException msg) = msg"
| "exn_str (StateTableException t c) = ''StateTableException''"
| "exn_str TaskQueueException = ''TaskQueueException''"
| "exn_str KeyError = ''KeyError''"
| "exn_str TypeError = ''TypeError''"
| "exn_str AttributeError = ''AttributeError''"
| "exn_str IndexError = ''IndexError''"
| "exn_str ValueError = ''ValueError''"
| "exn_str UnboundLocalError = ''UnboundLocalError''"
| "exn_str AssertionError = []"
| "exn_str NotImplementedError = []"
| "exn_str (BadRequest msg) = msg"
| "exn_str (KubeApiException st) = ''ApiException''"

section \<open>Effects\<close>

type_synonym ('s, 'a) io = "'s \<Rightarrow> ((exn + 'a) \<times> 's) option"

definition io_return :: "'a \<Rightarrow> ('s, 'a) io" where
  "io_return a = (\<lambda>s. Some (Inr a, s))"

definition io_raise :: "exn \<Rightarrow> ('s, 'a) io" where
  "io_raise e = (\<lambda>s. Some (Inl e, s))"

definition io_bind :: "('s, 'a) io \<Rightarrow> ('a \<Rightarrow> ('s, 'b) io) \<Rightarrow> ('s, 'b) io" where
  "io_bind m f = (\<lambda>s. case m s of
      None \<Rightarrow> None
    | Some (r, s') \<Rightarrow> (case r of Inl e \<Rightarrow> Some (Inl e, s') | Inr a \<Rightarrow> f a s'))"

definition io_then :: "('s, unit) io \<Rightarrow> ('s, 'b) io \<Rightarrow> ('s, 'b) io" where
  "io_then m k = io_bind m (\<lambda>_. k)"

text \<open>\<open>try: m except E as e: h(e)\<close>; a handler that does not match re-raises.\<close>

definition io_catch :: "('s, 'a) io \<Rightarrow> (exn \<Rightarrow> ('s, 'a) io) \<Rightarrow> ('s, 'a) io" where
  "io_catch m h = (\<lambda>s. case m s of
      None \<Rightarrow> None
    | Some (r, s') \<Rightarrow> (case r of Inl e \<Rightarrow> h e s' | Inr a \<Rightarrow> Some (Inr a, s')))"

text \<open>A service call: it returns, with a value or an exception.\<close>

definition io_call :: "('s \<Rightarrow> (exn + 'a) \<times> 's) \<Rightarrow> ('s, 'a) io" where
  "io_call f = (\<lambda>s. Some (f s))"

text \<open>A call that does not raise: the clock, a random number, a sleep.\<close>

definition io_read :: "('s \<Rightarrow> 'a \<times> 's) \<Rightarrow> ('s, 'a) io" where
  "io_read f = (\<lambda>s. case f s of (a, s') \<Rightarrow> Some (Inr a, s'))"

definition io_get :: "('s \<Rightarrow> 'a) \<Rightarrow> ('s, 'a) io" where
  "io_get f = (\<lambda>s. Some (Inr (f s), s))"

definition io_modify :: "('s \<Rightarrow> 's) \<Rightarrow> ('s, unit) io" where
  "io_modify f = (\<lambda>s. Some (Inr (), f s))"

definition io_of :: "exn + 'a \<Rightarrow> ('s, 'a) io" where
  "io_of r = (\<lambda>s. Some (r, s))"

text \<open>A computation on a part of the state.\<close>

definition io_zoom :: "('s \<Rightarrow> 'w) \<Rightarrow> ('w \<Rightarrow> 's \<Rightarrow> 's) \<Rightarrow> ('w, 'a) io \<Rightarrow> ('s, 'a) io" where
  "io_zoom get put m = (\<lambda>s. case m (get s) of
      None \<Rightarrow> None
    | Some (r, w) \<Rightarrow> Some (r, put w s))"

primrec io_foreach :: "'a list \<Rightarrow> ('a \<Rightarrow> ('s, unit) io) \<Rightarrow> ('s, unit) io" where
  "io_foreach [] f = io_return ()"
| "io_foreach (x # xs) f = io_then (f x) (io_foreach xs f)"

primrec io_mapM :: "('a \<Rightarrow> ('s, 'b) io) \<Rightarrow> 'a list \<Rightarrow> ('s, 'b list) io" where
  "io_mapM f [] = io_return []"
| "io_mapM f (x # xs) = io_bind (f x) (\<lambda>y. io_bind (io_mapM f xs) (\<lambda>ys. io_return (y # ys)))"

lemma io_return_apply [simp]: "io_return a s = Some (Inr a, s)"
  by (simp add: io_return_def)

lemma io_raise_apply [simp]: "io_raise e s = Some (Inl e, s)"
  by (simp add: io_raise_def)

lemma io_of_Inr [simp]: "io_of (Inr a) = io_return a"
  by (simp add: io_of_def io_return_def)

lemma io_of_Inl [simp]: "io_of (Inl e) = io_raise e"
  by (simp add: io_of_def io_raise_def)

lemma io_of_apply [simp]: "io_of r s = Some (r, s)"
  by (simp add: io_of_def)

lemma io_get_apply [simp]: "io_get f s = Some (Inr (f s), s)"
  by (simp add: io_get_def)

lemma io_modify_apply [simp]: "io_modify f s = Some (Inr (), f s)"
  by (simp add: io_modify_def)

lemma io_call_apply [simp]: "io_call f s = Some (f s)"
  by (simp add: io_call_def)

lemma io_read_apply: "io_read f s = Some (Inr (fst (f s)), snd (f s))"
  by (simp add: io_read_def split: prod.splits)

lemma io_bind_apply:
  "io_bind m f s = (case m s of
      None \<Rightarrow> None
    | Some (r, s') \<Rightarrow> (case r of Inl e \<Rightarrow> Some (Inl e, s') | Inr a \<Rightarrow> f a s'))"
  by (simp add: io_bind_def)

lemma io_catch_apply:
  "io_catch m h s = (case m s of
      None \<Rightarrow> None
    | Some (r, s') \<Rightarrow> (case r of Inl e \<Rightarrow> h e s' | Inr a \<Rightarrow> Some (Inr a, s')))"
  by (simp add: io_catch_def)

lemma io_zoom_apply:
  "io_zoom get put m s = (case m (get s) of None \<Rightarrow> None | Some (r, w) \<Rightarrow> Some (r, put w s))"
  by (simp add: io_zoom_def)

lemma io_then_apply:
  "io_then m k s = (case m s of
      None \<Rightarrow> None
    | Some (r, s') \<Rightarrow> (case r of Inl e \<Rightarrow> Some (Inl e, s') | Inr a \<Rightarrow> k s'))"
  by (simp add: io_then_def io_bind_def)

lemmas io_apply = io_bind_apply io_catch_apply io_then_apply io_zoom_apply io_read_apply

declare io_apply [io_defs]

lemma io_bind_Some:
  "io_bind m f s = Some (r, t) \<longleftrightarrow>
     (\<exists>e. m s = Some (Inl e, t) \<and> r = Inl e) \<or> (\<exists>a s'. m s = Some (Inr a, s') \<and> f a s' = Some (r, t))"
  by (auto simp: io_bind_apply split: option.splits prod.splits sum.splits)

lemma io_then_Some:
  "io_then m k s = Some (r, t) \<longleftrightarrow>
     (\<exists>e. m s = Some (Inl e, t) \<and> r = Inl e) \<or> (\<exists>a s'. m s = Some (Inr a, s') \<and> k s' = Some (r, t))"
  by (auto simp: io_then_apply split: option.splits prod.splits sum.splits)

lemma io_catch_Some:
  "io_catch m h s = Some (r, t) \<longleftrightarrow>
     (\<exists>a. m s = Some (Inr a, t) \<and> r = Inr a) \<or> (\<exists>e s'. m s = Some (Inl e, s') \<and> h e s' = Some (r, t))"
  by (auto simp: io_catch_apply split: option.splits prod.splits sum.splits)

lemma io_bind_Inr:
  "io_bind m f s = Some (Inr b, t) \<longleftrightarrow> (\<exists>a s'. m s = Some (Inr a, s') \<and> f a s' = Some (Inr b, t))"
  by (simp add: io_bind_Some)

lemma io_bind_InrE:
  assumes "io_bind m f s = Some (Inr b, t)"
  obtains a s' where "m s = Some (Inr a, s')" and "f a s' = Some (Inr b, t)"
  using assms by (auto simp: io_bind_Inr)

lemma io_then_Inr:
  "io_then m k s = Some (Inr b, t) \<longleftrightarrow> (\<exists>s'. m s = Some (Inr (), s') \<and> k s' = Some (Inr b, t))"
  by (simp add: io_then_Some)

lemma io_bind_assoc: "io_bind (io_bind m f) g = io_bind m (\<lambda>x. io_bind (f x) g)"
  by (rule ext) (simp add: io_bind_apply split: option.splits prod.splits sum.splits)

lemma io_return_bind [simp]: "io_bind (io_return a) f = f a"
  by (rule ext) (simp add: io_bind_apply)

lemma io_raise_bind [simp]: "io_bind (io_raise e) f = io_raise e"
  by (rule ext) (simp add: io_bind_apply)

lemma io_raise_then [simp]: "io_then (io_raise e) k = io_raise e"
  by (simp add: io_then_def)

lemma io_return_then [simp]: "io_then (io_return a) k = k"
  by (simp add: io_then_def)

text \<open>A test that a computation returns, as \<open>code_simp\<close> evaluates it, and what it says.\<close>

lemma run_iff:
  "(case m of None \<Rightarrow> False | Some (r, s) \<Rightarrow> (case r of Inl e \<Rightarrow> False | Inr a \<Rightarrow> P a s)) \<longleftrightarrow>
     (\<exists>a s. m = Some (Inr a, s) \<and> P a s)"
  by (auto split: option.splits sum.splits)

section \<open>Loops that may not end\<close>

text \<open>
  A \<open>while True\<close> is a \<open>partial_function (option)\<close> over the state; these two facts let its
  body be written with the combinators above.
\<close>

lemma io_bind_mono [partial_function_mono]:
  fixes B :: "('x \<Rightarrow> 'y option) \<Rightarrow> ('s, 'a) io" and C :: "('x \<Rightarrow> 'y option) \<Rightarrow> 'a \<Rightarrow> ('s, 'b) io"
  assumes "\<And>s. mono_option (\<lambda>f. B f s)" and "\<And>y s. mono_option (\<lambda>f. C f y s)"
  shows "mono_option (\<lambda>f. io_bind (B f) (C f) s)"
proof (rule monotoneI)
  fix f g :: "'x \<Rightarrow> 'y option"
  assume le: "fun_ord option_ord f g"
  have b: "option_ord (B f s) (B g s)"
    by (rule monotoneD [where f = "\<lambda>f. B f s"]) (rule assms(1) le)+
  have c: "option_ord (C f y t) (C g y t)" for y t
    by (rule monotoneD [where f = "\<lambda>f. C f y t"]) (rule assms(2) le)+
  show "option_ord (io_bind (B f) (C f) s) (io_bind (B g) (C g) s)"
  proof (cases "B f s = None")
    case True
    then show ?thesis by (simp add: io_bind_apply flat_ord_def)
  next
    case False
    with b have eq: "B g s = B f s" by (simp add: flat_ord_def)
    show ?thesis using c eq
      by (cases "B f s") (auto simp: io_bind_apply flat_ord_def split: sum.splits, metis+)
  qed
qed

lemma io_then_mono [partial_function_mono]:
  fixes B :: "('x \<Rightarrow> 'y option) \<Rightarrow> ('s, unit) io" and C :: "('x \<Rightarrow> 'y option) \<Rightarrow> ('s, 'b) io"
  assumes "\<And>s. mono_option (\<lambda>f. B f s)" and "\<And>s. mono_option (\<lambda>f. C f s)"
  shows "mono_option (\<lambda>f. io_then (B f) (C f) s)"
  unfolding io_then_def by (rule io_bind_mono) (rule assms)+

lemma io_catch_mono [partial_function_mono]:
  fixes B :: "('x \<Rightarrow> 'y option) \<Rightarrow> ('s, 'a) io" and H :: "('x \<Rightarrow> 'y option) \<Rightarrow> exn \<Rightarrow> ('s, 'a) io"
  assumes "\<And>s. mono_option (\<lambda>f. B f s)" and "\<And>e s. mono_option (\<lambda>f. H f e s)"
  shows "mono_option (\<lambda>f. io_catch (B f) (H f) s)"
proof (rule monotoneI)
  fix f g :: "'x \<Rightarrow> 'y option"
  assume le: "fun_ord option_ord f g"
  have b: "option_ord (B f s) (B g s)"
    by (rule monotoneD [where f = "\<lambda>f. B f s"]) (rule assms(1) le)+
  have c: "option_ord (H f y t) (H g y t)" for y t
    by (rule monotoneD [where f = "\<lambda>f. H f y t"]) (rule assms(2) le)+
  show "option_ord (io_catch (B f) (H f) s) (io_catch (B g) (H g) s)"
  proof (cases "B f s = None")
    case True
    then show ?thesis by (simp add: io_catch_apply flat_ord_def)
  next
    case False
    with b have eq: "B g s = B f s" by (simp add: flat_ord_def)
    show ?thesis using c eq
      by (cases "B f s") (auto simp: io_catch_apply flat_ord_def split: sum.splits, metis+)
  qed
qed

text \<open>
  \<open>io_until m\<close> is a \<open>while True\<close> whose body \<open>m\<close> answers \<open>None\<close> to go round again and \<open>Some a\<close> to
  leave the loop with \<open>a\<close>; \<open>io_rounds m n s\<close> is the state after \<open>n\<close> rounds that all went on.
\<close>

partial_function (option) io_until :: "('s, 'a option) io \<Rightarrow> 's \<Rightarrow> ((exn + 'a) \<times> 's) option" where
  "io_until m s = io_bind m (\<lambda>r t. case r of None \<Rightarrow> io_until m t | Some a \<Rightarrow> io_return a t) s"

declare io_until.simps [code]

primrec io_rounds :: "('s, 'a option) io \<Rightarrow> nat \<Rightarrow> 's \<Rightarrow> 's option" where
  "io_rounds m 0 s = Some s"
| "io_rounds m (Suc n) s = (case m s of Some (Inr None, t) \<Rightarrow> io_rounds m n t | _ \<Rightarrow> None)"

definition last_round :: "exn + 'a option \<Rightarrow> exn + 'a \<Rightarrow> bool" where
  "last_round x r \<longleftrightarrow> (case x of Inl e \<Rightarrow> r = Inl e | Inr (Some a) \<Rightarrow> r = Inr a | Inr None \<Rightarrow> False)"

lemma last_round_simps [simp]:
  "last_round (Inl e) r \<longleftrightarrow> r = Inl e" "last_round (Inr (Some a)) r \<longleftrightarrow> r = Inr a"
  "\<not> last_round (Inr None) r"
  by (simp_all add: last_round_def)

lemma io_until_rounds: "io_rounds m n s = Some t \<Longrightarrow> io_until m s = io_until m t"
proof (induction n arbitrary: s)
  case (Suc n)
  then obtain s1 where s1: "m s = Some (Inr None, s1)" "io_rounds m n s1 = Some t"
    by (auto split: option.splits sum.splits)
  have "io_until m s = io_until m s1" by (subst io_until.simps) (simp add: io_bind_apply s1)
  with Suc.IH [OF s1(2)] show ?case by simp
qed simp

lemma io_until_last:
  assumes "io_until m s = Some y"
  shows "\<exists>n u x. io_rounds m n s = Some u \<and> m u = Some (x, snd y) \<and> last_round x (fst y)"
  using assms
proof (induction m s y rule: io_until.raw_induct [rotated, consumes 1, case_names step])
  case (step f m s y)
  obtain r t where y: "y = (r, t)" by (cases y)
  from step.hyps y consider e where "m s = Some (Inl e, t)" "r = Inl e"
    | a where "m s = Some (Inr (Some a), t)" "r = Inr a"
    | s1 where "m s = Some (Inr None, s1)" "f m s1 = Some y"
    by (auto simp: io_bind_Some split: option.splits) (metis not_None_eq)
  then show ?case
  proof cases
    case 3
    from step.IH [OF 3(2)] obtain n u x where
      "io_rounds m n s1 = Some u" "m u = Some (x, snd y)" "last_round x (fst y)" by blast
    with 3(1) show ?thesis by (intro exI [of _ "Suc n"]) auto
  qed (rule exI [of _ 0], simp add: y)+
qed

text \<open>What such a loop returns, and when it returns at all.\<close>

lemma io_until_iff:
  "io_until m s = Some (r, t) \<longleftrightarrow>
     (\<exists>n u x. io_rounds m n s = Some u \<and> m u = Some (x, t) \<and> last_round x r)"
proof
  assume "\<exists>n u x. io_rounds m n s = Some u \<and> m u = Some (x, t) \<and> last_round x r"
  then obtain n u x where u: "io_rounds m n s = Some u" "m u = Some (x, t)" "last_round x r" by blast
  have "io_until m u = Some (r, t)"
    by (subst io_until.simps) (use u in \<open>auto simp: io_bind_apply last_round_def split: sum.splits option.splits\<close>)
  with io_until_rounds [OF u(1)] show "io_until m s = Some (r, t)" by simp
qed (use io_until_last [of m s "(r, t)"] in simp)

lemma last_round_Inr: "last_round x (Inr a) \<longleftrightarrow> x = Inr (Some a)"
  by (auto simp: last_round_def split: sum.splits option.splits)

lemma io_until_Inr:
  "io_until m s = Some (Inr a, t) \<longleftrightarrow> (\<exists>n u. io_rounds m n s = Some u \<and> m u = Some (Inr (Some a), t))"
  by (auto simp: io_until_iff last_round_Inr)

lemma io_rounds_Suc_end: "io_rounds m (Suc n) s = Some t \<Longrightarrow> \<exists>u. io_rounds m n s = Some u \<and> m u = Some (Inr None, t)"
  by (induction n arbitrary: s) (auto split: option.splits sum.splits)

lemma io_rounds_invariant:
  assumes "io_rounds m n s = Some t" and "I s"
    and "\<And>s t. I s \<Longrightarrow> m s = Some (Inr None, t) \<Longrightarrow> I t"
  shows "I t"
  using assms(1,2)
proof (induction n arbitrary: s)
  case (Suc n)
  then obtain s1 where "m s = Some (Inr None, s1)" "io_rounds m n s1 = Some t"
    by (auto split: option.splits sum.splits)
  with Suc assms(3) show ?case by blast
qed simp

lemma io_until_forever: "(\<And>n. io_rounds m n s \<noteq> None) \<Longrightarrow> io_until m s = None"
proof (rule ccontr)
  assume all: "\<And>n. io_rounds m n s \<noteq> None" and "io_until m s \<noteq> None"
  then obtain r t where "io_until m s = Some (r, t)" by fastforce
  then obtain n u x where u: "io_rounds m n s = Some u" "m u = Some (x, t)" "last_round x r"
    by (auto simp: io_until_iff)
  from all [of "Suc n"] obtain v where "io_rounds m (Suc n) s = Some v" by blast
  from io_rounds_Suc_end [OF this] u show False by auto
qed

section \<open>Partial correctness and frames\<close>

text \<open>
  \<open>hoare P m Q E\<close>: from a state with \<open>P\<close>, if \<open>m\<close> returns, it ends in \<open>Q\<close> with its value or in \<open>E\<close>
  with the exception that escapes.  \<open>keeps v m\<close>: \<open>m\<close> does not change the view \<open>v\<close> of the state.
\<close>

definition hoare ::
  "('s \<Rightarrow> bool) \<Rightarrow> ('s, 'a) io \<Rightarrow> ('a \<Rightarrow> 's \<Rightarrow> bool) \<Rightarrow> (exn \<Rightarrow> 's \<Rightarrow> bool) \<Rightarrow> bool" where
  "hoare P m Q E \<longleftrightarrow>
     (\<forall>s e t. P s \<and> m s = Some (Inl e, t) \<longrightarrow> E e t) \<and>
     (\<forall>s a t. P s \<and> m s = Some (Inr a, t) \<longrightarrow> Q a t)"

definition keeps :: "('s \<Rightarrow> 'v) \<Rightarrow> ('s, 'a) io \<Rightarrow> bool" where
  "keeps v m \<longleftrightarrow> (\<forall>s r t. m s = Some (r, t) \<longrightarrow> v t = v s)"

definition returns :: "('s, 'a) io \<Rightarrow> bool" where
  "returns m \<longleftrightarrow> (\<forall>s. m s \<noteq> None)"

lemma hoareI:
  assumes "\<And>s e t. P s \<Longrightarrow> m s = Some (Inl e, t) \<Longrightarrow> E e t"
    and "\<And>s a t. P s \<Longrightarrow> m s = Some (Inr a, t) \<Longrightarrow> Q a t"
  shows "hoare P m Q E"
  using assms by (auto simp: hoare_def split: sum.splits)

lemma hoareD_Inr: "hoare P m Q E \<Longrightarrow> P s \<Longrightarrow> m s = Some (Inr a, t) \<Longrightarrow> Q a t"
  by (auto simp: hoare_def split: sum.splits)

lemma hoareD_Inl: "hoare P m Q E \<Longrightarrow> P s \<Longrightarrow> m s = Some (Inl e, t) \<Longrightarrow> E e t"
  by (auto simp: hoare_def split: sum.splits)

lemma hoare_conseq:
  assumes "hoare P m Q E" and "\<And>s. P' s \<Longrightarrow> P s"
    and "\<And>a t. Q a t \<Longrightarrow> Q' a t" and "\<And>e t. E e t \<Longrightarrow> E' e t"
  shows "hoare P' m Q' E'"
  using assms unfolding hoare_def by blast

lemma hoare_return [hoare_intros]: "(\<And>s. P s \<Longrightarrow> Q a s) \<Longrightarrow> hoare P (io_return a) Q E"
  by (auto simp: hoare_def)

lemma hoare_raise [hoare_intros]: "(\<And>s. P s \<Longrightarrow> E e s) \<Longrightarrow> hoare P (io_raise e) Q E"
  by (auto simp: hoare_def)

lemma hoare_bind [hoare_intros]:
  assumes "hoare P m R E" and "\<And>a. hoare (R a) (f a) Q E"
  shows "hoare P (io_bind m f) Q E"
  using assms unfolding hoare_def io_bind_Some by blast

lemma hoare_then [hoare_intros]:
  assumes "hoare P m R E" and "hoare (R ()) k Q E"
  shows "hoare P (io_then m k) Q E"
  unfolding io_then_def by (rule hoare_bind [OF assms(1)]) (simp add: assms(2))

lemma hoare_catch:
  assumes "hoare P m Q R" and "\<And>e. hoare (R e) (h e) Q E"
  shows "hoare P (io_catch m h) Q E"
  using assms unfolding hoare_def io_catch_Some by blast

lemma hoare_foreach:
  assumes "\<And>x. x \<in> set xs \<Longrightarrow> hoare P (f x) (\<lambda>_. P) (\<lambda>_. P)"
  shows "hoare P (io_foreach xs f) (\<lambda>_. P) (\<lambda>_. P)"
  using assms
proof (induction xs)
  case Nil
  show ?case unfolding io_foreach.simps by (rule hoare_return)
next
  case (Cons x xs)
  then show ?case unfolding io_foreach.simps by (intro hoare_then) simp_all
qed

lemma keepsD: "keeps v m \<Longrightarrow> m s = Some (r, t) \<Longrightarrow> v t = v s"
  by (auto simp: keeps_def)

lemma keeps_view: "keeps v m \<Longrightarrow> keeps (\<lambda>s. f (v s)) m"
  by (auto simp: keeps_def)

lemma keeps_all_views: "(\<And>x. keeps (\<lambda>s. v s = x) m) \<Longrightarrow> keeps v m"
  unfolding keeps_def by metis

lemma keeps_return [intro!, simp]: "keeps v (io_return a)"
  by (auto simp: keeps_def)

lemma keeps_same [intro!, simp]: "keeps v (\<lambda>s. Some (r, s))"
  by (auto simp: keeps_def)

lemma keeps_raise [intro!, simp]: "keeps v (io_raise e)"
  by (auto simp: keeps_def)

lemma keeps_of [intro!, simp]: "keeps v (io_of r)"
  by (auto simp: keeps_def)

lemma keeps_get [intro!, simp]: "keeps v (io_get f)"
  by (auto simp: keeps_def)

lemma keeps_modify [intro]: "(\<And>s. v (f s) = v s) \<Longrightarrow> keeps v (io_modify f)"
  by (auto simp: keeps_def)

lemma keeps_bind [intro]: "keeps v m \<Longrightarrow> (\<And>a. keeps v (f a)) \<Longrightarrow> keeps v (io_bind m f)"
  by (auto simp: keeps_def io_bind_Some)

lemma keeps_then [intro]: "keeps v m \<Longrightarrow> keeps v k \<Longrightarrow> keeps v (io_then m k)"
  by (auto simp: keeps_def io_then_Some)

lemma keeps_catch [intro]: "keeps v m \<Longrightarrow> (\<And>e. keeps v (h e)) \<Longrightarrow> keeps v (io_catch m h)"
  by (auto simp: keeps_def io_catch_Some)

lemma keeps_until [intro]:
  assumes "keeps v m"
  shows "keeps v (io_until m)"
  unfolding keeps_def
proof (intro allI impI)
  fix s r t
  assume "io_until m s = Some (r, t)"
  then obtain n u x where u: "io_rounds m n s = Some u" "m u = Some (x, t)" by (auto simp: io_until_iff)
  have "v u = v s"
    by (rule io_rounds_invariant [OF u(1)]) (auto dest: keepsD [OF assms])
  with keepsD [OF assms u(2)] show "v t = v s" by simp
qed

lemma keeps_foreach [intro]: "(\<And>x. x \<in> set xs \<Longrightarrow> keeps v (f x)) \<Longrightarrow> keeps v (io_foreach xs f)"
  by (induction xs) auto

lemma keeps_zoom:
  assumes "keeps v m" and "\<And>w s. v' (put w s) = g (v w) s" and "\<And>s. v' s = g (v (get s)) s"
  shows "keeps v' (io_zoom get put m)"
  using assms by (auto simp: keeps_def io_zoom_apply split: option.splits prod.splits)

lemma returns_return [intro!, simp]: "returns (io_return a)"
  by (simp add: returns_def)

lemma returns_raise [intro!, simp]: "returns (io_raise e)"
  by (simp add: returns_def)

lemma returns_call [intro!, simp]: "returns (io_call f)"
  by (simp add: returns_def)

lemma returns_read [intro!, simp]: "returns (io_read f)"
  by (simp add: returns_def io_read_apply)

lemma returns_of [intro!, simp]: "returns (io_of f)"
  by (simp add: returns_def)

lemma returns_get [intro!, simp]: "returns (io_get f)"
  by (simp add: returns_def)

lemma returns_modify [intro!, simp]: "returns (io_modify f)"
  by (simp add: returns_def)

lemma returns_bind [intro]: "returns m \<Longrightarrow> (\<And>a. returns (f a)) \<Longrightarrow> returns (io_bind m f)"
  by (auto simp: returns_def io_bind_apply split: option.splits prod.splits sum.splits)

lemma returns_then [intro]: "returns m \<Longrightarrow> returns k \<Longrightarrow> returns (io_then m k)"
  by (auto simp: io_then_def)

lemma returns_catch [intro]: "returns m \<Longrightarrow> (\<And>e. returns (h e)) \<Longrightarrow> returns (io_catch m h)"
  by (auto simp: returns_def io_catch_apply split: option.splits prod.splits sum.splits)

lemma returns_zoom [intro]: "returns m \<Longrightarrow> returns (io_zoom get put m)"
  by (auto simp: returns_def io_zoom_apply split: option.splits)

lemma returns_foreach [intro]: "(\<And>x. x \<in> set xs \<Longrightarrow> returns (f x)) \<Longrightarrow> returns (io_foreach xs f)"
  by (induction xs) auto

lemma returns_mapM [intro]: "(\<And>x. x \<in> set xs \<Longrightarrow> returns (f x)) \<Longrightarrow> returns (io_mapM f xs)"
  by (induction xs) (auto intro!: returns_bind)

section \<open>Dictionaries and truth values\<close>

lemma io_rounds_Suc_intro:
  "io_rounds m n s = Some u \<Longrightarrow> m u = Some (Inr None, t) \<Longrightarrow> io_rounds m (Suc n) s = Some t"
proof (induction n arbitrary: s)
  case (Suc n)
  then obtain s1 where "m s = Some (Inr None, s1)" "io_rounds m n s1 = Some u"
    by (auto split: option.splits sum.splits)
  with Suc.IH [OF this(2) Suc.prems(2)] show ?case by simp
qed simp

lemma io_until_None_iff:
  assumes "returns m"
  shows "io_until m s = None \<longleftrightarrow> (\<forall>n. \<exists>u t. io_rounds m n s = Some u \<and> m u = Some (Inr None, t))"
proof
  assume none: "io_until m s = None"
  have next_round: "\<exists>t. m u = Some (Inr None, t)" if u: "io_rounds m n s = Some u" for n u
  proof -
    obtain x t where x: "m u = Some (x, t)" using assms unfolding returns_def by fastforce
    with io_until_iff [of m s _ t] u none have "\<not> last_round x r" for r by fastforce
    then have "x = Inr None" by (cases x; cases "projr x") (auto simp: last_round_def split: option.splits)
    with x show ?thesis by simp
  qed
  have "\<exists>u. io_rounds m n s = Some u" for n
  proof (induction n)
    case (Suc n)
    then obtain u where "io_rounds m n s = Some u" by blast
    with next_round [OF this] show ?case by (blast intro: io_rounds_Suc_intro)
  qed simp
  with next_round
  show "\<forall>n. \<exists>u t. io_rounds m n s = Some u \<and> m u = Some (Inr None, t)" by blast
next
  assume "\<forall>n. \<exists>u t. io_rounds m n s = Some u \<and> m u = Some (Inr None, t)"
  then show "io_until m s = None" by (intro io_until_forever) (metis not_None_eq)
qed

text \<open>\<open>d.get(k)\<close> on a dictionary kept as its list of entries (keys are distinct in Python).\<close>

definition dict_get :: "(string \<times> 'v) list \<Rightarrow> string \<Rightarrow> 'v option" where
  "dict_get d k = map_of d k"

text \<open>\<open>x.get(k)\<close>, \<open>x[k]\<close> and \<open>k in x\<close> on a value that may not be a dictionary.\<close>

fun py_get :: "pyval \<Rightarrow> string \<Rightarrow> exn + pyval" where
  "py_get (PDict d) k = Inr (case dict_get d k of None \<Rightarrow> PNone | Some v \<Rightarrow> v)"
| "py_get _ k = Inl AttributeError"

fun py_index :: "pyval \<Rightarrow> string \<Rightarrow> exn + pyval" where
  "py_index (PDict d) k = (case dict_get d k of None \<Rightarrow> Inl KeyError | Some v \<Rightarrow> Inr v)"
| "py_index _ k = Inl TypeError"

fun truthy :: "pyval \<Rightarrow> bool" where
  "truthy PNone = False"
| "truthy (PBool b) = b"
| "truthy (PInt i) = (i \<noteq> 0)"
| "truthy (PStr s) = (s \<noteq> [])"
| "truthy (PList xs) = (xs \<noteq> [])"
| "truthy (PDict d) = (d \<noteq> [])"

definition bind_result :: "'e + 'a \<Rightarrow> ('a \<Rightarrow> 'e + 'b) \<Rightarrow> 'e + 'b" where
  "bind_result r f = (case r of Inl e \<Rightarrow> Inl e | Inr a \<Rightarrow> f a)"

lemma bind_result_simps [simp]:
  "bind_result (Inl e) f = Inl e"
  "bind_result (Inr a) f = f a"
  by (simp_all add: bind_result_def)

lemma bind_result_Inr: "bind_result r f = Inr b \<longleftrightarrow> (\<exists>a. r = Inr a \<and> f a = Inr b)"
  by (cases r) auto

section \<open>Strings\<close>

definition str_startswith :: "string \<Rightarrow> string \<Rightarrow> bool" where
  "str_startswith s p \<longleftrightarrow> take (length p) s = p"

text \<open>\<open>s.split(sep)[0]\<close> for a non-empty separator.\<close>

fun split_first :: "string \<Rightarrow> string \<Rightarrow> string" where
  "split_first sep [] = []"
| "split_first sep (c # cs) =
     (if str_startswith (c # cs) sep then [] else c # split_first sep cs)"

lemma str_startswith_append [simp]: "str_startswith (p @ s) p"
  by (simp add: str_startswith_def)

lemma split_first_single:
  "split_first [c] s = takeWhile (\<lambda>x. x \<noteq> c) s"
  by (induction s) (auto simp: str_startswith_def)

lemma split_first_char:
  "c \<notin> set p \<Longrightarrow> split_first [c] (p @ c # s) = p"
  unfolding split_first_single by (subst takeWhile_append2) auto

text \<open>
  If no suffix of \<open>p @ sep\<close> that starts inside \<open>p\<close> begins with \<open>sep\<close>, the first piece is \<open>p\<close>.
\<close>

lemma split_first_before:
  assumes "\<And>i. i < length p \<Longrightarrow> \<not> str_startswith (drop i (p @ sep @ s)) sep" and "sep \<noteq> []"
  shows "split_first sep (p @ sep @ s) = p"
  using assms
proof (induction p)
  case Nil
  then show ?case by (cases sep) (auto simp: str_startswith_def)
next
  case (Cons c p)
  have no: "\<not> str_startswith (c # p @ sep @ s) sep" using Cons.prems(1) [of 0] by simp
  have "split_first sep (p @ sep @ s) = p"
  proof (rule Cons.IH)
    show "\<not> str_startswith (drop i (p @ sep @ s)) sep" if "i < length p" for i
      using Cons.prems(1) [of "Suc i"] that by simp
  qed (rule Cons.prems(2))
  with no show ?case by simp
qed

text \<open>\<open>s.split(c)\<close> and \<open>s.split(c, 1)\<close> for one character.\<close>

fun split_on :: "char \<Rightarrow> string \<Rightarrow> string list" where
  "split_on c [] = [[]]"
| "split_on c (x # xs) =
     (if x = c then [] # split_on c xs
      else (case split_on c xs of [] \<Rightarrow> [[x]] | y # ys \<Rightarrow> (x # y) # ys))"

definition split_once :: "char \<Rightarrow> string \<Rightarrow> string list" where
  "split_once c s =
     (if c \<in> set s then [takeWhile (\<lambda>x. x \<noteq> c) s, tl (dropWhile (\<lambda>x. x \<noteq> c) s)] else [s])"

text \<open>\<open>tokens[i]\<close>.\<close>

definition list_index :: "'a list \<Rightarrow> nat \<Rightarrow> exn + 'a" where
  "list_index xs i = (if i < length xs then Inr (xs ! i) else Inl IndexError)"

lemma split_on_ne [simp]: "split_on c s \<noteq> []"
  by (induction s) (auto split: list.splits)

text \<open>\<open>str(n)\<close> of a non-negative integer, most significant digit first.\<close>

definition digit_char :: "nat \<Rightarrow> char" where
  "digit_char d = char_of (48 + d)"

fun str_of_nat :: "nat \<Rightarrow> string" where
  "str_of_nat n = (if n < 10 then [digit_char n] else str_of_nat (n div 10) @ [digit_char (n mod 10)])"

declare str_of_nat.simps [simp del]

definition str_of_int :: "int \<Rightarrow> string" where
  "str_of_int i = (if i < 0 then ''-'' @ str_of_nat (nat (- i)) else str_of_nat (nat i))"

definition digit_val :: "char \<Rightarrow> nat" where
  "digit_val c = of_char c - 48"

definition is_digit :: "char \<Rightarrow> bool" where
  "is_digit c \<longleftrightarrow> 48 \<le> (of_char c :: nat) \<and> (of_char c :: nat) \<le> 57"

definition nat_of_str :: "string \<Rightarrow> nat" where
  "nat_of_str s = foldl (\<lambda>n c. 10 * n + digit_val c) 0 s"

lemma digit_val_char: "d < 10 \<Longrightarrow> digit_val (digit_char d) = d"
  by (simp add: digit_val_def digit_char_def of_char_of)

lemma is_digit_char: "d < 10 \<Longrightarrow> is_digit (digit_char d)"
  by (simp add: is_digit_def digit_char_def of_char_of)

lemma str_of_nat_digits: "\<forall>c \<in> set (str_of_nat n). is_digit c"
proof (induction n rule: str_of_nat.induct)
  case (1 n)
  then show ?case by (subst str_of_nat.simps) (auto simp: is_digit_char)
qed

lemma str_of_nat_nonempty [simp]: "str_of_nat n \<noteq> []"
  by (subst str_of_nat.simps) simp

lemma nat_of_str_of_nat [simp]: "nat_of_str (str_of_nat n) = n"
proof (induction n rule: str_of_nat.induct)
  case (1 n)
  show ?case
  proof (cases "n < 10")
    case True
    then show ?thesis by (subst str_of_nat.simps) (simp add: nat_of_str_def digit_val_char)
  next
    case False
    with 1 have "nat_of_str (str_of_nat (n div 10)) = n div 10" by simp
    with False show ?thesis
      by (subst str_of_nat.simps) (simp add: nat_of_str_def digit_val_char)
  qed
qed

lemma str_of_nat_inject [simp]: "str_of_nat m = str_of_nat n \<longleftrightarrow> m = n"
  by (metis nat_of_str_of_nat)

text \<open>\<open>int(s)\<close> of a text: white space around an optional sign and digits.\<close>

definition is_space :: "char \<Rightarrow> bool" where
  "is_space c \<longleftrightarrow> c \<in> {CHR '' '', CHR 0x09, CHR 0x0A, CHR 0x0B, CHR 0x0C, CHR 0x0D}"

definition str_strip :: "string \<Rightarrow> string" where
  "str_strip s = rev (dropWhile is_space (rev (dropWhile is_space s)))"

definition str_rstrip :: "string \<Rightarrow> string" where
  "str_rstrip s = rev (dropWhile is_space (rev s))"

definition int_of_str :: "string \<Rightarrow> exn + int" where
  "int_of_str s = (let t = str_strip s;
      neg = (t \<noteq> [] \<and> hd t = CHR ''-'');
      d = (if t \<noteq> [] \<and> (hd t = CHR ''-'' \<or> hd t = CHR ''+'') then tl t else t)
    in if d \<noteq> [] \<and> list_all is_digit d
       then Inr (if neg then - int (nat_of_str d) else int (nat_of_str d)) else Inl ValueError)"

text \<open>A word without digits at its end, followed by a number, determines both.\<close>

lemma append_number_inject:
  assumes "p @ str_of_nat m = q @ str_of_nat n"
    and "p \<noteq> []" and "\<not> is_digit (last p)" and "q \<noteq> []" and "\<not> is_digit (last q)"
  shows "p = q \<and> m = n"
proof -
  have pre: "\<And>x k. x \<noteq> [] \<Longrightarrow> \<not> is_digit (last x) \<Longrightarrow>
      dropWhile is_digit (rev (x @ str_of_nat k)) = rev x"
  proof -
    fix x k
    assume x: "x \<noteq> []" "\<not> is_digit (last (x :: string))"
    have "dropWhile is_digit (rev (str_of_nat k) @ rev x) = dropWhile is_digit (rev x)"
      using str_of_nat_digits [of k] by (intro dropWhile_append2) simp
    also have "\<dots> = rev x"
      using x by (cases "rev x") (auto simp: last_rev hd_rev [symmetric])
    finally show "dropWhile is_digit (rev (x @ str_of_nat k)) = rev x" by simp
  qed
  have "rev p = rev q" using pre [of p m] pre [of q n] assms by simp
  with assms(1) show ?thesis by simp
qed

section \<open>Batches\<close>

text \<open>\<open>[xs[i : i + n] for i in range(0, len(xs), n)]\<close>; \<open>range\<close> needs a step that is not 0.\<close>

fun chunks :: "nat \<Rightarrow> 'a list \<Rightarrow> 'a list list" where
  "chunks n xs = (if n = 0 \<or> xs = [] then [] else take n xs # chunks n (drop n xs))"

declare chunks.simps [simp del]

lemma chunks_Nil [simp]: "chunks n [] = []"
  by (simp add: chunks.simps)

lemma concat_chunks: "0 < n \<Longrightarrow> concat (chunks n xs) = xs"
proof (induction n xs rule: chunks.induct)
  case (1 n xs)
  then show ?case by (cases "xs = []") (simp_all add: chunks.simps [of n xs])
qed

lemma chunks_bounds: "ys \<in> set (chunks n xs) \<Longrightarrow> ys \<noteq> [] \<and> length ys \<le> n"
proof (induction n xs rule: chunks.induct)
  case (1 n xs)
  then show ?case by (auto simp: chunks.simps [of n xs] split: if_splits)
qed

lemma chunks_full: "ys \<in> set (butlast (chunks n xs)) \<Longrightarrow> length ys = n"
proof (induction n xs rule: chunks.induct)
  case (1 n xs)
  from 1(2) have ne: "n \<noteq> 0" "xs \<noteq> []" by (auto simp: chunks.simps [of n xs] split: if_splits)
  with 1(2) have "chunks n (drop n xs) \<noteq> []" and "ys = take n xs \<or> ys \<in> set (butlast (chunks n (drop n xs)))"
    by (auto simp: chunks.simps [of n xs] split: if_splits)
  moreover from this have "n < length xs" by (metis chunks_Nil drop_eq_Nil not_le)
  ultimately show ?case using 1(1) ne by auto
qed

lemma length_chunks: "0 < n \<Longrightarrow> length (chunks n xs) = (length xs + n - 1) div n"
proof (induction n xs rule: chunks.induct)
  case (1 n xs)
  show ?case
  proof (cases "xs = []")
    case True
    with 1 show ?thesis by simp
  next
    case False
    have IH: "length (chunks n (drop n xs)) = (length (drop n xs) + n - 1) div n"
      using 1 False by simp
    have "length (chunks n xs) = Suc ((length xs - n + n - 1) div n)"
      using False 1 IH by (subst chunks.simps) simp
    also have "\<dots> = (length xs + n - 1) div n"
    proof (cases "length xs < n")
      case True
      with False 1 have "(length xs + n - 1) div n = 1"
        by (intro div_nat_eqI) (cases xs; simp)+
      with True 1 show ?thesis by simp
    next
      case False
      then have eq: "length xs + n - 1 = (length xs - n + n - 1) + n" using 1 by simp
      have "(length xs + n - 1) div n = Suc ((length xs - n + n - 1) div n)"
        unfolding eq using 1 by (simp only: div_add_self2 Suc_eq_plus1)
      then show ?thesis by simp
    qed
    finally show ?thesis .
  qed
qed

end
