(* ===== verification/TaskStates.thy ===== *)
theory TaskStates
  imports Prelude
begin

text \<open>
  \<open>source/client/python/utils/utils/state_table_common.py\<close> (the names of the task states) and the
  part of \<open>state_table_dynamodb.py\<close> that turns a task id into the value stored in the
  \<open>task_status\<close> attribute: the session id is the part of the task id before the first
  underscore, its MD5 digest picks one of 32 partitions, and the stored status is the state's
  name followed by the partition's number.  The digest is a parameter \<open>md5\<close> (the integer value
  of \<open>hexdigest()\<close>).
\<close>

definition TASK_STATE_CANCELLED :: string where "TASK_STATE_CANCELLED = ''cancelled''"
definition TASK_STATE_PENDING :: string where "TASK_STATE_PENDING = ''pending''"
definition TASK_STATE_FAILED :: string where "TASK_STATE_FAILED = ''failed''"
definition TASK_STATE_FINISHED :: string where "TASK_STATE_FINISHED = ''finished''"
definition TASK_STATE_PROCESSING :: string where "TASK_STATE_PROCESSING = ''processing''"

lemmas task_state_defs [model_defs] =
  TASK_STATE_CANCELLED_def TASK_STATE_PENDING_def TASK_STATE_FAILED_def
  TASK_STATE_FINISHED_def TASK_STATE_PROCESSING_def

definition task_states :: "string list" where
  "task_states = [TASK_STATE_CANCELLED, TASK_STATE_PENDING, TASK_STATE_FAILED,
     TASK_STATE_FINISHED, TASK_STATE_PROCESSING]"

definition MAX_STATE_PARTITIONS :: nat where "MAX_STATE_PARTITIONS = 32"
definition MAX_WRITE_BATCHS_SIZE :: nat where "MAX_WRITE_BATCHS_SIZE = 500"
lemma MAX_WRITE_BATCHS_SIZE_pos: "0 < MAX_WRITE_BATCHS_SIZE"
  by (simp add: MAX_WRITE_BATCHS_SIZE_def)

definition RETRIEVE_EXPIRED_TASKS_LIMIT :: nat where "RETRIEVE_EXPIRED_TASKS_LIMIT = 200"

definition get_state_partition_at_index :: "nat \<Rightarrow> nat" where
  "get_state_partition_at_index index = index mod MAX_STATE_PARTITIONS"

definition get_session_id_from_task_id :: "string \<Rightarrow> string" where
  "get_session_id_from_task_id task_id = split_first ''_'' task_id"

definition get_state_partition_from_session_id :: "(string \<Rightarrow> nat) \<Rightarrow> string \<Rightarrow> nat" where
  "get_state_partition_from_session_id md5 session_id =
     get_state_partition_at_index (md5 session_id)"

definition get_state_partition_from_task_id :: "(string \<Rightarrow> nat) \<Rightarrow> string \<Rightarrow> nat" where
  "get_state_partition_from_task_id md5 task_id =
     get_state_partition_from_session_id md5 (get_session_id_from_task_id task_id)"

definition make_task_state_from_state_and_partition :: "string \<Rightarrow> nat \<Rightarrow> string" where
  "make_task_state_from_state_and_partition task_state partition_id =
     task_state @ str_of_nat partition_id"

definition make_task_state_from_session_id ::
  "(string \<Rightarrow> nat) \<Rightarrow> string \<Rightarrow> string \<Rightarrow> string" where
  "make_task_state_from_session_id md5 task_state session_id =
     make_task_state_from_state_and_partition task_state
       (get_state_partition_from_session_id md5 session_id)"

definition make_task_state_from_task_id ::
  "(string \<Rightarrow> nat) \<Rightarrow> string \<Rightarrow> string \<Rightarrow> string" where
  "make_task_state_from_task_id md5 task_state task_id =
     make_task_state_from_session_id md5 task_state (get_session_id_from_task_id task_id)"

section \<open>Partitions\<close>

lemma partition_bound [simp]: "get_state_partition_at_index i < MAX_STATE_PARTITIONS"
  by (simp add: get_state_partition_at_index_def MAX_STATE_PARTITIONS_def)

lemma session_partition_bound [simp]:
  "get_state_partition_from_session_id md5 s < MAX_STATE_PARTITIONS"
  by (simp add: get_state_partition_from_session_id_def)

text \<open>
  The order in which a generator that starts at a random partition visits them:
  \<open>(start + count) mod 32\<close> for \<open>count = 0, ..., 31\<close>.
\<close>

definition partitions_from :: "nat \<Rightarrow> nat list" where
  "partitions_from starting_state_id =
     map (\<lambda>count. get_state_partition_at_index ((starting_state_id + count) mod MAX_STATE_PARTITIONS))
       [0..<MAX_STATE_PARTITIONS]"

lemma partitions_from_nth:
  "c < MAX_STATE_PARTITIONS \<Longrightarrow>
     partitions_from start ! c = (start + c) mod MAX_STATE_PARTITIONS"
  by (simp add: partitions_from_def get_state_partition_at_index_def)

lemma length_partitions_from [simp]: "length (partitions_from start) = MAX_STATE_PARTITIONS"
  by (simp add: partitions_from_def)

lemma add_mod_inject:
  assumes "(a::nat) < n" and "b < n" and "(s + a) mod n = (s + b) mod n"
  shows "a = b"
proof -
  have "s + a \<le> s + b \<Longrightarrow> n dvd (s + b) - (s + a)" using assms(3) by (metis mod_eq_dvd_iff_nat)
  moreover have "s + b \<le> s + a \<Longrightarrow> n dvd (s + a) - (s + b)"
    using assms(3) by (metis mod_eq_dvd_iff_nat)
  ultimately show ?thesis using assms(1,2)
    by (cases "a \<le> b") (auto dest!: dvd_imp_le)
qed

lemma partitions_from_permutation:
  "distinct (partitions_from start) \<and> set (partitions_from start) = {0..<MAX_STATE_PARTITIONS}"
proof -
  have dist: "distinct (partitions_from start)"
    by (auto simp: distinct_conv_nth partitions_from_nth dest: add_mod_inject)
  moreover have "set (partitions_from start) \<subseteq> {0..<MAX_STATE_PARTITIONS}"
    by (auto simp: partitions_from_def)
  moreover have "card (set (partitions_from start)) = MAX_STATE_PARTITIONS"
    using dist by (simp add: distinct_card)
  ultimately show ?thesis by (simp add: card_subset_eq)
qed

section \<open>The stored status\<close>

lemma task_states_end_in_letter:
  "st \<in> set task_states \<Longrightarrow> st \<noteq> [] \<and> \<not> is_digit (last st)"
  by (auto simp: task_states_def task_state_defs is_digit_def)

lemma make_task_state_inject:
  assumes "st \<in> set task_states" and "st' \<in> set task_states"
  shows "make_task_state_from_state_and_partition st p = make_task_state_from_state_and_partition st' q
     \<longleftrightarrow> st = st' \<and> p = q"
  using append_number_inject [of st p st' q] task_states_end_in_letter [OF assms(1)]
    task_states_end_in_letter [OF assms(2)]
  by (auto simp: make_task_state_from_state_and_partition_def)

lemma task_states_mem [simp]:
  "TASK_STATE_CANCELLED \<in> set task_states" "TASK_STATE_PENDING \<in> set task_states"
  "TASK_STATE_FAILED \<in> set task_states" "TASK_STATE_FINISHED \<in> set task_states"
  "TASK_STATE_PROCESSING \<in> set task_states"
  by (simp_all add: task_states_def)

lemma task_states_neq [simp]:
  "TASK_STATE_PENDING \<noteq> TASK_STATE_PROCESSING" "TASK_STATE_PROCESSING \<noteq> TASK_STATE_PENDING"
  "TASK_STATE_PENDING \<noteq> TASK_STATE_FINISHED" "TASK_STATE_FINISHED \<noteq> TASK_STATE_PENDING"
  "TASK_STATE_PROCESSING \<noteq> TASK_STATE_FINISHED" "TASK_STATE_FINISHED \<noteq> TASK_STATE_PROCESSING"
  "TASK_STATE_FAILED \<noteq> TASK_STATE_PROCESSING" "TASK_STATE_FAILED \<noteq> TASK_STATE_FINISHED"
  "TASK_STATE_FAILED \<noteq> TASK_STATE_PENDING" "TASK_STATE_FAILED \<noteq> TASK_STATE_CANCELLED"
  "TASK_STATE_CANCELLED \<noteq> TASK_STATE_PROCESSING" "TASK_STATE_CANCELLED \<noteq> TASK_STATE_FINISHED"
  "TASK_STATE_CANCELLED \<noteq> TASK_STATE_PENDING" "TASK_STATE_CANCELLED \<noteq> TASK_STATE_FAILED"
  "TASK_STATE_PENDING \<noteq> TASK_STATE_CANCELLED" "TASK_STATE_PROCESSING \<noteq> TASK_STATE_CANCELLED"
  "TASK_STATE_FINISHED \<noteq> TASK_STATE_CANCELLED" "TASK_STATE_PENDING \<noteq> TASK_STATE_FAILED"
  "TASK_STATE_PROCESSING \<noteq> TASK_STATE_FAILED" "TASK_STATE_FINISHED \<noteq> TASK_STATE_FAILED"
  by (simp_all add: task_state_defs)

lemma distinct_task_states: "distinct task_states"
  by (simp add: task_states_def task_state_defs)

lemma make_task_state_session_inject:
  assumes "st \<in> set task_states" and "st' \<in> set task_states"
  shows "make_task_state_from_session_id md5 st s = make_task_state_from_session_id md5 st' s'
     \<longleftrightarrow> st = st' \<and> get_state_partition_from_session_id md5 s
           = get_state_partition_from_session_id md5 s'"
  by (simp add: make_task_state_from_session_id_def make_task_state_inject [OF assms])

lemma make_task_state_task_inject:
  assumes "st \<in> set task_states" and "st' \<in> set task_states"
  shows "make_task_state_from_task_id md5 st t = make_task_state_from_task_id md5 st' t
     \<longleftrightarrow> st = st'"
  by (simp add: make_task_state_from_task_id_def make_task_state_session_inject [OF assms])

text \<open>Only a status made from the cancelled state starts with the word \<open>cancelled\<close>.\<close>

lemma startswith_cancelled:
  "st \<in> set task_states \<Longrightarrow>
     str_startswith (make_task_state_from_state_and_partition st p) TASK_STATE_CANCELLED
       \<longleftrightarrow> st = TASK_STATE_CANCELLED"
  by (auto simp: task_states_def task_state_defs make_task_state_from_state_and_partition_def
      str_startswith_def)

lemma session_of_generated_task:
  "CHR ''_'' \<notin> set session_id \<Longrightarrow>
     get_session_id_from_task_id (session_id @ ''_'' @ suffix) = session_id"
  by (simp add: get_session_id_from_task_id_def split_first_char)

end
