(* ===== verification/DynamoTable.thy ===== *)
theory DynamoTable
  imports TaskStates
begin

text \<open>
  What the code uses of the DynamoDB table and of the host it runs on.  The services are
  parameters: a record of functions over an unknown world \<open>'w\<close>.  The requests are data, built by
  the code exactly as it builds them (the key, the \<open>SET\<close> expression and the condition of an
  \<open>update_item\<close>; the index, key condition, limit and start key of a \<open>query\<close>).  The last
  section states what DynamoDB documents about them, as a predicate on the parameter; it is a
  hypothesis of the theorems that need it, never part of a definition.
\<close>

type_synonym item = "string \<rightharpoonup> pyval"
type_synonym table = "string \<rightharpoonup> item"
type_synonym pykey = "(string \<times> pyval) list"

record update_request =
  upd_key :: string
  upd_set :: "(string \<times> pyval) list"
  upd_cond :: "(string \<times> pyval) list option"

datatype key_cond = KeyEq string pyval | KeyLt string int | KeyGt string int

record query_request =
  q_index :: "string option"
  q_conds :: "key_cond list"
  q_limit :: "nat option"
  q_consistent :: bool
  q_start :: "pykey option"

record query_response =
  r_items :: "item list"
  r_last_key :: "pykey option"

record 'w ddb =
  ddb_update_item :: "update_request \<Rightarrow> 'w \<Rightarrow> (exn + unit) \<times> 'w"
  ddb_query :: "query_request \<Rightarrow> 'w \<Rightarrow> (exn + query_response) \<times> 'w"
  ddb_batch_write :: "item list \<Rightarrow> 'w \<Rightarrow> (exn + unit) \<times> 'w"
  md5_int :: "string \<Rightarrow> nat"

text \<open>
  The host: \<open>time.time()\<close> read in milliseconds (so \<open>int(time.time())\<close> is \<open>now div 1000\<close> and
  \<open>int(round(time.time() * 1000))\<close> is \<open>now\<close>), \<open>random.randint\<close> and \<open>time.sleep\<close>.
\<close>

record 'w host =
  now_ms :: "'w \<Rightarrow> int \<times> 'w"
  randint :: "int \<Rightarrow> int \<Rightarrow> 'w \<Rightarrow> int \<times> 'w"
  sleep_sec :: "int \<Rightarrow> 'w \<Rightarrow> 'w"

definition time_now_sec :: "'w host \<Rightarrow> ('w, int) io" where
  "time_now_sec host = io_bind (io_read (now_ms host)) (\<lambda>ms. io_return (ms div 1000))"

definition time_now_ms :: "'w host \<Rightarrow> ('w, int) io" where
  "time_now_ms host = io_read (now_ms host)"

definition random_int :: "'w host \<Rightarrow> int \<Rightarrow> int \<Rightarrow> ('w, int) io" where
  "random_int host lo hi = (if hi < lo then io_raise ValueError else io_read (randint host lo hi))"

definition time_sleep :: "'w host \<Rightarrow> int \<Rightarrow> ('w, unit) io" where
  "time_sleep host sec = io_modify (sleep_sec host sec)"

text \<open>The error codes the code tells apart.\<close>

definition CONDITION_FAILED :: string where
  "CONDITION_FAILED = ''ConditionalCheckFailedException''"

definition throttling_codes :: "string list" where
  "throttling_codes = [''ThrottlingException'', ''ProvisionedThroughputExceededException'']"

lemma condition_not_throttling [simp]: "CONDITION_FAILED \<notin> set throttling_codes"
  by (simp add: CONDITION_FAILED_def throttling_codes_def)

section \<open>Documented behaviour\<close>

definition cond_holds :: "(string \<times> pyval) list \<Rightarrow> item \<Rightarrow> bool" where
  "cond_holds c i \<longleftrightarrow> list_all (\<lambda>(a, v). i a = Some v) c"

definition apply_sets :: "item \<Rightarrow> (string \<times> pyval) list \<Rightarrow> item" where
  "apply_sets i sets = fold (\<lambda>(a, v) m. m(a \<mapsto> v)) sets i"

text \<open>
  The table after a successful \<open>update_item\<close>: a conditional request succeeds only on an item that
  satisfies the condition; an unconditional one creates the item when there is none.
\<close>

definition update_outcome :: "table \<Rightarrow> update_request \<Rightarrow> table option" where
  "update_outcome t r = (case upd_cond r of
      None \<Rightarrow> Some (t(upd_key r \<mapsto> apply_sets
        (case t (upd_key r) of None \<Rightarrow> [''task_id'' \<mapsto> PStr (upd_key r)] | Some i \<Rightarrow> i) (upd_set r)))
    | Some c \<Rightarrow> (case t (upd_key r) of
        None \<Rightarrow> None
      | Some i \<Rightarrow> if cond_holds c i then Some (t(upd_key r \<mapsto> apply_sets i (upd_set r))) else None))"

definition item_key :: "item \<Rightarrow> string" where
  "item_key i = (case i ''task_id'' of Some (PStr k) \<Rightarrow> k | _ \<Rightarrow> [])"

definition put_items :: "table \<Rightarrow> item list \<Rightarrow> table" where
  "put_items t xs = fold (\<lambda>i t. t(item_key i \<mapsto> i)) xs t"

text \<open>
  \<open>ddb_documented db tbl\<close>: seen through \<open>tbl\<close>, the service behaves as documented.
  A successful update applied the request to an item that met its condition; an error response
  of the service (\<open>ClientError\<close>) means nothing was changed, and the code
  \<open>ConditionalCheckFailedException\<close> that the condition did not hold; a call that fails without
  a response (a connection or read timeout) may or may not have been applied.  Queries change
  nothing, and a consistent query of the base table by its key finds the item under that key.  A
  batch write that fails may have written some of its items.
\<close>

definition service_error :: "exn \<Rightarrow> bool" where
  "service_error e \<longleftrightarrow> (case e of ClientError c m \<Rightarrow> True | ServiceFailure m \<Rightarrow> True | _ \<Rightarrow> False)"

definition update_documented :: "'w ddb \<Rightarrow> ('w \<Rightarrow> table) \<Rightarrow> bool" where
  "update_documented db tbl \<longleftrightarrow> (\<forall>r w. case ddb_update_item db r w of (res, w') \<Rightarrow> (case res of
      Inr _ \<Rightarrow> update_outcome (tbl w) r = Some (tbl w')
    | Inl (ClientError c m) \<Rightarrow> tbl w' = tbl w \<and>
        (c = CONDITION_FAILED \<longrightarrow> update_outcome (tbl w) r = None)
    | Inl (ServiceFailure m) \<Rightarrow> tbl w' = tbl w \<or> update_outcome (tbl w) r = Some (tbl w')
    | Inl _ \<Rightarrow> False))"

definition query_documented :: "'w ddb \<Rightarrow> ('w \<Rightarrow> table) \<Rightarrow> bool" where
  "query_documented db tbl \<longleftrightarrow>
     (\<forall>q w. case ddb_query db q w of (res, w') \<Rightarrow>
        tbl w' = tbl w \<and> (case res of Inl e \<Rightarrow> service_error e | Inr _ \<Rightarrow> True)) \<and>
     (\<forall>k w. case ddb_query db \<lparr>q_index = None, q_conds = [KeyEq ''task_id'' (PStr k)],
          q_limit = None, q_consistent = True, q_start = None\<rparr> w of
        (Inr resp, _) \<Rightarrow> r_items resp = (case tbl w k of None \<Rightarrow> [] | Some i \<Rightarrow> [i])
      | (Inl _, _) \<Rightarrow> True)"

definition batch_documented :: "'w ddb \<Rightarrow> ('w \<Rightarrow> table) \<Rightarrow> bool" where
  "batch_documented db tbl \<longleftrightarrow> (\<forall>xs w. case ddb_batch_write db xs w of (res, w') \<Rightarrow> (case res of
      Inr _ \<Rightarrow> tbl w' = put_items (tbl w) xs
    | Inl e \<Rightarrow> service_error e \<and> (\<exists>ys. set ys \<subseteq> set xs \<and> tbl w' = put_items (tbl w) ys)))"

definition ddb_documented :: "'w ddb \<Rightarrow> ('w \<Rightarrow> table) \<Rightarrow> bool" where
  "ddb_documented db tbl \<longleftrightarrow>
     update_documented db tbl \<and> query_documented db tbl \<and> batch_documented db tbl"

lemma ddb_update_case:
  assumes "ddb_documented db tbl" and "ddb_update_item db r w = (res, w')"
  shows "case res of
      Inr _ \<Rightarrow> update_outcome (tbl w) r = Some (tbl w')
    | Inl (ClientError c m) \<Rightarrow> tbl w' = tbl w \<and>
        (c = CONDITION_FAILED \<longrightarrow> update_outcome (tbl w) r = None)
    | Inl (ServiceFailure m) \<Rightarrow> tbl w' = tbl w \<or> update_outcome (tbl w) r = Some (tbl w')
    | Inl _ \<Rightarrow> False"
  using assms by (auto simp: ddb_documented_def update_documented_def split: prod.splits)

lemma ddb_update_ok:
  "ddb_documented db tbl \<Longrightarrow> ddb_update_item db r w = (Inr u, w') \<Longrightarrow>
     update_outcome (tbl w) r = Some (tbl w')"
  by (drule (1) ddb_update_case) simp

lemma ddb_update_client_error:
  "ddb_documented db tbl \<Longrightarrow> ddb_update_item db r w = (Inl (ClientError c m), w') \<Longrightarrow>
     tbl w' = tbl w \<and> (c = CONDITION_FAILED \<longrightarrow> update_outcome (tbl w) r = None)"
  by (drule (1) ddb_update_case) simp

lemma ddb_update_error:
  "ddb_documented db tbl \<Longrightarrow> ddb_update_item db r w = (Inl e, w') \<Longrightarrow> service_error e \<and>
     (tbl w' = tbl w \<or> (\<exists>m. e = ServiceFailure m) \<and> update_outcome (tbl w) r = Some (tbl w'))"
  by (drule (1) ddb_update_case) (auto simp: service_error_def split: exn.splits)

lemma ddb_query_keeps:
  "ddb_documented db tbl \<Longrightarrow> ddb_query db q w = (res, w') \<Longrightarrow> tbl w' = tbl w"
  by (force simp: ddb_documented_def query_documented_def split: prod.splits)

lemma ddb_query_error:
  "ddb_documented db tbl \<Longrightarrow> ddb_query db q w = (Inl e, w') \<Longrightarrow> service_error e"
  by (force simp: ddb_documented_def query_documented_def split: prod.splits)

lemma ddb_query_key:
  "ddb_documented db tbl \<Longrightarrow> ddb_query db \<lparr>q_index = None, q_conds = [KeyEq ''task_id'' (PStr k)],
     q_limit = None, q_consistent = True, q_start = None\<rparr> w = (Inr resp, w') \<Longrightarrow>
     r_items resp = (case tbl w k of None \<Rightarrow> [] | Some i \<Rightarrow> [i])"
  by (force simp: ddb_documented_def query_documented_def split: prod.splits)

lemma ddb_batch_ok:
  "ddb_documented db tbl \<Longrightarrow> ddb_batch_write db xs w = (Inr u, w') \<Longrightarrow>
     tbl w' = put_items (tbl w) xs"
  by (force simp: ddb_documented_def batch_documented_def split: prod.splits)

lemma ddb_batch_error:
  "ddb_documented db tbl \<Longrightarrow> ddb_batch_write db xs w = (Inl e, w') \<Longrightarrow>
     service_error e \<and> (\<exists>ys. set ys \<subseteq> set xs \<and> tbl w' = put_items (tbl w) ys)"
  by (force simp: ddb_documented_def batch_documented_def split: prod.splits)

lemma ddb_query_keeps_io: "ddb_documented db tbl \<Longrightarrow> keeps tbl (io_call (ddb_query db q))"
  by (auto simp: keeps_def dest: ddb_query_keeps)

text \<open>The random numbers of the host lie between the bounds asked for.\<close>

definition host_documented :: "'w host \<Rightarrow> bool" where
  "host_documented host \<longleftrightarrow>
     (\<forall>lo hi w. lo \<le> hi \<longrightarrow> lo \<le> fst (randint host lo hi w) \<and> fst (randint host lo hi w) \<le> hi)"

text \<open>Reading the clock, drawing a number and sleeping do not change what \<open>v\<close> shows of the world.\<close>

definition host_keeps :: "'w host \<Rightarrow> ('w \<Rightarrow> 'v) \<Rightarrow> bool" where
  "host_keeps host v \<longleftrightarrow> keeps v (io_read (now_ms host)) \<and>
     (\<forall>lo hi. keeps v (io_read (randint host lo hi))) \<and> (\<forall>s. keeps v (io_modify (sleep_sec host s)))"

text \<open>The state table and another view of the world, such as the queues, do not share state.\<close>

definition ddb_keeps :: "'w ddb \<Rightarrow> ('w \<Rightarrow> 'v) \<Rightarrow> bool" where
  "ddb_keeps db v \<longleftrightarrow> (\<forall>r. keeps v (io_call (ddb_update_item db r))) \<and>
     (\<forall>q. keeps v (io_call (ddb_query db q))) \<and> (\<forall>xs. keeps v (io_call (ddb_batch_write db xs)))"

lemma host_keeps_ops:
  assumes "host_keeps host v"
  shows "keeps v (time_now_ms host)" "keeps v (time_now_sec host)" "keeps v (random_int host lo hi)"
    "keeps v (time_sleep host s)"
  using assms unfolding host_keeps_def time_now_ms_def time_now_sec_def random_int_def time_sleep_def
  by auto

lemma host_returns [simp]:
  "returns (time_now_ms host)" "returns (time_now_sec host)" "returns (random_int host lo hi)"
  "returns (time_sleep host s)"
  unfolding time_now_ms_def time_now_sec_def random_int_def time_sleep_def by auto

lemma apply_sets_Nil [simp]: "apply_sets i [] = i"
  by (simp add: apply_sets_def)

lemma apply_sets_Cons [simp]: "apply_sets i ((a, v) # s) = apply_sets (i(a \<mapsto> v)) s"
  by (simp add: apply_sets_def)

lemma cond_holds_Nil [simp]: "cond_holds [] i"
  by (simp add: cond_holds_def)

lemma cond_holds_Cons [simp]: "cond_holds ((a, v) # c) i \<longleftrightarrow> i a = Some v \<and> cond_holds c i"
  by (simp add: cond_holds_def)

lemma put_items_Nil [simp]: "put_items t [] = t"
  by (simp add: put_items_def)

lemma put_items_Cons [simp]: "put_items t (i # xs) = put_items (t(item_key i \<mapsto> i)) xs"
  by (simp add: put_items_def)

lemma put_items_append: "put_items t (xs @ ys) = put_items (put_items t xs) ys"
  by (simp add: put_items_def)

lemma put_items_other: "k \<notin> item_key ` set xs \<Longrightarrow> put_items t xs k = t k"
  by (induction xs arbitrary: t) auto

lemma put_items_last:
  "distinct (map item_key xs) \<Longrightarrow> i \<in> set xs \<Longrightarrow> put_items t xs (item_key i) = Some i"
proof (induction xs arbitrary: t)
  case Nil
  then show ?case by simp
next
  case (Cons x xs)
  show ?case
  proof (cases "i \<in> set xs")
    case True
    with Cons show ?thesis by simp
  next
    case False
    with Cons.prems have "i = x" by simp
    with Cons.prems show ?thesis by (simp add: put_items_other)
  qed
qed

end
