(* ===== verification/StateTable.thy ===== *)
theory StateTable
  imports DynamoTable
begin

text \<open>
  The class \<open>StateTableDDB\<close> of \<open>source/client/python/api-v0.1/api/state_table_dynamodb.py\<close>: one
  definition per method, with its requests, its loops over pages and the way it turns the
  service's errors into \<open>StateTableException\<close>.  Logging is left out.
\<close>

section \<open>Common methods\<close>

definition write_ddb_batch :: "'w ddb \<Rightarrow> item list \<Rightarrow> ('w, unit) io" where
  "write_ddb_batch db ddb_batch = io_catch (io_call (ddb_batch_write db ddb_batch))
     (\<lambda>e. case e of
        ClientError c m \<Rightarrow>
          if c \<in> set throttling_codes then io_raise (StateTableException True False)
          else io_raise (GenericException (exn_str e))
      | _ \<Rightarrow> io_raise (GenericException (exn_str e)))"

definition batch_write :: "'w ddb \<Rightarrow> item list \<Rightarrow> ('w, unit) io" where
  "batch_write db entries =
     io_foreach (chunks MAX_WRITE_BATCHS_SIZE entries) (write_ddb_batch db)"

definition get_task_by_id :: "'w ddb \<Rightarrow> string \<Rightarrow> bool \<Rightarrow> ('w, item option) io" where
  "get_task_by_id db task_id consistent_read = io_catch
     (io_bind (io_call (ddb_query db \<lparr>q_index = None, q_conds = [KeyEq ''task_id'' (PStr task_id)],
         q_limit = None, q_consistent = consistent_read, q_start = None\<rparr>))
       (\<lambda>response. case r_items response of [i] \<Rightarrow> io_return (Some i) | _ \<Rightarrow> io_return None))
     (\<lambda>e. case e of
        ClientError c m \<Rightarrow>
          if c \<in> set throttling_codes then io_return None
          else io_raise (GenericException (exn_str e))
      | _ \<Rightarrow> io_raise e)"

section \<open>Methods used by the TTL lambda\<close>

definition finalize_tasks_state :: "'w ddb \<Rightarrow> string \<Rightarrow> string \<Rightarrow> ('w, unit) io" where
  "finalize_tasks_state db task_id new_task_state = io_catch
     (io_call (ddb_update_item db
        \<lparr>upd_key = task_id,
         upd_set = [(''task_owner'', PStr ''None''),
           (''task_status'', PStr (make_task_state_from_task_id (md5_int db) new_task_state task_id))],
         upd_cond = None\<rparr>))
     (\<lambda>e. case e of
        ClientError c m \<Rightarrow>
          if c \<in> set throttling_codes then io_raise (StateTableException True False)
          else io_raise (GenericException (exn_str e))
      | _ \<Rightarrow> io_raise e)"

definition update_task_status_to_failed :: "'w ddb \<Rightarrow> string \<Rightarrow> ('w, unit) io" where
  "update_task_status_to_failed db task_id = finalize_tasks_state db task_id TASK_STATE_FAILED"

definition update_task_status_to_cancelled :: "'w ddb \<Rightarrow> string \<Rightarrow> ('w, unit) io" where
  "update_task_status_to_cancelled db task_id = finalize_tasks_state db task_id TASK_STATE_CANCELLED"

definition get_expired_tasks_for_partition ::
  "'w ddb \<Rightarrow> 'w host \<Rightarrow> nat \<Rightarrow> ('w, item list) io" where
  "get_expired_tasks_for_partition db host state_partition = io_catch
     (io_bind (time_now_sec host) (\<lambda>now.
        io_bind (io_call (ddb_query db \<lparr>q_index = Some ''gsi_ttl_index'',
            q_conds = [KeyEq ''task_status'' (PStr (make_task_state_from_state_and_partition
                TASK_STATE_PROCESSING state_partition)),
              KeyLt ''heartbeat_expiration_timestamp'' now],
            q_limit = Some RETRIEVE_EXPIRED_TASKS_LIMIT, q_consistent = False, q_start = None\<rparr>))
          (\<lambda>response. io_return (r_items response))))
     (\<lambda>e. case e of
        ClientError c m \<Rightarrow>
          if c \<in> set throttling_codes then io_raise (StateTableException True False)
          else io_raise (GenericException (exn_str e))
      | _ \<Rightarrow> io_raise e)"

text \<open>
  A generator and the \<open>for\<close> loop that consumes it: the body runs between two queries.
\<close>

definition expired_loop ::
  "('s, int) io \<Rightarrow> (nat \<Rightarrow> ('s, item list) io) \<Rightarrow> (item list \<Rightarrow> ('s, unit) io) \<Rightarrow> ('s, unit) io" where
  "expired_loop pick_start query body =
     io_bind pick_start (\<lambda>starting_state_id.
       io_foreach (partitions_from (nat starting_state_id)) (\<lambda>partition_to_check.
         io_bind (query partition_to_check) body))"

definition query_expired_tasks ::
  "'w ddb \<Rightarrow> 'w host \<Rightarrow> (item list \<Rightarrow> ('w, unit) io) \<Rightarrow> ('w, unit) io" where
  "query_expired_tasks db host body =
     expired_loop (random_int host 0 (int MAX_STATE_PARTITIONS - 1)) (get_expired_tasks_for_partition db host) body"

definition live_query :: "key_cond list \<Rightarrow> pykey option \<Rightarrow> query_request" where
  "live_query conds start = \<lparr>q_index = Some ''gsi_ttl_index'', q_conds = conds, q_limit = None,
     q_consistent = False, q_start = start\<rparr>"

partial_function (option) live_pages ::
  "'w ddb \<Rightarrow> key_cond list \<Rightarrow> pykey option \<Rightarrow> item list \<Rightarrow> 'w \<Rightarrow> ((exn + item list) \<times> 'w) option"
where
  "live_pages db conds last_evaluated_key items w =
     io_bind (io_call (ddb_query db (live_query conds last_evaluated_key)))
       (\<lambda>response v.
          if r_last_key response = None \<or> r_last_key response = Some []
          then io_return (items @ r_items response) v
          else live_pages db conds (r_last_key response) (items @ r_items response) v) w"

definition get_live_tasks_for_partition ::
  "'w ddb \<Rightarrow> 'w host \<Rightarrow> nat \<Rightarrow> ('w, item list) io" where
  "get_live_tasks_for_partition db host state_partition = io_catch
     (io_bind (time_now_sec host) (\<lambda>now.
        live_pages db [KeyEq ''task_status'' (PStr (make_task_state_from_state_and_partition
              TASK_STATE_PROCESSING state_partition)),
            KeyGt ''heartbeat_expiration_timestamp'' now] None []))
     (\<lambda>e. case e of
        ClientError c m \<Rightarrow>
          if c \<in> set throttling_codes then io_raise (StateTableException True False)
          else io_raise (GenericException (exn_str e))
      | _ \<Rightarrow> io_raise e)"

definition query_live_tasks ::
  "'w ddb \<Rightarrow> 'w host \<Rightarrow> ('w, item list list) io" where
  "query_live_tasks db host =
     io_bind (random_int host 0 (int MAX_STATE_PARTITIONS - 1)) (\<lambda>starting_state_id.
       io_mapM (get_live_tasks_for_partition db host) (partitions_from (nat starting_state_id)))"

definition retry_task :: "'w ddb \<Rightarrow> string \<Rightarrow> int \<Rightarrow> ('w, unit) io" where
  "retry_task db task_id new_retry_count = io_catch
     (io_call (ddb_update_item db
        \<lparr>upd_key = task_id,
         upd_set = [(''task_owner'', PStr ''None''),
           (''task_status'', PStr (make_task_state_from_task_id (md5_int db) TASK_STATE_PENDING task_id)),
           (''retries'', PInt new_retry_count)],
         upd_cond = Some [(''task_status'',
           PStr (make_task_state_from_task_id (md5_int db) TASK_STATE_PROCESSING task_id))]\<rparr>))
     (\<lambda>e. case e of
        ClientError c m \<Rightarrow>
          if c = CONDITION_FAILED then io_raise (StateTableException False True)
          else if c \<in> set throttling_codes then io_raise (StateTableException True False)
          else io_raise (GenericException (exn_str e))
      | _ \<Rightarrow> io_raise e)"

section \<open>Methods used by the agent\<close>

definition claim_task_for_agent ::
  "'w ddb \<Rightarrow> string \<Rightarrow> string \<Rightarrow> string \<Rightarrow> int \<Rightarrow> ('w, bool) io" where
  "claim_task_for_agent db task_id queue_handle_id agent_id expiration_timestamp =
     (let session_id = get_session_id_from_task_id task_id in
      io_catch
        (io_then (io_call (ddb_update_item db
           \<lparr>upd_key = task_id,
            upd_set = [(''task_owner'', PStr agent_id),
              (''task_status'', PStr (make_task_state_from_session_id (md5_int db)
                 TASK_STATE_PROCESSING session_id)),
              (''heartbeat_expiration_timestamp'', PInt expiration_timestamp),
              (''sqs_handler_id'', PStr queue_handle_id)],
            upd_cond = Some [(''task_status'', PStr (make_task_state_from_session_id (md5_int db)
                 TASK_STATE_PENDING session_id)),
              (''task_owner'', PStr ''None'')]\<rparr>))
          (io_return True))
        (\<lambda>e. case e of
           ClientError c m \<Rightarrow>
             if c = CONDITION_FAILED then io_raise (StateTableException False True)
             else if c \<in> set throttling_codes then io_raise (StateTableException True False)
             else io_raise (GenericException (exn_str e))
         | _ \<Rightarrow> io_raise e))"

definition refresh_ttl_for_ongoing_task ::
  "'w ddb \<Rightarrow> string \<Rightarrow> string \<Rightarrow> int \<Rightarrow> ('w, bool) io" where
  "refresh_ttl_for_ongoing_task db task_id agent_id new_expirtaion_timestamp =
     (let session_id = get_session_id_from_task_id task_id in
      io_catch
        (io_then (io_call (ddb_update_item db
           \<lparr>upd_key = task_id,
            upd_set = [(''heartbeat_expiration_timestamp'', PInt new_expirtaion_timestamp)],
            upd_cond = Some [(''task_status'', PStr (make_task_state_from_session_id (md5_int db)
                 TASK_STATE_PROCESSING session_id)),
              (''task_owner'', PStr agent_id)]\<rparr>))
          (io_return True))
        (\<lambda>e. case e of
           ClientError c m \<Rightarrow>
             if c = CONDITION_FAILED then
               io_bind (get_task_by_id db task_id True) (\<lambda>task_row.
                 io_raise (StateTableException False True))
             else if c \<in> set throttling_codes then io_raise (StateTableException True False)
             else io_raise (GenericException (exn_str e))
         | _ \<Rightarrow> io_raise e))"

definition update_task_status_to_finished ::
  "'w ddb \<Rightarrow> 'w host \<Rightarrow> string \<Rightarrow> string \<Rightarrow> ('w, bool) io" where
  "update_task_status_to_finished db host task_id agent_id =
     (let session_id = get_session_id_from_task_id task_id in
      io_catch
        (io_bind (time_now_ms host) (\<lambda>completion_ms.
          io_then (io_call (ddb_update_item db
           \<lparr>upd_key = task_id,
            upd_set = [(''task_status'', PStr (make_task_state_from_session_id (md5_int db)
                 TASK_STATE_FINISHED session_id)),
              (''task_completion_timestamp'', PInt completion_ms)],
            upd_cond = Some [(''task_status'', PStr (make_task_state_from_session_id (md5_int db)
                 TASK_STATE_PROCESSING session_id)),
              (''task_owner'', PStr agent_id)]\<rparr>))
          (io_return True)))
        (\<lambda>e. case e of
           ClientError c m \<Rightarrow>
             if c = CONDITION_FAILED then
               io_bind (get_task_by_id db task_id True) (\<lambda>check_read.
                 io_raise (StateTableException False True))
             else if c \<in> set throttling_codes then io_raise (StateTableException True False)
             else io_raise (GenericException (exn_str e))
         | _ \<Rightarrow> io_raise e))"

section \<open>Methods used by the control plane\<close>

definition session_query :: "key_cond list \<Rightarrow> pykey option \<Rightarrow> query_request" where
  "session_query conds start = \<lparr>q_index = Some ''gsi_session_index'', q_conds = conds,
     q_limit = None, q_consistent = False, q_start = start\<rparr>"

text \<open>
  The start key is set only from a key that is not empty and otherwise stays what it was; the
  loop ends when the service returns no key.
\<close>

partial_function (option) session_pages ::
  "'w ddb \<Rightarrow> key_cond list \<Rightarrow> pykey option \<Rightarrow> item list option \<Rightarrow> 'w
     \<Rightarrow> ((exn + item list) \<times> 'w) option"
where
  "session_pages db conds start combined w =
     io_bind (io_call (ddb_query db (session_query conds start)))
       (\<lambda>response v.
          if r_last_key response = None
          then io_return (case combined of None \<Rightarrow> r_items response
                 | Some xs \<Rightarrow> xs @ r_items response) v
          else session_pages db conds
                 (if r_last_key response = Some [] then start else r_last_key response)
                 (Some (case combined of None \<Rightarrow> r_items response
                    | Some xs \<Rightarrow> xs @ r_items response)) v) w"

definition get_tasks_by_state_key_expression ::
  "'w ddb \<Rightarrow> key_cond list \<Rightarrow> ('w, item list) io" where
  "get_tasks_by_state_key_expression db key_expression = io_catch
     (session_pages db key_expression None None)
     (\<lambda>e. case e of
        ClientError c m \<Rightarrow>
          if c \<in> set throttling_codes then io_raise (StateTableException True False)
          else io_raise (GenericException (exn_str e))
      | _ \<Rightarrow> io_raise e)"

definition get_tasks_by_state :: "'w ddb \<Rightarrow> string \<Rightarrow> string \<Rightarrow> ('w, item list) io" where
  "get_tasks_by_state db session_id task_status =
     get_tasks_by_state_key_expression db
       [KeyEq ''session_id'' (PStr session_id),
        KeyEq ''task_status'' (PStr (make_task_state_from_session_id (md5_int db) task_status session_id))]"

end
