(* ===== verification/Lifecycle.thy ===== *)
theory Lifecycle
  imports TaskStates DynamoTable
begin

text \<open>
  The task life cycle: what each method of the state table does to the table when the service
  applies it, as an inductive step relation on tables.  Any number of agents, the TTL lambda, the
  cancel lambda and the submit lambda take steps in any order.  The lemmas show which tables can
  be reached and that a claimed task stays with its agent until the TTL lambda, a cancellation or
  a resubmission releases it.
\<close>

datatype task_event =
    Submit "item list"
  | Claim string string string int \<comment> \<open>task, queue handle, agent, expiration\<close>
  | Refresh string string int
  | Finish string string int
  | Retry string int
  | Finalize string string \<comment> \<open>task, new state\<close>

fun event_task :: "task_event \<Rightarrow> string \<Rightarrow> bool" where
  "event_task (Submit xs) k \<longleftrightarrow> k \<in> item_key ` set xs"
| "event_task (Claim t h a x) k \<longleftrightarrow> t = k"
| "event_task (Refresh t a x) k \<longleftrightarrow> t = k"
| "event_task (Finish t a ms) k \<longleftrightarrow> t = k"
| "event_task (Retry t n) k \<longleftrightarrow> t = k"
| "event_task (Finalize t st) k \<longleftrightarrow> t = k"

text \<open>The events that take a task away from its owner.\<close>

fun releases :: "task_event \<Rightarrow> string \<Rightarrow> bool" where
  "releases (Submit xs) k \<longleftrightarrow> k \<in> item_key ` set xs"
| "releases (Retry t n) k \<longleftrightarrow> t = k"
| "releases (Finalize t st) k \<longleftrightarrow> t = k"
| "releases _ k \<longleftrightarrow> False"

definition status_of :: "table \<Rightarrow> string \<Rightarrow> pyval option" where
  "status_of t k = (case t k of None \<Rightarrow> None | Some i \<Rightarrow> i ''task_status'')"

definition owner_of :: "table \<Rightarrow> string \<Rightarrow> pyval option" where
  "owner_of t k = (case t k of None \<Rightarrow> None | Some i \<Rightarrow> i ''task_owner'')"

definition in_state :: "(string \<Rightarrow> nat) \<Rightarrow> table \<Rightarrow> string \<Rightarrow> string \<Rightarrow> bool" where
  "in_state md5 t k st \<longleftrightarrow> status_of t k = Some (PStr (make_task_state_from_task_id md5 st k))"

inductive task_step :: "(string \<Rightarrow> nat) \<Rightarrow> table \<Rightarrow> task_event \<Rightarrow> table \<Rightarrow> bool"
  for md5 :: "string \<Rightarrow> nat"
where
  submit: "task_step md5 t (Submit xs) (put_items t xs)"
| claim: "t k = Some i \<Longrightarrow> in_state md5 t k TASK_STATE_PENDING \<Longrightarrow> owner_of t k = Some (PStr ''None'') \<Longrightarrow>
    task_step md5 t (Claim k h a x)
      (t(k \<mapsto> i(''task_owner'' \<mapsto> PStr a,
        ''task_status'' \<mapsto> PStr (make_task_state_from_task_id md5 TASK_STATE_PROCESSING k),
        ''heartbeat_expiration_timestamp'' \<mapsto> PInt x, ''sqs_handler_id'' \<mapsto> PStr h)))"
| refresh: "t k = Some i \<Longrightarrow> in_state md5 t k TASK_STATE_PROCESSING \<Longrightarrow> owner_of t k = Some (PStr a) \<Longrightarrow>
    task_step md5 t (Refresh k a x) (t(k \<mapsto> i(''heartbeat_expiration_timestamp'' \<mapsto> PInt x)))"
| finish: "t k = Some i \<Longrightarrow> in_state md5 t k TASK_STATE_PROCESSING \<Longrightarrow> owner_of t k = Some (PStr a) \<Longrightarrow>
    task_step md5 t (Finish k a ms)
      (t(k \<mapsto> i(''task_status'' \<mapsto> PStr (make_task_state_from_task_id md5 TASK_STATE_FINISHED k),
        ''task_completion_timestamp'' \<mapsto> PInt ms)))"
| retry: "t k = Some i \<Longrightarrow> in_state md5 t k TASK_STATE_PROCESSING \<Longrightarrow>
    task_step md5 t (Retry k n)
      (t(k \<mapsto> i(''task_owner'' \<mapsto> PStr ''None'',
        ''task_status'' \<mapsto> PStr (make_task_state_from_task_id md5 TASK_STATE_PENDING k),
        ''retries'' \<mapsto> PInt n)))"
| finalize: "i = (case t k of None \<Rightarrow> [''task_id'' \<mapsto> PStr k] | Some i \<Rightarrow> i) \<Longrightarrow>
    task_step md5 t (Finalize k st)
      (t(k \<mapsto> i(''task_owner'' \<mapsto> PStr ''None'',
        ''task_status'' \<mapsto> PStr (make_task_state_from_task_id md5 st k))))"

inductive_cases submitE: "task_step md5 t (Submit xs) t'"
inductive_cases claimE: "task_step md5 t (Claim k h a x) t'"
inductive_cases refreshE: "task_step md5 t (Refresh k a x) t'"
inductive_cases finishE: "task_step md5 t (Finish k a ms) t'"
inductive_cases retryE: "task_step md5 t (Retry k n) t'"
inductive_cases finalizeE: "task_step md5 t (Finalize k st) t'"

lemmas task_step_elims = submitE claimE refreshE finishE retryE finalizeE

inductive_simps task_step_simps:
  "task_step md5 t (Claim k h a x) t'"
  "task_step md5 t (Refresh k a x) t'"
  "task_step md5 t (Finish k a ms) t'"
  "task_step md5 t (Retry k n) t'"
  "task_step md5 t (Finalize k st) t'"
  "task_step md5 t (Submit xs) t'"

lemmas row_defs = status_of_def owner_of_def in_state_def

section \<open>Runs\<close>

inductive task_run :: "(string \<Rightarrow> nat) \<Rightarrow> table \<Rightarrow> task_event list \<Rightarrow> table \<Rightarrow> bool"
  for md5 :: "string \<Rightarrow> nat"
where
  run_nil: "task_run md5 t [] t"
| run_cons: "task_step md5 t e t' \<Longrightarrow> task_run md5 t' es t'' \<Longrightarrow> task_run md5 t (e # es) t''"

inductive_cases run_nilE: "task_run md5 t [] t'"
inductive_cases run_consE: "task_run md5 t (e # es) t'"

lemma task_step_other: "task_step md5 t e t' \<Longrightarrow> \<not> event_task e k \<Longrightarrow> t' k = t k"
  by (induction rule: task_step.induct) (auto simp: put_items_other)

lemma in_state_unique:
  "in_state md5 t k st \<Longrightarrow> in_state md5 t k st' \<Longrightarrow> st \<in> set task_states \<Longrightarrow> st' \<in> set task_states \<Longrightarrow>
     st = st'"
  by (auto simp: in_state_def make_task_state_task_inject)

text \<open>A task is in one state at a time.\<close>

lemma pending_not_processing:
  "in_state md5 t k TASK_STATE_PENDING \<Longrightarrow> \<not> in_state md5 t k TASK_STATE_PROCESSING"
  using in_state_unique [of md5 t k TASK_STATE_PENDING TASK_STATE_PROCESSING] by auto

lemma pending_not_finished:
  "in_state md5 t k TASK_STATE_PENDING \<Longrightarrow> \<not> in_state md5 t k TASK_STATE_FINISHED"
  using in_state_unique [of md5 t k TASK_STATE_PENDING TASK_STATE_FINISHED] by auto

lemma processing_not_finished:
  "in_state md5 t k TASK_STATE_PROCESSING \<Longrightarrow> \<not> in_state md5 t k TASK_STATE_FINISHED"
  using in_state_unique [of md5 t k TASK_STATE_PROCESSING TASK_STATE_FINISHED] by auto

section \<open>Ownership\<close>

text \<open>\<open>held md5 t k a\<close>: agent \<open>a\<close> holds task \<open>k\<close>, which is being processed or has been finished by it.\<close>

definition held :: "(string \<Rightarrow> nat) \<Rightarrow> table \<Rightarrow> string \<Rightarrow> string \<Rightarrow> bool" where
  "held md5 t k a \<longleftrightarrow> owner_of t k = Some (PStr a) \<and>
     (in_state md5 t k TASK_STATE_PROCESSING \<or> in_state md5 t k TASK_STATE_FINISHED)"

lemma claim_held: "task_step md5 t (Claim k h a x) t' \<Longrightarrow>
    held md5 t' k a \<and> in_state md5 t' k TASK_STATE_PROCESSING"
  by (auto simp: task_step_simps held_def row_defs)

lemma held_step:
  assumes "held md5 t k a" and "task_step md5 t e t'" and "\<not> releases e k"
  shows "held md5 t' k a"
proof (cases "event_task e k")
  case False
  then have "t' k = t k" using assms(2) by (simp add: task_step_other)
  with assms(1) show ?thesis by (simp add: held_def row_defs)
next
  case True
  with assms(3) consider (c) h b x where "e = Claim k h b x" | (r) b x where "e = Refresh k b x"
    | (f) b ms where "e = Finish k b ms"
    by (cases e) auto
  then show ?thesis
  proof cases
    case c
    with assms(2) have "in_state md5 t k TASK_STATE_PENDING" by (auto simp: task_step_simps)
    with assms(1) show ?thesis
      by (auto simp: held_def dest: pending_not_processing pending_not_finished)
  next
    case r
    with assms(1,2) show ?thesis by (auto simp: task_step_simps held_def row_defs)
  next
    case f
    with assms(1,2) show ?thesis by (auto simp: task_step_simps held_def row_defs)
  qed
qed

lemma held_run:
  "task_run md5 t es t' \<Longrightarrow> held md5 t k a \<Longrightarrow> \<forall>e \<in> set es. \<not> releases e k \<Longrightarrow> held md5 t' k a"
proof (induction rule: task_run.induct)
  case (run_nil t)
  then show ?case by simp
next
  case (run_cons t e t' es t'')
  then show ?case by (auto intro: held_step)
qed

text \<open>While an agent holds a task, no other agent can claim, refresh or finish it.\<close>

lemma held_excludes:
  assumes "held md5 t k a"
  shows "\<not> task_step md5 t (Claim k h b x) t'"
    and "b \<noteq> a \<Longrightarrow> \<not> task_step md5 t (Refresh k b x) t'"
    and "b \<noteq> a \<Longrightarrow> \<not> task_step md5 t (Finish k b ms) t'"
proof -
  show "\<not> task_step md5 t (Claim k h b x) t'"
    using assms by (auto simp: task_step_simps held_def dest: pending_not_processing pending_not_finished)
  show "b \<noteq> a \<Longrightarrow> \<not> task_step md5 t (Refresh k b x) t'"
    using assms by (auto simp: task_step_simps held_def)
  show "b \<noteq> a \<Longrightarrow> \<not> task_step md5 t (Finish k b ms) t'"
    using assms by (auto simp: task_step_simps held_def)
qed

section \<open>Reachable tables\<close>

text \<open>
  What the lambdas and agents of the grid put into their requests: submitted rows are pending and
  have no owner, agents are not called \<open>None\<close>, and only failed and cancelled are final states.
\<close>

definition submitted_row :: "(string \<Rightarrow> nat) \<Rightarrow> item \<Rightarrow> bool" where
  "submitted_row md5 i \<longleftrightarrow>
     i ''task_id'' = Some (PStr (item_key i)) \<and>
     i ''task_owner'' = Some (PStr ''None'') \<and>
     i ''task_status'' = Some (PStr (make_task_state_from_task_id md5 TASK_STATE_PENDING (item_key i)))"

fun event_ok :: "(string \<Rightarrow> nat) \<Rightarrow> task_event \<Rightarrow> bool" where
  "event_ok md5 (Submit xs) \<longleftrightarrow> list_all (submitted_row md5) xs"
| "event_ok md5 (Claim k h a x) \<longleftrightarrow> a \<noteq> ''None''"
| "event_ok md5 (Finalize k st) \<longleftrightarrow> st \<in> {TASK_STATE_FAILED, TASK_STATE_CANCELLED}"
| "event_ok md5 _ \<longleftrightarrow> True"

inductive reachable :: "(string \<Rightarrow> nat) \<Rightarrow> table \<Rightarrow> bool" for md5 :: "string \<Rightarrow> nat" where
  empty_table: "reachable md5 Map.empty"
| step_table: "reachable md5 t \<Longrightarrow> task_step md5 t e t' \<Longrightarrow> event_ok md5 e \<Longrightarrow> reachable md5 t'"

text \<open>
  Every row is in one of the five states of its session's partition, has its key as \<open>task_id\<close>,
  and has an owner exactly when it is being processed or finished.
\<close>

definition owner_fits :: "string \<Rightarrow> item \<Rightarrow> bool" where
  "owner_fits st i \<longleftrightarrow>
     (if st = TASK_STATE_PROCESSING \<or> st = TASK_STATE_FINISHED
      then (\<exists>a. a \<noteq> ''None'' \<and> i ''task_owner'' = Some (PStr a))
      else i ''task_owner'' = Some (PStr ''None''))"

definition row_ok :: "(string \<Rightarrow> nat) \<Rightarrow> table \<Rightarrow> string \<Rightarrow> bool" where
  "row_ok md5 t k \<longleftrightarrow> (\<forall>i. t k = Some i \<longrightarrow> i ''task_id'' = Some (PStr k) \<and>
     (\<exists>st \<in> set task_states. in_state md5 t k st \<and> owner_fits st i))"

definition table_ok :: "(string \<Rightarrow> nat) \<Rightarrow> table \<Rightarrow> bool" where
  "table_ok md5 t \<longleftrightarrow> (\<forall>k. row_ok md5 t k)"

lemma owner_fits_owned:
  "st = TASK_STATE_PROCESSING \<or> st = TASK_STATE_FINISHED \<Longrightarrow> a \<noteq> ''None'' \<Longrightarrow>
     i ''task_owner'' = Some (PStr a) \<Longrightarrow> owner_fits st i"
  by (auto simp: owner_fits_def)

lemma owner_fits_free:
  "st \<noteq> TASK_STATE_PROCESSING \<Longrightarrow> st \<noteq> TASK_STATE_FINISHED \<Longrightarrow>
     i ''task_owner'' = Some (PStr ''None'') \<Longrightarrow> owner_fits st i"
  by (auto simp: owner_fits_def)

lemma row_okI:
  assumes "t k = Some i" and "i ''task_id'' = Some (PStr k)" and "st \<in> set task_states"
    and "i ''task_status'' = Some (PStr (make_task_state_from_task_id md5 st k))"
    and "owner_fits st i"
  shows "row_ok md5 t k"
proof -
  have "in_state md5 t k st" using assms(1,4) by (simp add: row_defs)
  with assms show ?thesis unfolding row_ok_def by auto
qed

lemma row_ok_put_owned:
  assumes "i ''task_id'' = Some (PStr k)" and "st = TASK_STATE_PROCESSING \<or> st = TASK_STATE_FINISHED"
    and "i ''task_status'' = Some (PStr (make_task_state_from_task_id md5 st k))"
    and "i ''task_owner'' = Some (PStr a)" and "a \<noteq> ''None''"
  shows "row_ok md5 (t(k \<mapsto> i)) k"
proof (rule row_okI)
  show "(t(k \<mapsto> i)) k = Some i" by simp
  show "st \<in> set task_states" using assms(2) by auto
qed (use assms owner_fits_owned in auto)

lemma row_ok_put_free:
  assumes "i ''task_id'' = Some (PStr k)" and "st \<in> set task_states"
    and "st \<noteq> TASK_STATE_PROCESSING" and "st \<noteq> TASK_STATE_FINISHED"
    and "i ''task_status'' = Some (PStr (make_task_state_from_task_id md5 st k))"
    and "i ''task_owner'' = Some (PStr ''None'')"
  shows "row_ok md5 (t(k \<mapsto> i)) k"
proof (rule row_okI)
  show "(t(k \<mapsto> i)) k = Some i" by simp
qed (use assms owner_fits_free in auto)

lemma row_ok_same: "row_ok md5 t k \<Longrightarrow> t' k = t k \<Longrightarrow> row_ok md5 t' k"
  by (simp add: row_ok_def in_state_def status_of_def)

lemma row_ok_id: "row_ok md5 t k \<Longrightarrow> t k = Some i \<Longrightarrow> i ''task_id'' = Some (PStr k)"
  by (simp add: row_ok_def)

lemma processing_owned:
  assumes "row_ok md5 t k" and "t k = Some i" and "in_state md5 t k TASK_STATE_PROCESSING"
  shows "\<exists>a. a \<noteq> ''None'' \<and> i ''task_owner'' = Some (PStr a)"
proof -
  from assms(1,2) obtain st where st: "st \<in> set task_states" "in_state md5 t k st"
    and own: "owner_fits st i"
    by (auto simp: row_ok_def)
  have "st = TASK_STATE_PROCESSING" using in_state_unique [OF st(2) assms(3) st(1)] by simp
  with own show ?thesis by (simp add: owner_fits_def)
qed

lemma put_submitted_row_ok:
  assumes "row_ok md5 t k" and "submitted_row md5 x"
  shows "row_ok md5 (t(item_key x \<mapsto> x)) k"
proof (cases "item_key x = k")
  case True
  from assms(2) have "row_ok md5 (t(item_key x \<mapsto> x)) (item_key x)"
    unfolding submitted_row_def by (intro row_ok_put_free [where st = TASK_STATE_PENDING]) simp_all
  with True show ?thesis by simp
next
  case False
  then show ?thesis by (intro row_ok_same [OF assms(1)]) simp
qed

lemma put_items_row_ok:
  "row_ok md5 t k \<Longrightarrow> list_all (submitted_row md5) xs \<Longrightarrow> row_ok md5 (put_items t xs) k"
  by (induction xs arbitrary: t) (simp_all add: put_submitted_row_ok)

lemma task_step_row_ok:
  assumes "task_step md5 t e t'" and "event_ok md5 e" and "row_ok md5 t k"
  shows "row_ok md5 t' k"
proof (cases "event_task e k")
  case False
  with assms(1) have "t' k = t k" by (rule task_step_other)
  with assms(3) show ?thesis by (rule row_ok_same)
next
  case True
  from assms(1) show ?thesis
  proof (cases rule: task_step.cases)
    case (submit xs)
    with assms(2,3) show ?thesis by (simp add: put_items_row_ok)
  next
    case (claim k' i h a x)
    with True have k: "k' = k" by simp
    have "i ''task_id'' = Some (PStr k)" using claim(3) k row_ok_id [OF assms(3)] by simp
    then show ?thesis unfolding claim(2) k using assms(2) claim(1)
      by (intro row_ok_put_owned [where st = TASK_STATE_PROCESSING and a = a]) simp_all
  next
    case (refresh k' i a x)
    with True have k: "k' = k" by simp
    have row: "t k = Some i" using refresh(3) k by simp
    obtain b where b: "b \<noteq> ''None''" "i ''task_owner'' = Some (PStr b)"
      using processing_owned [OF assms(3) row] refresh(4) k by blast
    have "i ''task_status'' = Some (PStr (make_task_state_from_task_id md5 TASK_STATE_PROCESSING k))"
      using refresh(4) k row by (simp add: row_defs)
    with b row_ok_id [OF assms(3) row] show ?thesis unfolding refresh(2) k
      by (intro row_ok_put_owned [where st = TASK_STATE_PROCESSING and a = b]) simp_all
  next
    case (finish k' i a ms)
    with True have k: "k' = k" by simp
    have row: "t k = Some i" using finish(3) k by simp
    obtain b where b: "b \<noteq> ''None''" "i ''task_owner'' = Some (PStr b)"
      using processing_owned [OF assms(3) row] finish(4) k by blast
    with row_ok_id [OF assms(3) row] show ?thesis unfolding finish(2) k
      by (intro row_ok_put_owned [where st = TASK_STATE_FINISHED and a = b]) simp_all
  next
    case (retry k' i n)
    with True have k: "k' = k" by simp
    have "i ''task_id'' = Some (PStr k)" using retry(3) k row_ok_id [OF assms(3)] by simp
    then show ?thesis unfolding retry(2) k
      by (intro row_ok_put_free [where st = TASK_STATE_PENDING]) simp_all
  next
    case (finalize i k' st)
    with True have k: "k' = k" by simp
    have id: "i ''task_id'' = Some (PStr k)"
      using finalize(3) k row_ok_id [OF assms(3)] by (auto split: option.splits)
    from finalize(1) assms(2) have "st = TASK_STATE_FAILED \<or> st = TASK_STATE_CANCELLED" by simp
    with id show ?thesis unfolding finalize(2) k
      by (intro row_ok_put_free [where st = st]) auto
  qed
qed

lemma task_step_table_ok:
  "task_step md5 t e t' \<Longrightarrow> event_ok md5 e \<Longrightarrow> table_ok md5 t \<Longrightarrow> table_ok md5 t'"
  by (simp add: table_ok_def task_step_row_ok)

lemma reachable_table_ok: "reachable md5 t \<Longrightarrow> table_ok md5 t"
proof (induction rule: reachable.induct)
  case empty_table
  show ?case by (simp add: table_ok_def row_ok_def)
next
  case (step_table t e t')
  then show ?case by (blast intro: task_step_table_ok)
qed

lemma reachable_run:
  "task_run md5 t es t' \<Longrightarrow> reachable md5 t \<Longrightarrow> list_all (event_ok md5) es \<Longrightarrow> reachable md5 t'"
  by (induction rule: task_run.induct) (auto intro: step_table)

lemma task_run_append: "task_run md5 t es t' \<Longrightarrow> task_run md5 t' es' t'' \<Longrightarrow> task_run md5 t (es @ es') t''"
  by (induction rule: task_run.induct) (auto intro: task_run.intros)

end
