(* ===== verification/StateTableLaws.thy ===== *)
theory StateTableLaws
  imports StateTable Lifecycle
begin

text \<open>
  What the clients of the state table rely on: the locale \<open>task_store\<close>.  Its laws say that every
  method either takes the step of the task life cycle that belongs to it or reports an error, that
  an error response leaves the table as it was, and that the condition flag of
  \<open>StateTableException\<close> is raised only when the step was not enabled.  \<open>StateTableDDB\<close> is an
  interpretation of it over any DynamoDB that behaves as documented.
\<close>

section \<open>Operations as steps\<close>

definition refines ::
  "(string \<Rightarrow> nat) \<Rightarrow> ('w \<Rightarrow> table) \<Rightarrow> task_event set \<Rightarrow> ('w, 'a) io \<Rightarrow> bool" where
  "refines md5 tbl E m \<longleftrightarrow> (\<forall>w r w'. m w = Some (r, w') \<longrightarrow> (case r of
      Inr _ \<Rightarrow> (\<exists>e \<in> E. task_step md5 (tbl w) e (tbl w'))
    | Inl ex \<Rightarrow>
        (tbl w' = tbl w \<or> ((\<exists>s. ex = ServiceFailure s) \<and> (\<exists>e \<in> E. task_step md5 (tbl w) e (tbl w')))) \<and>
        (\<forall>tr. ex = StateTableException tr True \<longrightarrow> (\<forall>e \<in> E. \<forall>t'. \<not> task_step md5 (tbl w) e t'))))"

lemma refines_ok:
  "refines md5 tbl E m \<Longrightarrow> m w = Some (Inr a, w') \<Longrightarrow> \<exists>e \<in> E. task_step md5 (tbl w) e (tbl w')"
  unfolding refines_def by (drule spec [of _ w], drule spec [of _ "Inr a"]) simp

lemma refines_error:
  "refines md5 tbl E m \<Longrightarrow> m w = Some (Inl ex, w') \<Longrightarrow>
     tbl w' = tbl w \<or> (\<exists>s. ex = ServiceFailure s) \<and> (\<exists>e \<in> E. task_step md5 (tbl w) e (tbl w'))"
  unfolding refines_def by (drule spec [of _ w], drule spec [of _ "Inl ex"]) simp

lemma refines_condition:
  "refines md5 tbl E m \<Longrightarrow> m w = Some (Inl (StateTableException tr True), w') \<Longrightarrow> e \<in> E \<Longrightarrow>
     \<not> task_step md5 (tbl w) e t'"
  unfolding refines_def
  by (drule spec [of _ w], drule spec [of _ "Inl (StateTableException tr True)"]) auto

lemma refines_steps:
  "refines md5 tbl E m \<Longrightarrow> m w = Some (r, w') \<Longrightarrow>
     tbl w' = tbl w \<or> (\<exists>e \<in> E. task_step md5 (tbl w) e (tbl w'))"
  using refines_ok [of md5 tbl E m w _ w'] refines_error [of md5 tbl E m w _ w'] by (cases r) auto

text \<open>The requests that the methods build are the steps' guards and effects.\<close>

lemma claim_request:
  "update_outcome t \<lparr>upd_key = k,
     upd_set = [(''task_owner'', PStr a),
       (''task_status'', PStr (make_task_state_from_session_id md5 TASK_STATE_PROCESSING
          (get_session_id_from_task_id k))),
       (''heartbeat_expiration_timestamp'', PInt x), (''sqs_handler_id'', PStr h)],
     upd_cond = Some [(''task_status'', PStr (make_task_state_from_session_id md5 TASK_STATE_PENDING
          (get_session_id_from_task_id k))), (''task_owner'', PStr ''None'')]\<rparr> = Some t'
   \<longleftrightarrow> task_step md5 t (Claim k h a x) t'"
  by (auto simp: update_outcome_def task_step_simps row_defs make_task_state_from_task_id_def
      split: option.splits)

lemma refresh_request:
  "update_outcome t \<lparr>upd_key = k, upd_set = [(''heartbeat_expiration_timestamp'', PInt x)],
     upd_cond = Some [(''task_status'', PStr (make_task_state_from_session_id md5 TASK_STATE_PROCESSING
          (get_session_id_from_task_id k))), (''task_owner'', PStr a)]\<rparr> = Some t'
   \<longleftrightarrow> task_step md5 t (Refresh k a x) t'"
  by (auto simp: update_outcome_def task_step_simps row_defs make_task_state_from_task_id_def
      split: option.splits)

lemma finish_request:
  "update_outcome t \<lparr>upd_key = k,
     upd_set = [(''task_status'', PStr (make_task_state_from_session_id md5 TASK_STATE_FINISHED
          (get_session_id_from_task_id k))), (''task_completion_timestamp'', PInt ms)],
     upd_cond = Some [(''task_status'', PStr (make_task_state_from_session_id md5 TASK_STATE_PROCESSING
          (get_session_id_from_task_id k))), (''task_owner'', PStr a)]\<rparr> = Some t'
   \<longleftrightarrow> task_step md5 t (Finish k a ms) t'"
  by (auto simp: update_outcome_def task_step_simps row_defs make_task_state_from_task_id_def
      split: option.splits)

lemma retry_request:
  "update_outcome t \<lparr>upd_key = k,
     upd_set = [(''task_owner'', PStr ''None''),
       (''task_status'', PStr (make_task_state_from_task_id md5 TASK_STATE_PENDING k)),
       (''retries'', PInt n)],
     upd_cond = Some [(''task_status'',
        PStr (make_task_state_from_task_id md5 TASK_STATE_PROCESSING k))]\<rparr> = Some t'
   \<longleftrightarrow> task_step md5 t (Retry k n) t'"
  by (auto simp: update_outcome_def task_step_simps row_defs split: option.splits)

lemma finalize_request:
  "update_outcome t \<lparr>upd_key = k,
     upd_set = [(''task_owner'', PStr ''None''),
       (''task_status'', PStr (make_task_state_from_task_id md5 st k))],
     upd_cond = None\<rparr> = Some t'
   \<longleftrightarrow> task_step md5 t (Finalize k st) t'"
  by (auto simp: update_outcome_def task_step_simps split: option.splits)

lemmas update_requests =
  claim_request refresh_request finish_request retry_request finalize_request

text \<open>
  A method is its request followed by a handler that changes nothing, turns only a failed
  condition into the condition flag, and passes a failure without a response on.
\<close>

definition handler_ok :: "('w \<Rightarrow> table) \<Rightarrow> (exn \<Rightarrow> ('w, 'a) io) \<Rightarrow> bool" where
  "handler_ok tbl h \<longleftrightarrow> (\<forall>e w r w'. h e w = Some (r, w') \<longrightarrow> tbl w' = tbl w \<and>
     (\<exists>ex. r = Inl ex \<and> (\<forall>s. e = ServiceFailure s \<longrightarrow> ex = e) \<and>
        (\<forall>tr. service_error e \<longrightarrow> ex = StateTableException tr True \<longrightarrow>
           (\<exists>m. e = ClientError CONDITION_FAILED m))))"

lemma handler_okD:
  "handler_ok tbl h \<Longrightarrow> h e w = Some (r, w') \<Longrightarrow> tbl w' = tbl w \<and>
     (\<exists>ex. r = Inl ex \<and> (\<forall>s. e = ServiceFailure s \<longrightarrow> ex = e) \<and>
        (\<forall>tr. service_error e \<longrightarrow> ex = StateTableException tr True \<longrightarrow>
           (\<exists>m. e = ClientError CONDITION_FAILED m)))"
  by (simp add: handler_ok_def)

lemma update_refines:
  assumes doc: "ddb_documented db tbl"
    and req: "\<And>t t'. update_outcome t r = Some t' \<longleftrightarrow> task_step md5 t e t'"
    and h: "handler_ok tbl h"
  shows "refines md5 tbl {e} (io_catch (io_bind (io_call (ddb_update_item db r)) (\<lambda>u. io_return (f u))) h)"
  unfolding refines_def
proof (intro allI impI)
  fix w r' w'
  assume run: "io_catch (io_bind (io_call (ddb_update_item db r)) (\<lambda>u. io_return (f u))) h w = Some (r', w')"
  obtain r1 w1 where u: "ddb_update_item db r w = (r1, w1)" by (cases "ddb_update_item db r w")
  show "case r' of
      Inr _ \<Rightarrow> (\<exists>e' \<in> {e}. task_step md5 (tbl w) e' (tbl w'))
    | Inl ex \<Rightarrow>
        (tbl w' = tbl w \<or> ((\<exists>s. ex = ServiceFailure s) \<and> (\<exists>e' \<in> {e}. task_step md5 (tbl w) e' (tbl w')))) \<and>
        (\<forall>tr. ex = StateTableException tr True \<longrightarrow> (\<forall>e' \<in> {e}. \<forall>t'. \<not> task_step md5 (tbl w) e' t'))"
  proof (cases r1)
    case (Inr x)
    with run u have "r' = Inr (f x)" "w' = w1" by (simp_all add: io_apply)
    with ddb_update_ok [OF doc, of r w] u Inr show ?thesis by (simp add: req [symmetric])
  next
    case (Inl ex1)
    with run u have hr: "h ex1 w1 = Some (r', w')" by (simp add: io_apply)
    obtain ex where ex: "tbl w' = tbl w1" "r' = Inl ex"
      "\<forall>s. ex1 = ServiceFailure s \<longrightarrow> ex = ex1"
      "\<forall>tr. service_error ex1 \<longrightarrow> ex = StateTableException tr True \<longrightarrow>
         (\<exists>m. ex1 = ClientError CONDITION_FAILED m)"
      using handler_okD [OF h hr] by blast
    have err: "service_error ex1 \<and> (tbl w1 = tbl w \<or> (\<exists>m. ex1 = ServiceFailure m) \<and>
        update_outcome (tbl w) r = Some (tbl w1))"
      by (rule ddb_update_error [OF doc u [unfolded Inl]])
    have "tbl w' = tbl w \<or> (\<exists>s. ex = ServiceFailure s) \<and> task_step md5 (tbl w) e (tbl w')"
      using err ex(1,3) req [of "tbl w" "tbl w1"] by auto
    moreover have "\<not> task_step md5 (tbl w) e t'" if c: "ex = StateTableException tr True" for tr t'
    proof -
      obtain m where "ex1 = ClientError CONDITION_FAILED m" using ex(4) err c by blast
      then have "update_outcome (tbl w) r = None"
        using ddb_update_client_error [OF doc, of r w CONDITION_FAILED m w1] u Inl by simp
      then show ?thesis using req [of "tbl w" t'] by simp
    qed
    ultimately show ?thesis using ex(2) by auto
  qed
qed

lemma update_then_refines:
  assumes "ddb_documented db tbl"
    and "\<And>t t'. update_outcome t r = Some t' \<longleftrightarrow> task_step md5 t e t'" and "handler_ok tbl h"
  shows "refines md5 tbl {e} (io_catch (io_then (io_call (ddb_update_item db r)) (io_return b)) h)"
  using update_refines [OF assms, where f = "\<lambda>u. b"] by (simp add: io_then_def)

lemma update_only_refines:
  assumes "ddb_documented db tbl"
    and "\<And>t t'. update_outcome t r = Some t' \<longleftrightarrow> task_step md5 t e t'" and "handler_ok tbl h"
  shows "refines md5 tbl {e} (io_catch (io_call (ddb_update_item db r)) h)"
proof -
  have "io_bind (io_call (ddb_update_item db r)) (\<lambda>u. io_return u) = io_call (ddb_update_item db r)"
    by (rule ext) (simp add: io_bind_apply split: sum.splits prod.splits)
  then show ?thesis using update_refines [OF assms, where f = "\<lambda>u. u"] by simp
qed

section \<open>The methods of \<open>StateTableDDB\<close>\<close>

text \<open>The handlers.\<close>

lemma query_keeps [intro]: "ddb_documented db tbl \<Longrightarrow> keeps tbl (io_call (ddb_query db q))"
  by (rule ddb_query_keeps_io)

lemma get_task_by_id_keeps:
  "ddb_documented db tbl \<Longrightarrow> keeps tbl (get_task_by_id db task_id c)"
  unfolding get_task_by_id_def
  by (intro keeps_catch keeps_bind query_keeps) (auto split: list.splits exn.splits)

lemma get_task_by_id_returns: "returns (get_task_by_id db task_id c)"
  unfolding get_task_by_id_def
  by (intro returns_catch returns_bind returns_call) (auto split: list.splits exn.splits)

text \<open>The reads by session, state and partition change nothing, however many pages they follow.\<close>

lemma session_pages_keeps:
  assumes "session_pages db conds start combined w = Some y" and "\<forall>q. keeps v (io_call (ddb_query db q))"
  shows "v (snd y) = v w"
  using assms
proof (induction db conds start combined w y rule: session_pages.raw_induct [rotated, consumes 1, case_names step])
  case (step f db conds start combined w y)
  show ?case
  proof (cases "ddb_query db (session_query conds start) w")
    case (Pair r w1)
    have k: "v w1 = v w" using step(3) Pair by (auto simp: keeps_def)
    show ?thesis
    proof (cases r)
      case (Inl e)
      with step(2) Pair k show ?thesis by (auto simp: io_bind_apply)
    next
      case (Inr response)
      with step(2) Pair k step(1) [OF _ step(3)] show ?thesis
        by (auto simp: io_bind_apply split: if_splits)
    qed
  qed
qed

lemma live_pages_keeps:
  assumes "live_pages db conds last_key items w = Some y" and "\<forall>q. keeps v (io_call (ddb_query db q))"
  shows "v (snd y) = v w"
  using assms
proof (induction db conds last_key items w y rule: live_pages.raw_induct [rotated, consumes 1, case_names step])
  case (step f db conds last_key items w y)
  show ?case
  proof (cases "ddb_query db (live_query conds last_key) w")
    case (Pair r w1)
    have k: "v w1 = v w" using step(3) Pair by (auto simp: keeps_def)
    show ?thesis
    proof (cases r)
      case (Inl e)
      with step(2) Pair k show ?thesis by (auto simp: io_bind_apply)
    next
      case (Inr response)
      with step(2) Pair k step(1) [OF _ step(3)] show ?thesis
        by (auto simp: io_bind_apply split: if_splits)
    qed
  qed
qed

lemma get_tasks_by_state_keeps:
  assumes "ddb_documented db tbl"
  shows "keeps tbl (get_tasks_by_state db s st)"
proof -
  have "keeps tbl (\<lambda>w. session_pages db conds start combined w)" for conds start combined
    unfolding keeps_def
  proof (intro allI impI)
    fix w r w'
    assume "session_pages db conds start combined w = Some (r, w')"
    from session_pages_keeps [OF this, of tbl] ddb_query_keeps_io [OF assms] show "tbl w' = tbl w" by simp
  qed
  then show ?thesis
    unfolding get_tasks_by_state_def get_tasks_by_state_key_expression_def
    by (intro keeps_catch) (auto split: exn.splits)
qed

text \<open>A handler that reads the row before it reports a failed condition.\<close>

lemma raise_handler_ok:
  "handler_ok tbl (\<lambda>e. case e of
      ClientError c m \<Rightarrow>
        if c \<in> set throttling_codes then io_raise (StateTableException True False)
        else io_raise (GenericException (exn_str e))
    | _ \<Rightarrow> io_raise e)"
  by (auto simp: handler_ok_def service_error_def split: exn.splits if_splits)

lemma condition_handler_ok:
  "handler_ok tbl (\<lambda>e. case e of
      ClientError c m \<Rightarrow>
        if c = CONDITION_FAILED then io_raise (StateTableException False True)
        else if c \<in> set throttling_codes then io_raise (StateTableException True False)
        else io_raise (GenericException (exn_str e))
    | _ \<Rightarrow> io_raise e)"
  by (auto simp: handler_ok_def service_error_def split: exn.splits if_splits)

lemma get_task_by_id_error:
  assumes "ddb_documented db tbl" and "get_task_by_id db k c w = Some (Inl e, w')"
  shows "\<exists>s. e = GenericException s \<or> e = ServiceFailure s"
proof -
  obtain r w1 where q: "ddb_query db \<lparr>q_index = None, q_conds = [KeyEq ''task_id'' (PStr k)],
      q_limit = None, q_consistent = c, q_start = None\<rparr> w = (r, w1)"
    by (cases "ddb_query db \<lparr>q_index = None, q_conds = [KeyEq ''task_id'' (PStr k)],
      q_limit = None, q_consistent = c, q_start = None\<rparr> w")
  show ?thesis
  proof (cases r)
    case (Inl ex)
    have "service_error ex" by (rule ddb_query_error [OF assms(1) q [unfolded Inl]])
    with assms(2) q Inl show ?thesis
      by (auto simp: get_task_by_id_def io_apply service_error_def split: exn.splits if_splits)
  next
    case (Inr resp)
    with assms(2) q show ?thesis
      by (auto simp: get_task_by_id_def io_apply split: list.splits)
  qed
qed

lemma reading_handler_ok:
  assumes "ddb_documented db tbl"
    and "\<And>w r w'. check w = Some (r, w') \<Longrightarrow> tbl w' = tbl w \<and>
       (\<forall>ex. r = Inl ex \<longrightarrow> (\<exists>s. ex = GenericException s \<or> ex = ServiceFailure s))"
  shows "handler_ok tbl (\<lambda>e. case e of
      ClientError c m \<Rightarrow>
        if c = CONDITION_FAILED then
          io_bind check (\<lambda>task_row. io_raise (StateTableException False True))
        else if c \<in> set throttling_codes then io_raise (StateTableException True False)
        else io_raise (GenericException (exn_str e))
    | _ \<Rightarrow> io_raise e)"
  unfolding handler_ok_def
proof (intro allI impI)
  fix e w r w'
  assume run: "(case e of
      ClientError c m \<Rightarrow>
        if c = CONDITION_FAILED then
          io_bind check (\<lambda>task_row. io_raise (StateTableException False True))
        else if c \<in> set throttling_codes then io_raise (StateTableException True False)
        else io_raise (GenericException (exn_str e))
    | _ \<Rightarrow> io_raise e) w = Some (r, w')"
  show "tbl w' = tbl w \<and> (\<exists>ex. r = Inl ex \<and> (\<forall>s. e = ServiceFailure s \<longrightarrow> ex = e) \<and>
        (\<forall>tr. service_error e \<longrightarrow> ex = StateTableException tr True \<longrightarrow>
          (\<exists>m. e = ClientError CONDITION_FAILED m)))"
  proof (cases "\<exists>m. e = ClientError CONDITION_FAILED m")
    case True
    then obtain m where m: "e = ClientError CONDITION_FAILED m" ..
    with run have "io_bind check (\<lambda>task_row. io_raise (StateTableException False True)) w = Some (r, w')"
      by simp
    then obtain rr where c: "check w = Some (rr, w')" and "\<exists>ex. r = Inl ex"
      by (auto simp: io_bind_Some)
    with assms(2) [OF c] m show ?thesis by auto
  next
    case False
    with run show ?thesis by (auto simp: service_error_def split: exn.splits if_splits)
  qed
qed

lemma claim_refines:
  "ddb_documented db tbl \<Longrightarrow>
     refines (md5_int db) tbl {Claim k h a x} (claim_task_for_agent db k h a x)"
  unfolding claim_task_for_agent_def Let_def
  by (rule update_then_refines [OF _ claim_request condition_handler_ok])

lemma refresh_refines:
  "ddb_documented db tbl \<Longrightarrow>
     refines (md5_int db) tbl {Refresh k a x} (refresh_ttl_for_ongoing_task db k a x)"
  unfolding refresh_ttl_for_ongoing_task_def Let_def
  by (rule update_then_refines [OF _ refresh_request reading_handler_ok])
    (auto dest: keepsD [OF get_task_by_id_keeps] get_task_by_id_error)

lemma retry_refines:
  "ddb_documented db tbl \<Longrightarrow> refines (md5_int db) tbl {Retry k n} (retry_task db k n)"
  unfolding retry_task_def by (rule update_only_refines [OF _ retry_request condition_handler_ok])

lemma finalize_refines:
  "ddb_documented db tbl \<Longrightarrow> refines (md5_int db) tbl {Finalize k st} (finalize_tasks_state db k st)"
  unfolding finalize_tasks_state_def
  by (rule update_only_refines [OF _ finalize_request raise_handler_ok])

lemma refines_clock:
  assumes "host_keeps host tbl" and "\<And>ms. refines md5 tbl E (f ms)"
  shows "refines md5 tbl E (io_bind (time_now_ms host) f)"
  unfolding refines_def
proof (intro allI impI)
  fix w r w'
  assume run: "io_bind (time_now_ms host) f w = Some (r, w')"
  obtain ms w1 where c: "now_ms host w = (ms, w1)" by (cases "now_ms host w")
  have "keeps tbl (io_read (now_ms host))" using assms(1) by (simp add: host_keeps_def)
  then have same: "tbl w1 = tbl w" by (rule keepsD) (simp add: io_read_apply c)
  from run c have f: "f ms w1 = Some (r, w')" by (simp add: time_now_ms_def io_apply)
  from assms(2) [of ms] f show "case r of
      Inr _ \<Rightarrow> (\<exists>e \<in> E. task_step md5 (tbl w) e (tbl w'))
    | Inl ex \<Rightarrow>
        (tbl w' = tbl w \<or> ((\<exists>s. ex = ServiceFailure s) \<and> (\<exists>e \<in> E. task_step md5 (tbl w) e (tbl w')))) \<and>
        (\<forall>tr. ex = StateTableException tr True \<longrightarrow> (\<forall>e \<in> E. \<forall>t'. \<not> task_step md5 (tbl w) e t'))"
    unfolding refines_def same [symmetric] by blast
qed

lemma refines_weaken:
  assumes "refines md5 tbl E m" and "E \<subseteq> E'"
    and "\<And>t e t'. e \<in> E' \<Longrightarrow> task_step md5 t e t' \<Longrightarrow> \<exists>e' \<in> E. \<exists>t''. task_step md5 t e' t''"
  shows "refines md5 tbl E' m"
  unfolding refines_def
proof (intro allI impI)
  fix w r w'
  assume run: "m w = Some (r, w')"
  show "case r of
      Inr _ \<Rightarrow> (\<exists>e \<in> E'. task_step md5 (tbl w) e (tbl w'))
    | Inl ex \<Rightarrow>
        (tbl w' = tbl w \<or> ((\<exists>s. ex = ServiceFailure s) \<and> (\<exists>e \<in> E'. task_step md5 (tbl w) e (tbl w')))) \<and>
        (\<forall>tr. ex = StateTableException tr True \<longrightarrow> (\<forall>e \<in> E'. \<forall>t'. \<not> task_step md5 (tbl w) e t'))"
  proof (cases r)
    case (Inr a)
    with refines_ok [OF assms(1) run [unfolded Inr]] assms(2) show ?thesis by auto
  next
    case (Inl ex)
    have "\<not> task_step md5 (tbl w) e t'" if "ex = StateTableException tr True" "e \<in> E'" for tr e t'
      using assms(3) [OF that(2)] refines_condition [OF assms(1) run [unfolded Inl that(1)]] by blast
    with refines_error [OF assms(1) run [unfolded Inl]] assms(2) Inl show ?thesis by auto
  qed
qed

text \<open>Whether a task can be finished does not depend on the time it is finished at.\<close>

lemma finish_any_time:
  assumes "refines md5 tbl {Finish k a ms} m"
  shows "refines md5 tbl {e. \<exists>ms. e = Finish k a ms} m"
  by (rule refines_weaken [OF assms]) (auto simp: task_step_simps)

lemma clock_catch:
  "io_catch (io_bind (time_now_ms host) f) h = io_bind (time_now_ms host) (\<lambda>ms. io_catch (f ms) h)"
  by (rule ext) (simp add: io_apply time_now_ms_def split: prod.splits)

lemma finish_refines:
  assumes "ddb_documented db tbl" and "host_keeps host tbl"
  shows "refines (md5_int db) tbl {e. \<exists>ms. e = Finish k a ms} (update_task_status_to_finished db host k a)"
  unfolding update_task_status_to_finished_def Let_def clock_catch
proof (rule refines_clock [OF assms(2)], rule finish_any_time,
    rule update_then_refines [OF assms(1) finish_request reading_handler_ok [OF assms(1)]])
  fix w r w'
  assume "get_task_by_id db k True w = Some (r, w')"
  then show "tbl w' = tbl w \<and>
      (\<forall>ex. r = Inl ex \<longrightarrow> (\<exists>s. ex = GenericException s \<or> ex = ServiceFailure s))"
    using keepsD [OF get_task_by_id_keeps [OF assms(1)]] get_task_by_id_error [OF assms(1)] by blast
qed

section \<open>Submitting\<close>

lemma put_items_step: "task_step md5 t (Submit xs) (put_items t xs)"
  by (rule submit)

lemma write_ddb_batch_outcome:
  assumes "ddb_documented db tbl" and "write_ddb_batch db b w = Some (r, w')"
  shows "case r of
      Inr _ \<Rightarrow> tbl w' = put_items (tbl w) b
    | Inl ex \<Rightarrow> (ex = StateTableException True False \<or> (\<exists>s. ex = GenericException s)) \<and>
        (\<exists>ys. set ys \<subseteq> set b \<and> tbl w' = put_items (tbl w) ys)"
proof -
  obtain rb w1 where b: "ddb_batch_write db b w = (rb, w1)" by (cases "ddb_batch_write db b w")
  show ?thesis
  proof (cases rb)
    case (Inl ex)
    with assms(2) b obtain ex2 where "w' = w1" "r = Inl ex2"
      "ex2 = StateTableException True False \<or> (\<exists>s. ex2 = GenericException s)"
      by (auto simp: write_ddb_batch_def io_apply split: exn.splits if_splits)
    with ddb_batch_error [OF assms(1) b [unfolded Inl]] show ?thesis by auto
  next
    case (Inr u)
    with assms(2) b have "w' = w1" "\<exists>v. r = Inr v" by (auto simp: write_ddb_batch_def io_apply)
    with ddb_batch_ok [OF assms(1) b [unfolded Inr]] show ?thesis by auto
  qed
qed

lemma batches_outcome:
  assumes doc: "ddb_documented db tbl"
    and "io_foreach xss (write_ddb_batch db) w = Some (r, w')"
  shows "case r of
      Inr _ \<Rightarrow> tbl w' = put_items (tbl w) (concat xss)
    | Inl ex \<Rightarrow> (ex = StateTableException True False \<or> (\<exists>s. ex = GenericException s)) \<and>
        (\<exists>ys. set ys \<subseteq> set (concat xss) \<and> tbl w' = put_items (tbl w) ys)"
  using assms(2)
proof (induction xss arbitrary: w)
  case Nil
  then show ?case by auto
next
  case (Cons b xss)
  from Cons.prems consider (stop) ex where "write_ddb_batch db b w = Some (Inl ex, w')" "r = Inl ex"
    | (go) w1 where "write_ddb_batch db b w = Some (Inr (), w1)"
        "io_foreach xss (write_ddb_batch db) w1 = Some (r, w')"
    by (auto simp: io_then_Some)
  then show ?case
  proof cases
    case stop
    with write_ddb_batch_outcome [OF doc stop(1)] show ?thesis by auto
  next
    case go
    have w1: "tbl w1 = put_items (tbl w) b" using write_ddb_batch_outcome [OF doc go(1)] by simp
    show ?thesis
    proof (cases r)
      case (Inr v)
      with Cons.IH [OF go(2)] w1 show ?thesis by (simp add: put_items_append)
    next
      case (Inl ex)
      from Cons.IH [OF go(2)] Inl obtain ys where ys: "set ys \<subseteq> set (concat xss)"
        "tbl w' = put_items (tbl w1) ys"
        and ex: "ex = StateTableException True False \<or> (\<exists>s. ex = GenericException s)" by auto
      have "set (b @ ys) \<subseteq> set (concat (b # xss)) \<and> tbl w' = put_items (tbl w) (b @ ys)"
        using ys w1 by (auto simp: put_items_append)
      with Inl ex show ?thesis by (simp only: sum.case) blast
    qed
  qed
qed

lemma batch_write_outcome:
  assumes "ddb_documented db tbl" and "batch_write db entries w = Some (r, w')"
  shows "case r of
      Inr _ \<Rightarrow> tbl w' = put_items (tbl w) entries
    | Inl ex \<Rightarrow> (ex = StateTableException True False \<or> (\<exists>s. ex = GenericException s)) \<and>
        (\<exists>ys. set ys \<subseteq> set entries \<and> tbl w' = put_items (tbl w) ys)"
  using batches_outcome [OF assms [unfolded batch_write_def]]
  by (simp only: concat_chunks [OF MAX_WRITE_BATCHS_SIZE_pos])

section \<open>Components as sequences of steps\<close>

text \<open>
  \<open>evolves md5 tbl ok m\<close>: whatever \<open>m\<close> does and however it ends, the table changes only by steps
  whose events satisfy \<open>ok\<close>.
\<close>

definition evolves :: "(string \<Rightarrow> nat) \<Rightarrow> ('s \<Rightarrow> table) \<Rightarrow> (task_event \<Rightarrow> bool) \<Rightarrow> ('s, 'a) io \<Rightarrow> bool" where
  "evolves md5 tbl ok m \<longleftrightarrow> (\<forall>s r s'. m s = Some (r, s') \<longrightarrow>
     (\<exists>es. list_all ok es \<and> task_run md5 (tbl s) es (tbl s')))"

named_theorems evolves_intros

lemma evolvesD:
  "evolves md5 tbl ok m \<Longrightarrow> m s = Some (r, s') \<Longrightarrow> \<exists>es. list_all ok es \<and> task_run md5 (tbl s) es (tbl s')"
  by (simp add: evolves_def)

lemma evolves_keeps:
  assumes "keeps tbl m"
  shows "evolves md5 tbl ok m"
  unfolding evolves_def
proof (intro allI impI)
  fix s r s'
  assume "m s = Some (r, s')"
  then have "tbl s' = tbl s" by (rule keepsD [OF assms])
  then show "\<exists>es. list_all ok es \<and> task_run md5 (tbl s) es (tbl s')"
    by (intro exI [of _ "[]"]) (simp add: run_nil)
qed

lemma evolves_refines:
  assumes "refines md5 tbl E m" and "\<And>e. e \<in> E \<Longrightarrow> ok e"
  shows "evolves md5 tbl ok m"
  unfolding evolves_def
proof (intro allI impI)
  fix s r s'
  assume "m s = Some (r, s')"
  from refines_steps [OF assms(1) this] consider "tbl s' = tbl s"
    | e where "e \<in> E" "task_step md5 (tbl s) e (tbl s')" by blast
  then show "\<exists>es. list_all ok es \<and> task_run md5 (tbl s) es (tbl s')"
  proof cases
    case 1
    then show ?thesis by (intro exI [of _ "[]"]) (simp add: run_nil)
  next
    case 2
    with assms(2) show ?thesis by (intro exI [of _ "[e]"]) (auto intro: task_run.intros)
  qed
qed

lemma evolves_seq:
  assumes "list_all ok es" "task_run md5 t es t'" "\<exists>es'. list_all ok es' \<and> task_run md5 t' es' t''"
  shows "\<exists>es. list_all ok es \<and> task_run md5 t es t''"
proof -
  from assms(3) obtain es' where "list_all ok es'" "task_run md5 t' es' t''" by blast
  with assms(1,2) show ?thesis by (intro exI [of _ "es @ es'"]) (auto intro: task_run_append)
qed

lemma evolves_bind [evolves_intros]:
  assumes "evolves md5 tbl ok m" and "\<And>a. evolves md5 tbl ok (f a)"
  shows "evolves md5 tbl ok (io_bind m f)"
  unfolding evolves_def
proof (intro allI impI)
  fix s r s'
  assume "io_bind m f s = Some (r, s')"
  then consider e where "m s = Some (Inl e, s')" | a s1 where "m s = Some (Inr a, s1)" "f a s1 = Some (r, s')"
    by (auto simp: io_bind_Some)
  then show "\<exists>es. list_all ok es \<and> task_run md5 (tbl s) es (tbl s')"
  proof cases
    case 1
    then show ?thesis by (rule evolvesD [OF assms(1)])
  next
    case 2
    from evolvesD [OF assms(1) 2(1)] obtain es where es: "list_all ok es" "task_run md5 (tbl s) es (tbl s1)" by blast
    show ?thesis by (rule evolves_seq [OF es evolvesD [OF assms(2) 2(2)]])
  qed
qed

lemma evolves_then [evolves_intros]:
  "evolves md5 tbl ok m \<Longrightarrow> evolves md5 tbl ok k \<Longrightarrow> evolves md5 tbl ok (io_then m k)"
  unfolding io_then_def by (rule evolves_bind)

lemma evolves_catch [evolves_intros]:
  assumes "evolves md5 tbl ok m" and "\<And>e. evolves md5 tbl ok (h e)"
  shows "evolves md5 tbl ok (io_catch m h)"
  unfolding evolves_def
proof (intro allI impI)
  fix s r s'
  assume "io_catch m h s = Some (r, s')"
  then consider a where "m s = Some (Inr a, s')" | e s1 where "m s = Some (Inl e, s1)" "h e s1 = Some (r, s')"
    by (auto simp: io_catch_Some)
  then show "\<exists>es. list_all ok es \<and> task_run md5 (tbl s) es (tbl s')"
  proof cases
    case 1
    then show ?thesis by (rule evolvesD [OF assms(1)])
  next
    case 2
    from evolvesD [OF assms(1) 2(1)] obtain es where es: "list_all ok es" "task_run md5 (tbl s) es (tbl s1)" by blast
    show ?thesis by (rule evolves_seq [OF es evolvesD [OF assms(2) 2(2)]])
  qed
qed

lemma evolves_return [evolves_intros]: "evolves md5 tbl ok (io_return a)"
  by (rule evolves_keeps) (rule keeps_return)

lemma evolves_raise [evolves_intros]: "evolves md5 tbl ok (io_raise e)"
  by (rule evolves_keeps) (rule keeps_raise)

lemma evolves_of [evolves_intros]: "evolves md5 tbl ok (io_of r)"
  by (rule evolves_keeps) (rule keeps_of)

lemma evolves_get [evolves_intros]: "evolves md5 tbl ok (io_get f)"
  by (rule evolves_keeps) (rule keeps_get)

lemma evolves_foreach [evolves_intros]:
  assumes "\<And>x. x \<in> set xs \<Longrightarrow> evolves md5 tbl ok (f x)"
  shows "evolves md5 tbl ok (io_foreach xs f)"
  using assms
proof (induction xs)
  case Nil
  show ?case unfolding io_foreach.simps by (rule evolves_return)
next
  case (Cons x xs)
  then show ?case unfolding io_foreach.simps by (intro evolves_then) auto
qed

lemma evolves_until [evolves_intros]:
  assumes "evolves md5 tbl ok m"
  shows "evolves md5 tbl ok (io_until m)"
  unfolding evolves_def
proof (intro allI impI)
  fix s r t
  assume "io_until m s = Some (r, t)"
  then obtain n u x where u: "io_rounds m n s = Some u" "m u = Some (x, t)" by (auto simp: io_until_iff)
  have "\<exists>es. list_all ok es \<and> task_run md5 (tbl s) es (tbl u)"
  proof (rule io_rounds_invariant [OF u(1)])
    show "\<exists>es. list_all ok es \<and> task_run md5 (tbl s) es (tbl s)"
      by (intro exI [of _ "[]"]) (simp add: run_nil)
  next
    fix s1 s2
    assume "\<exists>es. list_all ok es \<and> task_run md5 (tbl s) es (tbl s1)" and m: "m s1 = Some (Inr None, s2)"
    then obtain es where es: "list_all ok es" "task_run md5 (tbl s) es (tbl s1)" by blast
    show "\<exists>es. list_all ok es \<and> task_run md5 (tbl s) es (tbl s2)"
      by (rule evolves_seq [OF es evolvesD [OF assms m]])
  qed
  then obtain es where es: "list_all ok es" "task_run md5 (tbl s) es (tbl u)" by blast
  show "\<exists>es. list_all ok es \<and> task_run md5 (tbl s) es (tbl t)"
    by (rule evolves_seq [OF es evolvesD [OF assms u(2)]])
qed

lemma evolves_zoom:
  assumes "evolves md5 tbl ok m" and "\<And>w s. v (put w s) = tbl w" and "\<And>s. v s = tbl (get s)"
  shows "evolves md5 v ok (io_zoom get put m)"
  unfolding evolves_def
proof (intro allI impI)
  fix s r s'
  assume "io_zoom get put m s = Some (r, s')"
  then obtain w where w: "m (get s) = Some (r, w)" "s' = put w s"
    by (auto simp: io_zoom_apply split: option.splits)
  from evolvesD [OF assms(1) w(1)] w(2) assms(2,3)
  show "\<exists>es. list_all ok es \<and> task_run md5 (v s) es (v s')" by simp
qed

lemma evolves_weaken:
  assumes "evolves md5 tbl ok m" and "\<And>e. ok e \<Longrightarrow> ok' e"
  shows "evolves md5 tbl ok' m"
  unfolding evolves_def
proof (intro allI impI)
  fix s r s'
  assume "m s = Some (r, s')"
  from evolvesD [OF assms(1) this] assms(2) show "\<exists>es. list_all ok' es \<and> task_run md5 (tbl s) es (tbl s')"
    by (auto simp: list_all_iff)
qed

text \<open>A component whose events the grid allows keeps the table reachable.\<close>

lemma evolves_reachable:
  assumes "evolves md5 tbl ok m" and "\<And>e. ok e \<Longrightarrow> event_ok md5 e"
    and "m s = Some (r, s')" and "reachable md5 (tbl s)"
  shows "reachable md5 (tbl s')"
proof -
  from evolvesD [OF assms(1,3)] obtain es where es: "list_all ok es" "task_run md5 (tbl s) es (tbl s')" by blast
  from es(1) have "list_all (event_ok md5) es" by (rule list.pred_mono_strong) (rule assms(2))
  then show ?thesis by (rule reachable_run [OF es(2) assms(4)])
qed

section \<open>The contract\<close>

text \<open>What agents, the TTL lambda and the cancel lambda call; \<open>'h\<close> is the handle they hold.\<close>

locale task_store =
  fixes ok :: "'h \<Rightarrow> ('w \<Rightarrow> table) \<Rightarrow> bool"
    and digest :: "'h \<Rightarrow> string \<Rightarrow> nat"
    and claim :: "'h \<Rightarrow> string \<Rightarrow> string \<Rightarrow> string \<Rightarrow> int \<Rightarrow> ('w, bool) io"
    and refresh :: "'h \<Rightarrow> string \<Rightarrow> string \<Rightarrow> int \<Rightarrow> ('w, bool) io"
    and finish :: "'h \<Rightarrow> string \<Rightarrow> string \<Rightarrow> ('w, bool) io"
    and retry :: "'h \<Rightarrow> string \<Rightarrow> int \<Rightarrow> ('w, unit) io"
    and finalize :: "'h \<Rightarrow> string \<Rightarrow> string \<Rightarrow> ('w, unit) io"
    and lookup :: "'h \<Rightarrow> string \<Rightarrow> bool \<Rightarrow> ('w, item option) io"
  assumes claim_law: "ok h tbl \<Longrightarrow> refines (digest h) tbl {Claim k q a x} (claim h k q a x)"
    and refresh_law: "ok h tbl \<Longrightarrow> refines (digest h) tbl {Refresh k a x} (refresh h k a x)"
    and finish_law: "ok h tbl \<Longrightarrow> refines (digest h) tbl {e. \<exists>ms. e = Finish k a ms} (finish h k a)"
    and retry_law: "ok h tbl \<Longrightarrow> refines (digest h) tbl {Retry k n} (retry h k n)"
    and finalize_law: "ok h tbl \<Longrightarrow> refines (digest h) tbl {Finalize k st} (finalize h k st)"
    and lookup_law: "ok h tbl \<Longrightarrow> keeps tbl (lookup h k c)"
begin

lemma claim_succeeds:
  assumes "ok h tbl" and "claim h k q a x w = Some (Inr b, w')"
  shows "in_state (digest h) (tbl w) k TASK_STATE_PENDING" and "owner_of (tbl w) k = Some (PStr ''None'')"
    and "held (digest h) (tbl w') k a" and "in_state (digest h) (tbl w') k TASK_STATE_PROCESSING"
proof -
  have step: "task_step (digest h) (tbl w) (Claim k q a x) (tbl w')"
    using refines_ok [OF claim_law [OF assms(1)] assms(2)] by simp
  show "in_state (digest h) (tbl w) k TASK_STATE_PENDING" "owner_of (tbl w) k = Some (PStr ''None'')"
    using step by (auto simp: task_step_simps)
  show "held (digest h) (tbl w') k a" "in_state (digest h) (tbl w') k TASK_STATE_PROCESSING"
    using claim_held [OF step] by auto
qed

lemma held_blocks_claim:
  assumes "ok h tbl" and "held (digest h) (tbl w) k a" and "claim h k q b x w = Some (r, w')"
  shows "\<exists>ex. r = Inl ex \<and> tbl w' = tbl w"
  using refines_ok [OF claim_law [OF assms(1), of k q b x], of w _ w']
    refines_error [OF claim_law [OF assms(1), of k q b x], of w _ w'] assms(3) held_excludes(1) [OF assms(2)]
  by (cases r) auto

lemma held_blocks_finish:
  assumes "ok h tbl" and "held (digest h) (tbl w) k a" and "b \<noteq> a" and "finish h k b w = Some (r, w')"
  shows "\<exists>ex. r = Inl ex \<and> tbl w' = tbl w"
  using refines_ok [OF finish_law [OF assms(1), of k b], of w _ w']
    refines_error [OF finish_law [OF assms(1), of k b], of w _ w'] assms(4)
    held_excludes(3) [OF assms(2,3)]
  by (cases r) auto

lemma held_blocks_refresh:
  assumes "ok h tbl" and "held (digest h) (tbl w) k a" and "b \<noteq> a" and "refresh h k b x w = Some (r, w')"
  shows "\<exists>ex. r = Inl ex \<and> tbl w' = tbl w"
  using refines_ok [OF refresh_law [OF assms(1), of k b x], of w _ w']
    refines_error [OF refresh_law [OF assms(1), of k b x], of w _ w'] assms(4)
    held_excludes(2) [OF assms(2,3)]
  by (cases r) auto

lemma finish_succeeds:
  assumes "ok h tbl" and "finish h k a w = Some (Inr b, w')"
  shows "in_state (digest h) (tbl w) k TASK_STATE_PROCESSING" and "owner_of (tbl w) k = Some (PStr a)"
    and "in_state (digest h) (tbl w') k TASK_STATE_FINISHED" and "owner_of (tbl w') k = Some (PStr a)"
  using refines_ok [OF finish_law [OF assms(1)] assms(2)] by (auto simp: task_step_simps row_defs)

lemma finalize_succeeds:
  assumes "ok h tbl" and "finalize h k st w = Some (Inr b, w')"
  shows "in_state (digest h) (tbl w') k st" and "owner_of (tbl w') k = Some (PStr ''None'')"
  using refines_ok [OF finalize_law [OF assms(1)] assms(2)] by (auto simp: task_step_simps row_defs)

lemma retry_succeeds:
  assumes "ok h tbl" and "retry h k n w = Some (Inr b, w')"
  shows "in_state (digest h) (tbl w) k TASK_STATE_PROCESSING"
    and "in_state (digest h) (tbl w') k TASK_STATE_PENDING" and "owner_of (tbl w') k = Some (PStr ''None'')"
    and "\<exists>i. tbl w' k = Some i \<and> i ''retries'' = Some (PInt n)"
  using refines_ok [OF retry_law [OF assms(1)] assms(2)] by (auto simp: task_step_simps row_defs)

end

interpretation ddb_store: task_store
  "\<lambda>h tbl. ddb_documented (fst h) tbl \<and> host_keeps (snd h) tbl"
  "\<lambda>h. md5_int (fst h)"
  "\<lambda>h. claim_task_for_agent (fst h)"
  "\<lambda>h. refresh_ttl_for_ongoing_task (fst h)"
  "\<lambda>h. update_task_status_to_finished (fst h) (snd h)"
  "\<lambda>h. retry_task (fst h)"
  "\<lambda>h. finalize_tasks_state (fst h)"
  "\<lambda>h. get_task_by_id (fst h)"
  by unfold_locales
    (auto intro: claim_refines refresh_refines finish_refines retry_refines finalize_refines
      get_task_by_id_keeps)

section \<open>Calls by any number of clients\<close>

text \<open>
  One call of one client; a run is a sequence of calls in the order the service serves them,
  whoever makes them.  Each caller handles its own exception.
\<close>

datatype store_call =
    CallSubmit "item list"
  | CallClaim string string string int
  | CallRefresh string string int
  | CallFinish string string
  | CallRetry string int
  | CallFinalize string string
  | CallLookup string bool

definition io_ignore :: "('w, 'a) io \<Rightarrow> ('w, unit) io" where
  "io_ignore m = io_bind m (\<lambda>_. io_return ())"

fun serve_call :: "'w ddb \<Rightarrow> 'w host \<Rightarrow> store_call \<Rightarrow> ('w, unit) io" where
  "serve_call db host (CallSubmit xs) = batch_write db xs"
| "serve_call db host (CallClaim k q a x) = io_ignore (claim_task_for_agent db k q a x)"
| "serve_call db host (CallRefresh k a x) = io_ignore (refresh_ttl_for_ongoing_task db k a x)"
| "serve_call db host (CallFinish k a) = io_ignore (update_task_status_to_finished db host k a)"
| "serve_call db host (CallRetry k n) = retry_task db k n"
| "serve_call db host (CallFinalize k st) = finalize_tasks_state db k st"
| "serve_call db host (CallLookup k c) = io_ignore (get_task_by_id db k c)"

fun serve_calls :: "'w ddb \<Rightarrow> 'w host \<Rightarrow> store_call list \<Rightarrow> 'w \<Rightarrow> 'w option" where
  "serve_calls db host [] w = Some w"
| "serve_calls db host (c # cs) w = (case serve_call db host c w of
      None \<Rightarrow> None
    | Some (_, w') \<Rightarrow> serve_calls db host cs w')"

text \<open>The calls that may take a task away from its owner.\<close>

fun call_releases :: "store_call \<Rightarrow> string \<Rightarrow> bool" where
  "call_releases (CallSubmit xs) k \<longleftrightarrow> k \<in> item_key ` set xs"
| "call_releases (CallRetry t n) k \<longleftrightarrow> t = k"
| "call_releases (CallFinalize t st) k \<longleftrightarrow> t = k"
| "call_releases _ k \<longleftrightarrow> False"

fun call_events :: "store_call \<Rightarrow> task_event set" where
  "call_events (CallSubmit xs) = {e. \<exists>ys. set ys \<subseteq> set xs \<and> e = Submit ys}"
| "call_events (CallClaim k q a x) = {Claim k q a x}"
| "call_events (CallRefresh k a x) = {Refresh k a x}"
| "call_events (CallFinish k a) = {e. \<exists>ms. e = Finish k a ms}"
| "call_events (CallRetry k n) = {Retry k n}"
| "call_events (CallFinalize k st) = {Finalize k st}"
| "call_events (CallLookup k c) = {}"

fun call_ok :: "(string \<Rightarrow> nat) \<Rightarrow> store_call \<Rightarrow> bool" where
  "call_ok md5 (CallSubmit xs) \<longleftrightarrow> list_all (submitted_row md5) xs"
| "call_ok md5 (CallClaim k q a x) \<longleftrightarrow> a \<noteq> ''None''"
| "call_ok md5 (CallFinalize k st) \<longleftrightarrow> st \<in> {TASK_STATE_FAILED, TASK_STATE_CANCELLED}"
| "call_ok md5 _ \<longleftrightarrow> True"

lemma call_events_release: "e \<in> call_events c \<Longrightarrow> releases e k \<Longrightarrow> call_releases c k"
  by (cases c) (auto simp: subset_iff)

lemma call_events_ok: "e \<in> call_events c \<Longrightarrow> call_ok md5 c \<Longrightarrow> event_ok md5 e"
  by (cases c) (auto simp: list_all_iff subset_iff)

lemma io_ignore_SomeD: "io_ignore m w = Some (r, w') \<Longrightarrow> \<exists>r'. m w = Some (r', w')"
  unfolding io_ignore_def io_bind_Some by auto

lemma serve_call_steps:
  assumes doc: "ddb_documented db tbl" "host_keeps host tbl" and run: "serve_call db host c w = Some (r, w')"
  shows "tbl w' = tbl w \<or> (\<exists>e \<in> call_events c. task_step (md5_int db) (tbl w) e (tbl w'))"
proof (cases c)
  case (CallSubmit xs)
  with run have "batch_write db xs w = Some (r, w')" by simp
  from batch_write_outcome [OF doc(1) this] obtain ys where
    "set ys \<subseteq> set xs" "tbl w' = put_items (tbl w) ys" by (cases r) auto
  with CallSubmit put_items_step [of "md5_int db" "tbl w" ys] show ?thesis by auto
next
  case (CallClaim k q a x)
  with run obtain r' where "claim_task_for_agent db k q a x w = Some (r', w')" by (auto dest: io_ignore_SomeD)
  from refines_steps [OF claim_refines [OF doc(1)] this] CallClaim show ?thesis by simp
next
  case (CallRefresh k a x)
  with run obtain r' where "refresh_ttl_for_ongoing_task db k a x w = Some (r', w')"
    by (auto dest: io_ignore_SomeD)
  from refines_steps [OF refresh_refines [OF doc(1)] this] CallRefresh show ?thesis by simp
next
  case (CallFinish k a)
  with run obtain r' where "update_task_status_to_finished db host k a w = Some (r', w')"
    by (auto dest: io_ignore_SomeD)
  from refines_steps [OF finish_refines [OF doc] this] CallFinish show ?thesis by simp
next
  case (CallRetry k n)
  with run have "retry_task db k n w = Some (r, w')" by simp
  from refines_steps [OF retry_refines [OF doc(1)] this] CallRetry show ?thesis by simp
next
  case (CallFinalize k st)
  with run have "finalize_tasks_state db k st w = Some (r, w')" by simp
  from refines_steps [OF finalize_refines [OF doc(1)] this] CallFinalize show ?thesis by simp
next
  case (CallLookup k b)
  with run obtain r' where "get_task_by_id db k b w = Some (r', w')" by (auto dest: io_ignore_SomeD)
  from keepsD [OF get_task_by_id_keeps [OF doc(1)] this] show ?thesis by simp
qed

lemma serve_calls_run:
  assumes doc: "ddb_documented db tbl" "host_keeps host tbl" and run: "serve_calls db host cs w = Some w'"
  shows "\<exists>es. task_run (md5_int db) (tbl w) es (tbl w') \<and> set es \<subseteq> (\<Union>c \<in> set cs. call_events c)"
  using run
proof (induction cs arbitrary: w)
  case Nil
  then show ?case by (auto intro: run_nil)
next
  case (Cons c cs)
  then obtain r w1 where c: "serve_call db host c w = Some (r, w1)" and cs: "serve_calls db host cs w1 = Some w'"
    by (auto split: option.splits)
  obtain es where es: "task_run (md5_int db) (tbl w1) es (tbl w')" "set es \<subseteq> (\<Union>c \<in> set cs. call_events c)"
    using Cons.IH [OF cs] by blast
  from serve_call_steps [OF doc c] show ?case
  proof
    assume "tbl w1 = tbl w"
    with es show ?thesis by auto
  next
    assume "\<exists>e \<in> call_events c. task_step (md5_int db) (tbl w) e (tbl w1)"
    then obtain e where "e \<in> call_events c" "task_step (md5_int db) (tbl w) e (tbl w1)" ..
    with es have "task_run (md5_int db) (tbl w) (e # es) (tbl w')"
      "set (e # es) \<subseteq> (\<Union>c \<in> set (c # cs). call_events c)" by (auto intro: run_cons)
    then show ?thesis by blast
  qed
qed

text \<open>None of these calls can run forever.\<close>

lemma store_ops_return:
  "returns (write_ddb_batch db b)" "returns (claim_task_for_agent db k h a x)"
  "returns (refresh_ttl_for_ongoing_task db k a x)" "returns (update_task_status_to_finished db host k a)"
  "returns (retry_task db k n)" "returns (finalize_tasks_state db k st)"
proof -
  note intros = returns_catch returns_bind returns_then returns_call returns_raise returns_return
    host_returns get_task_by_id_returns
  show "returns (write_ddb_batch db b)" unfolding write_ddb_batch_def
    by (intro intros) (auto split: exn.splits)
  show "returns (claim_task_for_agent db k h a x)" unfolding claim_task_for_agent_def Let_def
    by (intro intros) (auto split: exn.splits)
  show "returns (refresh_ttl_for_ongoing_task db k a x)" unfolding refresh_ttl_for_ongoing_task_def Let_def
    by (intro intros) (auto intro!: intros split: exn.splits)
  show "returns (update_task_status_to_finished db host k a)"
    unfolding update_task_status_to_finished_def Let_def
    by (intro intros) (auto intro!: intros split: exn.splits)
  show "returns (retry_task db k n)" unfolding retry_task_def
    by (intro intros) (auto split: exn.splits)
  show "returns (finalize_tasks_state db k st)" unfolding finalize_tasks_state_def
    by (intro intros) (auto split: exn.splits)
qed

lemma serve_call_returns: "returns (serve_call db host c)"
  by (cases c) (auto simp: io_ignore_def batch_write_def
      intro!: returns_bind returns_foreach store_ops_return get_task_by_id_returns)

lemma serve_calls_total: "\<exists>w'. serve_calls db host cs w = Some w'"
proof (induction cs arbitrary: w)
  case Nil
  then show ?case by simp
next
  case (Cons c cs)
  obtain r w1 where "serve_call db host c w = Some (r, w1)"
    using serve_call_returns [of db host c] by (fastforce simp: returns_def)
  with Cons.IH [of w1] show ?case by simp
qed

lemma serve_calls_held:
  assumes "ddb_documented db tbl" "host_keeps host tbl" "serve_calls db host cs w = Some w'"
    and "held (md5_int db) (tbl w) k a" and "\<forall>c \<in> set cs. \<not> call_releases c k"
  shows "held (md5_int db) (tbl w') k a"
proof -
  from serve_calls_run [OF assms(1-3)] obtain es where es: "task_run (md5_int db) (tbl w) es (tbl w')"
    and sub: "set es \<subseteq> (\<Union>c \<in> set cs. call_events c)" by (elim exE conjE)
  have "\<forall>e \<in> set es. \<not> releases e k"
  proof
    fix e
    assume "e \<in> set es"
    with sub obtain c where "c \<in> set cs" "e \<in> call_events c" by auto
    with assms(5) call_events_release show "\<not> releases e k" by blast
  qed
  from held_run [OF es assms(4) this] show ?thesis .
qed

lemma serve_calls_reachable:
  assumes "ddb_documented db tbl" "host_keeps host tbl" "serve_calls db host cs w = Some w'"
    and "reachable (md5_int db) (tbl w)" and "\<forall>c \<in> set cs. call_ok (md5_int db) c"
  shows "reachable (md5_int db) (tbl w')"
proof -
  from serve_calls_run [OF assms(1-3)] obtain es where es: "task_run (md5_int db) (tbl w) es (tbl w')"
    and sub: "set es \<subseteq> (\<Union>c \<in> set cs. call_events c)" by (elim exE conjE)
  have "event_ok (md5_int db) e" if "e \<in> set es" for e
  proof -
    from that sub obtain c where "c \<in> set cs" "e \<in> call_events c" by auto
    with assms(5) call_events_ok show ?thesis by blast
  qed
  then have "list_all (event_ok (md5_int db)) es" by (simp add: list_all_iff)
  with es assms(4) show ?thesis by (rule reachable_run)
qed

end
