(* ===== verification/MemoryTable.thy ===== *)
theory MemoryTable
  imports DynamoTable "HOL-Library.AList"
begin

text \<open>
  A concrete DynamoDB and host, kept in memory, that behave as documented: the rows as an
  association list, a list of error codes with which the next update calls are refused (the
  empty code serves the call), and a clock that stands still.  The hypotheses of the theorems
  about the services are shown satisfiable with it, and the theorems are applied to it.
\<close>

record mem_world =
  mem_rows :: "(string \<times> item) list"
  mem_faults :: "string list"
  mem_clock :: int

definition mem_table :: "'a mem_world_scheme \<Rightarrow> table" where
  "mem_table w = map_of (mem_rows w)"

fun key_cond_holds :: "key_cond \<Rightarrow> item \<Rightarrow> bool" where
  "key_cond_holds (KeyEq a v) i \<longleftrightarrow> i a = Some v"
| "key_cond_holds (KeyLt a n) i \<longleftrightarrow> (case i a of Some (PInt m) \<Rightarrow> m < n | _ \<Rightarrow> False)"
| "key_cond_holds (KeyGt a n) i \<longleftrightarrow> (case i a of Some (PInt m) \<Rightarrow> m > n | _ \<Rightarrow> False)"

definition index_rows :: "(string \<times> item) list \<Rightarrow> key_cond list \<Rightarrow> item list" where
  "index_rows rows conds =
     filter (\<lambda>i. list_all (\<lambda>c. key_cond_holds c i) conds) (map snd (AList.clearjunk rows))"

definition base_rows :: "(string \<times> item) list \<Rightarrow> key_cond list \<Rightarrow> item list" where
  "base_rows rows conds = (case conds of
      [KeyEq a (PStr k)] \<Rightarrow> (case map_of rows k of None \<Rightarrow> [] | Some i \<Rightarrow> [i])
    | _ \<Rightarrow> [])"

definition mem_update ::
  "update_request \<Rightarrow> 'a mem_world_scheme \<Rightarrow> (exn + unit) \<times> 'a mem_world_scheme" where
  "mem_update r w =
     (let code = (case mem_faults w of [] \<Rightarrow> [] | c # cs \<Rightarrow> c);
          w' = w\<lparr>mem_faults := tl (mem_faults w)\<rparr>;
          old = map_of (mem_rows w) (upd_key r);
          base = (case old of None \<Rightarrow> [''task_id'' \<mapsto> PStr (upd_key r)] | Some i \<Rightarrow> i);
          meets = (case upd_cond r of None \<Rightarrow> True
            | Some c \<Rightarrow> (case old of None \<Rightarrow> False | Some i \<Rightarrow> cond_holds c i))
      in if code \<noteq> [] \<and> code \<noteq> CONDITION_FAILED then (Inl (ClientError code ''refused''), w')
         else if meets
         then (Inr (), w'\<lparr>mem_rows := AList.update (upd_key r) (apply_sets base (upd_set r)) (mem_rows w)\<rparr>)
         else (Inl (ClientError CONDITION_FAILED ''The conditional request failed''), w'))"

definition mem_query ::
  "query_request \<Rightarrow> 'a mem_world_scheme \<Rightarrow> (exn + query_response) \<times> 'a mem_world_scheme" where
  "mem_query q w = (Inr \<lparr>r_items = (case q_index q of
       None \<Rightarrow> base_rows (mem_rows w) (q_conds q)
     | Some _ \<Rightarrow> index_rows (mem_rows w) (q_conds q)), r_last_key = None\<rparr>, w)"

definition mem_batch :: "item list \<Rightarrow> 'a mem_world_scheme \<Rightarrow> (exn + unit) \<times> 'a mem_world_scheme" where
  "mem_batch xs w =
     (Inr (), w\<lparr>mem_rows := fold (\<lambda>i rows. AList.update (item_key i) i rows) xs (mem_rows w)\<rparr>)"

definition mem_ddb :: "'a mem_world_scheme ddb" where
  "mem_ddb = \<lparr>ddb_update_item = mem_update, ddb_query = mem_query, ddb_batch_write = mem_batch,
     md5_int = length\<rparr>"

definition mem_host :: "'a mem_world_scheme host" where
  "mem_host = \<lparr>now_ms = (\<lambda>w. (mem_clock w, w)), randint = (\<lambda>lo hi w. (lo, w)), sleep_sec = (\<lambda>s w. w)\<rparr>"

lemma mem_ddb_simps [simp]:
  "ddb_update_item mem_ddb = mem_update" "ddb_query mem_ddb = mem_query"
  "ddb_batch_write mem_ddb = mem_batch" "md5_int mem_ddb = length"
  by (simp_all add: mem_ddb_def)

lemma mem_host_simps [simp]:
  "now_ms mem_host w = (mem_clock w, w)" "randint mem_host lo hi w = (lo, w)"
  "sleep_sec mem_host s w = w"
  by (simp_all add: mem_host_def)

lemma fold_update_rows:
  "map_of (fold (\<lambda>i rows. AList.update (item_key i) i rows) xs rows) = put_items (map_of rows) xs"
  by (induction xs arbitrary: rows) (simp_all add: update_conv')

lemma mem_update_documented: "update_documented mem_ddb mem_table"
  unfolding update_documented_def
proof (intro allI)
  fix r and w :: "'a mem_world_scheme"
  show "case ddb_update_item mem_ddb r w of (res, w') \<Rightarrow> (case res of
      Inr _ \<Rightarrow> update_outcome (mem_table w) r = Some (mem_table w')
    | Inl (ClientError c m) \<Rightarrow> mem_table w' = mem_table w \<and>
        (c = CONDITION_FAILED \<longrightarrow> update_outcome (mem_table w) r = None)
    | Inl (ServiceFailure m) \<Rightarrow> mem_table w' = mem_table w \<or> update_outcome (mem_table w) r = Some (mem_table w')
    | Inl _ \<Rightarrow> False)"
    by (auto simp: mem_update_def Let_def mem_table_def update_outcome_def update_conv'
        split: option.splits list.splits)
qed

lemma mem_query_documented: "query_documented mem_ddb mem_table"
  by (auto simp: query_documented_def mem_query_def base_rows_def mem_table_def)

lemma mem_batch_documented: "batch_documented mem_ddb mem_table"
  by (simp add: batch_documented_def mem_batch_def mem_table_def fold_update_rows)

lemma mem_ddb_documented: "ddb_documented mem_ddb mem_table"
  unfolding ddb_documented_def
  by (intro conjI mem_update_documented mem_query_documented mem_batch_documented)

lemma mem_host_keeps: "host_keeps mem_host v"
  by (auto simp: host_keeps_def keeps_def io_read_apply)

lemma mem_host_documented: "host_documented mem_host"
  by (simp add: host_documented_def)

text \<open>Rows the witnesses use.\<close>

definition pending_row :: "string \<Rightarrow> item" where
  "pending_row k = [''task_id'' \<mapsto> PStr k,
     ''task_status'' \<mapsto> PStr (make_task_state_from_task_id length TASK_STATE_PENDING k),
     ''task_owner'' \<mapsto> PStr ''None'', ''retries'' \<mapsto> PInt 0]"

definition owned_row :: "string \<Rightarrow> string \<Rightarrow> string \<Rightarrow> item" where
  "owned_row k st a = [''task_id'' \<mapsto> PStr k,
     ''task_status'' \<mapsto> PStr (make_task_state_from_task_id length st k),
     ''task_owner'' \<mapsto> PStr a, ''retries'' \<mapsto> PInt 0]"

end
