(* ===== verification/StateTableProps.thy ===== *)
theory StateTableProps
  imports StateTableLaws MemoryTable
begin

text \<open>
  The properties of \<open>StateTableDDB\<close>: what its methods promise the agents and the lambdas, with
  witnesses on the table kept in memory.
\<close>

section \<open>Ownership\<close>

lemma held_excludes_calls:
  assumes doc: "ddb_documented db tbl" "host_keeps host tbl" and held: "held (md5_int db) (tbl w) k a"
  shows "claim_task_for_agent db k h b x w = Some (r, w') \<Longrightarrow> \<exists>e. r = Inl e \<and> tbl w' = tbl w"
    and "b \<noteq> a \<Longrightarrow> refresh_ttl_for_ongoing_task db k b x w = Some (r, w') \<Longrightarrow> \<exists>e. r = Inl e \<and> tbl w' = tbl w"
    and "b \<noteq> a \<Longrightarrow> update_task_status_to_finished db host k b w = Some (r, w') \<Longrightarrow>
      \<exists>e. r = Inl e \<and> tbl w' = tbl w"
  using ddb_store.held_blocks_claim [of "(db, host)" tbl w k a h b x r w']
    ddb_store.held_blocks_refresh [of "(db, host)" tbl w k a b x r w']
    ddb_store.held_blocks_finish [of "(db, host)" tbl w k a b r w'] doc held
  by auto

text \<open>C1. Mutual exclusion. Once an agent's claim of a task has succeeded, the task stays with it
  through any sequence of calls by any clients, in any order, that contains no retry, cancellation,
  failure or resubmission of this task; and all along, a claim by anybody and a heartbeat or a
  completion by any other agent raises and leaves the whole table as it was.\<close>

theorem claim_mutual_exclusion:
  assumes "ddb_documented db tbl" and "host_keeps host tbl"
    and "claim_task_for_agent db k q a x w = Some (Inr True, w1)"
    and "serve_calls db host cs w1 = Some w2" and "\<forall>c \<in> set cs. \<not> call_releases c k"
  shows "held (md5_int db) (tbl w2) k a \<and>
     (\<forall>h b y r w3. claim_task_for_agent db k h b y w2 = Some (r, w3) \<longrightarrow> (\<exists>e. r = Inl e) \<and> tbl w3 = tbl w2) \<and>
     (\<forall>b y r w3. b \<noteq> a \<and> refresh_ttl_for_ongoing_task db k b y w2 = Some (r, w3) \<longrightarrow>
        (\<exists>e. r = Inl e) \<and> tbl w3 = tbl w2) \<and>
     (\<forall>b r w3. b \<noteq> a \<and> update_task_status_to_finished db host k b w2 = Some (r, w3) \<longrightarrow>
        (\<exists>e. r = Inl e) \<and> tbl w3 = tbl w2)"
proof -
  have "held (md5_int db) (tbl w1) k a"
    using ddb_store.claim_succeeds(3) [of "(db, host)" tbl k q a x w True w1] assms(1-3) by simp
  then have held: "held (md5_int db) (tbl w2) k a"
    by (rule serve_calls_held [OF assms(1,2,4) _ assms(5)])
  note ex = held_excludes_calls [OF assms(1,2) held]
  show ?thesis
  proof (intro conjI allI impI held)
    fix h b y r w3
    assume "claim_task_for_agent db k h b y w2 = Some (r, w3)"
    then show "\<exists>e. r = Inl e" "tbl w3 = tbl w2" using ex(1) by blast+
  next
    fix b y r w3
    assume "b \<noteq> a \<and> refresh_ttl_for_ongoing_task db k b y w2 = Some (r, w3)"
    then show "\<exists>e. r = Inl e" "tbl w3 = tbl w2" using ex(2) by blast+
  next
    fix b r w3
    assume "b \<noteq> a \<and> update_task_status_to_finished db host k b w2 = Some (r, w3)"
    then show "\<exists>e. r = Inl e" "tbl w3 = tbl w2" using ex(3) by blast+
  qed
qed

definition one_pending :: mem_world where
  "one_pending = \<lparr>mem_rows = [(''s_1'', pending_row ''s_1'')], mem_faults = [], mem_clock = 0\<rparr>"

lemma pending_row_conditions:
  "pending_row k ''task_status'' =
     Some (PStr (make_task_state_from_session_id length TASK_STATE_PENDING (get_session_id_from_task_id k)))"
  "pending_row k ''task_owner'' = Some (PStr ''None'')"
  by (simp_all add: pending_row_def make_task_state_from_task_id_def)

lemma one_pending_claimed:
  "\<exists>w1. claim_task_for_agent mem_ddb ''s_1'' ''h'' ''agent'' 100 one_pending = Some (Inr True, w1)"
  by (simp add: claim_task_for_agent_def Let_def io_apply mem_update_def one_pending_def
      pending_row_conditions)

theorem claim_mutual_exclusion_witness:
  "\<exists>w1 w2. claim_task_for_agent mem_ddb ''s_1'' ''h'' ''agent'' 100 one_pending = Some (Inr True, w1) \<and>
     serve_calls mem_ddb mem_host [CallClaim ''s_1'' ''g'' ''other'' 200, CallLookup ''s_1'' True] w1 = Some w2 \<and>
     held length (mem_table w2) ''s_1'' ''agent''"
proof -
  obtain w1 where c: "claim_task_for_agent mem_ddb ''s_1'' ''h'' ''agent'' 100 one_pending = Some (Inr True, w1)"
    using one_pending_claimed by blast
  define cs where "cs = [CallClaim ''s_1'' ''g'' ''other'' 200, CallLookup ''s_1'' True]"
  have "\<exists>w2. serve_calls mem_ddb mem_host cs w1 = Some w2" by (rule serve_calls_total)
  then obtain w2 where s: "serve_calls mem_ddb mem_host cs w1 = Some w2" ..
  have "\<forall>c \<in> set cs. \<not> call_releases c ''s_1''" by (simp add: cs_def)
  from claim_mutual_exclusion [OF mem_ddb_documented mem_host_keeps c s this]
  show ?thesis using c s unfolding cs_def by auto
qed

text \<open>C2. From an empty table, whatever calls the clients make and whatever the service answers, every
  row is in one of the five states of its session's partition, has its key as its task id, and has
  an owner exactly when it is being processed or was finished (clients submit pending rows, agents
  are not called \<open>None\<close>, and only failed and cancelled are set unconditionally).\<close>

theorem reachable_rows_well_formed:
  assumes "ddb_documented db tbl" and "host_keeps host tbl" and "tbl w = Map.empty"
    and "\<forall>c \<in> set cs. call_ok (md5_int db) c" and "serve_calls db host cs w = Some w'"
    and "tbl w' k = Some i"
  shows "i ''task_id'' = Some (PStr k) \<and>
     (\<exists>st \<in> set task_states. i ''task_status'' = Some (PStr (make_task_state_from_task_id (md5_int db) st k)) \<and>
        (if st = TASK_STATE_PROCESSING \<or> st = TASK_STATE_FINISHED
         then (\<exists>a. a \<noteq> ''None'' \<and> i ''task_owner'' = Some (PStr a))
         else i ''task_owner'' = Some (PStr ''None'')))"
proof -
  have "reachable (md5_int db) (tbl w)" by (simp add: assms(3) empty_table)
  then have "reachable (md5_int db) (tbl w')"
    by (rule serve_calls_reachable [OF assms(1,2,5) _ assms(4)])
  then have "row_ok (md5_int db) (tbl w') k" using reachable_table_ok by (auto simp: table_ok_def)
  with assms(6) show ?thesis unfolding row_ok_def owner_fits_def in_state_def status_of_def by simp
qed

definition no_rows :: mem_world where
  "no_rows = \<lparr>mem_rows = [], mem_faults = [], mem_clock = 0\<rparr>"

lemma pending_row_submitted: "submitted_row length (pending_row k)"
  by (simp add: submitted_row_def pending_row_def item_key_def)

lemma one_row_submitted:
  "\<exists>w'. serve_calls mem_ddb mem_host [CallSubmit [pending_row ''s_1'']] no_rows = Some w' \<and>
     mem_table w' ''s_1'' = Some (pending_row ''s_1'')"
  by (simp add: batch_write_def chunks.simps MAX_WRITE_BATCHS_SIZE_def write_ddb_batch_def io_apply
      mem_batch_def no_rows_def mem_table_def item_key_def pending_row_def)

theorem reachable_rows_well_formed_witness:
  "\<exists>w'. serve_calls mem_ddb mem_host [CallSubmit [pending_row ''s_1'']] no_rows = Some w' \<and>
     mem_table w' ''s_1'' = Some (pending_row ''s_1'') \<and> pending_row ''s_1'' ''task_id'' = Some (PStr ''s_1'')"
proof -
  obtain w' where w': "serve_calls mem_ddb mem_host [CallSubmit [pending_row ''s_1'']] no_rows = Some w'"
    "mem_table w' ''s_1'' = Some (pending_row ''s_1'')" using one_row_submitted by blast
  have e: "mem_table no_rows = Map.empty" by (simp add: mem_table_def no_rows_def)
  have ok: "\<forall>c \<in> set [CallSubmit [pending_row ''s_1'']]. call_ok (md5_int mem_ddb) c"
    by (simp add: pending_row_submitted)
  from reachable_rows_well_formed [OF mem_ddb_documented mem_host_keeps e ok w'] w' show ?thesis by blast
qed

text \<open>The row a claim finds, and the table it leaves.\<close>

definition claimable :: "(string \<Rightarrow> nat) \<Rightarrow> table \<Rightarrow> string \<Rightarrow> bool" where
  "claimable md5 t k \<longleftrightarrow> (\<exists>i. t k = Some i \<and>
     i ''task_status'' = Some (PStr (make_task_state_from_task_id md5 TASK_STATE_PENDING k)) \<and>
     i ''task_owner'' = Some (PStr ''None''))"

definition claimed_table :: "(string \<Rightarrow> nat) \<Rightarrow> table \<Rightarrow> string \<Rightarrow> string \<Rightarrow> string \<Rightarrow> int \<Rightarrow> table" where
  "claimed_table md5 t k h a x = t(k \<mapsto> (the (t k))(''task_owner'' \<mapsto> PStr a,
     ''task_status'' \<mapsto> PStr (make_task_state_from_task_id md5 TASK_STATE_PROCESSING k),
     ''heartbeat_expiration_timestamp'' \<mapsto> PInt x, ''sqs_handler_id'' \<mapsto> PStr h))"

lemma claim_step_iff:
  "task_step md5 t (Claim k h a x) t' \<longleftrightarrow> claimable md5 t k \<and> t' = claimed_table md5 t k h a x"
  by (auto simp: task_step_simps row_defs claimable_def claimed_table_def)

text \<open>C3. A claim makes one request to the state table and always answers.  If the table accepts it, the row was pending and
  without owner, the agent, the state processing, the expiration and the queue handle are written into it and nothing
  else, and the answer is \<open>True\<close>.  An error response means that nothing was changed: a failed condition is reported as a
  condition, and then the row could not be claimed; throttling is reported as throttling; any other error response as a
  general exception with its text.  A call that failed without a response is raised as it is, and the claim was either not made or
  made in full.\<close>

theorem claim_effect:
  assumes "ddb_documented db tbl"
  shows "\<exists>q res r w'. ddb_update_item db q w = (res, w') \<and> claim_task_for_agent db k h a x w = Some (r, w') \<and> (case res of
      Inr _ \<Rightarrow> r = Inr True \<and> claimable (md5_int db) (tbl w) k \<and> tbl w' = claimed_table (md5_int db) (tbl w) k h a x
    | Inl (ClientError c m) \<Rightarrow> tbl w' = tbl w \<and> r = Inl (
        if c = ''ConditionalCheckFailedException'' then StateTableException False True
        else if c = ''ThrottlingException'' \<or> c = ''ProvisionedThroughputExceededException'' then StateTableException True False
        else GenericException (exn_str (ClientError c m))) \<and>
        (c = ''ConditionalCheckFailedException'' \<longrightarrow> \<not> claimable (md5_int db) (tbl w) k)
    | Inl (ServiceFailure m) \<Rightarrow> r = Inl (ServiceFailure m) \<and> (tbl w' = tbl w \<or>
        claimable (md5_int db) (tbl w) k \<and> tbl w' = claimed_table (md5_int db) (tbl w) k h a x)
    | Inl _ \<Rightarrow> False)"
proof -
  define q where "q = \<lparr>upd_key = k,
     upd_set = [(''task_owner'', PStr a),
       (''task_status'', PStr (make_task_state_from_session_id (md5_int db) TASK_STATE_PROCESSING
          (get_session_id_from_task_id k))),
       (''heartbeat_expiration_timestamp'', PInt x), (''sqs_handler_id'', PStr h)],
     upd_cond = Some [(''task_status'', PStr (make_task_state_from_session_id (md5_int db) TASK_STATE_PENDING
          (get_session_id_from_task_id k))), (''task_owner'', PStr ''None'')]\<rparr>"
  obtain res w' where u: "ddb_update_item db q w = (res, w')" by (metis prod.exhaust)
  note out = ddb_update_case [OF assms u]
  have iff: "update_outcome (tbl w) q = Some t' \<longleftrightarrow>
      claimable (md5_int db) (tbl w) k \<and> t' = claimed_table (md5_int db) (tbl w) k h a x" for t'
    unfolding q_def claim_request claim_step_iff ..
  then have none: "update_outcome (tbl w) q = None \<longleftrightarrow> \<not> claimable (md5_int db) (tbl w) k"
    by (cases "update_outcome (tbl w) q") auto
  have run: "claim_task_for_agent db k h a x w = (case res of
      Inr _ \<Rightarrow> Some (Inr True, w')
    | Inl (ClientError c m) \<Rightarrow> Some (Inl (if c = CONDITION_FAILED then StateTableException False True
        else if c \<in> set throttling_codes then StateTableException True False
        else GenericException (exn_str (ClientError c m))), w')
    | Inl e \<Rightarrow> Some (Inl e, w'))"
    using u by (simp add: claim_task_for_agent_def Let_def q_def [symmetric] io_apply split: sum.split exn.split)
  show ?thesis
  proof (cases res)
    case (Inr y)
    with out run u iff show ?thesis by (intro exI [of _ q] exI [of _ res] exI [of _ "Inr True"] exI [of _ w']) simp
  next
    case (Inl e)
    with out consider c m where "e = ClientError c m" | m where "e = ServiceFailure m" by (cases e) auto
    then show ?thesis
    proof cases
      case (1 c m)
      define ex where "ex = (if c = CONDITION_FAILED then StateTableException False True
        else if c \<in> set throttling_codes then StateTableException True False
        else GenericException (exn_str (ClientError c m)))"
      have "claim_task_for_agent db k h a x w = Some (Inl ex, w')" using run Inl 1 by (simp add: ex_def)
      moreover have "ex = (if c = ''ConditionalCheckFailedException'' then StateTableException False True
        else if c = ''ThrottlingException'' \<or> c = ''ProvisionedThroughputExceededException'' then StateTableException True False
        else GenericException (exn_str (ClientError c m)))"
        unfolding ex_def by (simp only: CONDITION_FAILED_def throttling_codes_def list.set insert_iff empty_iff simp_thms)
      moreover have "tbl w' = tbl w" "c = CONDITION_FAILED \<longrightarrow> \<not> claimable (md5_int db) (tbl w) k"
        using out Inl 1 none by simp_all
      ultimately show ?thesis using u Inl 1
        by (intro exI [of _ q] exI [of _ res] exI [of _ "Inl ex"] exI [of _ w'])
          (simp only: sum.case exn.case CONDITION_FAILED_def simp_thms)
    next
      case (2 m)
      with Inl out run u iff show ?thesis
        by (intro exI [of _ q] exI [of _ res] exI [of _ "Inl (ServiceFailure m)"] exI [of _ w']) auto
    qed
  qed
qed

theorem claim_effect_witness:
  "\<exists>w1 i. claim_task_for_agent mem_ddb ''s_1'' ''h'' ''agent'' 100 one_pending = Some (Inr True, w1) \<and>
     mem_table w1 ''s_1'' = Some i \<and> i ''task_owner'' = Some (PStr ''agent'')"
proof -
  obtain w1 where c: "claim_task_for_agent mem_ddb ''s_1'' ''h'' ''agent'' 100 one_pending = Some (Inr True, w1)"
    using one_pending_claimed by blast
  note eff = claim_effect [OF mem_ddb_documented, of one_pending "''s_1''" "''h''" "''agent''" 100]
  have "mem_table w1 = claimed_table (md5_int mem_ddb) (mem_table one_pending) ''s_1'' ''h'' ''agent'' 100"
    using eff unfolding c
  proof (elim exE conjE)
    fix q res r w'
    assume "Some (Inr True :: exn + bool, w1) = Some (r, w')" and res: "case res of
        Inr _ \<Rightarrow> r = Inr True \<and> claimable (md5_int mem_ddb) (mem_table one_pending) ''s_1'' \<and>
          mem_table w' = claimed_table (md5_int mem_ddb) (mem_table one_pending) ''s_1'' ''h'' ''agent'' 100
      | Inl (ClientError c m) \<Rightarrow> mem_table w' = mem_table one_pending \<and> r = Inl (
          if c = ''ConditionalCheckFailedException'' then StateTableException False True
          else if c = ''ThrottlingException'' \<or> c = ''ProvisionedThroughputExceededException'' then StateTableException True False
          else GenericException (exn_str (ClientError c m))) \<and>
          (c = ''ConditionalCheckFailedException'' \<longrightarrow> \<not> claimable (md5_int mem_ddb) (mem_table one_pending) ''s_1'')
      | Inl (ServiceFailure m) \<Rightarrow> r = Inl (ServiceFailure m) \<and> (mem_table w' = mem_table one_pending \<or>
          claimable (md5_int mem_ddb) (mem_table one_pending) ''s_1'' \<and>
          mem_table w' = claimed_table (md5_int mem_ddb) (mem_table one_pending) ''s_1'' ''h'' ''agent'' 100)
      | Inl _ \<Rightarrow> False"
    then have "r = Inr True" "w' = w1" by simp_all
    with res show ?thesis by (cases res) (simp, rename_tac e, case_tac e, simp_all)
  qed
  with c show ?thesis by (simp add: claimed_table_def)
qed

section \<open>Partitions\<close>

text \<open>Whatever partition the TTL lambda starts at, the generator of expired tasks visits each of the
  32 partitions exactly once, runs one query for it and the loop body on its rows, in that order,
  and so delivers every row that the queries of the partitions return.\<close>

theorem expired_tasks_all_partitions:
  assumes "\<And>p v. p < 32 \<Longrightarrow> \<exists>v'. get_expired_tasks_for_partition db host p v = Some (Inr (expired p), v') \<and> seen v' = seen v"
    and "\<And>xs v. \<exists>v'. body xs v = Some (Inr (), v') \<and> seen v' = seen v @ xs"
    and "seen (snd (randint host 0 31 w)) = seen w"
  shows "\<exists>ps w'. distinct ps \<and> set ps = {0..<32} \<and>
     query_expired_tasks db host body w = Some (Inr (), w') \<and> seen w' = seen w @ concat (map expired ps)"
proof -
  define s where "s = nat (fst (randint host 0 31 w))"
  have loop: "\<exists>w'. io_foreach ps (\<lambda>p. io_bind (get_expired_tasks_for_partition db host p) body) v = Some (Inr (), w') \<and>
      seen w' = seen v @ concat (map expired ps)" if "\<forall>p \<in> set ps. p < 32" for ps v
    using that
  proof (induction ps arbitrary: v)
    case Nil
    then show ?case by simp
  next
    case (Cons p ps)
    obtain v1 where v1: "get_expired_tasks_for_partition db host p v = Some (Inr (expired p), v1)" "seen v1 = seen v"
      using assms(1) [of p v] Cons.prems by auto
    obtain v2 where v2: "body (expired p) v1 = Some (Inr (), v2)" "seen v2 = seen v1 @ expired p"
      using assms(2) by blast
    obtain w' where "io_foreach ps (\<lambda>p. io_bind (get_expired_tasks_for_partition db host p) body) v2 = Some (Inr (), w')"
      "seen w' = seen v2 @ concat (map expired ps)" using Cons.IH [of v2] Cons.prems by auto
    with v1 v2 show ?case by (auto simp: io_then_Inr io_bind_Inr)
  qed
  have perm: "distinct (partitions_from s) \<and> set (partitions_from s) = {0..<32}"
    using partitions_from_permutation [of s] by (simp add: MAX_STATE_PARTITIONS_def)
  have "query_expired_tasks db host body w = io_foreach (partitions_from s)
      (\<lambda>p. io_bind (get_expired_tasks_for_partition db host p) body) (snd (randint host 0 31 w))"
    by (simp add: query_expired_tasks_def expired_loop_def random_int_def io_apply s_def MAX_STATE_PARTITIONS_def)
  with loop [of "partitions_from s" "snd (randint host 0 31 w)"] perm assms(3) show ?thesis by auto
qed

definition expired_row :: item where
  "expired_row = (owned_row ''s_1'' TASK_STATE_PROCESSING ''agent'')(''heartbeat_expiration_timestamp'' \<mapsto> PInt 5)"

record logged_world = mem_world +
  seen_items :: "item list"

definition one_expired :: logged_world where
  "one_expired = \<lparr>mem_rows = [(''s_1'', expired_row)], mem_faults = [], mem_clock = 10000, seen_items = []\<rparr>"

definition log_items :: "item list \<Rightarrow> (logged_world, unit) io" where
  "log_items xs = io_modify (\<lambda>w. w\<lparr>seen_items := seen_items w @ xs\<rparr>)"

text \<open>A table that never changes and whose partition 1 has one expired row.\<close>

definition expired_ddb :: "logged_world ddb" where
  "expired_ddb = mem_ddb\<lparr>ddb_query := (\<lambda>q w. (Inr \<lparr>r_items =
     (if q_conds q = [KeyEq ''task_status'' (PStr (make_task_state_from_state_and_partition
          TASK_STATE_PROCESSING 1)), KeyLt ''heartbeat_expiration_timestamp'' (mem_clock w div 1000)]
      then [expired_row] else []), r_last_key = None\<rparr>, w))\<rparr>"

theorem expired_tasks_all_partitions_witness:
  "\<exists>w'. query_expired_tasks expired_ddb mem_host log_items one_expired = Some (Inr (), w') \<and>
     seen_items w' = [expired_row]"
proof -
  define rows where "rows p = (if p = 1 then [expired_row] else [])" for p :: nat
  have state: "make_task_state_from_state_and_partition TASK_STATE_PROCESSING p =
      make_task_state_from_state_and_partition TASK_STATE_PROCESSING 1 \<longleftrightarrow> p = 1" for p
    by (simp add: make_task_state_inject)
  have get: "\<exists>v'. get_expired_tasks_for_partition expired_ddb mem_host p v = Some (Inr (rows p), v') \<and>
      seen_items v' = seen_items v" for p v
    using state [of p]
    by (simp add: get_expired_tasks_for_partition_def time_now_sec_def io_apply expired_ddb_def rows_def)
  have body: "\<exists>v'. log_items xs v = Some (Inr (), v') \<and> seen_items v' = seen_items v @ xs" for xs v
    by (simp add: log_items_def)
  from expired_tasks_all_partitions [of expired_ddb mem_host rows seen_items log_items one_expired, OF get body]
  obtain ps w' where ps: "distinct ps" "set ps = {0..<32}"
    and run: "query_expired_tasks expired_ddb mem_host log_items one_expired = Some (Inr (), w')"
    and got: "seen_items w' = seen_items one_expired @ concat (map rows ps)" by auto
  have "concat (map rows ps) = (if 1 \<in> set ps then [expired_row] else [])" using ps(1)
    by (induction ps) (auto simp: rows_def)
  with ps run got show ?thesis by (simp add: one_expired_def)
qed

text \<open>The status stored for a task names its state and its partition unambiguously: two states and
  two sessions give the same text exactly when the states are the same and the sessions fall into
  the same partition, the partition is below 32, and the text starts with \<open>cancelled\<close> exactly
  for the cancelled state.\<close>

theorem stored_status_unambiguous:
  assumes "st \<in> set task_states" and "st' \<in> set task_states"
  shows "(make_task_state_from_session_id md5 st s = make_task_state_from_session_id md5 st' s' \<longleftrightarrow>
       st = st' \<and> md5 s mod 32 = md5 s' mod 32) \<and>
     (str_startswith (make_task_state_from_session_id md5 st s) TASK_STATE_CANCELLED \<longleftrightarrow>
       st = TASK_STATE_CANCELLED)"
  using make_task_state_session_inject [OF assms] startswith_cancelled [OF assms(1)]
  by (simp add: get_state_partition_from_session_id_def get_state_partition_at_index_def
      MAX_STATE_PARTITIONS_def make_task_state_from_session_id_def)

theorem stored_status_unambiguous_witness:
  "make_task_state_from_session_id length TASK_STATE_PENDING ''a'' \<noteq>
     make_task_state_from_session_id length TASK_STATE_FINISHED ''a'' \<and>
   \<not> str_startswith (make_task_state_from_session_id length TASK_STATE_PENDING ''a'') TASK_STATE_CANCELLED"
  using stored_status_unambiguous [of TASK_STATE_PENDING TASK_STATE_FINISHED length "''a''" "''a''"]
  by simp

section \<open>Pages\<close>

text \<open>
  \<open>serves_pages db request ps\<close>: the service answers the request with the pages \<open>ps\<close>; each page but
  the last comes with the key of the next.
\<close>

definition page_start :: "(nat \<Rightarrow> pykey) \<Rightarrow> nat \<Rightarrow> pykey option" where
  "page_start keys i = (if i = 0 then None else Some (keys i))"

definition serves_pages ::
  "'w ddb \<Rightarrow> (pykey option \<Rightarrow> query_request) \<Rightarrow> item list list \<Rightarrow> (nat \<Rightarrow> pykey) \<Rightarrow> bool" where
  "serves_pages db request ps keys \<longleftrightarrow> ps \<noteq> [] \<and> (\<forall>i. keys i \<noteq> []) \<and>
     (\<forall>i w. i < length ps \<longrightarrow> ddb_query db (request (page_start keys i)) w =
        (Inr \<lparr>r_items = ps ! i,
           r_last_key = (if Suc i < length ps then Some (keys (Suc i)) else None)\<rparr>, w))"

lemma serves_pagesD:
  "serves_pages db request ps keys \<Longrightarrow> i < length ps \<Longrightarrow> ddb_query db (request (page_start keys i)) w =
     (Inr \<lparr>r_items = ps ! i, r_last_key = (if Suc i < length ps then Some (keys (Suc i)) else None)\<rparr>, w)"
  by (simp add: serves_pages_def)

lemma live_pages_all:
  assumes "serves_pages db (live_query conds) ps keys" and "i < length ps"
  shows "live_pages db conds (page_start keys i) items w = Some (Inr (items @ concat (drop i ps)), w)"
  using assms(2)
proof (induction "length ps - i" arbitrary: i items)
  case 0
  then show ?case by simp
next
  case (Suc n)
  note page = serves_pagesD [OF assms(1) Suc.prems, of w]
  have drop: "drop i ps = ps ! i # drop (Suc i) ps" using Suc.prems by (simp add: Cons_nth_drop_Suc)
  show ?case
  proof (cases "Suc i < length ps")
    case True
    have "keys (Suc i) \<noteq> []" using assms(1) by (simp add: serves_pages_def)
    moreover have "live_pages db conds (page_start keys (Suc i)) (items @ ps ! i) w =
        Some (Inr ((items @ ps ! i) @ concat (drop (Suc i) ps)), w)"
      by (rule Suc.hyps) (use Suc True in auto)
    ultimately show ?thesis using page True drop
      by (subst live_pages.simps) (simp add: io_bind_apply page_start_def)
  next
    case False
    then show ?thesis using page drop by (subst live_pages.simps) (simp add: io_bind_apply)
  qed
qed

lemma session_pages_all:
  assumes "serves_pages db (session_query conds) ps keys" and "i < length ps"
  shows "session_pages db conds (page_start keys i) combined w =
     Some (Inr ((case combined of None \<Rightarrow> [] | Some xs \<Rightarrow> xs) @ concat (drop i ps)), w)"
  using assms(2)
proof (induction "length ps - i" arbitrary: i combined)
  case 0
  then show ?case by simp
next
  case (Suc n)
  note page = serves_pagesD [OF assms(1) Suc.prems, of w]
  have drop: "drop i ps = ps ! i # drop (Suc i) ps" using Suc.prems by (simp add: Cons_nth_drop_Suc)
  show ?case
  proof (cases "Suc i < length ps")
    case True
    have k: "keys (Suc i) \<noteq> []" using assms(1) by (simp add: serves_pages_def)
    have "session_pages db conds (page_start keys (Suc i)) (Some ((case combined of None \<Rightarrow> [] | Some xs \<Rightarrow> xs) @ ps ! i)) w =
        Some (Inr (((case combined of None \<Rightarrow> [] | Some xs \<Rightarrow> xs) @ ps ! i) @ concat (drop (Suc i) ps)), w)"
      using Suc.hyps(1) [of "Suc i" "Some ((case combined of None \<Rightarrow> [] | Some xs \<Rightarrow> xs) @ ps ! i)"] Suc True by auto
    with k show ?thesis using page True drop
      by (subst session_pages.simps) (cases combined; simp add: io_bind_apply page_start_def)
  next
    case False
    then show ?thesis using page drop
      by (subst session_pages.simps) (cases combined; simp add: io_bind_apply)
  qed
qed

text \<open>When DynamoDB answers in several pages, the reads by session and state and the reads of live
  tasks follow every page, end, and return the items of all pages in their order.\<close>

theorem all_pages_read:
  assumes "serves_pages db (session_query [KeyEq ''session_id'' (PStr s), KeyEq ''task_status''
      (PStr (make_task_state_from_session_id (md5_int db) st s))]) ps keys"
    and "serves_pages db (live_query [KeyEq ''task_status'' (PStr (make_task_state_from_state_and_partition
        TASK_STATE_PROCESSING p)), KeyGt ''heartbeat_expiration_timestamp'' (fst (now_ms host w) div 1000)]) qs keys'"
  shows "get_tasks_by_state db s st w = Some (Inr (concat ps), w) \<and>
     get_live_tasks_for_partition db host p w = Some (Inr (concat qs), snd (now_ms host w))"
proof -
  have "0 < length ps" "0 < length qs" using assms by (auto simp: serves_pages_def)
  then show ?thesis
    using session_pages_all [OF assms(1), of 0 None w] live_pages_all [OF assms(2), of 0 "[]" "snd (now_ms host w)"]
    by (simp add: get_tasks_by_state_def get_tasks_by_state_key_expression_def get_live_tasks_for_partition_def
        time_now_sec_def io_apply page_start_def)
qed

definition two_page_ddb :: "mem_world ddb" where
  "two_page_ddb = mem_ddb\<lparr>ddb_query := (\<lambda>q w.
     (Inr (if q_start q = None then \<lparr>r_items = [pending_row ''s_1''], r_last_key = Some [(''k'', PInt 1)]\<rparr>
           else \<lparr>r_items = [pending_row ''s_2''], r_last_key = None\<rparr>), w))\<rparr>"

theorem all_pages_read_witness:
  "get_tasks_by_state two_page_ddb ''s'' TASK_STATE_PENDING no_rows =
     Some (Inr [pending_row ''s_1'', pending_row ''s_2''], no_rows)"
proof -
  have two: "i < 2 \<Longrightarrow> i = 0 \<or> i = 1" for i :: nat by linarith
  have s: "serves_pages two_page_ddb (session_query c) [[pending_row ''s_1''], [pending_row ''s_2'']]
      (\<lambda>i. [(''k'', PInt 1)])" for c
    by (auto simp: serves_pages_def two_page_ddb_def session_query_def page_start_def dest!: two)
  have l: "serves_pages two_page_ddb (live_query c) [[pending_row ''s_1''], [pending_row ''s_2'']]
      (\<lambda>i. [(''k'', PInt 1)])" for c
    by (auto simp: serves_pages_def two_page_ddb_def live_query_def page_start_def dest!: two)
  from all_pages_read [OF s l] show ?thesis by simp
qed

section \<open>Writing and reading rows\<close>

text \<open>A batch write splits its entries into batches of at most 500, none of them empty, that
  together are the entries in order.  When it returns, every entry is in the table under its task
  id and no other row has changed; when it raises, the exception is a throttling
  \<open>StateTableException\<close> or a generic one, and only entries of the call can have been written.\<close>

theorem batch_write_writes_all:
  assumes "ddb_documented db tbl" and "batch_write db entries w = Some (r, w')"
    and "distinct (map item_key entries)"
  shows "concat (chunks MAX_WRITE_BATCHS_SIZE entries) = entries \<and>
     (\<forall>b \<in> set (chunks MAX_WRITE_BATCHS_SIZE entries). b \<noteq> [] \<and> length b \<le> 500) \<and>
     (\<forall>k. k \<notin> item_key ` set entries \<longrightarrow> tbl w' k = tbl w k) \<and>
     (case r of
        Inr _ \<Rightarrow> (\<forall>i \<in> set entries. tbl w' (item_key i) = Some i)
      | Inl e \<Rightarrow> (e = StateTableException True False \<or> (\<exists>s. e = GenericException s)) \<and>
          (\<forall>k i. tbl w' k = Some i \<longrightarrow> tbl w k = Some i \<or> i \<in> set entries))"
proof -
  have c: "concat (chunks MAX_WRITE_BATCHS_SIZE entries) = entries"
    by (rule concat_chunks [OF MAX_WRITE_BATCHS_SIZE_pos])
  have b: "\<forall>b \<in> set (chunks MAX_WRITE_BATCHS_SIZE entries). b \<noteq> [] \<and> length b \<le> 500"
    using chunks_bounds [of _ MAX_WRITE_BATCHS_SIZE entries] by (auto simp: MAX_WRITE_BATCHS_SIZE_def)
  note out = batch_write_outcome [OF assms(1,2)]
  have some: "put_items t ys k = Some i \<Longrightarrow> t k = Some i \<or> i \<in> set ys" for t ys k i
    by (induction ys arbitrary: t) (fastforce split: if_splits)+
  show ?thesis
  proof (cases r)
    case (Inr u)
    with out have t: "tbl w' = put_items (tbl w) entries" by simp
    with c b Inr put_items_other put_items_last [OF assms(3)] show ?thesis by auto
  next
    case (Inl e)
    with out obtain ys where ys: "set ys \<subseteq> set entries" "tbl w' = put_items (tbl w) ys"
      and e: "e = StateTableException True False \<or> (\<exists>s. e = GenericException s)" by auto
    have "k \<notin> item_key ` set entries \<longrightarrow> tbl w' k = tbl w k" for k
      using ys put_items_other [of k ys "tbl w"] by auto
    moreover have "tbl w' k = Some i \<longrightarrow> tbl w k = Some i \<or> i \<in> set entries" for k i
      using ys some [of "tbl w" ys k i] by auto
    ultimately show ?thesis using c b e Inl by auto
  qed
qed

theorem batch_write_writes_all_witness:
  "\<exists>w'. batch_write mem_ddb [pending_row ''s_1'', pending_row ''s_2''] no_rows = Some (Inr (), w') \<and>
     mem_table w' ''s_2'' = Some (pending_row ''s_2'')"
proof -
  have run: "\<exists>w'. batch_write mem_ddb [pending_row ''s_1'', pending_row ''s_2''] no_rows = Some (Inr (), w')"
    by (simp add: batch_write_def chunks.simps MAX_WRITE_BATCHS_SIZE_def write_ddb_batch_def io_apply
        mem_batch_def)
  have key: "item_key (pending_row k) = k" for k by (simp add: item_key_def pending_row_def)
  from run obtain w' where w': "batch_write mem_ddb [pending_row ''s_1'', pending_row ''s_2''] no_rows = Some (Inr (), w')" ..
  from batch_write_writes_all [OF mem_ddb_documented w'] w' show ?thesis by (simp add: key)
qed

text \<open>A consistent read of a task returns its row, or \<open>None\<close> when there is none and also when the
  read was throttled; any other error response becomes a generic exception, a failure without a
  response is passed on, and the table stays as it is.\<close>

theorem get_task_by_id_result:
  assumes "ddb_documented db tbl" and "get_task_by_id db k True w = Some (r, w')"
  shows "tbl w' = tbl w \<and>
     (r = Inr (tbl w k) \<or>
      r = Inr None \<and> (\<exists>c m v. c \<in> set throttling_codes \<and> ddb_query db \<lparr>q_index = None,
         q_conds = [KeyEq ''task_id'' (PStr k)], q_limit = None, q_consistent = True, q_start = None\<rparr> w =
           (Inl (ClientError c m), v)) \<or>
      (\<exists>c m. c \<notin> set throttling_codes \<and> r = Inl (GenericException (exn_str (ClientError c m)))) \<or>
      (\<exists>m. r = Inl (ServiceFailure m)))"
proof -
  define q where "q = \<lparr>q_index = None, q_conds = [KeyEq ''task_id'' (PStr k)],
      q_limit = None, q_consistent = True, q_start = None\<rparr>"
  obtain r1 w1 where c: "ddb_query db q w = (r1, w1)" by (cases "ddb_query db q w")
  have t: "tbl w' = tbl w" using keepsD [OF get_task_by_id_keeps [OF assms(1)] assms(2)] .
  show ?thesis
  proof (cases r1)
    case (Inr resp)
    have items: "r_items resp = (case tbl w k of None \<Rightarrow> [] | Some i \<Rightarrow> [i])"
      by (rule ddb_query_key [OF assms(1)]) (use c Inr q_def in simp)
    have "r = Inr (tbl w k)"
      using assms(2) c Inr items
      by (cases "tbl w k") (simp_all add: get_task_by_id_def io_bind_apply io_catch_apply q_def)
    with t show ?thesis by simp
  next
    case (Inl e)
    have "service_error e" by (rule ddb_query_error [OF assms(1) c [unfolded Inl]])
    with assms(2) c Inl t show ?thesis
      by (cases e) (auto simp: get_task_by_id_def io_apply q_def service_error_def split: if_splits)
  qed
qed

theorem get_task_by_id_result_witness:
  "\<exists>r w'. get_task_by_id mem_ddb ''s_1'' True one_pending = Some (r, w') \<and> mem_table w' = mem_table one_pending"
proof -
  obtain r w' where run: "get_task_by_id mem_ddb ''s_1'' True one_pending = Some (r, w')"
    using get_task_by_id_returns [of mem_ddb "''s_1''" True] by (fastforce simp: returns_def)
  from get_task_by_id_result [OF mem_ddb_documented run] run show ?thesis by blast
qed

text \<open>Setting a task's final state is unconditional: whatever the row was, even finished by its
  agent, a cancellation that returns leaves it cancelled and without owner, keeps its other
  attributes, and creates a row for a task that had none; the agent's own completion after it is
  refused and changes nothing.\<close>

theorem cancellation_overwrites:
  assumes "ddb_documented db tbl" and "host_keeps host tbl"
    and "update_task_status_to_cancelled db k w = Some (Inr (), w1)"
  shows "(\<exists>i. tbl w1 = (tbl w)(k \<mapsto> i) \<and>
       i ''task_status'' = Some (PStr (make_task_state_from_task_id (md5_int db) TASK_STATE_CANCELLED k)) \<and>
       i ''task_owner'' = Some (PStr ''None'') \<and>
       (\<forall>a. a \<noteq> ''task_status'' \<and> a \<noteq> ''task_owner'' \<longrightarrow>
          i a = (case tbl w k of None \<Rightarrow> [''task_id'' \<mapsto> PStr k] a | Some j \<Rightarrow> j a))) \<and>
     (\<forall>a r w2. update_task_status_to_finished db host k a w1 = Some (r, w2) \<longrightarrow>
        (\<exists>e. r = Inl e) \<and> tbl w2 = tbl w1)"
proof -
  have run: "finalize_tasks_state db k TASK_STATE_CANCELLED w = Some (Inr (), w1)"
    using assms(3) by (simp add: update_task_status_to_cancelled_def)
  from refines_ok [OF finalize_refines [OF assms(1)] run]
  have step: "task_step (md5_int db) (tbl w) (Finalize k TASK_STATE_CANCELLED) (tbl w1)" by simp
  have st: "in_state (md5_int db) (tbl w1) k TASK_STATE_CANCELLED"
    using ddb_store.finalize_succeeds(1) [of "(db, host)" tbl k TASK_STATE_CANCELLED w "()" w1] assms(1,2) run
    by simp
  have "\<not> in_state (md5_int db) (tbl w1) k TASK_STATE_PROCESSING"
    using in_state_unique [OF st, of TASK_STATE_PROCESSING] by auto
  then have no: "\<not> task_step (md5_int db) (tbl w1) (Finish k a ms) t" for a ms t
    by (auto simp: task_step_simps)
  have late: "(\<exists>e. r = Inl e) \<and> tbl w2 = tbl w1"
    if "update_task_status_to_finished db host k a w1 = Some (r, w2)" for a r w2
  proof (cases r)
    case (Inr b)
    from refines_ok [OF finish_refines [OF assms(1,2)] that [unfolded Inr]] no show ?thesis by blast
  next
    case (Inl e)
    from refines_error [OF finish_refines [OF assms(1,2)] that [unfolded Inl]] no Inl show ?thesis by blast
  qed
  have "\<exists>i. tbl w1 = (tbl w)(k \<mapsto> i) \<and>
       i ''task_status'' = Some (PStr (make_task_state_from_task_id (md5_int db) TASK_STATE_CANCELLED k)) \<and>
       i ''task_owner'' = Some (PStr ''None'') \<and>
       (\<forall>a. a \<noteq> ''task_status'' \<and> a \<noteq> ''task_owner'' \<longrightarrow>
          i a = (case tbl w k of None \<Rightarrow> [''task_id'' \<mapsto> PStr k] a | Some j \<Rightarrow> j a))"
    using step by (auto simp: task_step_simps split: option.splits)
  with late show ?thesis by blast
qed

definition one_finished :: mem_world where
  "one_finished = \<lparr>mem_rows = [(''s_1'', owned_row ''s_1'' TASK_STATE_FINISHED ''agent'')], mem_faults = [],
     mem_clock = 0\<rparr>"

theorem cancellation_overwrites_witness:
  "\<exists>w1 i. update_task_status_to_cancelled mem_ddb ''s_1'' one_finished = Some (Inr (), w1) \<and>
     mem_table w1 ''s_1'' = Some i \<and> i ''task_owner'' = Some (PStr ''None'')"
proof -
  have "\<exists>w1. update_task_status_to_cancelled mem_ddb ''s_1'' one_finished = Some (Inr (), w1)"
    by (simp add: update_task_status_to_cancelled_def finalize_tasks_state_def io_apply mem_update_def
        one_finished_def Let_def)
  then obtain w1 where run: "update_task_status_to_cancelled mem_ddb ''s_1'' one_finished = Some (Inr (), w1)" ..
  from cancellation_overwrites [OF mem_ddb_documented mem_host_keeps run] run show ?thesis by auto
qed

section \<open>Reading by session in memory\<close>

lemma mem_get_tasks_by_state:
  "get_tasks_by_state mem_ddb s st w = Some (Inr (index_rows (mem_rows w)
     [KeyEq ''session_id'' (PStr s), KeyEq ''task_status''
        (PStr (make_task_state_from_session_id length st s))]), w)"
  unfolding get_tasks_by_state_def get_tasks_by_state_key_expression_def
  by (simp add: io_catch_apply, subst session_pages.simps)
    (simp add: io_bind_apply mem_query_def session_query_def)

lemma s_1_status: "make_task_state_from_task_id md5 st ''s_1'' = make_task_state_from_session_id md5 st ''s''"
  by (simp add: make_task_state_from_task_id_def get_session_id_from_task_id_def str_startswith_def)

end
