(* ===== verification/Json.thy ===== *)
theory Json
  imports Prelude "HOL-Library.AList"
begin

text \<open>
  \<open>json.dumps\<close> and \<open>json.loads\<close> of the standard library on the values the code passes between the
  client, the lambdas and the agent: \<open>None\<close>, booleans, integers, texts (code points below 256), lists
  and dictionaries with text keys.  \<open>dumps\<close> uses the default separators and escapes everything
  outside printable ASCII.  \<open>loads\<close> reads any JSON text over these values; numbers with a fraction
  or an exponent, \<open>NaN\<close> and code points above 255 are outside of the model and refused.
  A text it refuses is a \<open>ValueError\<close> (the base class of \<open>JSONDecodeError\<close>).
\<close>

section \<open>Printing\<close>

definition hex_digit :: "nat \<Rightarrow> char" where
  "hex_digit n = (if n < 10 then char_of (48 + n) else char_of (87 + n))"

definition escape_char :: "char \<Rightarrow> string" where
  "escape_char c = (let n = of_char c :: nat in
     if n = 34 then [CHR 0x5C, CHR 0x22]
     else if n = 92 then [CHR 0x5C, CHR 0x5C]
     else if n = 10 then [CHR 0x5C, CHR ''n''] else if n = 13 then [CHR 0x5C, CHR ''r'']
     else if n = 9 then [CHR 0x5C, CHR ''t''] else if n = 12 then [CHR 0x5C, CHR ''f'']
     else if n = 8 then [CHR 0x5C, CHR ''b'']
     else if 32 \<le> n \<and> n \<le> 126 then [c]
     else [CHR 0x5C, CHR ''u'', CHR ''0'', CHR ''0'', hex_digit (n div 16), hex_digit (n mod 16)])"

definition json_str :: "string \<Rightarrow> string" where
  "json_str s = CHR 0x22 # concat (map escape_char s) @ [CHR 0x22]"

fun json_dumps :: "pyval \<Rightarrow> string"
  and dumps_elems :: "pyval list \<Rightarrow> string"
  and dumps_members :: "(string \<times> pyval) list \<Rightarrow> string"
where
  "json_dumps PNone = ''null''"
| "json_dumps (PBool b) = (if b then ''true'' else ''false'')"
| "json_dumps (PInt i) = str_of_int i"
| "json_dumps (PStr s) = json_str s"
| "json_dumps (PList xs) = ''['' @ dumps_elems xs @ '']''"
| "json_dumps (PDict d) = ''{'' @ dumps_members d @ ''}''"
| "dumps_elems [] = []"
| "dumps_elems [x] = json_dumps x"
| "dumps_elems (x # y # xs) = json_dumps x @ '', '' @ dumps_elems (y # xs)"
| "dumps_members [] = []"
| "dumps_members [(k, v)] = json_str k @ '': '' @ json_dumps v"
| "dumps_members ((k, v) # m # ms) = json_str k @ '': '' @ json_dumps v @ '', '' @ dumps_members (m # ms)"

section \<open>Reading\<close>

definition skip_ws :: "string \<Rightarrow> string" where
  "skip_ws s = dropWhile (\<lambda>c. c \<in> {CHR '' '', CHR 0x09, CHR 0x0A, CHR 0x0D}) s"

definition expect :: "char \<Rightarrow> string \<Rightarrow> string option" where
  "expect c s = (case s of [] \<Rightarrow> None | x # r \<Rightarrow> if x = c then Some r else None)"

definition hex_value :: "char \<Rightarrow> nat option" where
  "hex_value c = (let n = of_char c :: nat in
     if 48 \<le> n \<and> n \<le> 57 then Some (n - 48)
     else if 97 \<le> n \<and> n \<le> 102 then Some (n - 87)
     else if 65 \<le> n \<and> n \<le> 70 then Some (n - 55) else None)"

definition hex4 :: "char \<Rightarrow> char \<Rightarrow> char \<Rightarrow> char \<Rightarrow> nat option" where
  "hex4 a b c d = (case (hex_value a, hex_value b, hex_value c, hex_value d) of
     (Some i, Some j, Some k, Some l) \<Rightarrow> Some (((i * 16 + j) * 16 + k) * 16 + l)
   | _ \<Rightarrow> None)"

definition unescape :: "char \<Rightarrow> char option" where
  "unescape e = (if e = CHR 0x22 then Some (CHR 0x22) else if e = CHR 0x5C then Some (CHR 0x5C)
     else if e = CHR ''/'' then Some (CHR ''/'') else if e = CHR ''b'' then Some (CHR 0x08)
     else if e = CHR ''f'' then Some (CHR 0x0C) else if e = CHR ''n'' then Some (CHR 0x0A)
     else if e = CHR ''r'' then Some (CHR 0x0D) else if e = CHR ''t'' then Some (CHR 0x09) else None)"

definition push_char :: "char \<Rightarrow> (string \<times> string) option \<Rightarrow> (string \<times> string) option" where
  "push_char c r = (case r of None \<Rightarrow> None | Some (t, rest) \<Rightarrow> Some (c # t, rest))"

text \<open>The body of a string, after its opening quote.\<close>

fun parse_str :: "string \<Rightarrow> (string \<times> string) option" where
  "parse_str [] = None"
| "parse_str (c # cs) =
     (if c = CHR 0x22 then Some ([], cs)
      else if c = CHR 0x5C then
        (case cs of
           [] \<Rightarrow> None
         | e # r \<Rightarrow>
             if e = CHR ''u'' then
               (case r of
                  h1 # h2 # h3 # h4 # r' \<Rightarrow>
                    (case hex4 h1 h2 h3 h4 of
                       Some n \<Rightarrow> if n < 256 then push_char (char_of n) (parse_str r') else None
                     | None \<Rightarrow> None)
                | _ \<Rightarrow> None)
             else (case unescape e of Some d \<Rightarrow> push_char d (parse_str r) | None \<Rightarrow> None))
      else if (of_char c :: nat) < 32 then None
      else push_char c (parse_str cs))"

definition parse_nat :: "string \<Rightarrow> (nat \<times> string) option" where
  "parse_nat s = (case s of
      [] \<Rightarrow> None
    | c # cs \<Rightarrow>
        if c = CHR ''0'' then Some (0, cs)
        else if is_digit c then Some (nat_of_str (takeWhile is_digit s), dropWhile is_digit s)
        else None)"

text \<open>A number is an integer unless a fraction or an exponent follows.\<close>

definition parse_int :: "string \<Rightarrow> (pyval \<times> string) option" where
  "parse_int s = (case (case expect (CHR ''-'') s of
          Some r \<Rightarrow> map_option (\<lambda>(n, rest). (- int n, rest)) (parse_nat r)
        | None \<Rightarrow> map_option (\<lambda>(n, rest). (int n, rest)) (parse_nat s)) of
      None \<Rightarrow> None
    | Some (i, rest) \<Rightarrow>
        if rest \<noteq> [] \<and> hd rest \<in> {CHR ''.'', CHR ''e'', CHR ''E''} then None else Some (PInt i, rest))"

definition dict_of :: "(string \<times> pyval) list \<Rightarrow> (string \<times> pyval) list" where
  "dict_of ms = fold (\<lambda>(k, v) d. AList.update k v d) ms []"

fun parse_value :: "nat \<Rightarrow> string \<Rightarrow> (pyval \<times> string) option"
  and parse_elems :: "nat \<Rightarrow> string \<Rightarrow> (pyval list \<times> string) option"
  and parse_members :: "nat \<Rightarrow> string \<Rightarrow> ((string \<times> pyval) list \<times> string) option"
where
  "parse_value 0 s = None"
| "parse_value (Suc n) s =
     (case s of
        [] \<Rightarrow> None
      | c # cs \<Rightarrow>
          if c = CHR 0x22 then map_option (\<lambda>(t, r). (PStr t, r)) (parse_str cs)
          else if c = CHR ''['' then
            (case expect (CHR '']'') (skip_ws cs) of
               Some r \<Rightarrow> Some (PList [], r)
             | None \<Rightarrow> map_option (\<lambda>(xs, r). (PList xs, r)) (parse_elems n (skip_ws cs)))
          else if c = CHR ''{'' then
            (case expect (CHR ''}'') (skip_ws cs) of
               Some r \<Rightarrow> Some (PDict [], r)
             | None \<Rightarrow> map_option (\<lambda>(ms, r). (PDict (dict_of ms), r)) (parse_members n (skip_ws cs)))
          else if str_startswith s ''null'' then Some (PNone, drop 4 s)
          else if str_startswith s ''true'' then Some (PBool True, drop 4 s)
          else if str_startswith s ''false'' then Some (PBool False, drop 5 s)
          else parse_int s)"
| "parse_elems 0 s = None"
| "parse_elems (Suc n) s =
     (case parse_value n s of
        None \<Rightarrow> None
      | Some (v, r) \<Rightarrow>
          (case expect (CHR '','') (skip_ws r) of
             Some r' \<Rightarrow> map_option (\<lambda>(vs, r). (v # vs, r)) (parse_elems n (skip_ws r'))
           | None \<Rightarrow> map_option (\<lambda>r'. ([v], r')) (expect (CHR '']'') (skip_ws r))))"
| "parse_members 0 s = None"
| "parse_members (Suc n) s =
     (case expect (CHR 0x22) s of
        None \<Rightarrow> None
      | Some s1 \<Rightarrow>
          (case parse_str s1 of
             None \<Rightarrow> None
           | Some (k, r) \<Rightarrow>
               (case expect (CHR '':'') (skip_ws r) of
                  None \<Rightarrow> None
                | Some r1 \<Rightarrow>
                    (case parse_value n (skip_ws r1) of
                       None \<Rightarrow> None
                     | Some (v, r2) \<Rightarrow>
                         (case expect (CHR '','') (skip_ws r2) of
                            Some r3 \<Rightarrow>
                              map_option (\<lambda>(ms, r). ((k, v) # ms, r)) (parse_members n (skip_ws r3))
                          | None \<Rightarrow> map_option (\<lambda>r3. ([(k, v)], r3)) (expect (CHR ''}'') (skip_ws r2)))))))"

definition json_loads :: "string \<Rightarrow> exn + pyval" where
  "json_loads s = (case parse_value (length s + 1) (skip_ws s) of
      None \<Rightarrow> Inl ValueError
    | Some (v, r) \<Rightarrow> if skip_ws r = [] then Inr v else Inl ValueError)"

section \<open>Reading back what was printed\<close>

lemma expect_simps [simp]:
  "expect c [] = None" "expect c (x # r) = (if x = c then Some r else None)"
  by (simp_all add: expect_def)

fun json_wf :: "pyval \<Rightarrow> bool" where
  "json_wf (PList xs) \<longleftrightarrow> (\<forall>x \<in> set xs. json_wf x)"
| "json_wf (PDict d) \<longleftrightarrow> distinct (map fst d) \<and> (\<forall>x \<in> set d. json_wf (snd x))"
| "json_wf _ \<longleftrightarrow> True"

lemma hex_value_digit [simp]: "n < 16 \<Longrightarrow> hex_value (hex_digit n) = Some n"
  by (cases "n < 10") (simp_all add: hex_value_def hex_digit_def of_char_of Let_def)

lemma hex_value_zero [simp]: "hex_value CHR ''0'' = Some 0"
  by (simp add: hex_value_def Let_def)

lemma hex4_byte [simp]:
  "m < 256 \<Longrightarrow> hex4 CHR ''0'' CHR ''0'' (hex_digit (m div 16)) (hex_digit (m mod 16)) = Some m"
proof -
  assume m: "m < 256"
  have "m div 16 < 16" using m by linarith
  then show ?thesis by (simp add: hex4_def)
qed

lemma push_char_Some [simp]: "push_char c (Some (t, r)) = Some (c # t, r)"
  by (simp add: push_char_def)

lemma parse_str_plain:
  "c \<noteq> CHR 0x22 \<Longrightarrow> c \<noteq> CHR 0x5C \<Longrightarrow> 32 \<le> (of_char c :: nat) \<Longrightarrow>
     parse_str (c # cs) = push_char c (parse_str cs)"
  by simp

lemma parse_str_hex:
  assumes "m < 256"
  shows "parse_str (CHR 0x5C # CHR ''u'' # CHR ''0'' # CHR ''0'' # hex_digit (m div 16) #
      hex_digit (m mod 16) # cs) = push_char (char_of m) (parse_str cs)"
  using hex4_byte [OF assms] assms by simp

lemma parse_str_short:
  "unescape e = Some d \<Longrightarrow> e \<noteq> CHR ''u'' \<Longrightarrow> parse_str (CHR 0x5C # e # cs) = push_char d (parse_str cs)"
  by simp

lemma char_of_nat_eq: "(of_char c :: nat) = n \<Longrightarrow> c = char_of n"
  by (metis char_of_char)

lemma char_codes:
  "char_of (34::nat) = CHR 0x22" "char_of (92::nat) = CHR 0x5C" "char_of (10::nat) = CHR 0x0A"
  "char_of (13::nat) = CHR 0x0D" "char_of (9::nat) = CHR 0x09" "char_of (12::nat) = CHR 0x0C"
  "char_of (8::nat) = CHR 0x08"
  by code_simp+

lemma parse_escaped: "parse_str (escape_char c @ cs) = push_char c (parse_str cs)"
proof -
  define n where "n = (of_char c :: nat)"
  have c: "c = char_of n" and n: "n < 256" by (simp_all add: n_def)
  consider "n = 34" | "n = 92" | "n = 10" | "n = 13" | "n = 9" | "n = 12" | "n = 8"
    | (plain) "n \<notin> {34, 92, 10, 13, 9, 12, 8}" "32 \<le> n" "n \<le> 126"
    | (hex) "n \<notin> {34, 92, 10, 13, 9, 12, 8}" "\<not> (32 \<le> n \<and> n \<le> 126)" by blast
  then show ?thesis
  proof cases
    case plain
    have "c \<noteq> CHR 0x22" "c \<noteq> CHR 0x5C" using plain(1) by (auto simp: n_def)
    with plain show ?thesis
      by (simp add: escape_char_def n_def [symmetric] parse_str_plain Let_def)
  next
    case hex
    then have "escape_char c = [CHR 0x5C, CHR ''u'', CHR ''0'', CHR ''0'', hex_digit (n div 16),
        hex_digit (n mod 16)]"
      by (auto simp: escape_char_def n_def [symmetric] Let_def)
    with parse_str_hex [OF n, of cs] c show ?thesis by (simp del: parse_str.simps)
  qed (simp_all only: c char_codes, simp_all add: escape_char_def unescape_def)
qed

lemma parse_str_escaped: "parse_str (concat (map escape_char t) @ CHR 0x22 # rest) = Some (t, rest)"
  by (induction t) (simp_all add: parse_escaped)

lemma str_of_nat_head: "\<exists>c cs. str_of_nat n = c # cs \<and> is_digit c \<and> (c = CHR ''0'' \<longrightarrow> n = 0 \<and> cs = [])"
proof (induction n rule: str_of_nat.induct)
  case (1 n)
  show ?case
  proof (cases "n < 10")
    case True
    have "digit_char n = CHR ''0'' \<longrightarrow> n = 0"
    proof
      assume "digit_char n = CHR ''0''"
      then have "digit_val (digit_char n) = 0" by (simp add: digit_val_def)
      with True show "n = 0" by (simp add: digit_val_char)
    qed
    with True show ?thesis by (subst str_of_nat.simps) (simp add: is_digit_char)
  next
    case False
    from 1 [OF False] obtain c cs where IH: "str_of_nat (n div 10) = c # cs" "is_digit c"
      "c = CHR ''0'' \<longrightarrow> n div 10 = 0" by blast
    with False show ?thesis by (subst str_of_nat.simps) auto
  qed
qed

definition stops :: "string \<Rightarrow> bool" where
  "stops rest \<longleftrightarrow> rest = [] \<or> \<not> is_digit (hd rest) \<and> hd rest \<notin> {CHR ''.'', CHR ''e'', CHR ''E''}"

lemma stops_simps [simp]:
  "stops []" "stops (CHR '','' # r)" "stops (CHR '']'' # r)" "stops (CHR ''}'' # r)"
  by (simp_all add: stops_def is_digit_def)

lemma take_digits: "stops rest \<Longrightarrow> takeWhile is_digit (str_of_nat n @ rest) = str_of_nat n \<and>
    dropWhile is_digit (str_of_nat n @ rest) = rest"
  using str_of_nat_digits [of n]
  by (cases rest) (auto simp: stops_def takeWhile_append2 dropWhile_append2)

lemma parse_nat_str: "stops rest \<Longrightarrow> parse_nat (str_of_nat n @ rest) = Some (n, rest)"
proof -
  assume stop: "stops rest"
  obtain c cs where c: "str_of_nat n = c # cs" "is_digit c" "c = CHR ''0'' \<longrightarrow> n = 0 \<and> cs = []"
    using str_of_nat_head by blast
  show ?thesis
  proof (cases "c = CHR ''0''")
    case True
    with c show ?thesis by (simp add: parse_nat_def)
  next
    case False
    have "parse_nat (str_of_nat n @ rest) =
        Some (nat_of_str (takeWhile is_digit (str_of_nat n @ rest)), dropWhile is_digit (str_of_nat n @ rest))"
      using False c(1,2) by (simp add: parse_nat_def)
    with take_digits [OF stop] show ?thesis by simp
  qed
qed

lemma parse_int_str: "stops rest \<Longrightarrow> parse_int (str_of_int i @ rest) = Some (PInt i, rest)"
proof -
  assume stop: "stops rest"
  then have fin: "\<not> (rest \<noteq> [] \<and> hd rest \<in> {CHR ''.'', CHR ''e'', CHR ''E''})" by (auto simp: stops_def)
  show ?thesis
  proof (cases "i < 0")
    case True
    with stop fin show ?thesis by (simp add: parse_int_def str_of_int_def parse_nat_str)
  next
    case False
    obtain c cs where c: "str_of_nat (nat i) = c # cs" "is_digit c" using str_of_nat_head by blast
    then have "c \<noteq> CHR ''-''" by (auto simp: is_digit_def)
    then have "expect (CHR ''-'') (str_of_nat (nat i) @ rest) = None" using c by simp
    with stop fin False show ?thesis
      by (simp add: parse_int_def str_of_int_def parse_nat_str)
  qed
qed

lemma skip_ws_simps [simp]:
  "skip_ws [] = []" "skip_ws (CHR '' '' # s) = skip_ws s" "skip_ws (CHR '','' # s) = CHR '','' # s"
  "skip_ws (CHR '']'' # s) = CHR '']'' # s" "skip_ws (CHR ''}'' # s) = CHR ''}'' # s"
  "skip_ws (CHR '':'' # s) = CHR '':'' # s" "skip_ws (CHR 0x22 # s) = CHR 0x22 # s"
  by (simp_all add: skip_ws_def)

text \<open>A printed value starts neither with white space nor with a closing bracket.\<close>

definition value_start :: "char \<Rightarrow> bool" where
  "value_start c \<longleftrightarrow> c \<in> {CHR 0x22, CHR ''['', CHR ''{'', CHR ''n'', CHR ''t'', CHR ''f'', CHR ''-''} \<or> is_digit c"

lemma value_start_ws [simp]: "value_start c \<Longrightarrow> skip_ws (c # s) = c # s"
  by (auto simp: value_start_def skip_ws_def is_digit_def)

lemma value_start_brackets: "value_start c \<Longrightarrow> c \<noteq> CHR '']'' \<and> c \<noteq> CHR ''}''"
  by (auto simp: value_start_def is_digit_def)

lemma json_dumps_start: "\<exists>c cs. json_dumps v = c # cs \<and> value_start c"
proof (cases v)
  case (PInt i)
  show ?thesis
  proof (cases "i < 0")
    case True
    with PInt show ?thesis by (simp add: str_of_int_def value_start_def)
  next
    case False
    obtain c cs where "str_of_nat (nat i) = c # cs" "is_digit c" using str_of_nat_head by blast
    with PInt False show ?thesis by (simp add: str_of_int_def value_start_def)
  qed
qed (auto simp: json_str_def value_start_def)

lemma dumps_elems_start: "xs \<noteq> [] \<Longrightarrow> \<exists>c cs. dumps_elems xs = c # cs \<and> value_start c"
proof -
  assume "xs \<noteq> []"
  then obtain x ys where xs: "xs = x # ys" by (cases xs) auto
  obtain c cs where "json_dumps x = c # cs" "value_start c" using json_dumps_start by blast
  with xs show ?thesis by (cases ys) simp_all
qed

lemma dumps_members_start: "ms \<noteq> [] \<Longrightarrow> \<exists>cs. dumps_members ms = CHR 0x22 # cs"
proof -
  assume "ms \<noteq> []"
  then obtain k v ys where "ms = (k, v) # ys" by (cases ms) auto
  then show ?thesis by (cases ys) (auto simp: json_str_def)
qed

lemma parse_value_int:
  assumes "stops rest" and "0 < n"
  shows "parse_value n (str_of_int i @ rest) = Some (PInt i, rest)"
proof -
  obtain c cs where c: "str_of_int i = c # cs" and start: "c = CHR ''-'' \<or> is_digit c"
  proof (cases "i < 0")
    case True
    then show ?thesis using that by (simp add: str_of_int_def)
  next
    case False
    obtain c cs where "str_of_nat (nat i) = c # cs" "is_digit c" using str_of_nat_head by blast
    with False show ?thesis using that by (simp add: str_of_int_def)
  qed
  from start have ne: "c \<notin> {CHR 0x22, CHR ''['', CHR ''{'', CHR ''n'', CHR ''t'', CHR ''f''}"
    by (auto simp: is_digit_def)
  obtain m where m: "n = Suc m" using assms(2) by (cases n) auto
  have "parse_value n (str_of_int i @ rest) = parse_int (str_of_int i @ rest)"
    unfolding m c using ne by (simp add: str_startswith_def)
  with parse_int_str [OF assms(1)] show ?thesis by simp
qed

lemma dict_of_distinct: "distinct (map fst ms) \<Longrightarrow> dict_of ms = ms"
proof -
  have upd: "k \<notin> fst ` set d \<Longrightarrow> AList.update k v d = d @ [(k, v)]" for k v and d :: "(string \<times> pyval) list"
    by (induction d) auto
  have "distinct (map fst (d @ ms)) \<Longrightarrow> fold (\<lambda>(k, v) d. AList.update k v d) ms d = d @ ms" for d
  proof (induction ms arbitrary: d)
    case Nil
    then show ?case by simp
  next
    case (Cons m ms)
    obtain k v where m: "m = (k, v)" by (cases m)
    from Cons.prems m have "k \<notin> fst ` set d" by auto
    with Cons.IH [of "d @ [(k, v)]"] Cons.prems m show ?case by (simp add: upd)
  qed
  from this [of "[]"] show "distinct (map fst ms) \<Longrightarrow> dict_of ms = ms" by (simp add: dict_of_def)
qed

lemma parse_dumps:
  "json_wf v \<Longrightarrow> stops rest \<Longrightarrow> length (json_dumps v) < n \<Longrightarrow>
     parse_value n (json_dumps v @ rest) = Some (v, rest)"
  "xs \<noteq> [] \<Longrightarrow> (\<forall>x \<in> set xs. json_wf x) \<Longrightarrow> length (dumps_elems xs) + 1 < n \<Longrightarrow>
     parse_elems n (dumps_elems xs @ CHR '']'' # rest) = Some (xs, rest)"
  "ms \<noteq> [] \<Longrightarrow> (\<forall>x \<in> set ms. json_wf (snd x)) \<Longrightarrow> length (dumps_members ms) + 1 < n \<Longrightarrow>
     parse_members n (dumps_members ms @ CHR ''}'' # rest) = Some (ms, rest)"
proof (induction v and xs and ms arbitrary: n rest and n rest and n rest
    rule: json_dumps_dumps_elems_dumps_members.induct)
  case 1
  then show ?case by (cases n) (simp_all add: str_startswith_def)
next
  case (2 b)
  then show ?case by (cases n) (auto simp: str_startswith_def)
next
  case (3 i)
  then show ?case by (simp add: parse_value_int)
next
  case (4 s)
  then show ?case by (cases n) (simp_all add: json_str_def parse_str_escaped del: parse_str.simps)
next
  case (5 xs)
  then obtain m where m: "n = Suc m" by (cases n) auto
  show ?case
  proof (cases xs)
    case Nil
    with m show ?thesis by simp
  next
    case (Cons y ys)
    then obtain c cs where c: "dumps_elems xs = c # cs" "value_start c" using dumps_elems_start by blast
    from 5 Cons m have "parse_elems m (dumps_elems xs @ CHR '']'' # rest) = Some (xs, rest)" by simp
    with c m value_start_brackets [OF c(2)] show ?thesis by simp
  qed
next
  case (6 ms)
  then obtain m where m: "n = Suc m" by (cases n) auto
  show ?case
  proof (cases ms)
    case Nil
    with m show ?thesis by (simp add: dict_of_def)
  next
    case (Cons y ys)
    then obtain cs where c: "dumps_members ms = CHR 0x22 # cs" using dumps_members_start by blast
    from 6 Cons m have "parse_members m (dumps_members ms @ CHR ''}'' # rest) = Some (ms, rest)" by simp
    with c m 6 show ?thesis by (simp add: dict_of_distinct)
  qed
next
  case 7
  then show ?case by simp
next
  case (8 x)
  then obtain m where m: "n = Suc m" by (cases n) auto
  with 8 have "parse_value m (json_dumps x @ CHR '']'' # rest) = Some (x, CHR '']'' # rest)" by simp
  with m show ?case by simp
next
  case (9 x y xs)
  then obtain m where m: "n = Suc m" by (cases n) auto
  obtain c cs where c: "dumps_elems (y # xs) = c # cs" "value_start c" using dumps_elems_start by blast
  have v: "parse_value m (json_dumps x @ CHR '','' # CHR '' '' # dumps_elems (y # xs) @ CHR '']'' # rest)
      = Some (x, CHR '','' # CHR '' '' # dumps_elems (y # xs) @ CHR '']'' # rest)"
    using 9(1) [of "CHR '','' # CHR '' '' # dumps_elems (y # xs) @ CHR '']'' # rest" m] 9(4,5) m by simp
  have e: "parse_elems m (dumps_elems (y # xs) @ CHR '']'' # rest) = Some (y # xs, rest)"
    using 9(2) [of m rest] 9(4,5) m by simp
  have ws: "skip_ws (dumps_elems (y # xs) @ CHR '']'' # rest) = dumps_elems (y # xs) @ CHR '']'' # rest"
    using c by simp
  show ?case using v e ws unfolding m by (simp del: dumps_elems.simps(2,3) add: dumps_elems.simps(3))
next
  case 10
  then show ?case by simp
next
  case (11 k v)
  then obtain m where m: "n = Suc m" by (cases n) auto
  obtain c cs where c: "json_dumps v = c # cs" "value_start c" using json_dumps_start by blast
  from 11 m have "parse_value m (json_dumps v @ CHR ''}'' # rest) = Some (v, CHR ''}'' # rest)" by simp
  moreover have "skip_ws (json_dumps v @ CHR ''}'' # rest) = json_dumps v @ CHR ''}'' # rest"
    using c by simp
  ultimately show ?case unfolding m
    by (simp add: json_str_def parse_str_escaped del: parse_str.simps)
next
  case (12 k v y ms)
  then obtain m where m: "n = Suc m" by (cases n) auto
  obtain c cs where c: "json_dumps v = c # cs" "value_start c" using json_dumps_start by blast
  obtain ds where d: "dumps_members (y # ms) = CHR 0x22 # ds" using dumps_members_start by blast
  have v: "parse_value m (json_dumps v @ CHR '','' # CHR '' '' # dumps_members (y # ms) @ CHR ''}'' # rest)
      = Some (v, CHR '','' # CHR '' '' # dumps_members (y # ms) @ CHR ''}'' # rest)"
    using 12(1) [of "CHR '','' # CHR '' '' # dumps_members (y # ms) @ CHR ''}'' # rest" m] 12(4,5) m by simp
  have e: "parse_members m (dumps_members (y # ms) @ CHR ''}'' # rest) = Some (y # ms, rest)"
    using 12(2) [of m rest] 12(4,5) m by simp
  have ws: "skip_ws (json_dumps v @ CHR '','' # CHR '' '' # dumps_members (y # ms) @ CHR ''}'' # rest)
      = json_dumps v @ CHR '','' # CHR '' '' # dumps_members (y # ms) @ CHR ''}'' # rest"
    using c by simp
  have ws2: "skip_ws (dumps_members (y # ms) @ CHR ''}'' # rest) = dumps_members (y # ms) @ CHR ''}'' # rest"
    using d by simp
  show ?case using v e ws ws2 unfolding m
    by (simp add: json_str_def parse_str_escaped del: parse_str.simps)
qed

text \<open>What \<open>dumps\<close> prints, \<open>loads\<close> reads back.\<close>

lemma json_loads_dumps [simp]: "json_wf v \<Longrightarrow> json_loads (json_dumps v) = Inr v"
proof -
  assume wf: "json_wf v"
  obtain c cs where c: "json_dumps v = c # cs" "value_start c" using json_dumps_start by blast
  have "parse_value (length (json_dumps v) + 1) (json_dumps v @ []) = Some (v, [])"
    by (rule parse_dumps(1) [OF wf]) simp_all
  moreover have "skip_ws (json_dumps v) = json_dumps v" using c by simp
  ultimately show ?thesis by (simp add: json_loads_def)
qed

end
