(* ===== verification/TaskQueue.thy ===== *)
theory TaskQueue
  imports MemoryTable Json
begin

text \<open>
  The task queues of \<open>source/client/python/api-v0.1/api\<close>: \<open>QueueSQS\<close> (\<open>task_queue_sqs.py\<close>),
  \<open>QueuePrioritySQS\<close> (\<open>task_queue_priority_sqs.py\<close>), a list of SQS queues, one per priority, with
  a table from message handles to the queue they came from, and the factory \<open>queue_manager\<close>
  (\<open>queue_manager.py\<close>).  SQS itself is a parameter.  A queue object is a value; a method that
  changes the object returns the new one.
\<close>

section \<open>Amazon SQS\<close>

record sqs_entry =
  entry_id :: pyval
  entry_body :: string

text \<open>Queues are named by their name; a received message is its body and its receipt handle.\<close>

record 'w sqs =
  sqs_get_queue :: "string \<Rightarrow> 'w \<Rightarrow> (exn + unit) \<times> 'w"
  sqs_send :: "string \<Rightarrow> sqs_entry list \<Rightarrow> 'w \<Rightarrow> (exn + pyval) \<times> 'w"
  sqs_receive :: "string \<Rightarrow> int \<Rightarrow> 'w \<Rightarrow> (exn + (string \<times> string) list) \<times> 'w"
  sqs_delete :: "string \<Rightarrow> string \<Rightarrow> 'w \<Rightarrow> (exn + unit) \<times> 'w"
  sqs_change_visibility :: "string \<Rightarrow> string \<Rightarrow> int \<Rightarrow> 'w \<Rightarrow> (exn + unit) \<times> 'w"
  sqs_length :: "string \<Rightarrow> 'w \<Rightarrow> (exn + int) \<times> 'w"

text \<open>The dictionary that \<open>receive_message\<close> returns: empty, or a body and its handle.\<close>

record message =
  msg_body :: string
  message_handle_id :: string

section \<open>\<open>QueueSQS\<close>\<close>

text \<open>Every exception of SQS becomes a \<open>TaskQueueException\<close>.\<close>

definition wrap_queue_error :: "('w, 'a) io \<Rightarrow> ('w, 'a) io" where
  "wrap_queue_error m = io_catch m (\<lambda>e. io_raise TaskQueueException)"

definition single_init :: "'w sqs \<Rightarrow> string \<Rightarrow> ('w, string) io" where
  "single_init sqs queue_name =
     wrap_queue_error (io_then (io_call (sqs_get_queue sqs queue_name)) (io_return queue_name))"

definition single_send_messages :: "'w sqs \<Rightarrow> string \<Rightarrow> sqs_entry list \<Rightarrow> ('w, pyval) io" where
  "single_send_messages sqs q message_bodies = wrap_queue_error (io_call (sqs_send sqs q message_bodies))"

definition single_receive_message :: "'w sqs \<Rightarrow> string \<Rightarrow> int \<Rightarrow> ('w, message option) io" where
  "single_receive_message sqs q wait_time_sec =
     io_bind (wrap_queue_error (io_call (sqs_receive sqs q wait_time_sec))) (\<lambda>messages.
       io_return (case messages of
           [] \<Rightarrow> None
         | (body, receipt_handle) # _ \<Rightarrow> Some \<lparr>msg_body = body, message_handle_id = receipt_handle\<rparr>))"

definition single_delete_message :: "'w sqs \<Rightarrow> string \<Rightarrow> string \<Rightarrow> ('w, unit) io" where
  "single_delete_message sqs q handle_id = wrap_queue_error (io_call (sqs_delete sqs q handle_id))"

definition single_change_visibility :: "'w sqs \<Rightarrow> string \<Rightarrow> string \<Rightarrow> int \<Rightarrow> ('w, unit) io" where
  "single_change_visibility sqs q handle_id visibility_timeout_sec =
     wrap_queue_error (io_call (sqs_change_visibility sqs q handle_id visibility_timeout_sec))"

definition single_get_queue_length :: "'w sqs \<Rightarrow> string \<Rightarrow> ('w, int) io" where
  "single_get_queue_length sqs q = io_call (sqs_length sqs q)"

section \<open>\<open>QueuePrioritySQS\<close>\<close>

record priority_queue =
  priorities :: "int list"
  priority_to_queue_lookup :: "int \<rightharpoonup> string"
  msg_handle_to_queue_lookup :: "string \<rightharpoonup> string"

definition priority_queue_name :: "string \<Rightarrow> int \<Rightarrow> string" where
  "priority_queue_name first_queue_name priority =
     split_first ''__'' first_queue_name @ ''__'' @ str_of_int priority"

definition priority_init :: "'w sqs \<Rightarrow> string \<Rightarrow> string \<Rightarrow> ('w, priority_queue) io" where
  "priority_init sqs task_queue_config first_queue_name =
     io_bind (io_of (bind_result (json_loads task_queue_config) (\<lambda>config. py_index config ''priorities'')))
       (\<lambda>count. case count of
          PInt priorities_count \<Rightarrow>
            (let prios = map int [0..<nat priorities_count] in
             io_bind (io_mapM (\<lambda>priority. single_init sqs (priority_queue_name first_queue_name priority)) prios)
               (\<lambda>queues. io_return \<lparr>priorities = prios,
                  priority_to_queue_lookup = map_of (zip prios queues),
                  msg_handle_to_queue_lookup = Map.empty\<rparr>))
        | _ \<Rightarrow> io_raise TypeError)"

text \<open>\<open>priority_to_queue_lookup[p]\<close>: the keys are integers, and a truth value counts as one.\<close>

definition lookup_priority :: "priority_queue \<Rightarrow> pyval \<Rightarrow> string option" where
  "lookup_priority q p = (case p of
      PInt i \<Rightarrow> priority_to_queue_lookup q i
    | PBool b \<Rightarrow> priority_to_queue_lookup q (if b then 1 else 0)
    | _ \<Rightarrow> None)"

text \<open>The priority in \<open>message_attributes\<close>, if there is one.\<close>

definition priority_send_messages ::
  "'w sqs \<Rightarrow> priority_queue \<Rightarrow> sqs_entry list \<Rightarrow> pyval option \<Rightarrow> ('w, pyval) io" where
  "priority_send_messages sqs q message_bodies priority = wrap_queue_error
     (case lookup_priority q (case priority of Some p \<Rightarrow> p | None \<Rightarrow> PInt 0) of
        None \<Rightarrow> io_raise KeyError
      | Some queue \<Rightarrow> single_send_messages sqs queue message_bodies)"

text \<open>Polls the queues in the order given until one has a message.\<close>

fun receive_by_priority ::
  "'w sqs \<Rightarrow> priority_queue \<Rightarrow> int list \<Rightarrow> ('w, message option \<times> priority_queue) io" where
  "receive_by_priority sqs q [] = io_return (None, q)"
| "receive_by_priority sqs q (priority # ps) =
     (case priority_to_queue_lookup q priority of
        None \<Rightarrow> io_raise KeyError
      | Some queue \<Rightarrow>
          io_bind (single_receive_message sqs queue 0) (\<lambda>queue_sqs_response.
            case queue_sqs_response of
              Some m \<Rightarrow> io_return (Some m, q\<lparr>msg_handle_to_queue_lookup :=
                (msg_handle_to_queue_lookup q)(message_handle_id m \<mapsto> queue)\<rparr>)
            | None \<Rightarrow> receive_by_priority sqs q ps))"

definition priority_receive_message ::
  "'w sqs \<Rightarrow> priority_queue \<Rightarrow> ('w, message option \<times> priority_queue) io" where
  "priority_receive_message sqs q = receive_by_priority sqs q (rev (priorities q))"

definition get_queue_object :: "priority_queue \<Rightarrow> string \<Rightarrow> pyval \<Rightarrow> exn + string" where
  "get_queue_object q handle_id task_priority =
     (case msg_handle_to_queue_lookup q handle_id of
        Some queue \<Rightarrow> Inr queue
      | None \<Rightarrow>
          if task_priority \<noteq> PNone
          then (case lookup_priority q task_priority of Some queue \<Rightarrow> Inr queue | None \<Rightarrow> Inl KeyError)
          else Inl TaskQueueException)"

definition priority_delete_message ::
  "'w sqs \<Rightarrow> priority_queue \<Rightarrow> string \<Rightarrow> pyval \<Rightarrow> ('w, unit) io" where
  "priority_delete_message sqs q handle_id task_priority = wrap_queue_error
     (io_bind (io_of (get_queue_object q handle_id task_priority))
        (\<lambda>queue. single_delete_message sqs queue handle_id))"

definition priority_change_visibility ::
  "'w sqs \<Rightarrow> priority_queue \<Rightarrow> string \<Rightarrow> int \<Rightarrow> pyval \<Rightarrow> ('w, unit) io" where
  "priority_change_visibility sqs q handle_id visibility_timeout_sec task_priority = wrap_queue_error
     (io_bind (io_of (get_queue_object q handle_id task_priority))
        (\<lambda>queue. single_change_visibility sqs queue handle_id visibility_timeout_sec))"

fun sum_queue_lengths :: "'w sqs \<Rightarrow> priority_queue \<Rightarrow> int list \<Rightarrow> int \<Rightarrow> ('w, int) io" where
  "sum_queue_lengths sqs q [] so_far = io_return so_far"
| "sum_queue_lengths sqs q (p # ps) so_far =
     (case priority_to_queue_lookup q p of
        None \<Rightarrow> io_raise KeyError
      | Some queue \<Rightarrow> io_bind (single_get_queue_length sqs queue)
          (\<lambda>n. sum_queue_lengths sqs q ps (so_far + n)))"

definition priority_get_queue_length :: "'w sqs \<Rightarrow> priority_queue \<Rightarrow> ('w, int) io" where
  "priority_get_queue_length sqs q = sum_queue_lengths sqs q (priorities q) 0"

section \<open>\<open>queue_manager\<close>\<close>

datatype task_queue = QueueSQS string | QueuePrioritySQS priority_queue

definition replace_quote :: "char \<Rightarrow> char" where
  "replace_quote c = (if c = CHR 0x27 then CHR 0x22 else c)"

definition queue_manager :: "'w sqs \<Rightarrow> string \<Rightarrow> string \<Rightarrow> string \<Rightarrow> ('w, task_queue) io" where
  "queue_manager sqs task_queue_service task_queue_config tasks_queue_name =
     (let task_queue_config = map replace_quote task_queue_config in
      if task_queue_service = ''SQS'' then
        io_bind (single_init sqs tasks_queue_name) (\<lambda>q. io_return (QueueSQS q))
      else if task_queue_service = ''PrioritySQS'' then
        io_bind (priority_init sqs task_queue_config tasks_queue_name)
          (\<lambda>q. io_return (QueuePrioritySQS q))
      else io_raise NotImplementedError)"

text \<open>The methods the clients call, on either class.\<close>

fun send_messages :: "'w sqs \<Rightarrow> task_queue \<Rightarrow> sqs_entry list \<Rightarrow> pyval option \<Rightarrow> ('w, pyval) io" where
  "send_messages sqs (QueueSQS q) message_bodies priority = single_send_messages sqs q message_bodies"
| "send_messages sqs (QueuePrioritySQS q) message_bodies priority =
     priority_send_messages sqs q message_bodies priority"

fun receive_message :: "'w sqs \<Rightarrow> task_queue \<Rightarrow> int \<Rightarrow> ('w, message option \<times> task_queue) io" where
  "receive_message sqs (QueueSQS q) wait_time_sec =
     io_bind (single_receive_message sqs q wait_time_sec) (\<lambda>m. io_return (m, QueueSQS q))"
| "receive_message sqs (QueuePrioritySQS q) wait_time_sec =
     io_bind (priority_receive_message sqs q) (\<lambda>(m, q'). io_return (m, QueuePrioritySQS q'))"

fun delete_message :: "'w sqs \<Rightarrow> task_queue \<Rightarrow> string \<Rightarrow> pyval \<Rightarrow> ('w, unit) io" where
  "delete_message sqs (QueueSQS q) handle_id task_priority = single_delete_message sqs q handle_id"
| "delete_message sqs (QueuePrioritySQS q) handle_id task_priority =
     priority_delete_message sqs q handle_id task_priority"

fun change_visibility :: "'w sqs \<Rightarrow> task_queue \<Rightarrow> string \<Rightarrow> int \<Rightarrow> pyval \<Rightarrow> ('w, unit) io" where
  "change_visibility sqs (QueueSQS q) handle_id timeout task_priority =
     single_change_visibility sqs q handle_id timeout"
| "change_visibility sqs (QueuePrioritySQS q) handle_id timeout task_priority =
     priority_change_visibility sqs q handle_id timeout task_priority"

fun get_queue_length :: "'w sqs \<Rightarrow> task_queue \<Rightarrow> ('w, int) io" where
  "get_queue_length sqs (QueueSQS q) = single_get_queue_length sqs q"
| "get_queue_length sqs (QueuePrioritySQS q) = priority_get_queue_length sqs q"

lemmas single_queue_defs = single_init_def single_send_messages_def single_receive_message_def
  single_delete_message_def single_change_visibility_def single_get_queue_length_def wrap_queue_error_def

lemmas priority_queue_defs = priority_send_messages_def priority_receive_message_def
  priority_delete_message_def priority_change_visibility_def priority_get_queue_length_def

end
