(* ===== verification/TaskQueueLaws.thy ===== *)
theory TaskQueueLaws
  imports TaskQueue "HOL-Library.Multiset"
begin

text \<open>
  What the agent and the lambdas rely on when they use a task queue, as the locale
  \<open>task_queue_contract\<close>, with both queue classes and the object that \<open>queue_manager\<close> returns as its
  interpretations, and what Amazon SQS documents, as the predicate \<open>sqs_documented\<close>.
\<close>

section \<open>Documented behaviour of SQS\<close>

text \<open>
  A view of the queues: the bodies stored in a queue, and, for the most recent receipt handle of a
  message, the body of that message.  A handle that is not the most recent one of any message has none: SQS
  may answer a delete with such a handle without deleting anything, so nothing is said of it.
\<close>

record 'w queue_view =
  stored :: "'w \<Rightarrow> string \<Rightarrow> string multiset"
  live_handle :: "'w \<Rightarrow> string \<Rightarrow> string \<Rightarrow> string option"

text \<open>
  A send whose response names no failed entry stored every body.  A receive stores nothing and
  removes nothing; the handles it returns are the most recent ones of messages of that queue, and a handle goes
  stale only when its message is received again (or the receive fails without an answer).  A delete that succeeds with
  the most recent handle of a message removes this message; an error response changes nothing.
\<close>

definition all_sent :: "pyval \<Rightarrow> bool" where
  "all_sent response \<longleftrightarrow> py_get response ''Failed'' = Inr PNone"

definition send_documented :: "'w sqs \<Rightarrow> 'w queue_view \<Rightarrow> bool" where
  "send_documented sqs v \<longleftrightarrow> (\<forall>q es w r w'. sqs_send sqs q es w = (r, w') \<longrightarrow>
     live_handle v w' = live_handle v w \<and>
     (\<forall>resp. r = Inr resp \<and> all_sent resp \<longrightarrow>
        stored v w' = (stored v w)(q := stored v w q + mset (map entry_body es))))"

definition receive_documented :: "'w sqs \<Rightarrow> 'w queue_view \<Rightarrow> bool" where
  "receive_documented sqs v \<longleftrightarrow> (\<forall>q t w r w'. sqs_receive sqs q t w = (r, w') \<longrightarrow>
     stored v w' = stored v w \<and> (\<forall>n. n \<noteq> q \<longrightarrow> live_handle v w' n = live_handle v w n) \<and>
     (\<forall>ms. r = Inr ms \<longrightarrow>
        (\<forall>(b, h) \<in> set ms. b \<in># stored v w q \<and> live_handle v w' q h = Some b) \<and>
        (\<forall>h. h \<notin> snd ` set ms \<longrightarrow> live_handle v w' q h = live_handle v w q h \<or>
           live_handle v w' q h = None \<and> (\<exists>b \<in> fst ` set ms. live_handle v w q h = Some b))))"

definition delete_documented :: "'w sqs \<Rightarrow> 'w queue_view \<Rightarrow> bool" where
  "delete_documented sqs v \<longleftrightarrow> (\<forall>q h w r w'. sqs_delete sqs q h w = (r, w') \<longrightarrow>
     (\<forall>n h'. (n, h') \<noteq> (q, h) \<longrightarrow> live_handle v w' n h' = live_handle v w n h') \<and>
     (\<forall>b. r = Inr () \<and> live_handle v w q h = Some b \<longrightarrow>
        stored v w' = (stored v w)(q := stored v w q - {#b#})) \<and>
     (\<forall>c m. r = Inl (ClientError c m) \<longrightarrow> stored v w' = stored v w))"

definition sqs_documented :: "'w sqs \<Rightarrow> 'w queue_view \<Rightarrow> bool" where
  "sqs_documented sqs v \<longleftrightarrow> send_documented sqs v \<and> receive_documented sqs v \<and> delete_documented sqs v \<and>
     (\<forall>q h t w r w'. sqs_change_visibility sqs q h t w = (r, w') \<longrightarrow>
        live_handle v w' = live_handle v w \<and> stored v w' = stored v w)"

lemma sqs_sent:
  "sqs_documented sqs v \<Longrightarrow> sqs_send sqs q es w = (Inr resp, w') \<Longrightarrow> all_sent resp \<Longrightarrow>
     stored v w' = (stored v w)(q := stored v w q + mset (map entry_body es))"
  by (simp add: sqs_documented_def send_documented_def)

lemma sqs_received:
  assumes "sqs_documented sqs v" and "sqs_receive sqs q t w = (r, w')"
  shows "stored v w' = stored v w"
    and "r = Inr ((b, h) # ms) \<Longrightarrow> b \<in># stored v w q \<and> live_handle v w' q h = Some b"
  using assms unfolding sqs_documented_def receive_documented_def by fastforce+

lemma sqs_deleted:
  "sqs_documented sqs v \<Longrightarrow> sqs_delete sqs q h w = (Inr (), w') \<Longrightarrow> live_handle v w q h = Some b \<Longrightarrow>
     stored v w' = (stored v w)(q := stored v w q - {#b#})"
  by (simp add: sqs_documented_def delete_documented_def)

text \<open>The queues and another view of the world, such as the state table, do not share state.\<close>

definition sqs_keeps :: "'w sqs \<Rightarrow> ('w \<Rightarrow> 'v) \<Rightarrow> bool" where
  "sqs_keeps sqs v \<longleftrightarrow>
     (\<forall>q. keeps v (io_call (sqs_get_queue sqs q))) \<and> (\<forall>q es. keeps v (io_call (sqs_send sqs q es))) \<and>
     (\<forall>q t. keeps v (io_call (sqs_receive sqs q t))) \<and> (\<forall>q h. keeps v (io_call (sqs_delete sqs q h))) \<and>
     (\<forall>q h t. keeps v (io_call (sqs_change_visibility sqs q h t))) \<and>
     (\<forall>q. keeps v (io_call (sqs_length sqs q)))"

section \<open>The single queue\<close>

lemma wrap_queue_error_Inl: "wrap_queue_error m w = Some (Inl e, w') \<Longrightarrow> e = TaskQueueException"
  by (auto simp: wrap_queue_error_def io_catch_Some)

lemma wrap_queue_error_Inr: "wrap_queue_error m w = Some (Inr a, w') \<longleftrightarrow> m w = Some (Inr a, w')"
  by (auto simp: wrap_queue_error_def io_catch_Some)

lemma wrap_queue_error_keeps: "keeps v m \<Longrightarrow> keeps v (wrap_queue_error m)"
  unfolding wrap_queue_error_def by (intro keeps_catch keeps_raise)

lemma wrap_queue_error_returns: "returns m \<Longrightarrow> returns (wrap_queue_error m)"
  unfolding wrap_queue_error_def by (intro returns_catch returns_raise)

lemma single_keeps:
  assumes "sqs_keeps sqs v"
  shows "keeps v (single_send_messages sqs q es)" "keeps v (single_receive_message sqs q t)"
    "keeps v (single_delete_message sqs q h)" "keeps v (single_change_visibility sqs q h t)"
    "keeps v (single_get_queue_length sqs q)" "keeps v (single_init sqs q)"
  using assms unfolding sqs_keeps_def single_send_messages_def single_receive_message_def
    single_delete_message_def single_change_visibility_def single_get_queue_length_def single_init_def
  by (auto intro!: wrap_queue_error_keeps keeps_bind keeps_then)

lemma single_returns [simp]:
  "returns (single_send_messages sqs q es)" "returns (single_receive_message sqs q t)"
  "returns (single_delete_message sqs q h)" "returns (single_change_visibility sqs q h t)"
  "returns (single_get_queue_length sqs q)" "returns (single_init sqs q)"
  unfolding single_send_messages_def single_receive_message_def single_delete_message_def
    single_change_visibility_def single_get_queue_length_def single_init_def
  by (auto intro!: wrap_queue_error_returns returns_bind returns_then)

lemma single_raises:
  "single_delete_message sqs q h w = Some (Inl e, w') \<Longrightarrow> e = TaskQueueException"
  "single_change_visibility sqs q h t w = Some (Inl e, w') \<Longrightarrow> e = TaskQueueException"
  "single_send_messages sqs q es w = Some (Inl e, w') \<Longrightarrow> e = TaskQueueException"
  unfolding single_delete_message_def single_change_visibility_def single_send_messages_def
  by (rule wrap_queue_error_Inl, assumption)+

lemma single_receive_Inl: "single_receive_message sqs q t w = Some (Inl e, w') \<Longrightarrow> e = TaskQueueException"
  by (auto simp: single_receive_message_def io_bind_Some dest: wrap_queue_error_Inl)

lemma single_receive_Inr:
  assumes "single_receive_message sqs q t w = Some (Inr r, w')"
  shows "\<exists>ms. sqs_receive sqs q t w = (Inr ms, w') \<and>
     r = (case ms of [] \<Rightarrow> None | (body, h) # _ \<Rightarrow> Some \<lparr>msg_body = body, message_handle_id = h\<rparr>)"
  using assms by (auto simp: single_receive_message_def io_bind_Some wrap_queue_error_Inr)

lemma single_receive_some:
  assumes "single_receive_message sqs q t w = Some (Inr (Some m), w')"
  shows "\<exists>ms. sqs_receive sqs q t w = (Inr ((msg_body m, message_handle_id m) # ms), w')"
proof -
  obtain ms where ms: "sqs_receive sqs q t w = (Inr ms, w')"
    "Some m = (case ms of [] \<Rightarrow> None | (body, h) # _ \<Rightarrow> Some \<lparr>msg_body = body, message_handle_id = h\<rparr>)"
    using single_receive_Inr [OF assms] by blast
  then show ?thesis by (cases ms) auto
qed

lemma single_receive_none:
  assumes "single_receive_message sqs q t w = Some (Inr None, w')"
  shows "sqs_receive sqs q t w = (Inr [], w')"
proof -
  obtain ms where ms: "sqs_receive sqs q t w = (Inr ms, w')"
    "None = (case ms of [] \<Rightarrow> None | (body, h) # _ \<Rightarrow> Some \<lparr>msg_body = body, message_handle_id = h\<rparr>)"
    using single_receive_Inr [OF assms] by blast
  then show ?thesis by (cases ms) auto
qed

lemma single_receive_stored:
  assumes "sqs_documented sqs qv" and "single_receive_message sqs q t w = Some (r, w')"
  shows "stored qv w' = stored qv w "
proof -
  obtain r1 w1 where c: "sqs_receive sqs q t w = (r1, w1)" by (cases "sqs_receive sqs q t w")
  with assms(2) have "w' = w1"
    by (auto simp: single_receive_message_def wrap_queue_error_def io_apply split: sum.splits)
  with sqs_received(1) [OF assms(1) c] show ?thesis by simp
qed

section \<open>The contract\<close>

text \<open>
  \<open>ok\<close>: the object was constructed; \<open>source q h\<close>: the SQS queue on which the object will act for the
  handle \<open>h\<close> without being told the task's priority.
\<close>

locale task_queue_contract =
  fixes ok :: "'q \<Rightarrow> bool"
    and source :: "'q \<Rightarrow> string \<Rightarrow> string option"
    and receive :: "'w sqs \<Rightarrow> 'q \<Rightarrow> int \<Rightarrow> ('w, message option \<times> 'q) io"
    and delete :: "'w sqs \<Rightarrow> 'q \<Rightarrow> string \<Rightarrow> pyval \<Rightarrow> ('w, unit) io"
    and change :: "'w sqs \<Rightarrow> 'q \<Rightarrow> string \<Rightarrow> int \<Rightarrow> pyval \<Rightarrow> ('w, unit) io"
  assumes receive_raises: "ok q \<Longrightarrow> receive sqs q t w = Some (Inl e, w') \<Longrightarrow> e = TaskQueueException"
    and receive_ok: "ok q \<Longrightarrow> receive sqs q t w = Some (Inr (r, q'), w') \<Longrightarrow> ok q'"
    and receive_source: "ok q \<Longrightarrow> receive sqs q t w = Some (Inr (Some m, q'), w') \<Longrightarrow>
      \<exists>n t' w1 ms. source q' (message_handle_id m) = Some n \<and>
        sqs_receive sqs n t' w1 = (Inr ((msg_body m, message_handle_id m) # ms), w')"
    and receive_keeps_pred: "sqs_keeps sqs (P :: 'w \<Rightarrow> bool) \<Longrightarrow> keeps P (receive sqs q t)"
    and receive_returns: "returns (receive sqs q t)"
    and receive_stored: "sqs_documented sqs qv \<Longrightarrow> ok q \<Longrightarrow> receive sqs q t w = Some (res, w') \<Longrightarrow>
      stored qv w' = stored qv w "
    and delete_at_source: "source q h = Some n \<Longrightarrow> delete sqs q h p w = single_delete_message sqs n h w"
    and delete_raises: "delete sqs q h p w = Some (Inl e, w') \<Longrightarrow> e = TaskQueueException"
    and delete_keeps_pred: "sqs_keeps sqs (P :: 'w \<Rightarrow> bool) \<Longrightarrow> keeps P (delete sqs q h p)"
    and delete_returns: "returns (delete sqs q h p)"
    and change_raises: "change sqs q h t p w = Some (Inl e, w') \<Longrightarrow> e = TaskQueueException"
    and change_keeps_pred: "sqs_keeps sqs (P :: 'w \<Rightarrow> bool) \<Longrightarrow> keeps P (change sqs q h t p)"
    and change_returns: "returns (change sqs q h t p)"
begin

text \<open>Any view of the world that SQS keeps, the operations keep.\<close>

lemma op_keeps:
  fixes v :: "'w \<Rightarrow> 'v"
  assumes "sqs_keeps sqs v"
  shows "keeps v (receive sqs q t)" "keeps v (delete sqs q h p)" "keeps v (change sqs q h t' p)"
proof -
  have "sqs_keeps sqs (\<lambda>w. v w = x)" for x
    using assms unfolding sqs_keeps_def by (auto intro: keeps_view [where f = "\<lambda>y. y = x"])
  then show "keeps v (receive sqs q t)" "keeps v (delete sqs q h p)" "keeps v (change sqs q h t' p)"
    by (auto intro: keeps_all_views receive_keeps_pred delete_keeps_pred change_keeps_pred)
qed

text \<open>A message that was received is known by its handle to the SQS queue it came from.\<close>

lemma received_issued:
  assumes "sqs_documented sqs qv" and "ok q" and "receive sqs q t w = Some (Inr (Some m, q'), w')"
  shows "\<exists>n. source q' (message_handle_id m) = Some n \<and>
     live_handle qv w' n (message_handle_id m) = Some (msg_body m) \<and> msg_body m \<in># stored qv w' n"
proof -
  obtain n t' w1 ms where n: "source q' (message_handle_id m) = Some n"
    and r: "sqs_receive sqs n t' w1 = (Inr ((msg_body m, message_handle_id m) # ms), w')"
    using receive_source [OF assms(2,3)] by blast
  from sqs_received [OF assms(1) r] n show ?thesis by auto
qed

text \<open>Deleting it removes that message from that queue and touches no other.\<close>

lemma delete_received:
  assumes "sqs_documented sqs qv" and "source q h = Some n" and "live_handle qv w n h = Some b"
    and "delete sqs q h p w = Some (Inr u, w')"
  shows "stored qv w' = (stored qv w)(n := stored qv w n - {#b#})"
proof -
  from assms(4) delete_at_source [OF assms(2)]
  have "sqs_delete sqs n h w = (Inr (), w')"
    by (simp add: single_delete_message_def wrap_queue_error_Inr)
  from sqs_deleted [OF assms(1) this assms(3)] show ?thesis .
qed

end

interpretation single_queue: task_queue_contract
  "\<lambda>q. True" "\<lambda>q h. Some q"
  "\<lambda>sqs q t. io_bind (single_receive_message sqs q t) (\<lambda>m. io_return (m, q))"
  "\<lambda>sqs q h p. single_delete_message sqs q h"
  "\<lambda>sqs q h t p. single_change_visibility sqs q h t"
proof unfold_locales
  fix sqs :: "'w sqs" and q t w e w'
  assume "io_bind (single_receive_message sqs q t) (\<lambda>m. io_return (m, q)) w = Some (Inl e, w')"
  then show "e = TaskQueueException" by (auto simp: io_bind_Some dest: single_receive_Inl)
next
  fix sqs :: "'w sqs" and q t w m q' w'
  assume "io_bind (single_receive_message sqs q t) (\<lambda>m. io_return (m, q)) w = Some (Inr (Some m, q'), w')"
  then have run: "single_receive_message sqs q t w = Some (Inr (Some m), w')" and q: "q' = q"
    by (auto simp: io_bind_Some)
  from single_receive_some [OF run] obtain ms where
    "sqs_receive sqs q t w = (Inr ((msg_body m, message_handle_id m) # ms), w')" ..
  with q show "\<exists>n t' w1 ms. Some q' = Some n \<and>
      sqs_receive sqs n t' w1 = (Inr ((msg_body m, message_handle_id m) # ms), w')" by simp blast
next
  fix sqs :: "'w sqs" and qv q t w r w'
  assume "sqs_documented sqs qv"
    and "io_bind (single_receive_message sqs q t) (\<lambda>m. io_return (m, q)) w = Some (r, w')"
  then show "stored qv w' = stored qv w "
    by (auto simp: io_bind_Some dest: single_receive_stored)
qed (simp_all add: single_keeps keeps_bind returns_bind single_raises)

section \<open>The priority queue\<close>

definition priority_ok :: "priority_queue \<Rightarrow> bool" where
  "priority_ok q \<longleftrightarrow> (\<forall>p \<in> set (priorities q). priority_to_queue_lookup q p \<noteq> None)"

lemma receive_by_priority_Inl:
  "\<forall>p \<in> set ps. priority_to_queue_lookup q p \<noteq> None \<Longrightarrow>
     receive_by_priority sqs q ps w = Some (Inl e, w') \<Longrightarrow> e = TaskQueueException"
  by (induction sqs q ps arbitrary: w rule: receive_by_priority.induct)
    (auto simp: io_bind_Some dest: single_receive_Inl split: option.splits)

lemma receive_by_priority_none:
  "receive_by_priority sqs q ps w = Some (Inr (None, q'), w') \<Longrightarrow> q' = q"
  by (induction sqs q ps arbitrary: w rule: receive_by_priority.induct)
    (auto simp: io_bind_Some split: option.splits)

text \<open>The queue that had the message, and the queues before it, which had none.\<close>

lemma receive_by_priority_some:
  "receive_by_priority sqs q ps w = Some (Inr (Some m, q'), w') \<Longrightarrow>
     \<exists>before p after n w1 ms. ps = before @ p # after \<and> priority_to_queue_lookup q p = Some n \<and>
       receive_by_priority sqs q before w = Some (Inr (None, q), w1) \<and>
       sqs_receive sqs n 0 w1 = (Inr ((msg_body m, message_handle_id m) # ms), w') \<and>
       q' = q\<lparr>msg_handle_to_queue_lookup := (msg_handle_to_queue_lookup q)(message_handle_id m \<mapsto> n)\<rparr>"
proof (induction ps arbitrary: w)
  case Nil
  then show ?case by simp
next
  case (Cons p ps)
  then obtain n where n: "priority_to_queue_lookup q p = Some n"
    by (cases "priority_to_queue_lookup q p") simp_all
  with Cons.prems obtain r w2 where r: "single_receive_message sqs n 0 w = Some (Inr r, w2)"
    and k: "(case r of Some m \<Rightarrow> io_return (Some m, q\<lparr>msg_handle_to_queue_lookup :=
        (msg_handle_to_queue_lookup q)(message_handle_id m \<mapsto> n)\<rparr>)
      | None \<Rightarrow> receive_by_priority sqs q ps) w2 = Some (Inr (Some m, q'), w')"
    by (auto simp: io_bind_Inr)
  consider (here) "single_receive_message sqs n 0 w = Some (Inr (Some m), w')"
      "q' = q\<lparr>msg_handle_to_queue_lookup := (msg_handle_to_queue_lookup q)(message_handle_id m \<mapsto> n)\<rparr>"
    | (later) w2 where "single_receive_message sqs n 0 w = Some (Inr None, w2)"
        "receive_by_priority sqs q ps w2 = Some (Inr (Some m, q'), w')"
    using r k by (cases r) auto
  then show ?case
  proof cases
    case here
    obtain ms where "sqs_receive sqs n 0 w = (Inr ((msg_body m, message_handle_id m) # ms), w')"
      using single_receive_some [OF here(1)] by blast
    with n here(2) have "p # ps = [] @ p # ps \<and> priority_to_queue_lookup q p = Some n \<and>
       receive_by_priority sqs q [] w = Some (Inr (None, q), w) \<and>
       sqs_receive sqs n 0 w = (Inr ((msg_body m, message_handle_id m) # ms), w') \<and>
       q' = q\<lparr>msg_handle_to_queue_lookup := (msg_handle_to_queue_lookup q)(message_handle_id m \<mapsto> n)\<rparr>"
      by simp
    then show ?thesis by blast
  next
    case later
    from Cons.IH [OF later(2)] obtain before p' after n' w1 ms where IH: "ps = before @ p' # after"
      "priority_to_queue_lookup q p' = Some n'"
      "receive_by_priority sqs q before w2 = Some (Inr (None, q), w1)"
      "sqs_receive sqs n' 0 w1 = (Inr ((msg_body m, message_handle_id m) # ms), w')"
      "q' = q\<lparr>msg_handle_to_queue_lookup := (msg_handle_to_queue_lookup q)(message_handle_id m \<mapsto> n')\<rparr>"
      by blast
    from n later(1) IH(3) have "receive_by_priority sqs q (p # before) w = Some (Inr (None, q), w1)"
      by (simp add: io_bind_apply)
    with IH have "p # ps = (p # before) @ p' # after \<and> priority_to_queue_lookup q p' = Some n' \<and>
       receive_by_priority sqs q (p # before) w = Some (Inr (None, q), w1) \<and>
       sqs_receive sqs n' 0 w1 = (Inr ((msg_body m, message_handle_id m) # ms), w') \<and>
       q' = q\<lparr>msg_handle_to_queue_lookup := (msg_handle_to_queue_lookup q)(message_handle_id m \<mapsto> n')\<rparr>"
      by simp
    then show ?thesis by blast
  qed
qed

lemma receive_by_priority_keeps: "sqs_keeps sqs v \<Longrightarrow> keeps v (receive_by_priority sqs q ps)"
  by (induction sqs q ps rule: receive_by_priority.induct)
    (auto intro!: keeps_bind single_keeps split: option.splits)

lemma receive_by_priority_returns: "returns (receive_by_priority sqs q ps)"
proof (induction ps)
  case Nil
  show ?case unfolding receive_by_priority.simps by (rule returns_return)
next
  case (Cons p ps)
  show ?case
  proof (cases "priority_to_queue_lookup q p")
    case None
    then show ?thesis by (simp only: receive_by_priority.simps option.case returns_raise)
  next
    case (Some n)
    have "returns (case r of Some m \<Rightarrow> io_return (Some m, q\<lparr>msg_handle_to_queue_lookup :=
        (msg_handle_to_queue_lookup q)(message_handle_id m \<mapsto> n)\<rparr>) | None \<Rightarrow> receive_by_priority sqs q ps)"
      for r :: "message option" using Cons.IH by (cases r) simp_all
    with Some show ?thesis
      by (simp only: receive_by_priority.simps option.case returns_bind [OF single_returns(2)])
  qed
qed

lemma receive_by_priority_stored:
  "sqs_documented sqs qv \<Longrightarrow> receive_by_priority sqs q ps w = Some (r, w') \<Longrightarrow>
     stored qv w' = stored qv w "
proof (induction ps arbitrary: w)
  case Nil
  then show ?case by auto
next
  case (Cons p ps)
  show ?case
  proof (cases "priority_to_queue_lookup q p")
    case None
    with Cons.prems show ?thesis by auto
  next
    case (Some n)
    obtain r1 w1 where c: "single_receive_message sqs n 0 w = Some (r1, w1)"
      using single_returns(2) [of sqs n 0] by (fastforce simp: returns_def)
    note step = single_receive_stored [OF Cons.prems(1) c]
    show ?thesis
    proof (cases "r1 = Inr None")
      case True
      with Cons.prems(2) Some c have "receive_by_priority sqs q ps w1 = Some (r, w')"
        by (simp add: io_bind_apply)
      from Cons.IH [OF Cons.prems(1) this] step show ?thesis by simp
    next
      case False
      with Cons.prems(2) Some c have "w' = w1"
        by (auto simp: io_bind_apply split: sum.splits option.splits)
      with step show ?thesis by simp
    qed
  qed
qed

lemma receive_by_priority_ok:
  fixes q :: priority_queue
  assumes "priority_ok q" and "receive_by_priority sqs q ps w = Some (Inr (r, q'), w')"
  shows "priority_ok q'"
proof (cases r)
  case None
  have "q' = q" by (rule receive_by_priority_none [OF assms(2) [unfolded None]])
  with assms(1) show ?thesis by simp
next
  case (Some m)
  from receive_by_priority_some [OF assms(2) [unfolded Some]] obtain n where
    "q' = q\<lparr>msg_handle_to_queue_lookup := (msg_handle_to_queue_lookup q)(message_handle_id m \<mapsto> n)\<rparr>"
    by blast
  with assms(1) show ?thesis by (simp add: priority_ok_def)
qed

lemma priority_op_raises:
  "priority_delete_message sqs q h p w = Some (Inl e, w') \<Longrightarrow> e = TaskQueueException"
  "priority_change_visibility sqs q h t p w = Some (Inl e, w') \<Longrightarrow> e = TaskQueueException"
  "priority_send_messages sqs q es pr w = Some (Inl e, w') \<Longrightarrow> e = TaskQueueException"
  unfolding priority_delete_message_def priority_change_visibility_def priority_send_messages_def
  by (rule wrap_queue_error_Inl, assumption)+

lemma priority_op_keeps:
  fixes q :: priority_queue
  assumes "sqs_keeps sqs v"
  shows "keeps v (priority_delete_message sqs q h p)" "keeps v (priority_change_visibility sqs q h t p)"
    "keeps v (priority_send_messages sqs q es pr)"
  unfolding priority_delete_message_def priority_change_visibility_def priority_send_messages_def
  by (intro wrap_queue_error_keeps keeps_bind keeps_of single_keeps [OF assms])+
    (auto intro: wrap_queue_error_keeps single_keeps [OF assms] split: option.splits)

lemma priority_op_returns:
  "returns (priority_delete_message sqs q h p)" "returns (priority_change_visibility sqs q h t p)"
  "returns (priority_send_messages sqs q es pr)"
  unfolding priority_delete_message_def priority_change_visibility_def priority_send_messages_def
  by (intro wrap_queue_error_returns returns_bind returns_of single_returns)+
    (auto intro: wrap_queue_error_returns split: option.splits)

interpretation priority_queue: task_queue_contract
  priority_ok "\<lambda>q h. msg_handle_to_queue_lookup q h"
  "\<lambda>sqs q t. priority_receive_message sqs q" priority_delete_message priority_change_visibility
proof unfold_locales
  fix sqs :: "'w sqs" and q t w e w'
  assume "priority_ok q" "priority_receive_message sqs q w = Some (Inl e, w')"
  then show "e = TaskQueueException"
    using receive_by_priority_Inl [of "rev (priorities q)" q sqs w e w']
    by (simp add: priority_receive_message_def priority_ok_def)
next
  fix sqs :: "'w sqs" and q t w r q' w'
  assume "priority_ok q" "priority_receive_message sqs q w = Some (Inr (r, q'), w')"
  then show "priority_ok q'" unfolding priority_receive_message_def by (rule receive_by_priority_ok)
next
  fix sqs :: "'w sqs" and q t w m q' w'
  assume "priority_receive_message sqs q w = Some (Inr (Some m, q'), w')"
  from receive_by_priority_some [OF this [unfolded priority_receive_message_def]]
  show "\<exists>n t' w1 ms. msg_handle_to_queue_lookup q' (message_handle_id m) = Some n \<and>
      sqs_receive sqs n t' w1 = (Inr ((msg_body m, message_handle_id m) # ms), w')"
    by (elim exE conjE) (intro exI conjI, simp, assumption)
next
  fix sqs :: "'w sqs" and v :: "'w \<Rightarrow> bool" and q t
  assume "sqs_keeps sqs v"
  then show "keeps v (priority_receive_message sqs q)"
    unfolding priority_receive_message_def by (rule receive_by_priority_keeps)
next
  fix sqs :: "'w sqs" and q t
  show "returns (priority_receive_message sqs q)"
    unfolding priority_receive_message_def by (rule receive_by_priority_returns)
next
  fix sqs :: "'w sqs" and qv q t w res w'
  assume "sqs_documented sqs qv" "priority_receive_message sqs q w = Some (res, w')"
  then show "stored qv w' = stored qv w "
    unfolding priority_receive_message_def by (rule receive_by_priority_stored)
next
  fix sqs :: "'w sqs" and q :: priority_queue and h n p w
  assume "msg_handle_to_queue_lookup q h = Some n"
  then show "priority_delete_message sqs q h p w = single_delete_message sqs n h w"
    by (auto simp: priority_delete_message_def single_delete_message_def get_queue_object_def
        wrap_queue_error_def io_apply split: sum.splits prod.splits)
qed (simp_all add: priority_op_keeps priority_op_returns priority_op_raises)

section \<open>The object that \<open>queue_manager\<close> returns\<close>

fun queue_ok :: "task_queue \<Rightarrow> bool" where
  "queue_ok (QueueSQS q) \<longleftrightarrow> True"
| "queue_ok (QueuePrioritySQS q) \<longleftrightarrow> priority_ok q"

fun queue_source :: "task_queue \<Rightarrow> string \<Rightarrow> string option" where
  "queue_source (QueueSQS q) h = Some q"
| "queue_source (QueuePrioritySQS q) h = msg_handle_to_queue_lookup q h"

lemma receive_message_Inl:
  "receive_message sqs q t w = Some (Inl e, w') \<longleftrightarrow> (case q of
     QueueSQS n \<Rightarrow> io_bind (single_receive_message sqs n t) (\<lambda>m. io_return (m, n)) w = Some (Inl e, w')
   | QueuePrioritySQS pq \<Rightarrow> priority_receive_message sqs pq w = Some (Inl e, w'))"
  by (cases q) (auto simp: io_bind_Some split: prod.splits)

lemma receive_message_Inr:
  "receive_message sqs q t w = Some (Inr (m, q'), w') \<longleftrightarrow> (case q of
     QueueSQS n \<Rightarrow> q' = QueueSQS n \<and>
       io_bind (single_receive_message sqs n t) (\<lambda>m. io_return (m, n)) w = Some (Inr (m, n), w')
   | QueuePrioritySQS pq \<Rightarrow> (\<exists>pq'. q' = QueuePrioritySQS pq' \<and>
       priority_receive_message sqs pq w = Some (Inr (m, pq'), w')))"
  by (cases q) (auto simp: io_bind_Some split: prod.splits)

lemma receive_message_stored:
  "sqs_documented sqs qv \<Longrightarrow> receive_message sqs q t w = Some (res, w') \<Longrightarrow>
     stored qv w' = stored qv w "
proof (cases q)
  case (QueueSQS n)
  assume "sqs_documented sqs qv" "receive_message sqs q t w = Some (res, w')"
  with QueueSQS show ?thesis by (auto simp: io_bind_Some dest: single_receive_stored)
next
  case (QueuePrioritySQS pq)
  assume "sqs_documented sqs qv" "receive_message sqs q t w = Some (res, w')"
  with QueuePrioritySQS show ?thesis unfolding priority_receive_message_def
    by (auto simp: io_bind_Some priority_receive_message_def split: prod.splits
        dest: receive_by_priority_stored)
qed

interpretation grid_queue: task_queue_contract
  queue_ok queue_source receive_message delete_message change_visibility
proof unfold_locales
  fix sqs :: "'w sqs" and q t w e w'
  assume "queue_ok q" "receive_message sqs q t w = Some (Inl e, w')"
  then show "e = TaskQueueException"
    using single_queue.receive_raises priority_queue.receive_raises
    by (auto simp: receive_message_Inl split: task_queue.splits)
next
  fix sqs :: "'w sqs" and q t w r q' w'
  assume "queue_ok q" "receive_message sqs q t w = Some (Inr (r, q'), w')"
  then show "queue_ok q'" using priority_queue.receive_ok
    by (auto simp: receive_message_Inr split: task_queue.splits)
next
  fix sqs :: "'w sqs" and q t w m q' w'
  assume "queue_ok q" "receive_message sqs q t w = Some (Inr (Some m, q'), w')"
  then show "\<exists>n t' w1 ms. queue_source q' (message_handle_id m) = Some n \<and>
      sqs_receive sqs n t' w1 = (Inr ((msg_body m, message_handle_id m) # ms), w')"
    using single_queue.receive_source priority_queue.receive_source
    by (fastforce simp: receive_message_Inr split: task_queue.splits)
next
  fix sqs :: "'w sqs" and v :: "'w \<Rightarrow> bool" and q t
  assume "sqs_keeps sqs v"
  then show "keeps v (receive_message sqs q t)"
    by (cases q) (auto intro!: keeps_bind single_keeps receive_by_priority_keeps
        simp: priority_receive_message_def split: prod.splits)
next
  fix sqs :: "'w sqs" and q t
  show "returns (receive_message sqs q t)"
    by (cases q) (auto intro!: returns_bind priority_queue.receive_returns split: prod.splits)
next
  fix sqs :: "'w sqs" and qv q t w res w'
  assume "sqs_documented sqs qv" "receive_message sqs q t w = Some (res, w')"
  then show "stored qv w' = stored qv w " by (rule receive_message_stored)
next
  fix sqs :: "'w sqs" and q h n p w
  assume "queue_source q h = Some n"
  then show "delete_message sqs q h p w = single_delete_message sqs n h w"
    using priority_queue.delete_at_source by (cases q) auto
next
  fix sqs :: "'w sqs" and q h p w e w'
  assume "delete_message sqs q h p w = Some (Inl e, w')"
  then show "e = TaskQueueException" by (cases q) (auto dest: single_raises priority_op_raises)
next
  fix sqs :: "'w sqs" and v :: "'w \<Rightarrow> bool" and q h p
  assume "sqs_keeps sqs v"
  then show "keeps v (delete_message sqs q h p)"
    by (cases q) (auto intro: single_keeps priority_op_keeps)
next
  fix sqs :: "'w sqs" and q h p
  show "returns (delete_message sqs q h p)" by (cases q) (auto intro: priority_op_returns)
next
  fix sqs :: "'w sqs" and q h t p w e w'
  assume "change_visibility sqs q h t p w = Some (Inl e, w')"
  then show "e = TaskQueueException" by (cases q) (auto dest: single_raises priority_op_raises)
next
  fix sqs :: "'w sqs" and v :: "'w \<Rightarrow> bool" and q h t p
  assume "sqs_keeps sqs v"
  then show "keeps v (change_visibility sqs q h t p)"
    by (cases q) (auto intro: single_keeps priority_op_keeps)
next
  fix sqs :: "'w sqs" and q h t p
  show "returns (change_visibility sqs q h t p)" by (cases q) (auto intro: priority_op_returns)
qed

text \<open>Sending.\<close>

lemma send_messages_raises: "send_messages sqs q es p w = Some (Inl e, w') \<Longrightarrow> e = TaskQueueException"
  by (cases q) (auto dest: single_raises priority_op_raises)

lemma send_messages_keeps: "sqs_keeps sqs v \<Longrightarrow> keeps v (send_messages sqs q es p)"
  by (cases q) (auto intro: single_keeps priority_op_keeps)

lemma send_messages_returns: "returns (send_messages sqs q es p)"
  by (cases q) (auto intro: priority_op_returns)

text \<open>The SQS queue to which messages of a priority go.\<close>

fun queue_for_priority :: "task_queue \<Rightarrow> pyval option \<Rightarrow> string option" where
  "queue_for_priority (QueueSQS q) p = Some q"
| "queue_for_priority (QueuePrioritySQS q) p =
     lookup_priority q (case p of Some p \<Rightarrow> p | None \<Rightarrow> PInt 0)"

lemma send_messages_Inr:
  "send_messages sqs q es p w = Some (Inr resp, w') \<longleftrightarrow>
     (\<exists>n. queue_for_priority q p = Some n \<and> sqs_send sqs n es w = (Inr resp, w'))"
  by (cases q) (auto simp: single_send_messages_def priority_send_messages_def wrap_queue_error_Inr
      split: option.splits)

section \<open>Construction\<close>

lemma mapM_single_init:
  "io_mapM (\<lambda>p. single_init sqs (f p)) ps w = Some (Inr qs, w') \<Longrightarrow> qs = map f ps"
  by (induction ps arbitrary: w qs)
    (auto simp: io_bind_Some io_then_Some single_init_def wrap_queue_error_Inr)

lemma map_of_zip_map: "p \<in> set ps \<Longrightarrow> map_of (zip ps (map f ps)) p = Some (f p)"
  by (induction ps) auto

lemma map_of_zip_map_none: "p \<notin> set ps \<Longrightarrow> map_of (zip ps (map f ps)) p = None"
  by (induction ps) auto

lemma priority_init_built:
  assumes "priority_init sqs config first w = Some (Inr q, w')"
  shows "\<exists>n v. json_loads config = Inr v \<and> py_index v ''priorities'' = Inr (PInt n) \<and>
     priorities q = map int [0..<nat n] \<and>
     (\<forall>p. priority_to_queue_lookup q p =
        (if 0 \<le> p \<and> p < n then Some (priority_queue_name first p) else None)) \<and>
     msg_handle_to_queue_lookup q = Map.empty"
proof -
  from assms obtain v c where v: "json_loads config = Inr v" "py_index v ''priorities'' = Inr c"
    and k: "(case c of
          PInt priorities_count \<Rightarrow>
            (let prios = map int [0..<nat priorities_count] in
             io_bind (io_mapM (\<lambda>priority. single_init sqs (priority_queue_name first priority)) prios)
               (\<lambda>queues. io_return \<lparr>priorities = prios,
                  priority_to_queue_lookup = map_of (zip prios queues),
                  msg_handle_to_queue_lookup = Map.empty\<rparr>))
        | _ \<Rightarrow> io_raise TypeError) w = Some (Inr q, w')"
    by (auto simp: priority_init_def io_bind_Inr bind_result_Inr)
  from k obtain n where c: "c = PInt n" by (cases c) auto
  with k obtain qs where
    m: "io_mapM (\<lambda>p. single_init sqs (priority_queue_name first p)) (map int [0..<nat n]) w = Some (Inr qs, w')"
    and q: "q = \<lparr>priorities = map int [0..<nat n], priority_to_queue_lookup = map_of (zip (map int [0..<nat n]) qs),
       msg_handle_to_queue_lookup = Map.empty\<rparr>"
    by (auto simp: Let_def io_bind_Inr)
  have qs: "qs = map (priority_queue_name first) (map int [0..<nat n])" by (rule mapM_single_init [OF m])
  have mem: "p \<in> set (map int [0..<nat n]) \<longleftrightarrow> 0 \<le> p \<and> p < n" for p
  proof
    assume "0 \<le> p \<and> p < n"
    then have "nat p \<in> set [0..<nat n]" "p = int (nat p)" by simp_all
    then show "p \<in> set (map int [0..<nat n])" by (metis imageI set_map)
  qed auto
  have lookup: "priority_to_queue_lookup q p =
      (if 0 \<le> p \<and> p < n then Some (priority_queue_name first p) else None)" for p
  proof (cases "p \<in> set (map int [0..<nat n])")
    case True
    then show ?thesis using mem [of p] by (simp only: q qs priority_queue.simps map_of_zip_map) simp
  next
    case False
    then show ?thesis using mem [of p] by (simp only: q qs priority_queue.simps map_of_zip_map_none) simp
  qed
  have "priorities q = map int [0..<nat n]" "msg_handle_to_queue_lookup q = Map.empty"
    by (simp_all add: q)
  with v c lookup show ?thesis by blast
qed

lemma priority_init_ok: "priority_init sqs config first w = Some (Inr q, w') \<Longrightarrow> priority_ok q"
  by (auto dest!: priority_init_built simp: priority_ok_def)

lemma queue_manager_ok: "queue_manager sqs service config name w = Some (Inr q, w') \<Longrightarrow> queue_ok q"
  by (auto simp: queue_manager_def io_bind_Some Let_def dest: priority_init_ok split: if_splits)

end
