(* ===== verification/MemoryQueue.thy ===== *)
theory MemoryQueue
  imports TaskQueueLaws
begin

text \<open>
  A concrete SQS in memory, beside the table of \<open>MemoryTable\<close>: each queue is the list of its
  messages, the receipt handle of a message is always its body, and a received message stays in the
  queue until it is deleted.  The properties of the queues and their witnesses follow.
\<close>

record mem_grid = mem_world +
  mem_msgs :: "string \<Rightarrow> string list"

definition mem_sqs :: "'a mem_grid_scheme sqs" where
  "mem_sqs = \<lparr>
     sqs_get_queue = (\<lambda>q w. (Inr (), w)),
     sqs_send = (\<lambda>q es w. (Inr (PDict [(''Successful'', PList [])]),
       w\<lparr>mem_msgs := (mem_msgs w)(q := mem_msgs w q @ map entry_body es)\<rparr>)),
     sqs_receive = (\<lambda>q t w. (Inr (case mem_msgs w q of [] \<Rightarrow> [] | b # _ \<Rightarrow> [(b, b)]), w)),
     sqs_delete = (\<lambda>q h w. (Inr (), w\<lparr>mem_msgs := (mem_msgs w)(q := remove1 h (mem_msgs w q))\<rparr>)),
     sqs_change_visibility = (\<lambda>q h t w. (Inr (), w)),
     sqs_length = (\<lambda>q w. (Inr (int (length (mem_msgs w q))), w))\<rparr>"

lemma mem_sqs_simps [simp]:
  "sqs_get_queue mem_sqs q w = (Inr (), w)"
  "sqs_send mem_sqs q es w = (Inr (PDict [(''Successful'', PList [])]),
     w\<lparr>mem_msgs := (mem_msgs w)(q := mem_msgs w q @ map entry_body es)\<rparr>)"
  "sqs_receive mem_sqs q t w = (Inr (case mem_msgs w q of [] \<Rightarrow> [] | b # _ \<Rightarrow> [(b, b)]), w)"
  "sqs_delete mem_sqs q h w = (Inr (), w\<lparr>mem_msgs := (mem_msgs w)(q := remove1 h (mem_msgs w q))\<rparr>)"
  "sqs_change_visibility mem_sqs q h t w = (Inr (), w)"
  "sqs_length mem_sqs q w = (Inr (int (length (mem_msgs w q))), w)"
  by (simp_all add: mem_sqs_def)

definition mem_queue_view :: "'a mem_grid_scheme queue_view" where
  "mem_queue_view = \<lparr>stored = (\<lambda>w q. mset (mem_msgs w q)), live_handle = (\<lambda>w q h. Some h)\<rparr>"

lemma mem_queue_view_simps [simp]:
  "stored mem_queue_view w = (\<lambda>q. mset (mem_msgs w q))" "live_handle mem_queue_view w q h = Some h"
  by (simp_all add: mem_queue_view_def)

lemma mem_sqs_documented: "sqs_documented mem_sqs mem_queue_view"
  by (auto simp: sqs_documented_def send_documented_def receive_documented_def delete_documented_def fun_eq_iff
      split: list.splits) (metis list.set_intros(1))

lemma mem_sqs_keeps_table: "sqs_keeps mem_sqs mem_table"
  by (auto simp: sqs_keeps_def keeps_def mem_table_def)

section \<open>Properties\<close>

text \<open>
  The calls of \<open>receive_message\<close> on one queue object, the latest first: what each returned, and the world before and after
  it.  Between the calls the world may change in any way.
\<close>

type_synonym 'w receive_call = "message option \<times> 'w \<times> 'w"

inductive received_calls :: "'w sqs \<Rightarrow> task_queue \<Rightarrow> 'w receive_call list \<Rightarrow> task_queue \<Rightarrow> bool"
  for sqs q where
  no_calls: "received_calls sqs q [] q"
| one_more: "received_calls sqs q cs q1 \<Longrightarrow> receive_message sqs q1 t w = Some (Inr (m, q2), w') \<Longrightarrow>
    received_calls sqs q ((m, w, w') # cs) q2"

text \<open>The SQS queues of these priorities were asked one after the other, and none had a message.\<close>

fun polled_empty :: "'w sqs \<Rightarrow> string \<Rightarrow> nat list \<Rightarrow> 'w \<Rightarrow> 'w option" where
  "polled_empty sqs name [] w = Some w"
| "polled_empty sqs name (p # ps) w = (case sqs_receive sqs (priority_queue_name name (int p)) 0 w of
      (Inr [], v) \<Rightarrow> polled_empty sqs name ps v
    | _ \<Rightarrow> None)"

text \<open>The call was served from the queue of the highest priority that had a message: its handle and that queue.\<close>

definition served_highest :: "'w sqs \<Rightarrow> string \<Rightarrow> nat \<Rightarrow> 'w receive_call \<Rightarrow> (string \<times> string) list \<Rightarrow> bool" where
  "served_highest sqs name n call served = (case call of
      (None, w, w') \<Rightarrow> served = [] \<and> polled_empty sqs name (rev [0..<n]) w = Some w'
    | (Some m, w, w') \<Rightarrow> (\<exists>p < n. \<exists>v ms. served = [(message_handle_id m, priority_queue_name name (int p))] \<and>
        polled_empty sqs name (rev [Suc p..<n]) w = Some v \<and>
        sqs_receive sqs (priority_queue_name name (int p)) 0 v = (Inr ((msg_body m, message_handle_id m) # ms), w')))"

definition built_for :: "string \<Rightarrow> nat \<Rightarrow> priority_queue \<Rightarrow> bool" where
  "built_for name n q \<longleftrightarrow> priorities q = map int [0..<n] \<and>
     (\<forall>p < n. priority_to_queue_lookup q (int p) = Some (priority_queue_name name (int p)))"

lemma receive_by_priority_polled:
  assumes "built_for name n q" and "\<forall>p \<in> set ps. p < n"
    and "receive_by_priority sqs q (map int ps) w = Some (Inr (None, q'), w')"
  shows "polled_empty sqs name ps w = Some w'"
  using assms(2,3)
proof (induction ps arbitrary: w)
  case (Cons p ps)
  then have "priority_to_queue_lookup q (int p) = Some (priority_queue_name name (int p))"
    using assms(1) by (simp add: built_for_def)
  with Cons.prems(2) obtain v where "single_receive_message sqs (priority_queue_name name (int p)) 0 w = Some (Inr None, v)"
    and rest: "receive_by_priority sqs q (map int ps) v = Some (Inr (None, q'), w')"
    by (auto simp: io_bind_Inr split: option.splits)
  from single_receive_none [OF this(1)] Cons.IH [OF _ rest] Cons.prems(1) show ?case by simp
qed simp

lemma upt_around:
  assumes "rev [0..<n] = before @ p # after"
  shows "p < n" and "before = rev [Suc p..<n]"
proof -
  have split: "[0..<n] = rev after @ p # rev before"
    using arg_cong [OF assms, of rev] by simp
  have "p \<in> set [0..<n]" unfolding split by simp
  then show p: "p < n" by simp
  have len: "length (rev after) < n" using arg_cong [OF split, of length] by simp
  then have "[0..<n] ! length (rev after) = length (rev after)" by simp
  moreover have "(rev after @ p # rev before) ! length (rev after) = p" by (rule nth_append_length)
  ultimately have "length (rev after) = p" unfolding split by (simp only:)
  then have "rev before = drop (Suc p) [0..<n]" unfolding split by simp
  then show "before = rev [Suc p..<n]" by (simp add: drop_upt) (metis rev_rev_ident)
qed

lemma receive_served:
  assumes "built_for name n q" and "receive_message sqs (QueuePrioritySQS q) t w = Some (Inr (m, q2), w')"
  obtains q' served where "q2 = QueuePrioritySQS q'" "built_for name n q'" "served_highest sqs name n (m, w, w') served"
    "\<And>log. msg_handle_to_queue_lookup q = map_of log \<Longrightarrow> msg_handle_to_queue_lookup q' = map_of (served @ log)"
proof -
  from assms obtain q' where q': "q2 = QueuePrioritySQS q'"
    and run: "receive_by_priority sqs q (map int (rev [0..<n])) w = Some (Inr (m, q'), w')"
    by (auto simp: io_bind_Inr priority_receive_message_def built_for_def rev_map split: prod.splits)
  show thesis
  proof (cases m)
    case None
    with run have "q' = q" by (auto dest: receive_by_priority_none)
    moreover have "polled_empty sqs name (rev [0..<n]) w = Some w'"
      using receive_by_priority_polled [OF assms(1) _ run [unfolded None]] by simp
    ultimately show thesis using that [OF q', of "[]"] assms(1) None by (simp add: served_highest_def)
  next
    case (Some x)
    from receive_by_priority_some [OF run [unfolded Some]] obtain before pi after N v ms where
      split: "map int (rev [0..<n]) = before @ pi # after" and N: "priority_to_queue_lookup q pi = Some N"
      and none: "receive_by_priority sqs q before w = Some (Inr (None, q), v)"
      and got: "sqs_receive sqs N 0 v = (Inr ((msg_body x, message_handle_id x) # ms), w')"
      and upd: "q' = q\<lparr>msg_handle_to_queue_lookup := (msg_handle_to_queue_lookup q)(message_handle_id x \<mapsto> N)\<rparr>"
      by blast
    from split obtain bs p as where nats: "rev [0..<n] = bs @ p # as" "before = map int bs" "pi = int p"
      by (auto simp: map_eq_append_conv map_eq_Cons_conv)
    note p = upt_around [OF nats(1)]
    have name: "N = priority_queue_name name (int p)"
      using assms(1) N p(1) nats(3) by (simp add: built_for_def)
    have "polled_empty sqs name bs w = Some v"
      using none p by (intro receive_by_priority_polled [OF assms(1), of _ _ _ q]) (auto simp: nats(2))
    then have "served_highest sqs name n (m, w, w') [(message_handle_id x, N)]"
      using p got Some unfolding served_highest_def name by auto
    moreover have "built_for name n q'" using assms(1) upd by (simp add: built_for_def)
    moreover have "msg_handle_to_queue_lookup q' = map_of ([(message_handle_id x, N)] @ log)"
      if "msg_handle_to_queue_lookup q = map_of log" for log
      using that by (simp add: upd fun_eq_iff)
    ultimately show thesis using that [OF q'] by blast
  qed
qed

text \<open>C31. Whatever messages a priority queue that \<open>queue_manager\<close> built has received before, a call returns a message only
  after every queue of higher priority was asked and had none, and no message only after all queues were asked
  and had none; the message is the one SQS returned from the queue of its priority.  And the object remembers
  for the handle of every message that it ever received the queue that it came from (the latest, if SQS used a handle
  twice), which is where a later deletion by this handle goes.\<close>

theorem priority_highest_first:
  assumes "queue_manager sqs ''PrioritySQS'' config name w0 = Some (Inr q0, w1)"
    and "received_calls sqs q0 cs q"
  shows "\<exists>d n served. json_loads (map replace_quote config) = Inr (PDict d) \<and>
     dict_get d ''priorities'' = Some (PInt n) \<and> list_all2 (served_highest sqs name (nat n)) cs served \<and>
     (\<forall>h. queue_source q h = map_of (concat served) h)"
proof -
  from assms(1) obtain pq where pq: "q0 = QueuePrioritySQS pq"
    and "priority_init sqs (map replace_quote config) name w0 = Some (Inr pq, w1)"
    by (auto simp: queue_manager_def Let_def io_bind_Some)
  from priority_init_built [OF this(2)] obtain n v where v: "json_loads (map replace_quote config) = Inr v"
    "py_index v ''priorities'' = Inr (PInt n)" and new: "priorities pq = map int [0..<nat n]"
      "\<And>p. priority_to_queue_lookup pq p = (if 0 \<le> p \<and> p < n then Some (priority_queue_name name p) else None)"
      "msg_handle_to_queue_lookup pq = Map.empty" by blast
  have built: "built_for name (nat n) pq" by (auto simp: built_for_def new)
  from v(2) obtain d where d: "v = PDict d" "dict_get d ''priorities'' = Some (PInt n)"
    by (cases v) (auto split: option.splits)
  from assms(2) have "\<exists>q' served. q = QueuePrioritySQS q' \<and> built_for name (nat n) q' \<and>
      list_all2 (served_highest sqs name (nat n)) cs served \<and> msg_handle_to_queue_lookup q' = map_of (concat served)"
  proof (induction rule: received_calls.induct)
    case no_calls
    show ?case using pq built new(3) by simp
  next
    case (one_more cs q1 t w m q2 w')
    then obtain q1' served where q1: "q1 = QueuePrioritySQS q1'" "built_for name (nat n) q1'"
      "list_all2 (served_highest sqs name (nat n)) cs served" "msg_handle_to_queue_lookup q1' = map_of (concat served)"
      by blast
    from receive_served [OF q1(2) one_more(2) [unfolded q1(1)]] obtain q2' new where
      "q2 = QueuePrioritySQS q2'" "built_for name (nat n) q2'" "served_highest sqs name (nat n) (m, w, w') new"
      "msg_handle_to_queue_lookup q2' = map_of (new @ concat served)" using q1(4) by metis
    with q1(3) show ?case by (intro exI [of _ q2'] exI [of _ "new # served"]) simp
  qed
  with v d show ?thesis by auto
qed

text \<open>A grid with three priorities and one message in the queue of priority 1.\<close>

definition grid_config :: string where
  "grid_config = [CHR 0x7B, CHR 0x27] @ ''priorities'' @ [CHR 0x27] @ '': 3'' @ [CHR 0x7D]"

definition grid_world :: mem_grid where
  "grid_world = \<lparr>mem_rows = [], mem_faults = [], mem_clock = 0,
     mem_msgs = (\<lambda>q. if q = ''tasks__1'' then [''m''] else [])\<rparr>"

definition grid_priority_queue :: priority_queue where
  "grid_priority_queue = \<lparr>priorities = [0, 1, 2],
     priority_to_queue_lookup = map_of [(0, ''tasks__0''), (1, ''tasks__1''), (2, ''tasks__2'')],
     msg_handle_to_queue_lookup = Map.empty\<rparr>"

lemma grid_config_loads: "json_loads (map replace_quote grid_config) = Inr (PDict [(''priorities'', PInt 3)])"
  by code_simp

lemma grid_queue_names: "map (priority_queue_name ''tasks__0'') [0, 1, 2] = [''tasks__0'', ''tasks__1'', ''tasks__2'']"
  by code_simp

lemma grid_queue_built:
  "queue_manager mem_sqs ''PrioritySQS'' grid_config ''tasks__0'' grid_world =
     Some (Inr (QueuePrioritySQS grid_priority_queue), grid_world)"
  using grid_queue_names
  by (simp add: queue_manager_def priority_init_def grid_config_loads dict_get_def Let_def io_apply
      single_init_def wrap_queue_error_def grid_priority_queue_def upt_rec)

lemma grid_queue_receive:
  "receive_message mem_sqs (QueuePrioritySQS grid_priority_queue) 10 grid_world =
     Some (Inr (Some \<lparr>msg_body = ''m'', message_handle_id = ''m''\<rparr>,
       QueuePrioritySQS (grid_priority_queue\<lparr>msg_handle_to_queue_lookup := [''m'' \<mapsto> ''tasks__1'']\<rparr>)), grid_world)"
  by (simp add: grid_priority_queue_def grid_world_def priority_receive_message_def
      single_receive_message_def wrap_queue_error_def io_apply)

theorem priority_highest_first_witness:
  "\<exists>served. served_highest mem_sqs ''tasks__0'' 3 (Some \<lparr>msg_body = ''m'', message_handle_id = ''m''\<rparr>, grid_world, grid_world) served \<and>
     map_of served ''m'' = Some ''tasks__1''"
proof -
  note run = one_more [OF no_calls grid_queue_receive]
  have source: "queue_source (QueuePrioritySQS (grid_priority_queue\<lparr>msg_handle_to_queue_lookup := [''m'' \<mapsto> ''tasks__1'']\<rparr>)) ''m''
      = Some ''tasks__1''" by simp
  from priority_highest_first [OF grid_queue_built run] obtain d n served where
    n: "json_loads (map replace_quote grid_config) = Inr (PDict d)" "dict_get d ''priorities'' = Some (PInt n)"
    and served: "list_all2 (served_highest mem_sqs ''tasks__0'' (nat n))
      [(Some \<lparr>msg_body = ''m'', message_handle_id = ''m''\<rparr>, grid_world, grid_world)] served"
      "\<forall>h. queue_source (QueuePrioritySQS (grid_priority_queue\<lparr>msg_handle_to_queue_lookup := [''m'' \<mapsto> ''tasks__1'']\<rparr>)) h
         = map_of (concat served) h"
    by blast
  from n have "nat n = 3" by (auto simp: grid_config_loads dict_get_def)
  moreover have "map_of (concat served) ''m'' = Some ''tasks__1''"
    using spec [OF served(2), of "''m''"] source by simp
  ultimately have "list_all2 (served_highest mem_sqs ''tasks__0'' 3)
      [(Some \<lparr>msg_body = ''m'', message_handle_id = ''m''\<rparr>, grid_world, grid_world)] served"
    "map_of (concat served) ''m'' = Some ''tasks__1''" using served(1) by simp_all
  then show ?thesis by (auto simp: list_all2_Cons1)
qed

text \<open>Whatever queue class the grid is configured with: once a message has been received, deleting
  it by its handle, with or without a priority, removes exactly that message from the SQS queue it
  was received from and leaves every other queue as it was.\<close>

theorem received_then_deleted:
  assumes "sqs_documented sqs qv" and "queue_ok q"
    and "receive_message sqs q t w = Some (Inr (Some m, q'), w1)"
    and "delete_message sqs q' (message_handle_id m) p w1 = Some (Inr u, w2)"
  shows "\<exists>n. queue_source q' (message_handle_id m) = Some n \<and> msg_body m \<in># stored qv w n \<and>
     stored qv w2 = (stored qv w)(n := stored qv w n - {#msg_body m#})"
proof -
  from grid_queue.received_issued [OF assms(1-3)] obtain n where
    n: "queue_source q' (message_handle_id m) = Some n"
    "live_handle qv w1 n (message_handle_id m) = Some (msg_body m)" "msg_body m \<in># stored qv w1 n" by blast
  from grid_queue.receive_stored [OF assms(1-3)] have "stored qv w1 = stored qv w" by simp
  with grid_queue.delete_received [OF assms(1) n(1,2) assms(4)] n show ?thesis by auto
qed

lemma grid_queue_delete:
  "delete_message mem_sqs (QueuePrioritySQS (grid_priority_queue\<lparr>msg_handle_to_queue_lookup := [''m'' \<mapsto> ''tasks__1'']\<rparr>))
     (message_handle_id \<lparr>msg_body = ''m'', message_handle_id = ''m''\<rparr>) PNone grid_world
   = Some (Inr (), grid_world\<lparr>mem_msgs := (mem_msgs grid_world)(''tasks__1'' := [])\<rparr>)"
  by (simp add: priority_delete_message_def get_queue_object_def single_delete_message_def
      wrap_queue_error_def io_apply grid_world_def)

theorem received_then_deleted_witness:
  "\<exists>n. stored mem_queue_view (grid_world\<lparr>mem_msgs := (mem_msgs grid_world)(''tasks__1'' := [])\<rparr>) =
     (stored mem_queue_view grid_world)(n := stored mem_queue_view grid_world n - {#''m''#})"
  using received_then_deleted [OF mem_sqs_documented _ grid_queue_receive grid_queue_delete]
    queue_manager_ok [OF grid_queue_built] by auto

lemma sum_queue_lengths_total:
  assumes "\<And>p. p \<in> set ps \<Longrightarrow> \<exists>n. priority_to_queue_lookup q p = Some n \<and> (\<forall>w. sqs_length sqs n w = (Inr (len n), w))"
  shows "sum_queue_lengths sqs q ps k w =
     Some (Inr (k + sum_list (map (\<lambda>p. len (the (priority_to_queue_lookup q p))) ps)), w)"
  using assms
proof (induction ps arbitrary: k)
  case Nil
  then show ?case by simp
next
  case (Cons p ps)
  then obtain n where "priority_to_queue_lookup q p = Some n" "\<forall>w. sqs_length sqs n w = (Inr (len n), w)"
    by (meson list.set_intros(1))
  moreover have "sum_queue_lengths sqs q ps (k + len n) w =
      Some (Inr (k + len n + sum_list (map (\<lambda>p. len (the (priority_to_queue_lookup q p))) ps)), w)"
    by (rule Cons.IH) (use Cons.prems in auto)
  ultimately show ?case by (simp add: io_bind_apply single_get_queue_length_def)
qed

text \<open>While the lengths SQS reports do not change, \<open>get_queue_length\<close> of a priority queue that
  \<open>queue_manager\<close> built for \<open>n\<close> priorities is the sum over the priorities of the lengths of their
  queues.\<close>

theorem priority_length_is_sum:
  assumes "queue_manager sqs ''PrioritySQS'' config name w0 = Some (Inr (QueuePrioritySQS q), w1)"
    and "\<And>n w. sqs_length sqs n w = (Inr (len n), w)"
  shows "\<exists>d n. json_loads (map replace_quote config) = Inr (PDict d) \<and>
     dict_get d ''priorities'' = Some (PInt n) \<and>
     get_queue_length sqs (QueuePrioritySQS q) w =
       Some (Inr (\<Sum>i\<leftarrow>[0..<nat n]. len (priority_queue_name name (int i))), w)"
proof -
  from assms(1) have "priority_init sqs (map replace_quote config) name w0 = Some (Inr q, w1)"
    by (auto simp: queue_manager_def Let_def io_bind_Some)
  from priority_init_built [OF this] obtain n v where v: "json_loads (map replace_quote config) = Inr v"
    "py_index v ''priorities'' = Inr (PInt n)" and prios: "priorities q = map int [0..<nat n]"
    and lookup: "\<And>p. priority_to_queue_lookup q p =
        (if 0 \<le> p \<and> p < n then Some (priority_queue_name name p) else None)" by blast
  from v(2) obtain d where d: "v = PDict d" "dict_get d ''priorities'' = Some (PInt n)"
    by (cases v) (auto split: option.splits)
  have "sum_queue_lengths sqs q (priorities q) 0 w =
      Some (Inr (0 + sum_list (map (\<lambda>p. len (the (priority_to_queue_lookup q p))) (priorities q))), w)"
    by (rule sum_queue_lengths_total) (auto simp: assms(2) lookup prios)
  moreover have "map (\<lambda>p. len (the (priority_to_queue_lookup q p))) (priorities q) =
      map (\<lambda>i. len (priority_queue_name name (int i))) [0..<nat n]"
    by (auto simp: prios lookup)
  ultimately show ?thesis using v d by (auto simp: priority_get_queue_length_def)
qed

definition fixed_length_sqs :: "mem_grid sqs" where
  "fixed_length_sqs = mem_sqs\<lparr>sqs_length := (\<lambda>q w. (Inr (int (length q)), w))\<rparr>"

theorem priority_length_is_sum_witness:
  "get_queue_length fixed_length_sqs (QueuePrioritySQS grid_priority_queue) grid_world = Some (Inr 24, grid_world)"
proof -
  have built: "queue_manager fixed_length_sqs ''PrioritySQS'' grid_config ''tasks__0'' grid_world =
      Some (Inr (QueuePrioritySQS grid_priority_queue), grid_world)"
    using grid_queue_names
    by (simp add: fixed_length_sqs_def mem_sqs_def queue_manager_def priority_init_def grid_config_loads
        dict_get_def Let_def io_apply single_init_def wrap_queue_error_def grid_priority_queue_def upt_rec)
  have len: "sqs_length fixed_length_sqs n w = (Inr (int (length n)), w)" for n w
    by (simp add: fixed_length_sqs_def)
  show ?thesis
    using priority_length_is_sum [OF built len, of grid_world] grid_queue_names
    by (simp add: grid_config_loads dict_get_def upt_rec)
qed

end
