(* ===== verification/TtlGenerator.thy ===== *)
theory TtlGenerator
  imports MemoryTable
begin

text \<open>
  \<open>source/client/python/utils/utils/ttl_experation_generator.py\<close>: the class
  \<open>TTLExpirationGenerator\<close>, which picks the time of an agent's next heartbeat and the time its
  claim on a task expires.  \<open>int(interval * 1.1)\<close> is computed by the code in floating point; for
  intervals below \<open>2 ^ 40\<close> seconds it is the integer part of eleven tenths, rounded towards zero.
\<close>

record ttl_generator =
  refresh_interval_sec :: int
  expriation_offset_sec :: int
  next_refresh_timestamp :: int
  next_expiration_timestamp :: int

definition TTLExpirationGenerator :: "int \<Rightarrow> int \<Rightarrow> exn + ttl_generator" where
  "TTLExpirationGenerator task_ttl_refresh_interval_sec task_ttl_expiration_offset_sec =
     (if task_ttl_refresh_interval_sec \<ge> task_ttl_expiration_offset_sec
      then Inl (GenericException
        (''Refresh interval ['' @ str_of_int task_ttl_refresh_interval_sec @
         ''] must be smaller then expiration offset ['' @ str_of_int task_ttl_expiration_offset_sec @ '']''))
      else Inr \<lparr>refresh_interval_sec = task_ttl_refresh_interval_sec,
        expriation_offset_sec = task_ttl_expiration_offset_sec,
        next_refresh_timestamp = 0, next_expiration_timestamp = 0\<rparr>)"

definition eleven_tenths :: "int \<Rightarrow> int" where
  "eleven_tenths i = (if i < 0 then - ((- i * 11) div 10) else (i * 11) div 10)"

definition generate_next_ttl :: "'w host \<Rightarrow> ttl_generator \<Rightarrow> ('w, ttl_generator) io" where
  "generate_next_ttl host self =
     io_bind (time_now_sec host) (\<lambda>now.
       io_bind (random_int host (refresh_interval_sec self) (eleven_tenths (refresh_interval_sec self)))
         (\<lambda>delay.
           let refresh_at = now + delay in
           io_return (self\<lparr>next_refresh_timestamp := refresh_at,
             next_expiration_timestamp :=
               refresh_at + (expriation_offset_sec self - refresh_interval_sec self)\<rparr>)))"

definition get_next_expiration_timestamp :: "ttl_generator \<Rightarrow> int" where
  "get_next_expiration_timestamp self = next_expiration_timestamp self"

definition get_next_refresh_timestamp :: "ttl_generator \<Rightarrow> int" where
  "get_next_refresh_timestamp self = next_refresh_timestamp self"

text \<open>The intervals of a generator that was constructed.\<close>

definition ttl_valid :: "ttl_generator \<Rightarrow> bool" where
  "ttl_valid g \<longleftrightarrow> refresh_interval_sec g < expriation_offset_sec g"

lemma generator_valid: "TTLExpirationGenerator r e = Inr g \<Longrightarrow>
    ttl_valid g \<and> refresh_interval_sec g = r \<and> expriation_offset_sec g = e"
  by (auto simp: TTLExpirationGenerator_def ttl_valid_def split: if_splits)

lemma eleven_tenths_bounds: "0 \<le> i \<Longrightarrow> i \<le> eleven_tenths i \<and> 10 * eleven_tenths i \<le> 11 * i"
  by (simp add: eleven_tenths_def) linarith

lemma generate_next_ttl_run:
  assumes "generate_next_ttl host g w = Some (r, w')"
    and "refresh_interval_sec g \<le> eleven_tenths (refresh_interval_sec g)"
    and "now = fst (now_ms host w) div 1000"
    and "delay = fst (randint host (refresh_interval_sec g) (eleven_tenths (refresh_interval_sec g))
      (snd (now_ms host w)))"
  shows "r = Inr (g\<lparr>next_refresh_timestamp := now + delay,
        next_expiration_timestamp := now + delay + (expriation_offset_sec g - refresh_interval_sec g)\<rparr>)"
  using assms
  by (auto simp: generate_next_ttl_def time_now_sec_def random_int_def io_apply Let_def
      split: if_splits prod.splits)

lemma generate_next_ttl_keeps: "host_keeps host v \<Longrightarrow> keeps v (generate_next_ttl host g)"
  unfolding generate_next_ttl_def Let_def
  by (intro keeps_bind host_keeps_ops keeps_return)

lemma generate_next_ttl_returns: "returns (generate_next_ttl host g)"
  unfolding generate_next_ttl_def Let_def
  by (intro returns_bind host_returns returns_return)

section \<open>Properties\<close>

text \<open>A generator can be built exactly when its refresh interval is smaller than its expiration
  offset, and otherwise the constructor raises; it starts with no timestamp set.\<close>

theorem ttl_generator_constructor:
  "(\<exists>g. TTLExpirationGenerator refresh expiration = Inr g \<and> refresh_interval_sec g = refresh \<and>
      expriation_offset_sec g = expiration \<and> get_next_refresh_timestamp g = 0 \<and>
      get_next_expiration_timestamp g = 0) = (refresh < expiration) \<and>
   (\<exists>s. TTLExpirationGenerator refresh expiration = Inl (GenericException s)) = (expiration \<le> refresh)"
  by (auto simp: TTLExpirationGenerator_def get_next_refresh_timestamp_def
      get_next_expiration_timestamp_def)

text \<open>For a generator that was constructed with a non-negative interval, on a host whose random
  numbers lie in the range asked for, the next heartbeat is due between one and 1.1 refresh
  intervals from now, the claim expires after it and at least a full expiration offset from now, and
  at most a tenth of the interval later than that.\<close>

theorem ttl_bounds:
  assumes "TTLExpirationGenerator refresh expiration = Inr g0" and "0 \<le> refresh"
    and "host_documented host" and "g = g0\<lparr>next_refresh_timestamp := a, next_expiration_timestamp := b\<rparr>"
    and "generate_next_ttl host g w = Some (r, w')" and "now = fst (now_ms host w) div 1000"
  shows "\<exists>g'. r = Inr g' \<and> refresh_interval_sec g' = refresh \<and> expriation_offset_sec g' = expiration \<and>
     now + refresh \<le> get_next_refresh_timestamp g' \<and>
     10 * (get_next_refresh_timestamp g' - now) \<le> 11 * refresh \<and>
     get_next_refresh_timestamp g' < get_next_expiration_timestamp g' \<and>
     now + expiration \<le> get_next_expiration_timestamp g' \<and>
     10 * (get_next_expiration_timestamp g' - now) \<le> 10 * expiration + refresh"
proof -
  from generator_valid [OF assms(1)] assms(4) have g: "refresh_interval_sec g = refresh"
    "expriation_offset_sec g = expiration" "refresh < expiration" by (auto simp: ttl_valid_def)
  note e = eleven_tenths_bounds [OF assms(2)]
  define delay where
    d: "delay = fst (randint host refresh (eleven_tenths refresh) (snd (now_ms host w)))"
  have r: "r = Inr (g\<lparr>next_refresh_timestamp := now + delay,
        next_expiration_timestamp := now + delay + (expiration - refresh)\<rparr>)"
    using generate_next_ttl_run [OF assms(5) _ assms(6)] g d e by simp
  from assms(3) e have "refresh \<le> delay" "delay \<le> eleven_tenths refresh"
    unfolding d by (auto simp: host_documented_def)
  with r g e show ?thesis
    by (auto simp: get_next_refresh_timestamp_def get_next_expiration_timestamp_def)
qed

theorem ttl_bounds_witness:
  "\<exists>g0 g' w'. TTLExpirationGenerator 5 30 = Inr g0 \<and>
     generate_next_ttl mem_host g0 \<lparr>mem_rows = [], mem_faults = [], mem_clock = 1000000\<rparr> = Some (Inr g', w') \<and>
     1030 \<le> get_next_expiration_timestamp g'"
proof -
  define w where "w = \<lparr>mem_rows = [], mem_faults = [], mem_clock = 1000000\<rparr>"
  define g0 where "g0 = \<lparr>refresh_interval_sec = 5, expriation_offset_sec = 30,
    next_refresh_timestamp = 0, next_expiration_timestamp = 0\<rparr>"
  have c: "TTLExpirationGenerator 5 30 = Inr g0" by (simp add: TTLExpirationGenerator_def g0_def)
  obtain r w' where run: "generate_next_ttl mem_host g0 w = Some (r, w')"
    using generate_next_ttl_returns [of mem_host g0] by (fastforce simp: returns_def)
  have g0: "g0 = g0\<lparr>next_refresh_timestamp := 0, next_expiration_timestamp := 0\<rparr>"
    by (simp add: g0_def)
  have now: "(1000::int) = fst (now_ms mem_host w) div 1000" by (simp add: w_def)
  show ?thesis
    using ttl_bounds [OF c _ mem_host_documented g0 run now] c run unfolding w_def by auto
qed

end
