(* ===== verification/Base64.thy ===== *)
theory Base64
  imports Prelude
begin

text \<open>
  \<open>base64.b64encode\<close>, \<open>base64.b64decode\<close> and \<open>base64.urlsafe_b64decode\<close> of the standard library,
  as the code uses them, on byte strings (a \<open>string\<close> whose characters are the bytes), and
  \<open>str.encode("utf-8")\<close>, \<open>bytes.decode("utf-8")\<close> for texts with code points below 256.  The decoder is
  the loop of \<open>binascii.a2b_base64\<close> in its lenient mode: characters outside the alphabet are
  skipped, and a finished padding stops it.
\<close>

definition b64_alphabet :: string where
  "b64_alphabet = ''ABCDEFGHIJKLMNOPQRSTUVWXYZabcdefghijklmnopqrstuvwxyz0123456789+/''"

definition b64_char :: "nat \<Rightarrow> char" where
  "b64_char n =
     (if n < 26 then char_of (65 + n) else if n < 52 then char_of (71 + n)
      else if n < 62 then char_of (n - 4) else if n = 62 then CHR ''+'' else CHR ''/'')"

definition b64_value :: "char \<Rightarrow> nat option" where
  "b64_value c = (let n = of_char c :: nat in
     if 65 \<le> n \<and> n \<le> 90 then Some (n - 65)
     else if 97 \<le> n \<and> n \<le> 122 then Some (n - 71)
     else if 48 \<le> n \<and> n \<le> 57 then Some (n + 4)
     else if c = CHR ''+'' then Some 62 else if c = CHR ''/'' then Some 63 else None)"

lemma b64_char_alphabet: "map b64_char [0..<64] = b64_alphabet"
  by code_simp

fun b64encode :: "string \<Rightarrow> string" where
  "b64encode [] = []"
| "b64encode [a] = (let x = of_char a :: nat in
     [b64_char (x div 4), b64_char (x mod 4 * 16), CHR ''='', CHR ''=''])"
| "b64encode [a, b] = (let x = of_char a :: nat; y = of_char b :: nat in
     [b64_char (x div 4), b64_char (x mod 4 * 16 + y div 16), b64_char (y mod 16 * 4), CHR ''=''])"
| "b64encode (a # b # c # bs) = (let x = of_char a :: nat; y = of_char b :: nat; z = of_char c :: nat in
     b64_char (x div 4) # b64_char (x mod 4 * 16 + y div 16) # b64_char (y mod 16 * 4 + z div 64) #
     b64_char (z mod 64) # b64encode bs)"

text \<open>The decoder's loop: position in the group of four, bits left over, padding seen.\<close>

fun a2b_base64 :: "nat \<Rightarrow> nat \<Rightarrow> nat \<Rightarrow> string \<Rightarrow> exn + string" where
  "a2b_base64 quad_pos leftchar pads [] = (if quad_pos = 0 then Inr [] else Inl ValueError)"
| "a2b_base64 quad_pos leftchar pads (c # cs) =
     (if c = CHR ''='' then
        (if 2 \<le> quad_pos then
           (if 4 \<le> quad_pos + (pads + 1) then Inr [] else a2b_base64 quad_pos leftchar (pads + 1) cs)
         else a2b_base64 quad_pos leftchar pads cs)
      else (case b64_value c of
          None \<Rightarrow> a2b_base64 quad_pos leftchar pads cs
        | Some v \<Rightarrow>
            if quad_pos = 0 then a2b_base64 1 v 0 cs
            else if quad_pos = 1 then
              bind_result (a2b_base64 2 (v mod 16) 0 cs) (\<lambda>r. Inr (char_of (leftchar * 4 + v div 16) # r))
            else if quad_pos = 2 then
              bind_result (a2b_base64 3 (v mod 4) 0 cs) (\<lambda>r. Inr (char_of (leftchar * 16 + v div 4) # r))
            else bind_result (a2b_base64 0 0 0 cs) (\<lambda>r. Inr (char_of (leftchar * 64 + v) # r))))"

definition b64decode :: "string \<Rightarrow> exn + string" where
  "b64decode s = a2b_base64 0 0 0 s"

definition urlsafe_char :: "char \<Rightarrow> char" where
  "urlsafe_char c = (if c = CHR ''-'' then CHR ''+'' else if c = CHR ''_'' then CHR ''/'' else c)"

definition urlsafe_b64decode :: "string \<Rightarrow> exn + string" where
  "urlsafe_b64decode s = b64decode (map urlsafe_char s)"

text \<open>\<open>base64.urlsafe_b64encode\<close>: the other two characters of the alphabet.\<close>

definition urlsafe_encode_char :: "char \<Rightarrow> char" where
  "urlsafe_encode_char c = (if c = CHR ''+'' then CHR ''-'' else if c = CHR ''/'' then CHR ''_'' else c)"

definition urlsafe_b64encode :: "string \<Rightarrow> string" where
  "urlsafe_b64encode s = map urlsafe_encode_char (b64encode s)"

section \<open>Round trips\<close>

lemma b64_value_char [simp]: "n < 64 \<Longrightarrow> b64_value (b64_char n) = Some n"
proof -
  assume "n < 64"
  then consider "n < 26" | "26 \<le> n" "n < 52" | "52 \<le> n" "n < 62" | "n = 62" | "n = 63" by linarith
  then show ?thesis
    by cases (auto simp: b64_value_def b64_char_def of_char_of Let_def)
qed

lemma b64_char_not_pad [simp]: "n < 64 \<Longrightarrow> b64_char n \<noteq> CHR ''=''"
  using b64_value_char [of n] by (auto simp: b64_value_def Let_def simp del: b64_value_char)

lemma byte_bound: "(of_char c :: nat) < 256"
  by simp

lemma b64_sextets:
  fixes x y z :: nat
  assumes "x < 256" "y < 256" "z < 256"
  shows "x div 4 < 64" "x mod 4 * 16 < 64" "x mod 4 * 16 + y div 16 < 64" "y mod 16 * 4 < 64"
    "y mod 16 * 4 + z div 64 < 64" "z mod 64 < 64"
  using assms by linarith+

lemma split16:
  fixes a b :: nat
  shows "b < 16 \<Longrightarrow> (a * 16 + b) div 16 = a" "b < 16 \<Longrightarrow> (a * 16 + b) mod 16 = b"
    "b < 4 \<Longrightarrow> (a * 4 + b) div 4 = a" "b < 4 \<Longrightarrow> (a * 4 + b) mod 4 = b"
  by simp_all

lemma b64_octets:
  fixes x y z :: nat
  assumes "x < 256" "y < 256" "z < 256"
  shows "x div 4 * 4 + x mod 4 * 16 div 16 = x"
    "x div 4 * 4 + (x mod 4 * 16 + y div 16) div 16 = x"
    "(x mod 4 * 16 + y div 16) mod 16 * 16 + y mod 16 * 4 div 4 = y"
    "(x mod 4 * 16 + y div 16) mod 16 * 16 + (y mod 16 * 4 + z div 64) div 4 = y"
    "(y mod 16 * 4 + z div 64) mod 4 * 64 + z mod 64 = z"
proof -
  have "y div 16 < 16" "z div 64 < 4" using assms by linarith+
  then show "x div 4 * 4 + x mod 4 * 16 div 16 = x"
    "x div 4 * 4 + (x mod 4 * 16 + y div 16) div 16 = x"
    "(x mod 4 * 16 + y div 16) mod 16 * 16 + y mod 16 * 4 div 4 = y"
    "(x mod 4 * 16 + y div 16) mod 16 * 16 + (y mod 16 * 4 + z div 64) div 4 = y"
    "(y mod 16 * 4 + z div 64) mod 4 * 64 + z mod 64 = z"
    by (simp_all only: split16) simp_all
qed

lemma b64decode_encode_aux: "a2b_base64 0 0 0 (b64encode bs) = Inr bs"
proof (induction bs rule: b64encode.induct)
  case 1
  show ?case by simp
next
  case (2 a)
  note s = b64_sextets [OF byte_bound [of a] byte_bound [of a] byte_bound [of a]]
  note o = b64_octets [OF byte_bound [of a] byte_bound [of a] byte_bound [of a]]
  show ?case using s(1,2) o(1) by (simp add: Let_def)
next
  case (3 a b)
  note s = b64_sextets [OF byte_bound [of a] byte_bound [of b] byte_bound [of b]]
  note o = b64_octets [OF byte_bound [of a] byte_bound [of b] byte_bound [of b]]
  show ?case using s(1,3,4) o(2,3) by (simp add: Let_def)
next
  case (4 a b c bs)
  note s = b64_sextets [OF byte_bound [of a] byte_bound [of b] byte_bound [of c]]
  note o = b64_octets [OF byte_bound [of a] byte_bound [of b] byte_bound [of c]]
  show ?case using s(1,3,5,6) o(2,4,5) "4.IH" by (simp add: Let_def)
qed

lemma b64decode_encode [simp]: "b64decode (b64encode bs) = Inr bs"
  by (simp add: b64decode_def b64decode_encode_aux)

lemma b64_char_urlsafe: "n < 64 \<Longrightarrow> b64_char n \<noteq> CHR ''-'' \<and> b64_char n \<noteq> CHR ''_''"
  using b64_value_char [of n] by (auto simp: b64_value_def Let_def simp del: b64_value_char)

lemma b64encode_urlsafe: "list_all (\<lambda>c. c \<noteq> CHR ''-'' \<and> c \<noteq> CHR ''_'') (b64encode bs)"
proof (induction bs rule: b64encode.induct)
  case 1
  show ?case by simp
next
  case (2 a)
  note s = b64_sextets [OF byte_bound [of a] byte_bound [of a] byte_bound [of a]]
  show ?case using s(1,2) [THEN b64_char_urlsafe] by (simp add: Let_def)
next
  case (3 a b)
  note s = b64_sextets [OF byte_bound [of a] byte_bound [of b] byte_bound [of b]]
  show ?case using s(1,3,4) [THEN b64_char_urlsafe] by (simp add: Let_def)
next
  case (4 a b c bs)
  note s = b64_sextets [OF byte_bound [of a] byte_bound [of b] byte_bound [of c]]
  show ?case using s(1,3,5,6) [THEN b64_char_urlsafe] "4.IH" by (simp add: Let_def)
qed

lemma urlsafe_b64decode_encode [simp]: "urlsafe_b64decode (urlsafe_b64encode bs) = Inr bs"
proof -
  have "urlsafe_char (urlsafe_encode_char c) = c" if "c \<in> set (b64encode bs)" for c
    using b64encode_urlsafe [of bs] that
    by (auto simp: urlsafe_char_def urlsafe_encode_char_def list_all_iff)
  then have "map urlsafe_char (map urlsafe_encode_char (b64encode bs)) = b64encode bs"
    by (induction "b64encode bs") (simp_all add: map_idI)
  then show ?thesis by (simp add: urlsafe_b64decode_def urlsafe_b64encode_def)
qed

text \<open>The client encodes with the ordinary alphabet or the other one; the lambdas read both.\<close>

lemma urlsafe_b64decode_plain [simp]: "urlsafe_b64decode (b64encode bs) = Inr bs"
proof -
  have "urlsafe_char c = c" if "c \<in> set (b64encode bs)" for c
    using b64encode_urlsafe [of bs] that by (auto simp: urlsafe_char_def list_all_iff)
  then have "map urlsafe_char (b64encode bs) = b64encode bs" by (simp add: map_idI)
  then show ?thesis by (simp add: urlsafe_b64decode_def)
qed

section \<open>UTF-8\<close>

text \<open>
  A text is the list of its code points, all below 256.  Decoding refuses bytes that are not
  UTF-8; sequences for larger code points, which these texts cannot hold, are refused as well.
\<close>

fun utf8_encode :: "string \<Rightarrow> string" where
  "utf8_encode [] = []"
| "utf8_encode (c # cs) = (let n = of_char c :: nat in
     if n < 128 then c # utf8_encode cs
     else char_of (192 + n div 64) # char_of (128 + n mod 64) # utf8_encode cs)"

fun utf8_decode :: "string \<Rightarrow> exn + string" where
  "utf8_decode [] = Inr []"
| "utf8_decode [c] = (if (of_char c :: nat) < 128 then Inr [c] else Inl ValueError)"
| "utf8_decode (c # d # cs) = (let n = of_char c :: nat; m = of_char d :: nat in
     if n < 128 then bind_result (utf8_decode (d # cs)) (\<lambda>r. Inr (c # r))
     else if (n = 194 \<or> n = 195) \<and> 128 \<le> m \<and> m < 192
     then bind_result (utf8_decode cs) (\<lambda>r. Inr (char_of ((n - 192) * 64 + (m - 128)) # r))
     else Inl ValueError)"

lemma utf8_decode_ascii:
  "(of_char c :: nat) < 128 \<Longrightarrow> utf8_decode (c # cs) = bind_result (utf8_decode cs) (\<lambda>r. Inr (c # r))"
  by (cases cs) (simp_all add: Let_def)

lemma utf8_decode_encode [simp]: "utf8_decode (utf8_encode s) = Inr s"
proof (induction s)
  case Nil
  show ?case by simp
next
  case (Cons c cs)
  show ?case
  proof (cases "(of_char c :: nat) < 128")
    case True
    with Cons show ?thesis by (simp add: utf8_decode_ascii)
  next
    case False
    define n where "n = (of_char c :: nat)"
    have n: "128 \<le> n" "n < 256" using False byte_bound [of c] by (simp_all add: n_def)
    have "2 \<le> n div 64" "n div 64 < 4" using n by linarith+
    then have q: "n div 64 = 2 \<or> n div 64 = 3" by linarith
    have m: "n mod 64 < 64" by simp
    have c: "char_of (n div 64 * 64 + n mod 64) = c" by (simp add: n_def)
    have enc: "utf8_encode (c # cs) = char_of (192 + n div 64) # char_of (128 + n mod 64) # utf8_encode cs"
      using n by (simp add: n_def Let_def)
    have "128 + n mod 64 = n" if "n div 64 = 2" using that div_mult_mod_eq [of n 64] by linarith
    moreover have "192 + n mod 64 = n" if "n div 64 = 3" using that div_mult_mod_eq [of n 64] by linarith
    ultimately show ?thesis unfolding enc using q m c Cons.IH by (auto simp: Let_def of_char_of)
  qed
qed

end
