(* ===== verification/DataPlane.thy ===== *)
theory DataPlane
  imports Prelude Base64
begin

text \<open>
  The data plane of \<open>source/client/python/api-v0.1/api\<close>: \<open>InOutS3\<close> (\<open>in_out_s3.py\<close>), \<open>InOutRedis\<close>
  (\<open>in_out_redis.py\<close>), a Redis cache with or without an S3 bucket behind it, and the factory
  \<open>in_out_manager\<close> (\<open>in_out_manager.py\<close>).  S3, Redis and the local files are parameters; data are
  byte strings.
\<close>

record 'w storage =
  s3_upload :: "string \<Rightarrow> string \<Rightarrow> string option \<Rightarrow> string \<Rightarrow> 'w \<Rightarrow> (exn + unit) \<times> 'w"
  s3_download :: "string \<Rightarrow> string \<Rightarrow> 'w \<Rightarrow> (exn + string) \<times> 'w"
  s3_upload_file :: "string \<Rightarrow> string \<Rightarrow> string option \<Rightarrow> string \<Rightarrow> 'w \<Rightarrow> (exn + unit) \<times> 'w"
  s3_download_file :: "string \<Rightarrow> string \<Rightarrow> string \<Rightarrow> 'w \<Rightarrow> (exn + unit) \<times> 'w"
  s3_copy :: "string \<times> string \<Rightarrow> string \<Rightarrow> string \<Rightarrow> string option \<Rightarrow> 'w \<Rightarrow> (exn + unit) \<times> 'w"
  redis_get :: "string \<Rightarrow> 'w \<Rightarrow> (exn + string option) \<times> 'w"
  redis_set :: "string \<Rightarrow> string \<Rightarrow> 'w \<Rightarrow> (exn + unit) \<times> 'w"
  read_file :: "string \<Rightarrow> 'w \<Rightarrow> (exn + string) \<times> 'w"

definition INPUT_POSTFIX :: string where "INPUT_POSTFIX = ''-input''"
definition OUTPUT_POSTFIX :: string where "OUTPUT_POSTFIX = ''-output''"
definition ERROR_POSTFIX :: string where "ERROR_POSTFIX = ''-error''"
definition PAYLOAD_POSTFIX :: string where "PAYLOAD_POSTFIX = ''-payload''"

lemmas postfix_defs = INPUT_POSTFIX_def OUTPUT_POSTFIX_def ERROR_POSTFIX_def PAYLOAD_POSTFIX_def

definition get_full_key :: "string option \<Rightarrow> string \<Rightarrow> string \<Rightarrow> string" where
  "get_full_key subnamespace key postfix = (case subnamespace of
      Some d \<Rightarrow> d @ ''/'' @ key @ postfix
    | None \<Rightarrow> key @ postfix)"

section \<open>\<open>InOutS3\<close>\<close>

record in_out_s3 =
  s3_namespace :: string
  s3_subnamespace :: "string option"
  s3_kms_key_id :: "string option"

definition s3_put_from_file :: "'w storage \<Rightarrow> in_out_s3 \<Rightarrow> string \<Rightarrow> string \<Rightarrow> string \<Rightarrow> ('w, unit) io" where
  "s3_put_from_file st self task_id file_name postfix =
     io_call (s3_upload_file st (s3_namespace self) (get_full_key (s3_subnamespace self) task_id postfix)
       (s3_kms_key_id self) file_name)"

definition s3_get_to_file :: "'w storage \<Rightarrow> in_out_s3 \<Rightarrow> string \<Rightarrow> string \<Rightarrow> string \<Rightarrow> ('w, unit) io" where
  "s3_get_to_file st self task_id file_name postfix =
     io_call (s3_download_file st (s3_namespace self)
       (get_full_key (s3_subnamespace self) task_id postfix) file_name)"

definition s3_put_from_bytes :: "'w storage \<Rightarrow> in_out_s3 \<Rightarrow> string \<Rightarrow> string \<Rightarrow> string \<Rightarrow> ('w, unit) io" where
  "s3_put_from_bytes st self task_id data postfix =
     io_call (s3_upload st (s3_namespace self) (get_full_key (s3_subnamespace self) task_id postfix)
       (s3_kms_key_id self) data)"

definition s3_get_to_bytes :: "'w storage \<Rightarrow> in_out_s3 \<Rightarrow> string \<Rightarrow> string \<Rightarrow> ('w, string) io" where
  "s3_get_to_bytes st self task_id postfix =
     io_call (s3_download st (s3_namespace self) (get_full_key (s3_subnamespace self) task_id postfix))"

definition s3_get_to_utf8_string :: "'w storage \<Rightarrow> in_out_s3 \<Rightarrow> string \<Rightarrow> string \<Rightarrow> ('w, string) io" where
  "s3_get_to_utf8_string st self task_id postfix =
     io_bind (s3_get_to_bytes st self task_id postfix) (\<lambda>b. io_of (utf8_decode b))"

definition mv_to_another_namespace ::
  "'w storage \<Rightarrow> in_out_s3 \<Rightarrow> string \<Rightarrow> string \<Rightarrow> string option \<Rightarrow> string option \<Rightarrow> ('w, unit) io" where
  "mv_to_another_namespace st self key new_namespace new_subnamespace new_key =
     io_call (s3_copy st (s3_namespace self, key) new_namespace
       ((case new_subnamespace of Some d \<Rightarrow> d @ ''/'' | None \<Rightarrow> []) @
        (case new_key of Some k \<Rightarrow> k | None \<Rightarrow> key)) (s3_kms_key_id self))"

section \<open>\<open>InOutRedis\<close>\<close>

record in_out_redis =
  redis_namespace :: string
  redis_subnamespace :: "string option"
  redis_use_S3 :: bool
  redis_kms_key_id :: "string option"

definition redis_put_from_file ::
  "'w storage \<Rightarrow> in_out_redis \<Rightarrow> string \<Rightarrow> string \<Rightarrow> string \<Rightarrow> ('w, unit) io" where
  "redis_put_from_file st self task_id file_name postfix =
     (let key = get_full_key (redis_subnamespace self) task_id postfix in
      io_then
        (if redis_use_S3 self
         then io_call (s3_upload_file st (redis_namespace self) key (redis_kms_key_id self) file_name)
         else io_return ())
        (io_bind (io_call (read_file st file_name)) (\<lambda>file_content.
           io_call (redis_set st key file_content))))"

definition redis_put_from_bytes ::
  "'w storage \<Rightarrow> in_out_redis \<Rightarrow> string \<Rightarrow> string \<Rightarrow> string \<Rightarrow> ('w, unit) io" where
  "redis_put_from_bytes st self task_id data postfix =
     (let key = get_full_key (redis_subnamespace self) task_id postfix in
      io_then
        (if redis_use_S3 self
         then io_call (s3_upload st (redis_namespace self) key (redis_kms_key_id self) data)
         else io_return ())
        (io_call (redis_set st key data)))"

definition redis_get_to_bytes ::
  "'w storage \<Rightarrow> in_out_redis \<Rightarrow> string \<Rightarrow> string \<Rightarrow> ('w, string) io" where
  "redis_get_to_bytes st self task_id postfix =
     (let key = get_full_key (redis_subnamespace self) task_id postfix in
      io_bind (io_call (redis_get st key)) (\<lambda>content. case content of
          Some content \<Rightarrow> io_return content
        | None \<Rightarrow>
            (if redis_use_S3 self then
               io_bind (io_call (s3_download st (redis_namespace self) key)) (\<lambda>data.
                 if data = []
                 then io_raise (GenericException (''Can not retrieve from S3 '' @ task_id @ '' ''))
                 else io_then (io_call (redis_set st key data)) (io_return data))
             else io_raise (GenericException (''Cache miss for '' @ task_id)))))"

definition redis_get_to_utf8_string ::
  "'w storage \<Rightarrow> in_out_redis \<Rightarrow> string \<Rightarrow> string \<Rightarrow> ('w, string) io" where
  "redis_get_to_utf8_string st self task_id postfix =
     (let key = get_full_key (redis_subnamespace self) task_id postfix in
      io_bind (io_call (redis_get st key)) (\<lambda>content. case content of
          Some content \<Rightarrow> io_of (utf8_decode content)
        | None \<Rightarrow>
            (if redis_use_S3 self then
               io_bind (io_call (s3_download st (redis_namespace self) key)) (\<lambda>data.
                 if data = []
                 then io_raise (GenericException (''Can not retrieve from S3 '' @ task_id @ '' ''))
                 else io_then (io_call (redis_set st key data)) (io_of (utf8_decode data)))
             else io_raise (GenericException (''Cache miss for '' @ task_id)))))"

section \<open>\<open>in_out_manager\<close> and its objects\<close>

datatype in_out = InOutS3 in_out_s3 | InOutRedis in_out_redis

definition in_out_manager :: "string \<Rightarrow> string \<Rightarrow> string option \<Rightarrow> exn + in_out" where
  "in_out_manager grid_storage_service s3_bucket kms_key_id =
     (if grid_storage_service = ''S3''
      then Inr (InOutS3 \<lparr>s3_namespace = s3_bucket, s3_subnamespace = None, s3_kms_key_id = kms_key_id\<rparr>)
      else if grid_storage_service = ''REDIS''
      then Inr (InOutRedis \<lparr>redis_namespace = s3_bucket, redis_subnamespace = None, redis_use_S3 = False,
        redis_kms_key_id = None\<rparr>)
      else if grid_storage_service = ''S3+REDIS''
      then Inr (InOutRedis \<lparr>redis_namespace = s3_bucket, redis_subnamespace = None, redis_use_S3 = True,
        redis_kms_key_id = kms_key_id\<rparr>)
      else Inl (GenericException (''InOutManager can not parse connection string: '' @ grid_storage_service)))"

fun put_from_bytes :: "'w storage \<Rightarrow> in_out \<Rightarrow> string \<Rightarrow> string \<Rightarrow> string \<Rightarrow> ('w, unit) io" where
  "put_from_bytes st (InOutS3 h) task_id data postfix = s3_put_from_bytes st h task_id data postfix"
| "put_from_bytes st (InOutRedis h) task_id data postfix = redis_put_from_bytes st h task_id data postfix"

fun put_from_file :: "'w storage \<Rightarrow> in_out \<Rightarrow> string \<Rightarrow> string \<Rightarrow> string \<Rightarrow> ('w, unit) io" where
  "put_from_file st (InOutS3 h) task_id file_name postfix = s3_put_from_file st h task_id file_name postfix"
| "put_from_file st (InOutRedis h) task_id file_name postfix = redis_put_from_file st h task_id file_name postfix"

fun get_to_bytes :: "'w storage \<Rightarrow> in_out \<Rightarrow> string \<Rightarrow> string \<Rightarrow> ('w, string) io" where
  "get_to_bytes st (InOutS3 h) task_id postfix = s3_get_to_bytes st h task_id postfix"
| "get_to_bytes st (InOutRedis h) task_id postfix = redis_get_to_bytes st h task_id postfix"

fun get_to_utf8_string :: "'w storage \<Rightarrow> in_out \<Rightarrow> string \<Rightarrow> string \<Rightarrow> ('w, string) io" where
  "get_to_utf8_string st (InOutS3 h) task_id postfix = s3_get_to_utf8_string st h task_id postfix"
| "get_to_utf8_string st (InOutRedis h) task_id postfix = redis_get_to_utf8_string st h task_id postfix"

text \<open>The public methods of both classes.\<close>

definition put_input_from_bytes :: "'w storage \<Rightarrow> in_out \<Rightarrow> string \<Rightarrow> string \<Rightarrow> ('w, unit) io" where
  "put_input_from_bytes st iom task_id data = put_from_bytes st iom task_id data INPUT_POSTFIX"

definition put_output_from_bytes :: "'w storage \<Rightarrow> in_out \<Rightarrow> string \<Rightarrow> string \<Rightarrow> ('w, unit) io" where
  "put_output_from_bytes st iom task_id data = put_from_bytes st iom task_id data OUTPUT_POSTFIX"

definition put_payload_from_bytes :: "'w storage \<Rightarrow> in_out \<Rightarrow> string \<Rightarrow> string \<Rightarrow> ('w, unit) io" where
  "put_payload_from_bytes st iom task_id data = put_from_bytes st iom task_id data PAYLOAD_POSTFIX"

definition put_input_from_file :: "'w storage \<Rightarrow> in_out \<Rightarrow> string \<Rightarrow> string \<Rightarrow> ('w, unit) io" where
  "put_input_from_file st iom task_id file_name = put_from_file st iom task_id file_name INPUT_POSTFIX"

definition put_output_from_file :: "'w storage \<Rightarrow> in_out \<Rightarrow> string \<Rightarrow> string \<Rightarrow> ('w, unit) io" where
  "put_output_from_file st iom task_id file_name = put_from_file st iom task_id file_name OUTPUT_POSTFIX"

definition put_error_from_file :: "'w storage \<Rightarrow> in_out \<Rightarrow> string \<Rightarrow> string \<Rightarrow> ('w, unit) io" where
  "put_error_from_file st iom task_id file_name = put_from_file st iom task_id file_name ERROR_POSTFIX"

definition put_payload_from_file :: "'w storage \<Rightarrow> in_out \<Rightarrow> string \<Rightarrow> string \<Rightarrow> ('w, unit) io" where
  "put_payload_from_file st iom task_id file_name = put_from_file st iom task_id file_name PAYLOAD_POSTFIX"

definition get_input_to_bytes :: "'w storage \<Rightarrow> in_out \<Rightarrow> string \<Rightarrow> ('w, string) io" where
  "get_input_to_bytes st iom task_id = get_to_bytes st iom task_id INPUT_POSTFIX"

definition get_output_to_bytes :: "'w storage \<Rightarrow> in_out \<Rightarrow> string \<Rightarrow> ('w, string) io" where
  "get_output_to_bytes st iom task_id = get_to_bytes st iom task_id OUTPUT_POSTFIX"

definition get_payload_to_bytes :: "'w storage \<Rightarrow> in_out \<Rightarrow> string \<Rightarrow> ('w, string) io" where
  "get_payload_to_bytes st iom task_id = get_to_bytes st iom task_id PAYLOAD_POSTFIX"

definition get_input_to_utf8_string :: "'w storage \<Rightarrow> in_out \<Rightarrow> string \<Rightarrow> ('w, string) io" where
  "get_input_to_utf8_string st iom task_id = get_to_utf8_string st iom task_id INPUT_POSTFIX"

definition get_output_to_utf8_string :: "'w storage \<Rightarrow> in_out \<Rightarrow> string \<Rightarrow> ('w, string) io" where
  "get_output_to_utf8_string st iom task_id = get_to_utf8_string st iom task_id OUTPUT_POSTFIX"

definition get_payload_to_utf8_string :: "'w storage \<Rightarrow> in_out \<Rightarrow> string \<Rightarrow> ('w, string) io" where
  "get_payload_to_utf8_string st iom task_id = get_to_utf8_string st iom task_id PAYLOAD_POSTFIX"

text \<open>Methods that only \<open>InOutS3\<close> has; on the other class the attribute does not exist.\<close>

fun put_error_from_bytes :: "'w storage \<Rightarrow> in_out \<Rightarrow> string \<Rightarrow> string \<Rightarrow> ('w, unit) io" where
  "put_error_from_bytes st (InOutS3 h) task_id data = s3_put_from_bytes st h task_id data ERROR_POSTFIX"
| "put_error_from_bytes st (InOutRedis h) task_id data = io_raise AttributeError"

fun get_error_to_bytes :: "'w storage \<Rightarrow> in_out \<Rightarrow> string \<Rightarrow> ('w, string) io" where
  "get_error_to_bytes st (InOutS3 h) task_id = s3_get_to_bytes st h task_id ERROR_POSTFIX"
| "get_error_to_bytes st (InOutRedis h) task_id = io_raise AttributeError"

fun get_error_to_utf8_string :: "'w storage \<Rightarrow> in_out \<Rightarrow> string \<Rightarrow> ('w, string) io" where
  "get_error_to_utf8_string st (InOutS3 h) task_id = s3_get_to_utf8_string st h task_id ERROR_POSTFIX"
| "get_error_to_utf8_string st (InOutRedis h) task_id = io_raise AttributeError"

fun get_input_to_file :: "'w storage \<Rightarrow> in_out \<Rightarrow> string \<Rightarrow> string \<Rightarrow> ('w, unit) io" where
  "get_input_to_file st (InOutS3 h) task_id file_name = s3_get_to_file st h task_id file_name INPUT_POSTFIX"
| "get_input_to_file st (InOutRedis h) task_id file_name = io_raise AttributeError"

fun get_output_to_file :: "'w storage \<Rightarrow> in_out \<Rightarrow> string \<Rightarrow> string \<Rightarrow> ('w, unit) io" where
  "get_output_to_file st (InOutS3 h) task_id file_name = s3_get_to_file st h task_id file_name OUTPUT_POSTFIX"
| "get_output_to_file st (InOutRedis h) task_id file_name = io_raise AttributeError"

fun get_error_to_file :: "'w storage \<Rightarrow> in_out \<Rightarrow> string \<Rightarrow> string \<Rightarrow> ('w, unit) io" where
  "get_error_to_file st (InOutS3 h) task_id file_name = s3_get_to_file st h task_id file_name ERROR_POSTFIX"
| "get_error_to_file st (InOutRedis h) task_id file_name = io_raise AttributeError"

end
