(* ===== verification/DataPlaneLaws.thy ===== *)
theory DataPlaneLaws
  imports DataPlane
begin

text \<open>
  What the connector, the agent and the submit lambda rely on when they use the data plane, as the
  locale \<open>data_plane\<close>, with \<open>InOutS3\<close>, \<open>InOutRedis\<close> and the object of \<open>in_out_manager\<close> as its
  interpretations, and what S3 and Redis document (a cache may forget an entry at any time).
\<close>

section \<open>Documented behaviour of S3 and Redis\<close>

record 'w data_view =
  objects :: "'w \<Rightarrow> string \<times> string \<Rightarrow> string option"
  cached :: "'w \<Rightarrow> string \<Rightarrow> string option"

definition s3_documented :: "'w storage \<Rightarrow> 'w data_view \<Rightarrow> bool" where
  "s3_documented st v \<longleftrightarrow>
     (\<forall>b k kms d w r w'. s3_upload st b k kms d w = (r, w') \<longrightarrow> cached v w' = cached v w \<and>
        (if r = Inr () then objects v w' = (objects v w)((b, k) \<mapsto> d)
         else objects v w' = objects v w \<or> objects v w' = (objects v w)((b, k) \<mapsto> d))) \<and>
     (\<forall>b k w r w'. s3_download st b k w = (r, w') \<longrightarrow> cached v w' = cached v w \<and> objects v w' = objects v w \<and>
        (\<forall>d. r = Inr d \<longrightarrow> objects v w (b, k) = Some d))"

definition redis_documented :: "'w storage \<Rightarrow> 'w data_view \<Rightarrow> bool" where
  "redis_documented st v \<longleftrightarrow>
     (\<forall>k w r w'. redis_get st k w = (r, w') \<longrightarrow> objects v w' = objects v w \<and> cached v w' \<subseteq>\<^sub>m cached v w \<and>
        (\<forall>d. r = Inr (Some d) \<longrightarrow> cached v w k = Some d)) \<and>
     (\<forall>k d w r w'. redis_set st k d w = (r, w') \<longrightarrow> objects v w' = objects v w \<and>
        (cached v w' \<subseteq>\<^sub>m (cached v w)(k \<mapsto> d) \<or> r \<noteq> Inr () \<and> cached v w' \<subseteq>\<^sub>m cached v w))"

definition storage_documented :: "'w storage \<Rightarrow> 'w data_view \<Rightarrow> bool" where
  "storage_documented st v \<longleftrightarrow> s3_documented st v \<and> redis_documented st v"

lemma upload_ok:
  "storage_documented st v \<Longrightarrow> s3_upload st b k kms d w = (Inr (), w') \<Longrightarrow>
     cached v w' = cached v w \<and> objects v w' = (objects v w)((b, k) \<mapsto> d)"
  by (simp add: storage_documented_def s3_documented_def)

lemma download_ok:
  "storage_documented st v \<Longrightarrow> s3_download st b k w = (r, w') \<Longrightarrow>
     cached v w' = cached v w \<and> objects v w' = objects v w \<and> (\<forall>d. r = Inr d \<longrightarrow> objects v w (b, k) = Some d)"
  unfolding storage_documented_def s3_documented_def by blast

lemma redis_get_ok:
  "storage_documented st v \<Longrightarrow> redis_get st k w = (r, w') \<Longrightarrow>
     objects v w' = objects v w \<and> cached v w' \<subseteq>\<^sub>m cached v w \<and> (\<forall>d. r = Inr (Some d) \<longrightarrow> cached v w k = Some d)"
  unfolding storage_documented_def redis_documented_def by blast

lemma redis_set_ok:
  "storage_documented st v \<Longrightarrow> redis_set st k d w = (r, w') \<Longrightarrow> objects v w' = objects v w \<and>
     (cached v w' \<subseteq>\<^sub>m (cached v w)(k \<mapsto> d) \<or> r \<noteq> Inr () \<and> cached v w' \<subseteq>\<^sub>m cached v w)"
  unfolding storage_documented_def redis_documented_def by blast

lemma map_le_Some: "m \<subseteq>\<^sub>m n \<Longrightarrow> m k = Some d \<Longrightarrow> n k = Some d"
  by (force simp: map_le_def)

lemma map_le_upd_other: "m \<subseteq>\<^sub>m n(a \<mapsto> d) \<Longrightarrow> a \<noteq> k \<Longrightarrow> m k = Some x \<Longrightarrow> n k = Some x"
  by (drule (1) map_le_Some) simp

lemma map_le_upd_same: "m \<subseteq>\<^sub>m n(k \<mapsto> d) \<Longrightarrow> m k = Some x \<Longrightarrow> x = d"
  by (drule (1) map_le_Some) simp

section \<open>The contract\<close>

text \<open>
  \<open>held h v w\<close>: what a read through the handle \<open>h\<close> can return for each key; \<open>coherent\<close>: the copies it
  keeps of a value agree.
\<close>

locale data_plane =
  fixes coherent :: "'h \<Rightarrow> 'w data_view \<Rightarrow> 'w \<Rightarrow> bool"
    and held :: "'h \<Rightarrow> 'w data_view \<Rightarrow> 'w \<Rightarrow> string \<Rightarrow> string option"
    and key :: "'h \<Rightarrow> string \<Rightarrow> string \<Rightarrow> string"
    and put :: "'w storage \<Rightarrow> 'h \<Rightarrow> string \<Rightarrow> string \<Rightarrow> string \<Rightarrow> ('w, unit) io"
    and get :: "'w storage \<Rightarrow> 'h \<Rightarrow> string \<Rightarrow> string \<Rightarrow> ('w, string) io"
  assumes put_law: "storage_documented st v \<Longrightarrow> coherent h v w \<Longrightarrow> put st h t d p w = Some (Inr (), w') \<Longrightarrow>
      coherent h v w' \<and> held h v w' \<subseteq>\<^sub>m (held h v w)(key h t p \<mapsto> d)"
    and get_law: "storage_documented st v \<Longrightarrow> coherent h v w \<Longrightarrow> get st h t p w = Some (Inr d, w') \<Longrightarrow>
      held h v w (key h t p) = Some d"
    and get_kept: "storage_documented st v \<Longrightarrow> coherent h v w \<Longrightarrow> get st h t p w = Some (r, w') \<Longrightarrow>
      coherent h v w' \<and> held h v w' \<subseteq>\<^sub>m held h v w"
    and put_returns: "returns (put st h t d p)"
    and get_returns: "returns (get st h t p)"
begin

lemma puts_elsewhere:
  assumes doc: "storage_documented st v"
    and "coherent h v w" and "io_foreach ops (\<lambda>(t, d, p). put st h t d p) w = Some (Inr (), w')"
    and "\<forall>(t, d, p) \<in> set ops. key h t p \<noteq> k"
  shows "coherent h v w' \<and> (\<forall>x. held h v w' k = Some x \<longrightarrow> held h v w k = Some x)"
  using assms(2-)
proof (induction ops arbitrary: w)
  case Nil
  then show ?case by simp
next
  case (Cons op ops)
  obtain t d p where op: "op = (t, d, p)" by (cases op)
  from Cons.prems(2) op obtain w1 where p1: "put st h t d p w = Some (Inr (), w1)"
    and rest: "io_foreach ops (\<lambda>(t, d, p). put st h t d p) w1 = Some (Inr (), w')"
    by (auto simp: io_then_Inr)
  note law = put_law [OF doc Cons.prems(1) p1]
  have "held h v w1 k = Some x \<Longrightarrow> held h v w k = Some x" for x
    using map_le_upd_other [OF conjunct2 [OF law]] Cons.prems(3) op by auto
  moreover have "coherent h v w' \<and> (\<forall>x. held h v w' k = Some x \<longrightarrow> held h v w1 k = Some x)"
    by (rule Cons.IH) (use law rest Cons.prems(3) in auto)
  ultimately show ?case by blast
qed

text \<open>A value that was put is the value that is read, whatever is put under other keys in between.\<close>

lemma put_then_get:
  assumes "storage_documented st v" and "coherent h v w" and "put st h t d p w = Some (Inr (), w1)"
    and "io_foreach ops (\<lambda>(t, d, p). put st h t d p) w1 = Some (Inr (), w2)"
    and "\<forall>(t', d', p') \<in> set ops. key h t' p' \<noteq> key h t p"
    and "get st h t p w2 = Some (Inr x, w3)"
  shows "x = d"
proof -
  note law = put_law [OF assms(1-3)]
  note between = puts_elsewhere [OF assms(1) conjunct1 [OF law] assms(4,5)]
  from get_law [OF assms(1) conjunct1 [OF between] assms(6)] have "held h v w2 (key h t p) = Some x" .
  with between have "held h v w1 (key h t p) = Some x" by blast
  with law map_le_upd_same show ?thesis by fast
qed

end

interpretation s3_plane: data_plane
  "\<lambda>h v w. True" "\<lambda>h v w k. objects v w (s3_namespace h, k)"
  "\<lambda>h. get_full_key (s3_subnamespace h)" s3_put_from_bytes s3_get_to_bytes
proof unfold_locales
  fix st :: "'w storage" and v h w t d p w'
  assume doc: "storage_documented st v" and run: "s3_put_from_bytes st h t d p w = Some (Inr (), w')"
  then have "objects v w' = (objects v w)((s3_namespace h, get_full_key (s3_subnamespace h) t p) \<mapsto> d)"
    using upload_ok [OF doc] by (simp add: s3_put_from_bytes_def)
  then show "True \<and> (\<lambda>k. objects v w' (s3_namespace h, k)) \<subseteq>\<^sub>m
      (\<lambda>k. objects v w (s3_namespace h, k))(get_full_key (s3_subnamespace h) t p \<mapsto> d)"
    by (simp add: map_le_def)
next
  fix st :: "'w storage" and v h w t p d w'
  assume doc: "storage_documented st v" and run: "s3_get_to_bytes st h t p w = Some (Inr d, w')"
  then show "objects v w (s3_namespace h, get_full_key (s3_subnamespace h) t p) = Some d"
    using download_ok [OF doc] by (simp add: s3_get_to_bytes_def)
next
  fix st :: "'w storage" and v h w t p r w'
  assume doc: "storage_documented st v" and run: "s3_get_to_bytes st h t p w = Some (r, w')"
  then show "True \<and> (\<lambda>k. objects v w' (s3_namespace h, k)) \<subseteq>\<^sub>m (\<lambda>k. objects v w (s3_namespace h, k))"
    using download_ok [OF doc] by (simp add: s3_get_to_bytes_def)
qed (simp_all only: s3_put_from_bytes_def s3_get_to_bytes_def returns_call)

section \<open>Redis, with or without S3\<close>

definition redis_coherent :: "in_out_redis \<Rightarrow> 'w data_view \<Rightarrow> 'w \<Rightarrow> bool" where
  "redis_coherent h v w \<longleftrightarrow>
     (redis_use_S3 h \<longrightarrow> (\<forall>k d. cached v w k = Some d \<longrightarrow> objects v w (redis_namespace h, k) = Some d))"

definition redis_held :: "in_out_redis \<Rightarrow> 'w data_view \<Rightarrow> 'w \<Rightarrow> string \<Rightarrow> string option" where
  "redis_held h v w k = (if redis_use_S3 h then objects v w (redis_namespace h, k) else cached v w k)"

lemma redis_put_law:
  assumes doc: "storage_documented st v" and coh: "redis_coherent h v w"
    and run: "redis_put_from_bytes st h t d p w = Some (Inr (), w')"
  shows "redis_coherent h v w' \<and>
     redis_held h v w' \<subseteq>\<^sub>m (redis_held h v w)(get_full_key (redis_subnamespace h) t p \<mapsto> d)"
proof -
  define k where "k = get_full_key (redis_subnamespace h) t p"
  show ?thesis
  proof (cases "redis_use_S3 h")
    case True
    with run obtain w1 where up: "s3_upload st (redis_namespace h) k (redis_kms_key_id h) d w = (Inr (), w1)"
      and set: "redis_set st k d w1 = (Inr (), w')"
      by (auto simp: redis_put_from_bytes_def Let_def io_then_Inr k_def)
    have o: "objects v w' = (objects v w)((redis_namespace h, k) \<mapsto> d)"
      and c: "cached v w' \<subseteq>\<^sub>m (cached v w)(k \<mapsto> d)"
      using upload_ok [OF doc up] redis_set_ok [OF doc set] by auto
    have "redis_coherent h v w'"
      unfolding redis_coherent_def
    proof (intro impI allI)
      fix k' x
      assume "cached v w' k' = Some x"
      from map_le_Some [OF c this] coh True show "objects v w' (redis_namespace h, k') = Some x"
        unfolding o redis_coherent_def by (auto split: if_splits)
    qed
    moreover have "redis_held h v w' \<subseteq>\<^sub>m (redis_held h v w)(k \<mapsto> d)"
      using True o by (simp add: redis_held_def map_le_def)
    ultimately show ?thesis by (simp add: k_def)
  next
    case False
    with run have set: "redis_set st k d w = (Inr (), w')"
      by (auto simp: redis_put_from_bytes_def Let_def io_then_Inr k_def)
    from redis_set_ok [OF doc set] have "cached v w' \<subseteq>\<^sub>m (cached v w)(k \<mapsto> d)" by simp
    with False show ?thesis by (simp add: redis_coherent_def redis_held_def [abs_def] k_def)
  qed
qed

text \<open>The three ways a read of the cache ends.\<close>

lemma redis_get_cases:
  assumes "redis_get_to_bytes st h t p w = Some (r, w')"
  shows "(\<exists>e. redis_get st (get_full_key (redis_subnamespace h) t p) w = (Inl e, w') \<and> r = Inl e) \<or>
     (\<exists>d. redis_get st (get_full_key (redis_subnamespace h) t p) w = (Inr (Some d), w') \<and> r = Inr d) \<or>
     (\<exists>w1. redis_get st (get_full_key (redis_subnamespace h) t p) w = (Inr None, w1) \<and>
        (if redis_use_S3 h then
          (\<exists>e w2. s3_download st (redis_namespace h) (get_full_key (redis_subnamespace h) t p) w1 = (Inl e, w2) \<and>
             r = Inl e \<and> w' = w2) \<or>
          (\<exists>w2. s3_download st (redis_namespace h) (get_full_key (redis_subnamespace h) t p) w1 = (Inr [], w2) \<and>
             (\<exists>e. r = Inl e) \<and> w' = w2) \<or>
          (\<exists>d w2 q. s3_download st (redis_namespace h) (get_full_key (redis_subnamespace h) t p) w1 = (Inr d, w2) \<and>
             redis_set st (get_full_key (redis_subnamespace h) t p) d w2 = (q, w') \<and>
             ((\<exists>e. r = Inl e) \<or> r = Inr d))
         else w' = w1 \<and> (\<exists>e. r = Inl e)))"
proof -
  define k where "k = get_full_key (redis_subnamespace h) t p"
  obtain c w1 where c: "redis_get st k w = (c, w1)" by (cases "redis_get st k w")
  show ?thesis
  proof (cases c)
    case (Inl e)
    with assms c show ?thesis by (auto simp: redis_get_to_bytes_def Let_def io_apply k_def)
  next
    case (Inr o1)
    show ?thesis
    proof (cases o1)
      case (Some d)
      with assms c Inr show ?thesis by (auto simp: redis_get_to_bytes_def Let_def io_apply k_def)
    next
      case None
      show ?thesis
      proof (cases "redis_use_S3 h")
        case False
        with assms c Inr None show ?thesis by (auto simp: redis_get_to_bytes_def Let_def io_apply k_def)
      next
        case True
        obtain dd w2 where dl: "s3_download st (redis_namespace h) k w1 = (dd, w2)"
          by (cases "s3_download st (redis_namespace h) k w1")
        with assms c Inr None True show ?thesis
          by (cases dd) (auto simp: redis_get_to_bytes_def Let_def io_apply k_def
              split: if_splits prod.splits sum.splits)
      qed
    qed
  qed
qed

lemma redis_get_kept:
  assumes doc: "storage_documented st v" and coh: "redis_coherent h v w"
    and run: "redis_get_to_bytes st h t p w = Some (r, w')"
  shows "redis_coherent h v w' \<and> redis_held h v w' \<subseteq>\<^sub>m redis_held h v w"
proof -
  define k where "k = get_full_key (redis_subnamespace h) t p"
  have smaller: "redis_coherent h v w1 \<and> redis_held h v w1 \<subseteq>\<^sub>m redis_held h v w"
    if "objects v w1 = objects v w" "cached v w1 \<subseteq>\<^sub>m cached v w" for w1
    using that coh map_le_Some [OF that(2)]
    by (cases "redis_use_S3 h") (auto simp: redis_coherent_def redis_held_def [abs_def])
  note got = redis_get_ok [OF doc]
  from redis_get_cases [OF run, folded k_def] consider
      (direct) c where "redis_get st k w = (c, w')"
    | (miss) w1 where "redis_get st k w = (Inr None, w1)" "\<not> redis_use_S3 h" "w' = w1"
    | (load) w1 x where "redis_get st k w = (Inr None, w1)" "redis_use_S3 h"
        "s3_download st (redis_namespace h) k w1 = (x, w')"
    | (fill) w1 d w2 q where "redis_get st k w = (Inr None, w1)" "redis_use_S3 h"
        "s3_download st (redis_namespace h) k w1 = (Inr d, w2)" "redis_set st k d w2 = (q, w')"
    by (auto split: if_splits)
  then show ?thesis
  proof cases
    case direct
    with got [of k w c w'] smaller show ?thesis by blast
  next
    case miss
    with got [of k w "Inr None" w1] smaller show ?thesis by blast
  next
    case load
    with got [of k w "Inr None" w1] download_ok [OF doc load(3)] smaller [of w'] show ?thesis by simp
  next
    case fill
    note g = got [OF fill(1)] and dl = download_ok [OF doc fill(3)] and rs = redis_set_ok [OF doc fill(4)]
    have o: "objects v w' = objects v w" using g dl rs by simp
    have d: "objects v w (redis_namespace h, k) = Some d" using g dl by simp
    have old: "x = d \<and> k' = k \<or> cached v w k' = Some x" if "cached v w' k' = Some x" for k' x
    proof -
      from rs have "cached v w' \<subseteq>\<^sub>m (cached v w2)(k \<mapsto> d) \<or> cached v w' \<subseteq>\<^sub>m cached v w2" by blast
      then have "x = d \<and> k' = k \<or> cached v w2 k' = Some x"
        using that map_le_Some [of "cached v w'" "(cached v w2)(k \<mapsto> d)" k' x]
          map_le_Some [of "cached v w'" "cached v w2" k' x] by (auto split: if_splits)
      moreover have "cached v w2 k' = Some x \<Longrightarrow> cached v w k' = Some x"
        using g dl map_le_Some [of "cached v w1" "cached v w" k' x] by simp
      ultimately show ?thesis by blast
    qed
    have "redis_coherent h v w'" using old coh d o fill(2) by (auto simp: redis_coherent_def)
    moreover have "redis_held h v w' \<subseteq>\<^sub>m redis_held h v w"
      using fill(2) o by (simp add: redis_held_def [abs_def])
    ultimately show ?thesis by simp
  qed
qed

lemma redis_get_law:
  assumes doc: "storage_documented st v" and coh: "redis_coherent h v w"
    and run: "redis_get_to_bytes st h t p w = Some (Inr d, w')"
  shows "redis_held h v w (get_full_key (redis_subnamespace h) t p) = Some d"
proof -
  define k where "k = get_full_key (redis_subnamespace h) t p"
  from redis_get_cases [OF run, folded k_def] consider
      (hit) "redis_get st k w = (Inr (Some d), w')"
    | (fill) w1 w2 where "redis_get st k w = (Inr None, w1)" "redis_use_S3 h"
        "s3_download st (redis_namespace h) k w1 = (Inr d, w2)"
    by (auto split: if_splits sum.splits)
  then have "redis_held h v w k = Some d"
  proof cases
    case hit
    with redis_get_ok [OF doc hit] coh show ?thesis by (simp add: redis_held_def redis_coherent_def)
  next
    case fill
    with redis_get_ok [OF doc fill(1)] download_ok [OF doc fill(3)] show ?thesis by (simp add: redis_held_def)
  qed
  then show ?thesis by (simp add: k_def)
qed

lemma redis_put_returns: "returns (redis_put_from_bytes st h t d p)"
  unfolding redis_put_from_bytes_def Let_def
  by (cases "redis_use_S3 h") (simp_all only: if_True if_False returns_then returns_call returns_return)

lemma redis_get_returns: "returns (redis_get_to_bytes st h t p)"
  unfolding redis_get_to_bytes_def Let_def
proof (rule returns_bind [OF returns_call])
  fix c
  show "returns (case c of
          Some content \<Rightarrow> io_return content
        | None \<Rightarrow>
            (if redis_use_S3 h then
               io_bind (io_call (s3_download st (redis_namespace h) (get_full_key (redis_subnamespace h) t p)))
                 (\<lambda>data. if data = []
                 then io_raise (GenericException (''Can not retrieve from S3 '' @ t @ '' ''))
                 else io_then (io_call (redis_set st (get_full_key (redis_subnamespace h) t p) data)) (io_return data))
             else io_raise (GenericException (''Cache miss for '' @ t))))"
    by (cases c; cases "redis_use_S3 h")
      (auto simp only: option.case if_True if_False intro!: returns_bind returns_call returns_raise
        returns_then returns_return split: if_splits)
qed

interpretation redis_plane: data_plane
  redis_coherent redis_held "\<lambda>h. get_full_key (redis_subnamespace h)" redis_put_from_bytes redis_get_to_bytes
  by unfold_locales (fact redis_put_law redis_get_law redis_get_kept redis_put_returns redis_get_returns)+

section \<open>The object of \<open>in_out_manager\<close>\<close>

fun plane_coherent :: "in_out \<Rightarrow> 'w data_view \<Rightarrow> 'w \<Rightarrow> bool" where
  "plane_coherent (InOutS3 h) v w \<longleftrightarrow> True"
| "plane_coherent (InOutRedis h) v w \<longleftrightarrow> redis_coherent h v w"

definition plane_held :: "in_out \<Rightarrow> 'w data_view \<Rightarrow> 'w \<Rightarrow> string \<Rightarrow> string option" where
  "plane_held iom v w = (case iom of
      InOutS3 h \<Rightarrow> (\<lambda>k. objects v w (s3_namespace h, k))
    | InOutRedis h \<Rightarrow> redis_held h v w)"

fun plane_subnamespace :: "in_out \<Rightarrow> string option" where
  "plane_subnamespace (InOutS3 h) = s3_subnamespace h"
| "plane_subnamespace (InOutRedis h) = redis_subnamespace h"

interpretation grid_plane: data_plane
  plane_coherent plane_held "\<lambda>h. get_full_key (plane_subnamespace h)" put_from_bytes get_to_bytes
proof unfold_locales
  fix st :: "'w storage" and v h w t d p w'
  assume "storage_documented st v" "plane_coherent h v w" "put_from_bytes st h t d p w = Some (Inr (), w')"
  then show "plane_coherent h v w' \<and>
      plane_held h v w' \<subseteq>\<^sub>m (plane_held h v w)(get_full_key (plane_subnamespace h) t p \<mapsto> d)"
    using s3_plane.put_law redis_plane.put_law by (cases h) (simp_all add: plane_held_def)
next
  fix st :: "'w storage" and v h w t p d w'
  assume "storage_documented st v" "plane_coherent h v w" "get_to_bytes st h t p w = Some (Inr d, w')"
  then show "plane_held h v w (get_full_key (plane_subnamespace h) t p) = Some d"
    using s3_plane.get_law redis_plane.get_law by (cases h) (simp_all add: plane_held_def)
next
  fix st :: "'w storage" and v h w t p r w'
  assume "storage_documented st v" "plane_coherent h v w" "get_to_bytes st h t p w = Some (r, w')"
  then show "plane_coherent h v w' \<and> plane_held h v w' \<subseteq>\<^sub>m plane_held h v w"
    using s3_plane.get_kept redis_plane.get_kept by (cases h) (simp_all add: plane_held_def)
next
  fix st :: "'w storage" and h t d p
  show "returns (put_from_bytes st h t d p)"
    using s3_plane.put_returns redis_plane.put_returns by (cases h) simp_all
next
  fix st :: "'w storage" and h t p
  show "returns (get_to_bytes st h t p)"
    using s3_plane.get_returns redis_plane.get_returns by (cases h) simp_all
qed

section \<open>Keys\<close>

definition postfixes :: "string list" where
  "postfixes = [INPUT_POSTFIX, OUTPUT_POSTFIX, ERROR_POSTFIX, PAYLOAD_POSTFIX]"

text \<open>The four kinds of values of a task, and the values of two tasks, have different keys.\<close>

lemma postfix_inject:
  assumes "p \<in> set postfixes" and "p' \<in> set postfixes" and "t @ p = t' @ p'"
  shows "t = t' \<and> p = p'"
proof -
  have "rev p @ rev t = rev p' @ rev t'" using assms(3) by (metis rev_append)
  with assms(1,2) have "p = p'" by (auto simp: postfixes_def postfix_defs)
  with assms(3) show ?thesis by simp
qed

lemma get_full_key_inject:
  "p \<in> set postfixes \<Longrightarrow> p' \<in> set postfixes \<Longrightarrow>
     get_full_key s t p = get_full_key s t' p' \<longleftrightarrow> t = t' \<and> p = p'"
  using postfix_inject [of p p' t t'] by (cases s) (auto simp: get_full_key_def)

section \<open>Frames\<close>

text \<open>The data plane and another view of the world, such as the state table, do not share state.\<close>

definition storage_keeps :: "'w storage \<Rightarrow> ('w \<Rightarrow> 'v) \<Rightarrow> bool" where
  "storage_keeps st v \<longleftrightarrow>
     (\<forall>b k kms d. keeps v (io_call (s3_upload st b k kms d))) \<and> (\<forall>b k. keeps v (io_call (s3_download st b k))) \<and>
     (\<forall>k. keeps v (io_call (redis_get st k))) \<and> (\<forall>k d. keeps v (io_call (redis_set st k d)))"

lemma get_to_bytes_keeps: "storage_keeps st v \<Longrightarrow> keeps v (get_to_bytes st h t p)"
  by (cases h) (auto simp: s3_get_to_bytes_def redis_get_to_bytes_def Let_def storage_keeps_def
      intro!: keeps_bind keeps_then split: option.splits)

lemma get_to_utf8_string_keeps: "storage_keeps st v \<Longrightarrow> keeps v (get_to_utf8_string st h t p)"
  by (cases h) (auto simp: s3_get_to_utf8_string_def s3_get_to_bytes_def redis_get_to_utf8_string_def Let_def
      storage_keeps_def intro!: keeps_bind keeps_then split: option.splits)

lemma put_from_bytes_keeps: "storage_keeps st v \<Longrightarrow> keeps v (put_from_bytes st h t d p)"
  by (cases h) (auto simp: s3_put_from_bytes_def redis_put_from_bytes_def Let_def storage_keeps_def
      intro!: keeps_then)

end
