(* ===== verification/DataPlaneProps.thy ===== *)
theory DataPlaneProps
  imports DataPlaneLaws MemoryQueue
begin

text \<open>
  The properties of the data plane, and S3 and Redis in memory beside the table and the queues of
  the other services: the buckets are a map, and the cache forgets everything at each write.
\<close>

record mem_cloud = mem_grid +
  mem_objects :: "string \<times> string \<rightharpoonup> string"
  mem_cache :: "string \<rightharpoonup> string"

definition mem_storage :: "'a mem_cloud_scheme storage" where
  "mem_storage = \<lparr>
     s3_upload = (\<lambda>b k kms d w. (Inr (), w\<lparr>mem_objects := (mem_objects w)((b, k) \<mapsto> d)\<rparr>)),
     s3_download = (\<lambda>b k w. (case mem_objects w (b, k) of
        None \<Rightarrow> Inl (ClientError ''404'' ''Not Found'') | Some d \<Rightarrow> Inr d, w)),
     s3_upload_file = (\<lambda>b k kms f w. (Inr (), w)),
     s3_download_file = (\<lambda>b k f w. (Inr (), w)),
     s3_copy = (\<lambda>s b k kms w. (Inr (), w)),
     redis_get = (\<lambda>k w. (Inr (mem_cache w k), w)),
     redis_set = (\<lambda>k d w. (Inr (), w\<lparr>mem_cache := [k \<mapsto> d]\<rparr>)),
     read_file = (\<lambda>f w. (Inl (ServiceFailure ''no such file''), w))\<rparr>"

lemma mem_storage_simps [simp]:
  "s3_upload mem_storage b k kms d w = (Inr (), w\<lparr>mem_objects := (mem_objects w)((b, k) \<mapsto> d)\<rparr>)"
  "s3_download mem_storage b k w = (case mem_objects w (b, k) of
        None \<Rightarrow> Inl (ClientError ''404'' ''Not Found'') | Some d \<Rightarrow> Inr d, w)"
  "redis_get mem_storage k w = (Inr (mem_cache w k), w)"
  "redis_set mem_storage k d w = (Inr (), w\<lparr>mem_cache := [k \<mapsto> d]\<rparr>)"
  by (simp_all add: mem_storage_def)

definition mem_data_view :: "'a mem_cloud_scheme data_view" where
  "mem_data_view = \<lparr>objects = mem_objects, cached = mem_cache\<rparr>"

lemma mem_data_view_simps [simp]:
  "objects mem_data_view = mem_objects" "cached mem_data_view = mem_cache"
  by (simp_all add: mem_data_view_def)

lemma mem_storage_documented: "storage_documented mem_storage mem_data_view"
proof -
  have s: "s3_documented mem_storage mem_data_view"
    unfolding s3_documented_def by (auto split: option.splits)
  have r: "redis_documented mem_storage mem_data_view"
    unfolding redis_documented_def by (auto simp: map_le_def)
  from s r show ?thesis by (simp add: storage_documented_def)
qed

definition empty_cloud :: mem_cloud where
  "empty_cloud = \<lparr>mem_rows = [], mem_faults = [], mem_clock = 0, mem_msgs = (\<lambda>q. []),
     mem_objects = Map.empty, mem_cache = Map.empty\<rparr>"

section \<open>Properties\<close>

text \<open>Whatever storage the grid is configured with, a task's value of a kind (input, output, error or
  payload) that was stored is the value that is read back, however many values of other tasks or of
  other kinds of the same task are stored in between, even if the cache forgets entries.\<close>

theorem data_plane_round_trip:
  assumes "in_out_manager service bucket kms = Inr iom" and "storage_documented st v"
    and "plane_coherent iom v w" and "kind \<in> set postfixes"
    and "put_from_bytes st iom task data kind w = Some (Inr (), w1)"
    and "\<forall>(t, d, p) \<in> set others. p \<in> set postfixes \<and> (t, p) \<noteq> (task, kind)"
    and "io_foreach others (\<lambda>(t, d, p). put_from_bytes st iom t d p) w1 = Some (Inr (), w2)"
    and "get_to_bytes st iom task kind w2 = Some (Inr x, w3)"
  shows "x = data"
proof (rule grid_plane.put_then_get [OF assms(2,3,5,7) _ assms(8)])
  show "\<forall>(t', d', p') \<in> set others.
      get_full_key (plane_subnamespace iom) t' p' \<noteq> get_full_key (plane_subnamespace iom) task kind"
    using assms(4,6) by (auto simp: get_full_key_inject)
qed

theorem data_plane_round_trip_witness:
  "\<exists>iom w1 w2 x. in_out_manager ''S3+REDIS'' ''bucket'' None = Inr iom \<and>
     put_from_bytes mem_storage iom ''s_1'' ''hello'' INPUT_POSTFIX empty_cloud = Some (Inr (), w1) \<and>
     put_from_bytes mem_storage iom ''s_1'' ''bye'' OUTPUT_POSTFIX w1 = Some (Inr (), w2) \<and>
     get_to_bytes mem_storage iom ''s_1'' INPUT_POSTFIX w2 = Some (Inr x, w2\<lparr>mem_cache := [''s_1-input'' \<mapsto> x]\<rparr>) \<and>
     x = ''hello''"
proof -
  obtain iom where iom: "in_out_manager ''S3+REDIS'' ''bucket'' None = Inr iom"
    "iom = InOutRedis \<lparr>redis_namespace = ''bucket'', redis_subnamespace = None, redis_use_S3 = True,
       redis_kms_key_id = None\<rparr>" by (simp add: in_out_manager_def)
  define w1 where "w1 = empty_cloud\<lparr>mem_objects := [(''bucket'', ''s_1-input'') \<mapsto> ''hello''],
    mem_cache := [''s_1-input'' \<mapsto> ''hello'']\<rparr>"
  define w2 where "w2 = w1\<lparr>mem_objects := (mem_objects w1)((''bucket'', ''s_1-output'') \<mapsto> ''bye''),
    mem_cache := [''s_1-output'' \<mapsto> ''bye'']\<rparr>"
  have p1: "put_from_bytes mem_storage iom ''s_1'' ''hello'' INPUT_POSTFIX empty_cloud = Some (Inr (), w1)"
    by (simp add: iom redis_put_from_bytes_def Let_def io_apply get_full_key_def INPUT_POSTFIX_def
        empty_cloud_def w1_def)
  have p2: "put_from_bytes mem_storage iom ''s_1'' ''bye'' OUTPUT_POSTFIX w1 = Some (Inr (), w2)"
    by (simp add: iom redis_put_from_bytes_def Let_def io_apply get_full_key_def OUTPUT_POSTFIX_def w2_def)
  have g: "get_to_bytes mem_storage iom ''s_1'' INPUT_POSTFIX w2 =
      Some (Inr ''hello'', w2\<lparr>mem_cache := [''s_1-input'' \<mapsto> ''hello'']\<rparr>)"
    by (simp add: iom redis_get_to_bytes_def Let_def io_apply get_full_key_def INPUT_POSTFIX_def
        w2_def w1_def empty_cloud_def)
  have coh: "plane_coherent iom mem_data_view empty_cloud"
    by (simp add: iom redis_coherent_def empty_cloud_def)
  have kind: "INPUT_POSTFIX \<in> set postfixes" by (simp add: postfixes_def)
  have others: "\<forall>(t, d, p) \<in> set [(''s_1'', ''bye'', OUTPUT_POSTFIX)].
      p \<in> set postfixes \<and> (t, p) \<noteq> (''s_1'', INPUT_POSTFIX)"
    by (simp add: postfixes_def postfix_defs)
  have run: "io_foreach [(''s_1'', ''bye'', OUTPUT_POSTFIX)]
      (\<lambda>(t, d, p). put_from_bytes mem_storage iom t d p) w1 = Some (Inr (), w2)"
    using p2 by (simp add: io_then_apply)
  from data_plane_round_trip [OF iom(1) mem_storage_documented coh kind p1 others run g] iom(1) p1 p2 g
  show ?thesis by blast
qed

end
