(* ===== verification/PerfTracker.thy ===== *)
theory PerfTracker
  imports MemoryTable Json
begin

text \<open>
  The measurements of \<open>source/client/python/utils/utils\<close>: the class \<open>EventsCounter\<close> and the class
  \<open>PerformanceTracker\<close> with its factory (\<open>performance_tracker.py\<close>), and the two buffered connectors
  (\<open>perf_tracker_firehose_connector.py\<close>, \<open>perf_tracker_influxdb_connector.py\<close>).  Firehose, InfluxDB
  and the calendar time are parameters.  These objects are mutable and outlive a call that raises,
  so they are part of the state: \<open>'w metered\<close> is the world with one tracker and one counter.
\<close>

section \<open>\<open>EventsCounter\<close>\<close>

record events_counter =
  expected_events :: "string list"
  evcounter :: "(string \<times> pyval) list"

definition initial_count :: "string \<Rightarrow> pyval" where
  "initial_count e = (if str_startswith e ''str'' then PStr [] else PInt 0)"

definition counter_reset :: "events_counter \<Rightarrow> events_counter" where
  "counter_reset self = self\<lparr>evcounter :=
     fold (\<lambda>e c. AList.update e (initial_count e) c) (expected_events self) []\<rparr>"

definition EventsCounter :: "string list \<Rightarrow> events_counter" where
  "EventsCounter expected = counter_reset \<lparr>expected_events = expected, evcounter = []\<rparr>"

text \<open>A counter that is not there yet is set to 1, whatever the value to add.\<close>

definition increment :: "string \<Rightarrow> int \<Rightarrow> events_counter \<Rightarrow> exn + events_counter" where
  "increment event_name value self = (case map_of (evcounter self) event_name of
      Some (PInt n) \<Rightarrow> Inr (self\<lparr>evcounter := AList.update event_name (PInt (n + value)) (evcounter self)\<rparr>)
    | Some _ \<Rightarrow> Inl TypeError
    | None \<Rightarrow> Inr (self\<lparr>evcounter := AList.update event_name (PInt 1) (evcounter self)\<rparr>))"

definition counter_set :: "string \<Rightarrow> pyval \<Rightarrow> events_counter \<Rightarrow> events_counter" where
  "counter_set event_name value self =
     self\<lparr>evcounter := AList.update event_name value (evcounter self)\<rparr>"

definition get_counter :: "events_counter \<Rightarrow> string \<Rightarrow> pyval" where
  "get_counter self name = (case map_of (evcounter self) name of Some v \<Rightarrow> v | None \<Rightarrow> initial_count name)"

section \<open>Connectors\<close>

record 'w metrics =
  now_iso :: "'w \<Rightarrow> string \<times> 'w"
  put_record_batch :: "string \<Rightarrow> string list \<Rightarrow> 'w \<Rightarrow> (exn + unit) \<times> 'w"
  influx_create :: "string \<Rightarrow> string \<Rightarrow> string \<Rightarrow> 'w \<Rightarrow> (exn + unit) \<times> 'w"
  write_points :: "string \<Rightarrow> pyval list \<Rightarrow> 'w \<Rightarrow> (exn + unit) \<times> 'w"

datatype connector =
    FirehoseConnector string "string list" \<comment> \<open>stream, buffered records\<close>
  | InfluxDBConnector string string "pyval list" \<comment> \<open>database, measurement, buffered points\<close>

definition firehose_init :: "string \<Rightarrow> exn + connector" where
  "firehose_init connector_string =
     (let tokens = split_on (CHR '' '') connector_string in
      bind_result (list_index tokens 0) (\<lambda>region_name.
      bind_result (list_index tokens 1) (\<lambda>stream. Inr (FirehoseConnector stream []))))"

definition influx_init :: "'w metrics \<Rightarrow> string \<Rightarrow> string \<Rightarrow> ('w, connector) io" where
  "influx_init mt connector_string influxdb_ip =
     (let tokens = split_on (CHR '' '') connector_string in
      io_bind (io_of (list_index tokens 0)) (\<lambda>port.
      io_bind (io_of (list_index tokens 1)) (\<lambda>database.
      io_bind (io_of (list_index tokens 2)) (\<lambda>measurement.
      io_then (io_call (influx_create mt influxdb_ip port database))
        (io_return (InfluxDBConnector database measurement []))))))"

fun add_sample :: "(string \<times> pyval) list \<Rightarrow> connector \<Rightarrow> exn + connector" where
  "add_sample data (FirehoseConnector stream buffer) =
     Inr (FirehoseConnector stream (buffer @ [json_dumps (PDict data)]))"
| "add_sample data (InfluxDBConnector database measurement buffer) =
     bind_result (py_index (PDict data) ''EVENT_TIME'') (\<lambda>time.
       Inr (InfluxDBConnector database measurement (buffer @ [PDict [(''measurement'', PStr measurement),
         (''time'', time), (''fields'', PDict data)]])))"

text \<open>The buffer is emptied only when the service took it.\<close>

fun flush :: "'w metrics \<Rightarrow> connector \<Rightarrow> ('w, connector) io" where
  "flush mt (FirehoseConnector stream buffer) =
     io_then (io_call (put_record_batch mt stream buffer)) (io_return (FirehoseConnector stream []))"
| "flush mt (InfluxDBConnector database measurement buffer) =
     io_then (io_call (write_points mt database buffer)) (io_return (InfluxDBConnector database measurement []))"

section \<open>\<open>PerformanceTracker\<close>\<close>

record perf_tracker =
  buffered_storage_connector :: "connector option"
  last_batch_submission_delay_ms :: int
  last_batch_submission_timestamp_ms :: int
  max_batching_delay_ms :: int

definition PerformanceTracker :: "connector option \<Rightarrow> perf_tracker" where
  "PerformanceTracker c = \<lparr>buffered_storage_connector = c, last_batch_submission_delay_ms = 0,
     last_batch_submission_timestamp_ms = 0, max_batching_delay_ms = 5 * 1000\<rparr>"

text \<open>The factory returns a tracker or, for an unknown connector, the function it meant to call.\<close>

datatype tracker_object = Tracker perf_tracker | TrackerFactory

definition performance_tracker_initializer ::
  "'w metrics \<Rightarrow> string \<Rightarrow> string \<Rightarrow> string \<Rightarrow> ('w, tracker_object) io" where
  "performance_tracker_initializer mt metrics_are_enabled connection_string influxdb_ip =
     io_bind (io_of (int_of_str metrics_are_enabled)) (\<lambda>enabled.
       if enabled \<noteq> 0 then
         (let tokens = split_once (CHR '' '') connection_string in
          if hd tokens = ''firehose'' then
            io_bind (io_of (bind_result (list_index tokens 1) firehose_init)) (\<lambda>c.
              io_return (Tracker (PerformanceTracker (Some c))))
          else if hd tokens = ''influxdb'' then
            io_bind (io_of (list_index tokens 1)) (\<lambda>s.
              io_bind (influx_init mt s influxdb_ip) (\<lambda>c.
                io_return (Tracker (PerformanceTracker (Some c)))))
          else io_return TrackerFactory)
       else io_return (Tracker (PerformanceTracker None)))"

text \<open>The world with a tracker and a counter.\<close>

record 'w metered =
  grid :: 'w
  perf :: tracker_object
  events :: events_counter

definition on_grid :: "('w, 'a) io \<Rightarrow> ('w metered, 'a) io" where
  "on_grid m = io_zoom grid (\<lambda>w s. s\<lparr>grid := w\<rparr>) m"

definition count_event :: "string \<Rightarrow> int \<Rightarrow> ('w metered, unit) io" where
  "count_event name value = io_bind (io_get (\<lambda>s. increment name value (events s))) (\<lambda>r. case r of
      Inl e \<Rightarrow> io_raise e
    | Inr c \<Rightarrow> io_modify (\<lambda>s. s\<lparr>events := c\<rparr>))"

definition set_event :: "string \<Rightarrow> pyval \<Rightarrow> ('w metered, unit) io" where
  "set_event name value = io_modify (\<lambda>s. s\<lparr>events := counter_set name value (events s)\<rparr>)"

definition py_sub :: "pyval \<Rightarrow> pyval \<Rightarrow> exn + pyval" where
  "py_sub a b = (case (a, b) of (PInt x, PInt y) \<Rightarrow> Inr (PInt (x - y)) | _ \<Rightarrow> Inl TypeError)"

definition py_text :: "pyval \<Rightarrow> exn + string" where
  "py_text v = (case v of PStr s \<Rightarrow> Inr s | _ \<Rightarrow> Inl TypeError)"

text \<open>
  One duration per pair of neighbouring events, under the label of the later one.  Labels are
  texts (JSON has no other keys for the sample).
\<close>

fun durations :: "(string \<times> pyval) list \<Rightarrow> string list \<Rightarrow> (string \<times> pyval) list \<Rightarrow> exn + (string \<times> pyval) list"
where
  "durations stats (k # k' # ks) data =
     bind_result (py_index (PDict stats) k') (\<lambda>later.
     bind_result (py_index (PDict stats) k) (\<lambda>earlier.
     bind_result (bind_result (py_index later ''label'') py_text) (\<lambda>label.
     bind_result (py_index later ''tstmp'') (\<lambda>t1.
     bind_result (py_index earlier ''tstmp'') (\<lambda>t0.
     bind_result (py_sub t1 t0) (\<lambda>value.
     durations stats (k' # ks) (AList.update label value data)))))))"
| "durations stats _ data = Inr data"

fun index_of :: "string \<Rightarrow> string list \<Rightarrow> exn + nat" where
  "index_of k [] = Inl ValueError"
| "index_of k (x # xs) = (if x = k then Inr 0 else bind_result (index_of k xs) (\<lambda>i. Inr (Suc i)))"

text \<open>\<open>sorted_keys[i]\<close> for \<open>i\<close> from the first event's index to the last one's, both included.\<close>

definition between_events :: "string list \<Rightarrow> string \<Rightarrow> string \<Rightarrow> exn + string list" where
  "between_events sorted_keys from_event to_event =
     bind_result (index_of from_event sorted_keys) (\<lambda>start_index.
     bind_result (index_of to_event sorted_keys) (\<lambda>end_index.
     Inr (if start_index < end_index then take (Suc end_index - start_index) (drop start_index sorted_keys)
          else [])))"

definition sample_data ::
  "(string \<times> pyval) list \<Rightarrow> (string \<times> pyval) list \<Rightarrow> string \<Rightarrow> string \<Rightarrow> string \<Rightarrow> int
     \<Rightarrow> exn + (string \<times> pyval) list" where
  "sample_data stats counters from_event to_event event_time delay =
     bind_result (between_events (sort (map fst stats)) from_event to_event) (\<lambda>ks.
     bind_result (durations stats ks [(''EVENT_TIME'', PStr event_time)]) (\<lambda>data.
     Inr (AList.update ''last_batch_submission_delay_ms'' (PInt delay)
       (fold (\<lambda>k d. AList.update k (the (map_of counters k)) d) (sort (map fst counters)) data))))"

definition add_metric_sample ::
  "'w metrics \<Rightarrow> (string \<times> pyval) list \<Rightarrow> string \<Rightarrow> string \<Rightarrow> ('w metered, unit) io" where
  "add_metric_sample mt stats_dic from_event to_event =
     io_bind (io_get perf) (\<lambda>p. case p of
        TrackerFactory \<Rightarrow> io_raise AttributeError
      | Tracker tr \<Rightarrow>
          io_bind (on_grid (io_read (now_iso mt))) (\<lambda>event_time.
          io_bind (io_get (\<lambda>s. evcounter (events s))) (\<lambda>counters.
          io_bind (io_of (sample_data stats_dic counters from_event to_event event_time
              (last_batch_submission_delay_ms tr))) (\<lambda>data.
          io_then (io_modify (\<lambda>s. s\<lparr>events := counter_reset (events s)\<rparr>))
            (case buffered_storage_connector tr of
               None \<Rightarrow> io_return ()
             | Some c \<Rightarrow> io_bind (io_of (add_sample data c)) (\<lambda>c'.
                 io_modify (\<lambda>s. s\<lparr>perf := Tracker (tr\<lparr>buffered_storage_connector := Some c'\<rparr>)\<rparr>)))))))"

definition submit_measurements :: "'w metrics \<Rightarrow> 'w host \<Rightarrow> ('w metered, unit) io" where
  "submit_measurements mt host =
     io_bind (io_get perf) (\<lambda>p. case p of
        TrackerFactory \<Rightarrow> io_raise AttributeError
      | Tracker tr \<Rightarrow> (case buffered_storage_connector tr of
            None \<Rightarrow> io_return ()
          | Some c \<Rightarrow>
              io_bind (on_grid (time_now_ms host)) (\<lambda>now.
                if max_batching_delay_ms tr < now - last_batch_submission_timestamp_ms tr then
                  io_bind (on_grid (time_now_ms host)) (\<lambda>time_start_ms.
                  io_bind (on_grid (flush mt c)) (\<lambda>c'.
                  io_then (io_modify (\<lambda>s. s\<lparr>perf := Tracker (tr\<lparr>buffered_storage_connector := Some c'\<rparr>)\<rparr>))
                    (io_bind (on_grid (time_now_ms host)) (\<lambda>t1.
                     io_then (io_modify (\<lambda>s. s\<lparr>perf := Tracker (tr\<lparr>buffered_storage_connector := Some c',
                         last_batch_submission_delay_ms := t1 - time_start_ms\<rparr>)\<rparr>))
                       (io_bind (on_grid (time_now_ms host)) (\<lambda>t2.
                        io_modify (\<lambda>s. s\<lparr>perf := Tracker (tr\<lparr>buffered_storage_connector := Some c',
                          last_batch_submission_delay_ms := t1 - time_start_ms,
                          last_batch_submission_timestamp_ms := t2\<rparr>)\<rparr>)))))))
                else io_return ())))"

end
