(* ===== verification/Lambdas.thy ===== *)
theory Lambdas
  imports PerfTracker Base64
begin

text \<open>
  What the lambdas of the control plane share: reading a dictionary that came out of JSON, changing
  it in place, the content of a request and the answer to it.
\<close>

record lambda_response =
  statusCode :: int
  body :: string

text \<open>\<open>str(v)\<close>; for a list or a dictionary its JSON text stands for Python's own.\<close>

definition py_str :: "pyval \<Rightarrow> string" where
  "py_str v = (case v of
      PStr s \<Rightarrow> s
    | PNone \<Rightarrow> ''None''
    | PInt i \<Rightarrow> str_of_int i
    | PBool b \<Rightarrow> (if b then ''True'' else ''False'')
    | _ \<Rightarrow> json_dumps v)"

text \<open>\<open>d[k] = v\<close>.\<close>

definition py_set :: "pyval \<Rightarrow> string \<Rightarrow> pyval \<Rightarrow> exn + pyval" where
  "py_set d k v = (case d of PDict m \<Rightarrow> Inr (PDict (AList.update k v m)) | _ \<Rightarrow> Inl TypeError)"

text \<open>\<open>d.get(k, v)\<close>.\<close>

definition py_get_default :: "pyval \<Rightarrow> string \<Rightarrow> pyval \<Rightarrow> exn + pyval" where
  "py_get_default d k v = (case d of
      PDict m \<Rightarrow> Inr (case dict_get m k of None \<Rightarrow> v | Some x \<Rightarrow> x) | _ \<Rightarrow> Inl AttributeError)"

text \<open>\<open>a or b\<close>.\<close>

definition py_or :: "pyval \<Rightarrow> pyval \<Rightarrow> pyval" where
  "py_or a b = (if truthy a then a else b)"

text \<open>\<open>int(v)\<close>.\<close>

definition py_int :: "pyval \<Rightarrow> exn + int" where
  "py_int v = (case v of
      PInt i \<Rightarrow> Inr i | PBool b \<Rightarrow> Inr (if b then 1 else 0) | PStr s \<Rightarrow> int_of_str s | _ \<Rightarrow> Inl TypeError)"

text \<open>\<open>v in {...}\<close> for a set of texts: lists and dictionaries cannot be hashed.\<close>

definition py_in :: "pyval \<Rightarrow> string set \<Rightarrow> exn + bool" where
  "py_in v names = (case v of
      PStr s \<Rightarrow> Inr (s \<in> names) | PList xs \<Rightarrow> Inl TypeError | PDict d \<Rightarrow> Inl TypeError | _ \<Rightarrow> Inr False)"

text \<open>\<open>for x in v\<close>.\<close>

definition py_iter :: "pyval \<Rightarrow> exn + pyval list" where
  "py_iter v = (case v of
      PList xs \<Rightarrow> Inr xs
    | PDict d \<Rightarrow> Inr (map (\<lambda>e. PStr (fst e)) d)
    | PStr s \<Rightarrow> Inr (map (\<lambda>c. PStr [c]) s)
    | _ \<Rightarrow> Inl TypeError)"

text \<open>\<open>k in d\<close> for a text \<open>k\<close>: a key, an element or a part of a text.\<close>

definition py_has :: "pyval \<Rightarrow> string \<Rightarrow> exn + bool" where
  "py_has d k = (case d of
      PDict m \<Rightarrow> Inr (map_of m k \<noteq> None)
    | PList xs \<Rightarrow> Inr (PStr k \<in> set xs)
    | PStr s \<Rightarrow> Inr (list_ex (\<lambda>i. str_startswith (drop i s) k) [0..<Suc (length s)])
    | _ \<Rightarrow> Inl TypeError)"

definition py_path :: "pyval \<Rightarrow> string list \<Rightarrow> exn + pyval" where
  "py_path v ks = fold (\<lambda>k r. bind_result r (\<lambda>d. py_index d k)) ks (Inr v)"

lemma py_path_simps [simp]:
  "py_path v [] = Inr v" "py_path v [k] = py_index v k"
  "py_path v [k, k'] = bind_result (py_index v k) (\<lambda>d. py_index d k')"
  by (simp_all add: py_path_def)

text \<open>\<open>base64.urlsafe_b64decode(s)\<close> of a text, \<open>.decode("utf-8")\<close> and \<open>json.loads\<close>.\<close>

definition decode_submission :: "pyval \<Rightarrow> exn + pyval" where
  "decode_submission encoded_json_tasks =
     bind_result (py_text encoded_json_tasks) (\<lambda>s.
     bind_result (if list_all (\<lambda>c. (of_char c :: nat) < 128) s then urlsafe_b64decode s else Inl ValueError)
       (\<lambda>b. bind_result (utf8_decode b) json_loads))"

text \<open>
  The content of a request that came through the load balancer; the other way to call these lambdas
  is not implemented and ends in \<open>assert False\<close>.
\<close>

definition query_content :: "pyval \<Rightarrow> exn + pyval" where
  "query_content event =
     bind_result (py_get event ''queryStringParameters'') (\<lambda>all_params.
       if all_params \<noteq> PNone then
         bind_result (py_get all_params ''submission_content'') (\<lambda>encoded_json_tasks.
           if encoded_json_tasks = PNone
           then Inl (GenericException ''Invalid submission format, expect submission_content parameter'')
           else decode_submission encoded_json_tasks)
       else Inl AssertionError)"

text \<open>A request as the load balancer delivers it.\<close>

definition query_event :: "pyval \<Rightarrow> pyval" where
  "query_event v = PDict [(''queryStringParameters'',
     PDict [(''submission_content'', PStr (urlsafe_b64encode (utf8_encode (json_dumps v))))])]"

text \<open>\<open>row["task_id"]\<close>, and the same where the code needs a text.\<close>

definition row_get :: "item \<Rightarrow> string \<Rightarrow> exn + pyval" where
  "row_get row k = (case row k of None \<Rightarrow> Inl KeyError | Some v \<Rightarrow> Inr v)"

definition row_text :: "item \<Rightarrow> string \<Rightarrow> exn + string" where
  "row_text row k = bind_result (row_get row k) (\<lambda>v. case v of PStr s \<Rightarrow> Inr s | _ \<Rightarrow> Inl AttributeError)"

text \<open>\<open>get_tasks_by_state\<close> encodes the session id, which must be a text.\<close>

definition session_text :: "pyval \<Rightarrow> exn + string" where
  "session_text v = (case v of PStr s \<Rightarrow> Inr s | _ \<Rightarrow> Inl AttributeError)"

text \<open>\<open>[f(x) for x in xs]\<close> where \<open>f\<close> may raise.\<close>

fun map_result :: "('a \<Rightarrow> exn + 'b) \<Rightarrow> 'a list \<Rightarrow> exn + 'b list" where
  "map_result f [] = Inr []"
| "map_result f (x # xs) = bind_result (f x) (\<lambda>y. bind_result (map_result f xs) (\<lambda>ys. Inr (y # ys)))"

lemma map_result_Inr: "map_result f xs = Inr ys \<longleftrightarrow> list_all2 (\<lambda>x y. f x = Inr y) xs ys"
  by (induction xs arbitrary: ys) (auto simp: bind_result_Inr list_all2_Cons1)

lemma urlsafe_encode_ascii: "c \<in> set (urlsafe_b64encode bs) \<Longrightarrow> (of_char c :: nat) < 128"
proof -
  have b64: "(of_char (b64_char n) :: nat) < 128" if "n < 64" for n
    using that by (auto simp: b64_char_def of_char_of)
  have "list_all (\<lambda>c. (of_char c :: nat) < 128) (b64encode bs)"
  proof (induction bs rule: b64encode.induct)
    case 1
    show ?case by simp
  next
    case (2 a)
    note s = b64_sextets [OF byte_bound [of a] byte_bound [of a] byte_bound [of a]]
    show ?case using s(1,2) [THEN b64] by (simp add: Let_def)
  next
    case (3 a b)
    note s = b64_sextets [OF byte_bound [of a] byte_bound [of b] byte_bound [of b]]
    show ?case using s(1,3,4) [THEN b64] by (simp add: Let_def)
  next
    case (4 a b c bs)
    note s = b64_sextets [OF byte_bound [of a] byte_bound [of b] byte_bound [of c]]
    show ?case using s(1,3,5,6) [THEN b64] "4.IH" by (simp add: Let_def)
  qed
  then show "c \<in> set (urlsafe_b64encode bs) \<Longrightarrow> (of_char c :: nat) < 128"
    by (auto simp: urlsafe_b64encode_def urlsafe_encode_char_def list_all_iff)
qed

text \<open>What the connector encodes, the lambdas decode.\<close>

lemma decode_submission_encode [simp]:
  "json_wf v \<Longrightarrow> decode_submission (PStr (urlsafe_b64encode (utf8_encode (json_dumps v)))) = Inr v"
  using urlsafe_encode_ascii [of _ "utf8_encode (json_dumps v)"]
  by (simp add: decode_submission_def py_text_def list_all_iff)

lemma query_content_event [simp]: "json_wf v \<Longrightarrow> query_content (query_event v) = Inr v"
  by (simp add: query_content_def query_event_def dict_get_def)

section \<open>State of a lambda\<close>

lemma on_grid_Some:
  "on_grid m s = Some (r, t) \<longleftrightarrow> (\<exists>w. m (grid s) = Some (r, w) \<and> t = s\<lparr>grid := w\<rparr>)"
  by (auto simp: on_grid_def io_zoom_apply split: option.splits)

lemma on_grid_returns: "returns m \<Longrightarrow> returns (on_grid m)"
  unfolding on_grid_def by (rule returns_zoom)

lemma keeps_on_grid: "keeps v m \<Longrightarrow> keeps (v \<circ> grid) (on_grid m)"
  by (auto simp: keeps_def on_grid_Some)

lemma keeps_count_event: "keeps (v \<circ> grid) (count_event name n)"
  unfolding count_event_def by (intro keeps_bind keeps_get) (auto split: sum.splits intro: keeps_modify)

lemma keeps_set_event: "keeps (v \<circ> grid) (set_event name x)"
  unfolding set_event_def by (auto intro: keeps_modify)

lemma count_event_grid: "count_event name n s = Some (r, s') \<Longrightarrow> grid s' = grid s \<and> perf s' = perf s"
  by (auto simp: count_event_def io_bind_Some split: sum.splits)

lemma count_event_returns [simp]: "returns (count_event name n)"
proof -
  have "returns (case r of Inl e \<Rightarrow> io_raise e | Inr c \<Rightarrow> io_modify (\<lambda>s. s\<lparr>events := c\<rparr>))"
    for r :: "exn + events_counter" by (cases r) (simp_all del: io_raise_apply io_modify_apply)
  then show ?thesis unfolding count_event_def by (intro returns_bind returns_get)
qed

lemma add_metric_sample_returns [simp]: "returns (add_metric_sample mt stats f t)"
proof -
  have c: "returns (case buffered_storage_connector tr of None \<Rightarrow> io_return ()
     | Some c \<Rightarrow> io_bind (io_of (add_sample data c)) (\<lambda>c'. io_modify (f c')))"
    for tr data and f :: "connector \<Rightarrow> 'b metered \<Rightarrow> 'b metered"
    by (cases "buffered_storage_connector tr") (auto simp del: io_return_apply intro!: returns_bind)
  show ?thesis unfolding add_metric_sample_def
    by (intro returns_bind returns_get)
      (auto simp del: io_raise_apply split: tracker_object.splits intro!: returns_bind returns_then on_grid_returns c)
qed

lemma flush_returns [simp]: "returns (flush mt c)"
  by (cases c) (auto intro!: returns_then)

lemma submit_measurements_returns [simp]: "returns (submit_measurements mt host)"
  unfolding submit_measurements_def
  by (intro returns_bind returns_get)
    (auto simp del: io_raise_apply io_return_apply split: tracker_object.splits option.splits
      intro!: returns_bind returns_then on_grid_returns)

definition metrics_keeps :: "'w metrics \<Rightarrow> ('w \<Rightarrow> 'v) \<Rightarrow> bool" where
  "metrics_keeps mt v \<longleftrightarrow> keeps v (io_read (now_iso mt)) \<and>
     (\<forall>s b. keeps v (io_call (put_record_batch mt s b))) \<and> (\<forall>s b. keeps v (io_call (write_points mt s b)))"

lemma flush_keeps: "metrics_keeps mt v \<Longrightarrow> keeps v (flush mt c)"
  by (cases c) (auto simp: metrics_keeps_def intro!: keeps_then)

lemma add_metric_sample_keeps:
  assumes "metrics_keeps mt v"
  shows "keeps (v \<circ> grid) (add_metric_sample mt stats f t)"
proof -
  have iso: "keeps v (io_read (now_iso mt))" using assms by (simp add: metrics_keeps_def)
  show ?thesis
    unfolding add_metric_sample_def
    by (intro keeps_bind keeps_get)
      (auto split: tracker_object.splits option.splits
        intro!: keeps_bind keeps_then keeps_on_grid [OF iso] keeps_modify)
qed

lemma submit_measurements_keeps:
  assumes "metrics_keeps mt v" and "host_keeps host v"
  shows "keeps (v \<circ> grid) (submit_measurements mt host)"
  unfolding submit_measurements_def
  by (intro keeps_bind keeps_get)
    (auto split: tracker_object.splits option.splits
      intro!: keeps_bind keeps_then keeps_on_grid [OF host_keeps_ops(1) [OF assms(2)]]
        keeps_on_grid [OF flush_keeps [OF assms(1)]] keeps_modify)

text \<open>Measurements that go nowhere, and the state in which no measurement is enabled.\<close>

definition mem_metrics :: "'w metrics" where
  "mem_metrics = \<lparr>now_iso = (\<lambda>w. (''2024'', w)), put_record_batch = (\<lambda>s b w. (Inr (), w)),
     influx_create = (\<lambda>h p d w. (Inr (), w)), write_points = (\<lambda>d b w. (Inr (), w))\<rparr>"

lemma mem_metrics_keeps: "metrics_keeps mem_metrics v"
  by (auto simp: metrics_keeps_def mem_metrics_def keeps_def io_read_apply)

end
