(* ===== verification/SubmitTasks.thy ===== *)
theory SubmitTasks
  imports StateTableProps DataPlaneProps Lambdas
begin

text \<open>
  The lambda \<open>source/control_plane/python/lambda/submit_tasks/submit_tasks.py\<close>: it decodes a
  submission, writes one pending row per task into the state table, sends one message per task to
  the task queue in batches of ten, records measurements and answers with the task ids.
  \<open>write_to_dynamodb\<close> and \<open>verify_passed_sessionid_is_unique\<close> are not called by it.
\<close>

record 'w submit_env =
  sub_db :: "'w ddb"
  sub_host :: "'w host"
  sub_sqs :: "'w sqs"
  sub_storage :: "'w storage"
  sub_metrics :: "'w metrics"
  sub_uuid1 :: "'w \<Rightarrow> (string \<times> bool) \<times> 'w" \<comment> \<open>the text, and whether it is safe\<close>
  sub_queue :: task_queue
  sub_stdin_iom :: in_out
  sub_external_storage :: string

definition write_to_sqs :: "'w submit_env \<Rightarrow> sqs_entry list \<Rightarrow> pyval \<Rightarrow> ('w, pyval) io" where
  "write_to_sqs env sqs_batch_entries session_priority =
     io_bind (send_messages (sub_sqs env) (sub_queue env) sqs_batch_entries (Some session_priority))
       (\<lambda>response. io_bind (io_of (py_get response ''Failed'')) (\<lambda>failed.
          if failed \<noteq> PNone then io_raise (GenericException ''Batch write to SQS failed - check DLQ'')
          else io_return response))"

definition get_safe_session_id :: "'w submit_env \<Rightarrow> ('w, string) io" where
  "get_safe_session_id env =
     io_bind (io_read (sub_uuid1 env)) (\<lambda>(session_id, safe).
       if safe then io_return session_id
       else io_bind (io_read (sub_uuid1 env)) (\<lambda>(session_id, safe).
         if safe then io_return session_id
         else io_raise (GenericException ''Cannot produce a safe unique ID'')))"

text \<open>\<open>stats[k]["tstmp"] = t\<close>.\<close>

definition set_tstmp :: "pyval \<Rightarrow> string \<Rightarrow> int \<Rightarrow> exn + pyval" where
  "set_tstmp stats k t =
     bind_result (py_index stats k) (\<lambda>e. bind_result (py_set e ''tstmp'' (PInt t)) (py_set stats k))"

definition task_json :: "pyval \<Rightarrow> pyval \<Rightarrow> pyval \<Rightarrow> int \<Rightarrow> string \<Rightarrow> pyval \<Rightarrow> (string \<times> pyval) list" where
  "task_json session_id task_id parent_session_id submitted_ms task_status session_priority =
     [(''session_id'', session_id), (''task_id'', task_id), (''parent_session_id'', parent_session_id),
      (''submission_timestamp'', PInt submitted_ms), (''task_completion_timestamp'', PInt 0),
      (''task_status'', PStr task_status), (''task_owner'', PStr ''None''), (''retries'', PInt 0),
      (''task_definition'', PStr ''none''), (''sqs_handler_id'', PStr ''None''),
      (''heartbeat_expiration_timestamp'', PInt 0), (''task_priority'', session_priority)]"

text \<open>\<open>session_id.encode()\<close> needs a text.\<close>

definition pending_status :: "'w submit_env \<Rightarrow> pyval \<Rightarrow> exn + string" where
  "pending_status env session_id = (case session_id of
      PStr s \<Rightarrow> Inr (make_task_state_from_session_id (md5_int (sub_db env)) TASK_STATE_PENDING s)
    | _ \<Rightarrow> Inl AttributeError)"

text \<open>
  The loop over the tasks.  All messages share the one \<open>stats\<close> dictionary of the event, which the
  loop changes in place; each message is printed at once.
\<close>

fun build_entries ::
  "'w submit_env \<Rightarrow> pyval \<Rightarrow> pyval \<Rightarrow> pyval \<Rightarrow> int \<Rightarrow> pyval list \<Rightarrow> pyval
     \<Rightarrow> ('w, (string \<times> pyval) list list \<times> sqs_entry list \<times> pyval) io"
where
  "build_entries env session_id parent_session_id session_priority invocation_tstmp [] event =
     io_return ([], [], event)"
| "build_entries env session_id parent_session_id session_priority invocation_tstmp (task_id # tasks) event =
     io_bind (time_now_ms (sub_host env)) (\<lambda>now.
     io_bind (io_of (pending_status env session_id)) (\<lambda>status.
     (let row = task_json session_id task_id parent_session_id now status session_priority in
      io_bind (io_of (bind_result (py_index event ''stats'') (\<lambda>stats.
          set_tstmp stats ''stage2_sbmtlmba_01_invocation_tstmp'' invocation_tstmp))) (\<lambda>stats1.
      io_bind (time_now_ms (sub_host env)) (\<lambda>before_write.
      io_bind (io_of (set_tstmp stats1 ''stage2_sbmtlmba_02_before_batch_write_tstmp'' before_write)) (\<lambda>stats2.
      io_bind (io_of (py_set event ''stats'' stats2)) (\<lambda>event'.
      io_bind (build_entries env session_id parent_session_id session_priority invocation_tstmp tasks event')
        (\<lambda>(rows, entries, event'').
          io_return (row # rows,
            \<lparr>entry_id = task_id, entry_body = json_dumps (PDict (row @ [(''stats'', stats2)]))\<rparr> # entries,
            event'')))))))))"

definition SQS_MAX_BATCH_SIZE :: nat where "SQS_MAX_BATCH_SIZE = 10"

definition submit_counters :: "string list" where
  "submit_counters = [''count_submitted_tasks'', ''count_ddb_batch_backoffs'', ''count_ddb_batch_write_max'',
     ''count_ddb_batch_write_min'', ''count_ddb_batch_write_avg'']"

text \<open>\<open>session_priority\<close>: \<open>event["context"]["tasks_priority"]\<close> if the event has a context.\<close>

definition submission_priority :: "pyval \<Rightarrow> exn + pyval" where
  "submission_priority event =
     bind_result (py_has event ''context'') (\<lambda>has.
       if has then py_path event [''context'', ''tasks_priority''] else Inr (PInt 0))"

text \<open>Statistics after the tasks were sent; there is no last task in an empty submission.\<close>

definition submit_book_keeping :: "'w submit_env \<Rightarrow> nat \<Rightarrow> pyval \<Rightarrow> ('w metered, unit) io" where
  "submit_book_keeping env n event =
     io_then (io_modify (\<lambda>s. s\<lparr>events := EventsCounter submit_counters\<rparr>))
     (io_then (count_event ''count_submitted_tasks'' (int n))
     (io_bind (on_grid (time_now_ms (sub_host env))) (\<lambda>now.
      io_bind (io_of (if n = 0 then Inl TypeError else py_index event ''stats'')) (\<lambda>stats.
      io_bind (io_of (py_set stats ''stage2_sbmtlmba_03_invocation_over_tstmp''
        (PDict [(''label'', PStr ''dynamo_db_submit_ms''), (''tstmp'', PInt now)]))) (\<lambda>stats'.
      io_then (count_event ''count_ddb_batch_backoffs'' 0)
      (case stats' of
         PDict d \<Rightarrow>
           io_then (add_metric_sample (sub_metrics env) d ''stage1_grid_api_01_task_creation_tstmp''
              ''stage2_sbmtlmba_03_invocation_over_tstmp'')
             (submit_measurements (sub_metrics env) (sub_host env))
       | _ \<Rightarrow> io_raise AttributeError))))))"

text \<open>Rows first, then messages, then statistics, then the answer.\<close>

definition send_in_batches :: "'w submit_env \<Rightarrow> pyval \<Rightarrow> sqs_entry list list \<Rightarrow> ('w, unit) io" where
  "send_in_batches env session_priority sqs_batch_chunks = io_foreach sqs_batch_chunks (\<lambda>chunk.
     io_bind (write_to_sqs env chunk session_priority) (\<lambda>r. io_return ()))"

definition submit_entries ::
  "'w submit_env \<Rightarrow> pyval \<Rightarrow> pyval \<Rightarrow> (string \<times> pyval) list list \<Rightarrow> sqs_entry list \<Rightarrow> pyval
     \<Rightarrow> ('w metered, lambda_response) io"
where
  "submit_entries env session_id session_priority state_table_entries sqs_batch_entries event =
     io_then (on_grid (batch_write (sub_db env) (map map_of state_table_entries)))
     (io_then (on_grid (send_in_batches env session_priority (chunks SQS_MAX_BATCH_SIZE sqs_batch_entries)))
     (io_then (submit_book_keeping env (length sqs_batch_entries) event)
       (io_return \<lparr>statusCode = 200, body = json_dumps (PDict [(''session_id'', session_id),
          (''task_ids'', PList (map entry_id sqs_batch_entries))])\<rparr>)))"

text \<open>What the lambda does before it writes anything: the session, its priority, rows and messages.\<close>

definition prepare_submission ::
  "'w submit_env \<Rightarrow> pyval
     \<Rightarrow> ('w metered, pyval \<times> pyval \<times> (string \<times> pyval) list list \<times> sqs_entry list \<times> pyval) io"
where
  "prepare_submission env event =
     io_bind (on_grid (time_now_ms (sub_host env))) (\<lambda>invocation_tstmp.
     io_bind (io_of (py_index event ''session_id'')) (\<lambda>passed.
     io_bind (if passed = PStr ''None''
              then io_bind (on_grid (get_safe_session_id env)) (\<lambda>s. io_return (PStr s))
              else io_return passed) (\<lambda>session_id.
     io_bind (io_of (submission_priority event)) (\<lambda>session_priority.
     io_bind (io_of (bind_result (py_path event [''tasks_list'', ''tasks'']) py_iter)) (\<lambda>tasks_list.
     io_bind (on_grid (build_entries env session_id passed session_priority invocation_tstmp tasks_list event))
       (\<lambda>(state_table_entries, sqs_batch_entries, event').
          io_return (session_id, session_priority, state_table_entries, sqs_batch_entries, event')))))))"

definition submit_body :: "'w submit_env \<Rightarrow> pyval \<Rightarrow> ('w metered, lambda_response) io" where
  "submit_body env event =
     io_bind (prepare_submission env event)
       (\<lambda>(session_id, session_priority, state_table_entries, sqs_batch_entries, event').
          submit_entries env session_id session_priority state_table_entries sqs_batch_entries event')"

text \<open>What the lambda submits: decoded outside of its \<open>try\<close>.\<close>

definition submitted_event :: "'w submit_env \<Rightarrow> pyval \<Rightarrow> ('w metered, pyval) io" where
  "submitted_event env event =
     io_bind (io_of (py_get event ''queryStringParameters'')) (\<lambda>all_params.
       if all_params \<noteq> PNone then
         io_bind (io_of (py_get all_params ''submission_content'')) (\<lambda>content.
         io_bind (if sub_external_storage env = ''1''
                  then io_bind (on_grid (get_payload_to_utf8_string (sub_storage env) (sub_stdin_iom env)
                    (py_str content))) (\<lambda>s. io_return (PStr s))
                  else io_return content) (\<lambda>encoded_json_tasks.
           if encoded_json_tasks = PNone
           then io_raise (GenericException ''Invalid submission format, expect submission_content parameter'')
           else io_of (decode_submission encoded_json_tasks)))
       else io_of (bind_result (py_index event ''body'') decode_submission))"

text \<open>The answer to a \<open>ClientError\<close> is its message, to any other exception its text.\<close>

definition submit_failure :: "exn \<Rightarrow> lambda_response" where
  "submit_failure e = \<lparr>statusCode = 543, body = (case e of ClientError code msg \<Rightarrow> msg | _ \<Rightarrow> exn_str e)\<rparr>"

definition submit_tasks_handler :: "'w submit_env \<Rightarrow> pyval \<Rightarrow> ('w metered, lambda_response) io" where
  "submit_tasks_handler env event =
     io_bind (submitted_event env event) (\<lambda>submission.
       io_catch (submit_body env submission) (\<lambda>e. io_return (submit_failure e)))"

end
