(* ===== verification/SubmitProps.thy ===== *)
theory SubmitProps
  imports SubmitTasks
begin

text \<open>
  What the submission lambda does to the state table and to the task queue, on every path: the
  rows it adds, the order of rows and messages, and its answer.
\<close>

section \<open>The services do not share state\<close>

definition submit_frame :: "'w submit_env \<Rightarrow> ('w \<Rightarrow> 'v) \<Rightarrow> bool" where
  "submit_frame env v \<longleftrightarrow> host_keeps (sub_host env) v \<and> metrics_keeps (sub_metrics env) v \<and>
     keeps v (io_read (sub_uuid1 env)) \<and> storage_keeps (sub_storage env) v"

definition submit_documented :: "'w submit_env \<Rightarrow> ('w \<Rightarrow> table) \<Rightarrow> 'w queue_view \<Rightarrow> bool" where
  "submit_documented env tbl qv \<longleftrightarrow>
     ddb_documented (sub_db env) tbl \<and> sqs_documented (sub_sqs env) qv \<and>
     submit_frame env tbl \<and> submit_frame env (stored qv) \<and>
     sqs_keeps (sub_sqs env) tbl \<and> ddb_keeps (sub_db env) (stored qv)"

lemma get_safe_session_id_keeps: "submit_frame env v \<Longrightarrow> keeps v (get_safe_session_id env)"
  unfolding get_safe_session_id_def submit_frame_def
  by (intro keeps_bind) (auto split: prod.splits intro!: keeps_bind)

lemma submitted_event_keeps:
  assumes "submit_frame env v"
  shows "keeps (v \<circ> grid) (submitted_event env event)"
proof -
  have st: "storage_keeps (sub_storage env) v" using assms by (simp add: submit_frame_def)
  show ?thesis unfolding submitted_event_def get_payload_to_utf8_string_def
    by (intro keeps_bind keeps_of)
      (auto intro!: keeps_bind keeps_on_grid [OF get_to_utf8_string_keeps [OF st]])
qed

lemma build_entries_keeps:
  "submit_frame env v \<Longrightarrow> keeps v (build_entries env sid psid prio invoked tasks event)"
proof (induction tasks arbitrary: event)
  case Nil
  show ?case unfolding build_entries.simps by (rule keeps_return)
next
  case (Cons t ts)
  have c: "keeps v (time_now_ms (sub_host env))"
    using Cons.prems by (simp add: submit_frame_def host_keeps_ops(1))
  show ?case unfolding build_entries.simps Let_def
    by (intro keeps_bind c keeps_of Cons.IH Cons.prems) (auto split: prod.splits)
qed

lemma submit_book_keeping_keeps:
  assumes "submit_frame env v"
  shows "keeps (v \<circ> grid) (submit_book_keeping env n event)"
proof -
  have c: "keeps (v \<circ> grid) (on_grid (time_now_ms (sub_host env)))"
    using assms by (intro keeps_on_grid) (simp add: submit_frame_def host_keeps_ops(1))
  have m: "metrics_keeps (sub_metrics env) v" "host_keeps (sub_host env) v"
    using assms by (simp_all add: submit_frame_def)
  show ?thesis unfolding submit_book_keeping_def
    by (intro keeps_then keeps_bind keeps_of keeps_count_event c)
      (auto intro!: keeps_modify keeps_bind keeps_then keeps_count_event add_metric_sample_keeps [OF m(1)]
        submit_measurements_keeps [OF m] split: pyval.splits)
qed

section \<open>The entries\<close>

definition submitted_task ::
  "'w submit_env \<Rightarrow> pyval \<Rightarrow> pyval \<Rightarrow> pyval \<Rightarrow> pyval \<Rightarrow> (string \<times> pyval) list \<times> sqs_entry \<Rightarrow> bool" where
  "submitted_task env sid psid prio t p \<longleftrightarrow> (\<exists>now status stats. pending_status env sid = Inr status \<and>
     fst p = task_json sid t psid now status prio \<and>
     snd p = \<lparr>entry_id = t, entry_body = json_dumps (PDict (fst p @ [(''stats'', stats)]))\<rparr>)"

lemma build_entries_Inr:
  "build_entries env sid psid prio invoked tasks event w = Some (Inr (rows, entries, event'), w') \<Longrightarrow>
     \<exists>ps. rows = map fst ps \<and> entries = map snd ps \<and> list_all2 (submitted_task env sid psid prio) tasks ps"
proof (induction tasks arbitrary: event w rows entries)
  case Nil
  then show ?case by simp
next
  case (Cons t ts)
  from Cons.prems obtain now status stats w1 ev1 rows1 entries1 where
    st: "pending_status env sid = Inr status"
    and rest: "build_entries env sid psid prio invoked ts ev1 w1 = Some (Inr (rows1, entries1, event'), w')"
    and rows: "rows = task_json sid t psid now status prio # rows1"
    and entries: "entries = \<lparr>entry_id = t, entry_body = json_dumps (PDict
       (task_json sid t psid now status prio @ [(''stats'', stats)]))\<rparr> # entries1"
    by (auto simp: io_bind_Inr Let_def)
  from Cons.IH [OF rest] obtain ps where ps: "rows1 = map fst ps" "entries1 = map snd ps"
    "list_all2 (submitted_task env sid psid prio) ts ps" by blast
  define p where "p = (task_json sid t psid now status prio, hd entries)"
  have "submitted_task env sid psid prio t p" using st by (auto simp: submitted_task_def p_def entries)
  with ps rows entries have "rows = map fst (p # ps) \<and> entries = map snd (p # ps) \<and>
      list_all2 (submitted_task env sid psid prio) (t # ts) (p # ps)" by (simp add: p_def)
  then show ?case by blast
qed

section \<open>Sending\<close>

text \<open>
  One request to the SQS queue \<open>q\<close> after the other, each answered without failed entries: the worlds before and after.
\<close>

primrec sqs_sends :: "'w sqs \<Rightarrow> string \<Rightarrow> sqs_entry list list \<Rightarrow> 'w \<Rightarrow> 'w \<Rightarrow> bool" where
  "sqs_sends sqs q [] w w' \<longleftrightarrow> w' = w"
| "sqs_sends sqs q (es # ess) w w' \<longleftrightarrow>
     (\<exists>resp u. sqs_send sqs q es w = (Inr resp, u) \<and> all_sent resp \<and> sqs_sends sqs q ess u w')"

lemma sqs_sends_stored:
  "sqs_documented sqs qv \<Longrightarrow> sqs_sends sqs q ess w w' \<Longrightarrow>
     stored qv w' = (stored qv w)(q := stored qv w q + mset (map entry_body (concat ess)))"
proof (induction ess arbitrary: w)
  case (Cons es ess)
  then obtain resp u where u: "sqs_send sqs q es w = (Inr resp, u)" "all_sent resp" "sqs_sends sqs q ess u w'" by auto
  from Cons.IH [OF Cons.prems(1) u(3)] sqs_sent [OF Cons.prems(1) u(1,2)] show ?case by (auto simp: ac_simps)
qed simp

lemma write_to_sqs_Inr:
  assumes "write_to_sqs env es prio w = Some (Inr r, w')"
  shows "\<exists>q resp. queue_for_priority (sub_queue env) (Some prio) = Some q \<and>
     sqs_send (sub_sqs env) q es w = (Inr resp, w') \<and> all_sent resp"
  using assms by (auto simp: write_to_sqs_def io_bind_Inr all_sent_def send_messages_Inr split: if_splits)

lemma write_to_sqs_keeps: "sqs_keeps (sub_sqs env) v \<Longrightarrow> keeps v (write_to_sqs env es prio)"
  unfolding write_to_sqs_def by (intro keeps_bind send_messages_keeps) auto

lemma send_in_batches_keeps: "sqs_keeps (sub_sqs env) v \<Longrightarrow> keeps v (send_in_batches env prio ess)"
  unfolding send_in_batches_def by (intro keeps_foreach keeps_bind write_to_sqs_keeps keeps_return)

lemma send_in_batches_Inr:
  assumes "send_in_batches env prio ess w = Some (Inr (), w')" and "ess \<noteq> []"
  shows "\<exists>q. queue_for_priority (sub_queue env) (Some prio) = Some q \<and> sqs_sends (sub_sqs env) q ess w w'"
  using assms
proof (induction ess arbitrary: w)
  case (Cons es ess)
  from Cons.prems(1) obtain r w1 where w1: "write_to_sqs env es prio w = Some (Inr r, w1)"
    and rest: "send_in_batches env prio ess w1 = Some (Inr (), w')"
    by (auto simp: send_in_batches_def io_then_Inr io_bind_Inr)
  from write_to_sqs_Inr [OF w1] obtain q resp where
    q: "queue_for_priority (sub_queue env) (Some prio) = Some q" "sqs_send (sub_sqs env) q es w = (Inr resp, w1)"
      "all_sent resp" by blast
  show ?case
  proof (cases "ess = []")
    case True
    with rest q show ?thesis by (auto simp: send_in_batches_def)
  next
    case False
    from Cons.IH [OF rest False] q show ?thesis by auto
  qed
qed simp

section \<open>The whole handler\<close>

definition answer_names :: "lambda_response \<Rightarrow> pyval \<Rightarrow> pyval list \<Rightarrow> bool" where
  "answer_names r sid tasks \<longleftrightarrow> statusCode r = 200 \<and>
     body r = json_dumps (PDict [(''session_id'', sid), (''task_ids'', PList tasks)])"

text \<open>What the lambda reads out of the submission.\<close>

definition submission_parts :: "pyval \<Rightarrow> pyval \<Rightarrow> pyval \<Rightarrow> pyval \<Rightarrow> pyval list \<Rightarrow> bool" where
  "submission_parts submission sid psid prio tasks \<longleftrightarrow>
     py_index submission ''session_id'' = Inr psid \<and> (psid = PStr ''None'' \<or> sid = psid) \<and>
     submission_priority submission = Inr prio \<and>
     bind_result (py_path submission [''tasks_list'', ''tasks'']) py_iter = Inr tasks"

lemma prepare_submission_keeps:
  assumes fr: "submit_frame env v"
  shows "keeps (v \<circ> grid) (prepare_submission env submission)"
proof -
  have c: "keeps (v \<circ> grid) (on_grid (time_now_ms (sub_host env)))"
    using fr by (intro keeps_on_grid) (simp add: submit_frame_def host_keeps_ops(1))
  show ?thesis unfolding prepare_submission_def
    by (intro keeps_bind keeps_of c keeps_on_grid [OF build_entries_keeps [OF fr]])
      (auto intro!: keeps_bind keeps_on_grid get_safe_session_id_keeps fr split: prod.splits)
qed

lemma prepare_submission_Inr:
  assumes "prepare_submission env submission s = Some (Inr (sid, prio, rows, entries, event), s')"
  shows "\<exists>psid tasks ps. rows = map fst ps \<and> entries = map snd ps \<and> submission_parts submission sid psid prio tasks \<and>
     list_all2 (submitted_task env sid psid prio) tasks ps"
proof -
  from assms obtain invoked s1 psid s2 tasks s3 w where
      psid: "py_index submission ''session_id'' = Inr psid"
    and sid: "(if psid = PStr ''None'' then io_bind (on_grid (get_safe_session_id env)) (\<lambda>s. io_return (PStr s))
        else io_return psid) s1 = Some (Inr sid, s2)"
    and prio: "submission_priority submission = Inr prio"
    and tasks: "bind_result (py_path submission [''tasks_list'', ''tasks'']) py_iter = Inr tasks"
    and build: "build_entries env sid psid prio invoked tasks submission w = Some (Inr (rows, entries, event), s3)"
    unfolding prepare_submission_def by (elim io_bind_InrE) (auto simp: on_grid_Some split: prod.splits)
  have "psid = PStr ''None'' \<or> sid = psid" using sid by (cases "psid = PStr ''None''") simp_all
  with psid prio tasks have "submission_parts submission sid psid prio tasks" by (simp add: submission_parts_def)
  with build_entries_Inr [OF build] show ?thesis by blast
qed

text \<open>
  The lambda with a submission that it could decode: it stops while it prepares the entries, or when the state table
  refuses the rows, or it has written all rows and goes on to the messages.
\<close>

lemma submit_body_Some:
  assumes "submit_body env submission s = Some (r, s')"
  obtains (unprepared) e where "prepare_submission env submission s = Some (Inl e, s')" "r = Inl e"
    | (refused) sid psid prio tasks ps ev s2 e w where
        "prepare_submission env submission s = Some (Inr (sid, prio, map fst ps, map snd ps, ev), s2)"
        "submission_parts submission sid psid prio tasks" "list_all2 (submitted_task env sid psid prio) tasks ps"
        "batch_write (sub_db env) (map (map_of \<circ> fst) ps) (grid s2) = Some (Inl e, w)" "r = Inl e" "s' = s2\<lparr>grid := w\<rparr>"
    | (written) sid psid prio tasks ps ev s2 w where
        "prepare_submission env submission s = Some (Inr (sid, prio, map fst ps, map snd ps, ev), s2)"
        "submission_parts submission sid psid prio tasks" "list_all2 (submitted_task env sid psid prio) tasks ps"
        "batch_write (sub_db env) (map (map_of \<circ> fst) ps) (grid s2) = Some (Inr (), w)"
        "io_then (on_grid (send_in_batches env prio (chunks SQS_MAX_BATCH_SIZE (map snd ps))))
           (io_then (submit_book_keeping env (length ps) ev)
             (io_return \<lparr>statusCode = 200, body = json_dumps (PDict [(''session_id'', sid),
                (''task_ids'', PList (map (entry_id \<circ> snd) ps))])\<rparr>)) (s2\<lparr>grid := w\<rparr>) = Some (r, s')"
proof -
  from assms consider (stop) e where "prepare_submission env submission s = Some (Inl e, s')" "r = Inl e"
    | (go) sid prio rows entries ev s2 where "prepare_submission env submission s = Some (Inr (sid, prio, rows, entries, ev), s2)"
        "submit_entries env sid prio rows entries ev s2 = Some (r, s')"
    by (auto simp: submit_body_def io_bind_Some)
  then show ?thesis
  proof cases
    case stop
    then show ?thesis by (rule unprepared)
  next
    case go
    from prepare_submission_Inr [OF go(1)] obtain psid tasks ps where ps: "rows = map fst ps" "entries = map snd ps"
      "submission_parts submission sid psid prio tasks" "list_all2 (submitted_task env sid psid prio) tasks ps" by blast
    from go(2) ps(1,2) consider e w where "batch_write (sub_db env) (map (map_of \<circ> fst) ps) (grid s2) = Some (Inl e, w)"
        "r = Inl e" "s' = s2\<lparr>grid := w\<rparr>"
      | w where "batch_write (sub_db env) (map (map_of \<circ> fst) ps) (grid s2) = Some (Inr (), w)"
        "io_then (on_grid (send_in_batches env prio (chunks SQS_MAX_BATCH_SIZE (map snd ps))))
           (io_then (submit_book_keeping env (length ps) ev)
             (io_return \<lparr>statusCode = 200, body = json_dumps (PDict [(''session_id'', sid),
                (''task_ids'', PList (map (entry_id \<circ> snd) ps))])\<rparr>)) (s2\<lparr>grid := w\<rparr>) = Some (r, s')"
      by (auto simp: submit_entries_def io_then_Some on_grid_Some comp_def)
    then show ?thesis
    proof cases
      case 1
      show ?thesis by (rule refused [OF go(1) [unfolded ps(1,2)] ps(3,4) 1])
    next
      case 2
      show ?thesis by (rule written [OF go(1) [unfolded ps(1,2)] ps(3,4) 2])
    qed
  qed
qed

text \<open>The services that the stages use keep the other service's state.\<close>

lemma submit_documentedD:
  assumes "submit_documented env tbl qv"
  shows "ddb_documented (sub_db env) tbl" "sqs_documented (sub_sqs env) qv" "submit_frame env tbl"
    "submit_frame env (stored qv)" "sqs_keeps (sub_sqs env) tbl" "ddb_keeps (sub_db env) (stored qv)"
  using assms by (simp_all add: submit_documented_def)

lemma batch_write_keeps: "ddb_keeps db v \<Longrightarrow> keeps v (batch_write db xs)"
  unfolding batch_write_def write_ddb_batch_def
  by (intro keeps_foreach keeps_catch) (auto simp: ddb_keeps_def split: exn.splits)

section \<open>The submission lambda on the services in memory\<close>

definition mem_submit_env :: "mem_cloud submit_env" where
  "mem_submit_env = \<lparr>sub_db = mem_ddb, sub_host = mem_host, sub_sqs = mem_sqs, sub_storage = mem_storage,
     sub_metrics = mem_metrics, sub_uuid1 = (\<lambda>w. ((''u'', True), w)), sub_queue = QueueSQS ''tasks'',
     sub_stdin_iom = InOutS3 \<lparr>s3_namespace = ''bucket'', s3_subnamespace = None, s3_kms_key_id = None\<rparr>,
     sub_external_storage = ''0''\<rparr>"

lemma mem_submit_env_simps [simp]:
  "sub_db mem_submit_env = mem_ddb" "sub_host mem_submit_env = mem_host" "sub_sqs mem_submit_env = mem_sqs"
  "sub_storage mem_submit_env = mem_storage" "sub_metrics mem_submit_env = mem_metrics"
  "sub_uuid1 mem_submit_env w = ((''u'', True), w)" "sub_queue mem_submit_env = QueueSQS ''tasks''"
  "sub_external_storage mem_submit_env = ''0''"
  by (simp_all add: mem_submit_env_def)

lemma mem_submit_frame:
  fixes v :: "mem_cloud \<Rightarrow> 'v"
  assumes "storage_keeps mem_storage v"
  shows "submit_frame mem_submit_env v"
  using assms by (simp add: submit_frame_def mem_metrics_keeps mem_host_keeps) (simp add: keeps_def io_read_apply)

lemma mem_storage_keeps:
  "storage_keeps mem_storage (mem_table :: mem_cloud \<Rightarrow> table)"
  "storage_keeps mem_storage (stored (mem_queue_view :: mem_cloud queue_view))"
  by (auto simp: storage_keeps_def keeps_def mem_table_def)

lemma mem_submit_documented: "submit_documented mem_submit_env mem_table mem_queue_view"
  unfolding submit_documented_def
  by (auto simp: mem_ddb_documented mem_sqs_documented intro!: mem_submit_frame mem_storage_keeps)
   (auto simp: sqs_keeps_def ddb_keeps_def keeps_def mem_table_def mem_update_def mem_query_def mem_batch_def Let_def
     split: if_splits list.splits option.splits)

definition one_task :: pyval where
  "one_task = PDict [(''session_id'', PStr ''s''), (''tasks_list'', PDict [(''tasks'', PList [PStr ''s_0''])]),
     (''stats'', PDict [
       (''stage1_grid_api_01_task_creation_tstmp'', PDict [(''label'', PStr ''a''), (''tstmp'', PInt 1)]),
       (''stage2_sbmtlmba_01_invocation_tstmp'', PDict [(''label'', PStr ''b''), (''tstmp'', PInt 0)]),
       (''stage2_sbmtlmba_02_before_batch_write_tstmp'', PDict [(''label'', PStr ''c''), (''tstmp'', PInt 0)])])]"

definition metered_cloud :: "mem_cloud metered" where
  "metered_cloud = \<lparr>grid = empty_cloud, perf = Tracker (PerformanceTracker None), events = EventsCounter []\<rparr>"

definition post_event :: "pyval \<Rightarrow> pyval" where
  "post_event v = PDict [(''body'', PStr (urlsafe_b64encode (utf8_encode (json_dumps v))))]"

lemma one_task_wf: "json_wf one_task"
  by code_simp

lemma decode_one_task: "submitted_event mem_submit_env (post_event one_task) s = Some (Inr one_task, s)"
  by (simp add: submitted_event_def post_event_def dict_get_def one_task_wf)

lemma submit_one_task_body:
  "case submit_body mem_submit_env one_task metered_cloud of
     Some (Inr r, s) \<Rightarrow> statusCode r = 200 | _ \<Rightarrow> False"
  by code_simp

lemma submit_one_task:
  "\<exists>r s. submit_tasks_handler mem_submit_env (post_event one_task) metered_cloud = Some (Inr r, s) \<and>
     statusCode r = 200"
  using submit_one_task_body
  by (auto simp: submit_tasks_handler_def io_bind_Inr io_catch_Some decode_one_task
      split: option.splits sum.splits)

section \<open>Properties\<close>

text \<open>C4. If the submission lambda answers 200, then it has written one row per task of the submission into
  the state table, in the pending state of the session's partition, without an owner and with no
  retries, before it sent any message; then it has sent every task's message (its row, with the statistics) to the queue
  of the submission's priority, in consecutive requests of ten messages, the last one of at most ten, which SQS
  answered without failed entries; so the messages are in that queue, and nothing
  else changed in any queue; and the answer names the session and the tasks.\<close>

theorem submission_accepted:
  assumes "submit_documented env tbl qv"
    and "submit_tasks_handler env event s = Some (Inr resp, s')" and "statusCode resp = 200"
  shows "\<exists>submission s1 sid psid prio tasks ps q batches w1 w2.
     submitted_event env event s = Some (Inr submission, s1) \<and>
     submission_parts submission sid psid prio tasks \<and>
     list_all2 (submitted_task env sid psid prio) tasks ps \<and>
     tbl w1 = put_items (tbl (grid s)) (map (map_of \<circ> fst) ps) \<and> stored qv w1 = stored qv (grid s) \<and>
     queue_for_priority (sub_queue env) (Some prio) = Some q \<and>
     sqs_sends (sub_sqs env) q batches w1 w2 \<and> concat batches = map snd ps \<and>
     (\<forall>es \<in> set (butlast batches). length es = 10) \<and> length (last batches) \<in> {1..10} \<and>
     tbl (grid s') = tbl w1 \<and>
     stored qv (grid s') =
       (stored qv (grid s))(q := stored qv (grid s) q + mset (map (entry_body \<circ> snd) ps)) \<and>
     body resp = json_dumps (PDict [(''session_id'', sid), (''task_ids'', PList tasks)])"
proof -
  note d = submit_documentedD [OF assms(1)]
  from assms(2,3) obtain submission s1 where sub: "submitted_event env event s = Some (Inr submission, s1)"
    and run: "submit_body env submission s1 = Some (Inr resp, s')"
    by (auto simp: submit_tasks_handler_def submit_failure_def io_bind_Inr io_catch_Some)
  from run obtain sid psid prio tasks ps ev s2 w1 w2 where
      prep: "prepare_submission env submission s1 = Some (Inr (sid, prio, map fst ps, map snd ps, ev), s2)"
    and parts: "submission_parts submission sid psid prio tasks" "list_all2 (submitted_task env sid psid prio) tasks ps"
    and rows: "batch_write (sub_db env) (map (map_of \<circ> fst) ps) (grid s2) = Some (Inr (), w1)"
    and send: "send_in_batches env prio (chunks SQS_MAX_BATCH_SIZE (map snd ps)) w1 = Some (Inr (), w2)"
    and book: "submit_book_keeping env (length ps) ev (s2\<lparr>grid := w2\<rparr>) = Some (Inr (), s')"
    and resp: "body resp = json_dumps (PDict [(''session_id'', sid), (''task_ids'', PList (map (entry_id \<circ> snd) ps))])"
    by (cases rule: submit_body_Some) (auto simp: io_then_Inr on_grid_Some)
  have before: "tbl (grid s2) = tbl (grid s)" "stored qv (grid s2) = stored qv (grid s)"
    using keepsD [OF submitted_event_keeps [OF d(3)] sub] keepsD [OF submitted_event_keeps [OF d(4)] sub]
      keepsD [OF prepare_submission_keeps [OF d(3)] prep] keepsD [OF prepare_submission_keeps [OF d(4)] prep] by simp_all
  have w1: "tbl w1 = put_items (tbl (grid s)) (map (map_of \<circ> fst) ps)" "stored qv w1 = stored qv (grid s)"
    using batch_write_outcome [OF d(1) rows] keepsD [OF batch_write_keeps [OF d(6)] rows] before by simp_all
  have ne: "ps \<noteq> []" using book by (auto simp: submit_book_keeping_def io_then_Inr io_bind_Inr)
  have "(0 :: nat) < SQS_MAX_BATCH_SIZE" by (simp add: SQS_MAX_BATCH_SIZE_def)
  note batches = concat_chunks [OF this, of "map snd ps"]
  from ne batches have "chunks SQS_MAX_BATCH_SIZE (map snd ps) \<noteq> []" by auto
  from send_in_batches_Inr [OF send this] obtain q where
    q: "queue_for_priority (sub_queue env) (Some prio) = Some q"
      "sqs_sends (sub_sqs env) q (chunks SQS_MAX_BATCH_SIZE (map snd ps)) w1 w2" by blast
  have sizes: "\<forall>es \<in> set (butlast (chunks SQS_MAX_BATCH_SIZE (map snd ps))). length es = 10"
    "length (last (chunks SQS_MAX_BATCH_SIZE (map snd ps))) \<in> {1..10}"
    using chunks_full [of _ 10 "map snd ps"] chunks_bounds [of _ 10 "map snd ps"] last_in_set
      \<open>chunks SQS_MAX_BATCH_SIZE (map snd ps) \<noteq> []\<close>
    by (auto simp: SQS_MAX_BATCH_SIZE_def Suc_le_eq)
  have ids: "map (entry_id \<circ> snd) ps = tasks"
    using parts(2) by (induction rule: list_all2_induct) (auto simp: submitted_task_def)
  have "tbl w2 = tbl w1" by (rule keepsD [OF send_in_batches_keeps [OF d(5)] send])
  then have "tbl (grid s') = tbl w1" "stored qv (grid s') = stored qv w2"
    using keepsD [OF submit_book_keeping_keeps [OF d(3)] book] keepsD [OF submit_book_keeping_keeps [OF d(4)] book] by simp_all
  moreover from this sqs_sends_stored [OF d(2) q(2)] w1(2)
  have "stored qv (grid s') = (stored qv (grid s))(q := stored qv (grid s) q + mset (map (entry_body \<circ> snd) ps))"
    by (simp add: batches)
  ultimately show ?thesis using sub parts w1 q batches sizes resp ids
    by (intro exI [of _ submission] exI [of _ s1] exI [of _ sid] exI [of _ psid] exI [of _ prio] exI [of _ tasks] exI [of _ ps]
        exI [of _ q] exI [of _ "chunks SQS_MAX_BATCH_SIZE (map snd ps)"] exI [of _ w1] exI [of _ w2]) simp
qed

theorem submission_accepted_witness:
  "\<exists>r s' ps q. submit_tasks_handler mem_submit_env (post_event one_task) metered_cloud = Some (Inr r, s') \<and>
     list_all2 (submitted_task mem_submit_env (PStr ''s'') (PStr ''s'') (PInt 0)) [PStr ''s_0''] ps \<and>
     mset (mem_msgs (grid s') q) = mset (map (entry_body \<circ> snd) ps)"
proof -
  obtain r s' where run: "submit_tasks_handler mem_submit_env (post_event one_task) metered_cloud = Some (Inr r, s')"
    "statusCode r = 200" using submit_one_task by blast
  from submission_accepted [OF mem_submit_documented run] obtain sid psid prio tasks ps q where
    parts: "submission_parts one_task sid psid prio tasks"
    and ps: "list_all2 (submitted_task mem_submit_env sid psid prio) tasks ps"
    and q: "stored mem_queue_view (grid s') = (stored mem_queue_view (grid metered_cloud))
      (q := stored mem_queue_view (grid metered_cloud) q + mset (map (entry_body \<circ> snd) ps))"
    by (auto simp: decode_one_task simp del: mem_queue_view_simps)
  have "tasks = [PStr ''s_0'']" "psid = PStr ''s''" "sid = PStr ''s''" "prio = PInt 0"
    using parts by (auto simp: submission_parts_def one_task_def dict_get_def py_iter_def submission_priority_def py_has_def)
  with run(1) ps fun_cong [OF q, of q] show ?thesis by (auto simp: metered_cloud_def empty_cloud_def)
qed



end
