(* ===== verification/CancelTasks.thy ===== *)
theory CancelTasks
  imports StateTableProps Lambdas
begin

text \<open>
  The lambda \<open>source/control_plane/python/lambda/cancel_tasks/cancel_tasks.py\<close>: it cancels every
  pending and every processing task of the sessions in a request, and what it does to the table.
\<close>

definition task_states_to_cancel :: "string list" where
  "task_states_to_cancel = [TASK_STATE_PENDING, TASK_STATE_PROCESSING]"

definition cancel_rows :: "'w ddb \<Rightarrow> item list \<Rightarrow> ('w, unit) io" where
  "cancel_rows db rows = io_foreach rows (\<lambda>row.
     io_bind (io_of (row_text row ''task_id'')) (\<lambda>task_id. update_task_status_to_cancelled db task_id))"

definition cancel_tasks_by_status :: "'w ddb \<Rightarrow> pyval \<Rightarrow> string \<Rightarrow> ('w, item list) io" where
  "cancel_tasks_by_status db session_id task_state =
     io_bind (io_of (session_text session_id)) (\<lambda>session_id.
     io_bind (get_tasks_by_state db session_id task_state) (\<lambda>items.
     io_then (cancel_rows db items) (io_return items)))"

fun cancel_states ::
  "'w ddb \<Rightarrow> pyval \<Rightarrow> string list \<Rightarrow> (string \<times> pyval) list \<Rightarrow> item list
     \<Rightarrow> ('w, (string \<times> pyval) list \<times> item list) io" where
  "cancel_states db session_id [] lambda_response all_cancelled_tasks =
     io_return (lambda_response, all_cancelled_tasks)"
| "cancel_states db session_id (state # states) lambda_response all_cancelled_tasks =
     io_bind (cancel_tasks_by_status db session_id state) (\<lambda>res.
       cancel_states db session_id states
         (AList.update (''cancelled_'' @ state) (PInt (int (length res))) lambda_response)
         (all_cancelled_tasks @ res))"

definition cancel_session :: "'w ddb \<Rightarrow> pyval \<Rightarrow> ('w, pyval) io" where
  "cancel_session db session_id =
     io_bind (cancel_states db session_id task_states_to_cancel [] []) (\<lambda>(lambda_response, all_cancelled_tasks).
       io_return (PDict (AList.update ''total_cancelled_tasks'' (PInt (int (length all_cancelled_tasks)))
         lambda_response)))"

definition session_ids_from_event :: "pyval \<Rightarrow> exn + pyval" where
  "session_ids_from_event event =
     bind_result (query_content event) (\<lambda>event. py_index event ''session_ids_to_cancel'')"

fun cancel_sessions :: "'w ddb \<Rightarrow> pyval list \<Rightarrow> (string \<times> pyval) list \<Rightarrow> ('w, (string \<times> pyval) list) io" where
  "cancel_sessions db [] lambda_response = io_return lambda_response"
| "cancel_sessions db (session2cancel # sessions) lambda_response =
     io_bind (cancel_session db session2cancel) (\<lambda>lambda_sub_response.
     io_bind (io_of (session_text session2cancel)) (\<lambda>key.
       cancel_sessions db sessions (AList.update key lambda_sub_response lambda_response)))"

definition cancel_failure :: "exn \<Rightarrow> lambda_response" where
  "cancel_failure e = \<lparr>statusCode = 542, body = exn_str e\<rparr>"

definition cancel_tasks_handler :: "'w ddb \<Rightarrow> pyval \<Rightarrow> ('w, lambda_response) io" where
  "cancel_tasks_handler db event = io_catch
     (io_bind (io_of (bind_result (session_ids_from_event event) py_iter)) (\<lambda>session_ids_to_cancel.
      io_bind (cancel_sessions db session_ids_to_cancel []) (\<lambda>lambda_response.
        io_return \<lparr>statusCode = 200, body = json_dumps (PDict lambda_response)\<rparr>)))
     (\<lambda>e. io_return (cancel_failure e))"

section \<open>Effect on the table\<close>

definition cancelled :: "string list \<Rightarrow> task_event list" where
  "cancelled ks = map (\<lambda>k. Finalize k TASK_STATE_CANCELLED) ks"

lemma cancelled_append [simp]: "cancelled (xs @ ys) = cancelled xs @ cancelled ys"
  by (simp add: cancelled_def)

lemma cancelled_run:
  assumes "task_run md5 t (cancelled ks) t'"
  shows "(k \<in> set ks \<longrightarrow> in_state md5 t' k TASK_STATE_CANCELLED \<and> owner_of t' k = Some (PStr ''None'')) \<and>
     (k \<notin> set ks \<longrightarrow> t' k = t k)"
  using assms
proof (induction ks arbitrary: t)
  case Nil
  then show ?case by (auto simp: cancelled_def elim: run_nilE)
next
  case (Cons a ks)
  from Cons.prems obtain t1 where s: "task_step md5 t (Finalize a TASK_STATE_CANCELLED) t1"
    and rest: "task_run md5 t1 (cancelled ks) t'" by (auto simp: cancelled_def elim: run_consE)
  from s have 1: "in_state md5 t1 a TASK_STATE_CANCELLED" "owner_of t1 a = Some (PStr ''None'')"
    "\<forall>k. k \<noteq> a \<longrightarrow> t1 k = t k" by (auto simp: task_step_simps row_defs)
  with Cons.IH [OF rest] show ?case
    by (cases "k \<in> set ks") (auto simp: in_state_def status_of_def owner_of_def)
qed

definition task_ids :: "item list \<Rightarrow> exn + string list" where
  "task_ids rows = map_result (\<lambda>row. row_text row ''task_id'') rows"

lemma task_ids_append:
  "task_ids xs = Inr ks \<Longrightarrow> task_ids ys = Inr ks' \<Longrightarrow> task_ids (xs @ ys) = Inr (ks @ ks')"
  by (simp add: task_ids_def map_result_Inr list_all2_appendI)

text \<open>\<open>t\<close> is \<open>t0\<close> after some cancellations.\<close>

definition after_cancels :: "(string \<Rightarrow> nat) \<Rightarrow> table \<Rightarrow> table \<Rightarrow> bool" where
  "after_cancels md5 t0 t \<longleftrightarrow> (\<exists>ks. task_run md5 t0 (cancelled ks) t)"

text \<open>
  \<open>cancels md5 tbl t0 m R\<close>: run on a table that is \<open>t0\<close> after some cancellations, what \<open>m\<close> does to the
  table is to cancel tasks, one after the other; if it returns a value, \<open>R\<close> relates the value to
  the tasks it has cancelled.
\<close>

definition cancels ::
  "(string \<Rightarrow> nat) \<Rightarrow> ('w \<Rightarrow> table) \<Rightarrow> table \<Rightarrow> ('w, 'a) io \<Rightarrow> ('a \<Rightarrow> string list \<Rightarrow> bool) \<Rightarrow> bool" where
  "cancels md5 tbl t0 m R \<longleftrightarrow> (\<forall>w r w'. after_cancels md5 t0 (tbl w) \<longrightarrow> m w = Some (r, w') \<longrightarrow>
     (\<exists>ks. task_run md5 (tbl w) (cancelled ks) (tbl w') \<and> (\<forall>a. r = Inr a \<longrightarrow> R a ks)))"

lemma run_none: "task_run md5 t (cancelled []) t"
  by (simp add: cancelled_def run_nil)

lemma after_cancels_refl [simp]: "after_cancels md5 t t"
  unfolding after_cancels_def using run_none by blast

lemma after_cancels_run:
  "after_cancels md5 t0 t \<Longrightarrow> task_run md5 t (cancelled ks) t' \<Longrightarrow> after_cancels md5 t0 t'"
  unfolding after_cancels_def by (metis cancelled_append task_run_append)

lemma cancelsD:
  "cancels md5 tbl t0 m R \<Longrightarrow> after_cancels md5 t0 (tbl w) \<Longrightarrow> m w = Some (r, w') \<Longrightarrow>
     \<exists>ks. task_run md5 (tbl w) (cancelled ks) (tbl w') \<and> (\<forall>a. r = Inr a \<longrightarrow> R a ks)"
  by (simp add: cancels_def)

lemma cancels_keeps:
  assumes "keeps tbl m" and "\<And>w a w'. after_cancels md5 t0 (tbl w) \<Longrightarrow> m w = Some (Inr a, w') \<Longrightarrow> R a []"
  shows "cancels md5 tbl t0 m R"
  unfolding cancels_def
proof (intro allI impI)
  fix w r w'
  assume a: "after_cancels md5 t0 (tbl w)" and run: "m w = Some (r, w')"
  have "tbl w' = tbl w" by (rule keepsD [OF assms(1) run])
  with run assms(2) [OF a] show "\<exists>ks. task_run md5 (tbl w) (cancelled ks) (tbl w') \<and> (\<forall>a. r = Inr a \<longrightarrow> R a ks)"
    by (intro exI [of _ "[]"]) (auto simp: run_none)
qed

lemma cancels_bind:
  assumes "cancels md5 tbl t0 m R" and "\<And>a ks. R a ks \<Longrightarrow> cancels md5 tbl t0 (f a) (\<lambda>b ks'. S b (ks @ ks'))"
  shows "cancels md5 tbl t0 (io_bind m f) S"
  unfolding cancels_def
proof (intro allI impI)
  fix w r w'
  assume a: "after_cancels md5 t0 (tbl w)" and "io_bind m f w = Some (r, w')"
  then consider (stop) e where "m w = Some (Inl e, w')" "r = Inl e"
    | (go) a w1 where "m w = Some (Inr a, w1)" "f a w1 = Some (r, w')" by (auto simp: io_bind_Some)
  then show "\<exists>ks. task_run md5 (tbl w) (cancelled ks) (tbl w') \<and> (\<forall>a. r = Inr a \<longrightarrow> S a ks)"
  proof cases
    case stop
    with cancelsD [OF assms(1) a stop(1)] show ?thesis by auto
  next
    case go
    from cancelsD [OF assms(1) a go(1)] obtain ks where
      ks: "task_run md5 (tbl w) (cancelled ks) (tbl w1)" "R a ks" by auto
    from cancelsD [OF assms(2) [OF ks(2)] after_cancels_run [OF a ks(1)] go(2)] obtain ks' where
      "task_run md5 (tbl w1) (cancelled ks') (tbl w')" "\<forall>b. r = Inr b \<longrightarrow> S b (ks @ ks')" by auto
    with ks(1) show ?thesis by (intro exI [of _ "ks @ ks'"]) (auto intro: task_run_append)
  qed
qed

lemma cancels_return: "R a [] \<Longrightarrow> cancels md5 tbl t0 (io_return a) R"
  by (rule cancels_keeps) auto

lemma cancels_of: "(\<And>a. r = Inr a \<Longrightarrow> R a []) \<Longrightarrow> cancels md5 tbl t0 (io_of r) R"
  by (rule cancels_keeps) auto

lemma cancels_weaken:
  assumes "cancels md5 tbl t0 m R" and "\<And>a ks. R a ks \<Longrightarrow> S a ks"
  shows "cancels md5 tbl t0 m S"
  unfolding cancels_def
proof (intro allI impI)
  fix w r w'
  assume "after_cancels md5 t0 (tbl w)" "m w = Some (r, w')"
  from cancelsD [OF assms(1) this] assms(2)
  show "\<exists>ks. task_run md5 (tbl w) (cancelled ks) (tbl w') \<and> (\<forall>a. r = Inr a \<longrightarrow> S a ks)" by auto
qed

lemma cancel_one:
  assumes "ddb_documented db tbl"
  shows "cancels (md5_int db) tbl t0 (update_task_status_to_cancelled db k) (\<lambda>u ks. ks = [k])"
  unfolding cancels_def
proof (intro allI impI)
  fix w r w'
  assume run: "update_task_status_to_cancelled db k w = Some (r, w')"
  note fin = finalize_refines [OF assms, of k TASK_STATE_CANCELLED, folded update_task_status_to_cancelled_def]
  show "\<exists>ks. task_run (md5_int db) (tbl w) (cancelled ks) (tbl w') \<and> (\<forall>a. r = Inr a \<longrightarrow> ks = [k])"
  proof (cases "task_step (md5_int db) (tbl w) (Finalize k TASK_STATE_CANCELLED) (tbl w')")
    case True
    then show ?thesis by (intro exI [of _ "[k]"]) (auto simp: cancelled_def intro: task_run.intros)
  next
    case False
    with refines_steps [OF fin run] refines_ok [OF fin, of w _ w'] run show ?thesis
      by (intro exI [of _ "[]"]) (cases r; auto simp: run_none)
  qed
qed

lemma cancel_rows_cancels:
  assumes "ddb_documented db tbl"
  shows "cancels (md5_int db) tbl t0 (cancel_rows db rows) (\<lambda>u ks. task_ids rows = Inr ks)"
proof (induction rows)
  case Nil
  show ?case by (simp add: cancel_rows_def task_ids_def cancels_return del: io_return_apply)
next
  case (Cons row rows)
  show ?case unfolding cancel_rows_def io_foreach.simps io_then_def
  proof (rule cancels_bind)
    show "cancels (md5_int db) tbl t0 (io_bind (io_of (row_text row ''task_id''))
        (update_task_status_to_cancelled db)) (\<lambda>u ks. \<exists>k. ks = [k] \<and> row_text row ''task_id'' = Inr k)"
      by (rule cancels_bind [OF cancels_of cancels_weaken [OF cancel_one [OF assms]]]) auto
    fix u ks
    assume "\<exists>k. ks = [k] \<and> row_text row ''task_id'' = Inr k"
    then show "cancels (md5_int db) tbl t0 (io_foreach rows (\<lambda>row. io_bind (io_of (row_text row ''task_id''))
        (update_task_status_to_cancelled db))) (\<lambda>b ks'. task_ids (row # rows) = Inr (ks @ ks'))"
      by (intro cancels_weaken [OF Cons.IH [unfolded cancel_rows_def]]) (auto simp: task_ids_def)
  qed
qed

section \<open>The handler\<close>

text \<open>The rows that the two queries of a session returned, and the answer for the session.\<close>

definition query_found :: "'w ddb \<Rightarrow> ('w \<Rightarrow> table) \<Rightarrow> table \<Rightarrow> string \<Rightarrow> string \<Rightarrow> item list \<Rightarrow> bool" where
  "query_found db tbl t0 s st items \<longleftrightarrow> (\<exists>w w'. after_cancels (md5_int db) t0 (tbl w) \<and>
     get_tasks_by_state db s st w = Some (Inr items, w'))"

definition found_rows ::
  "'w ddb \<Rightarrow> ('w \<Rightarrow> table) \<Rightarrow> table \<Rightarrow> pyval \<Rightarrow> string \<times> item list \<times> item list \<Rightarrow> bool" where
  "found_rows db tbl t0 v f \<longleftrightarrow> (case f of (s, ps, qs) \<Rightarrow> v = PStr s \<and>
     query_found db tbl t0 s TASK_STATE_PENDING ps \<and> query_found db tbl t0 s TASK_STATE_PROCESSING qs)"

definition session_answer :: "item list \<Rightarrow> item list \<Rightarrow> pyval" where
  "session_answer ps qs = PDict [(''cancelled_pending'', PInt (int (length ps))),
     (''cancelled_processing'', PInt (int (length qs))),
     (''total_cancelled_tasks'', PInt (int (length ps + length qs)))]"

definition found_tasks :: "(string \<times> item list \<times> item list) list \<Rightarrow> exn + string list" where
  "found_tasks found = task_ids (concat (map (\<lambda>(s, ps, qs). ps @ qs) found))"

lemma cancel_by_status_cancels:
  assumes "ddb_documented db tbl"
  shows "cancels (md5_int db) tbl t0 (cancel_tasks_by_status db v st) (\<lambda>items ks. task_ids items = Inr ks \<and>
     (\<exists>s. v = PStr s \<and> query_found db tbl t0 s st items))"
  unfolding cancel_tasks_by_status_def
proof (rule cancels_bind [OF cancels_of])
  fix s and ks :: "string list"
  assume "session_text v = Inr s \<and> ks = []"
  then have v: "v = PStr s" "ks = []" by (auto simp: session_text_def split: pyval.splits)
  show "cancels (md5_int db) tbl t0 (io_bind (get_tasks_by_state db s st) (\<lambda>items.
      io_then (cancel_rows db items) (io_return items)))
    (\<lambda>items ks'. task_ids items = Inr (ks @ ks') \<and>
      (\<exists>s. v = PStr s \<and> query_found db tbl t0 s st items))"
  proof (rule cancels_bind [OF cancels_keeps [OF get_tasks_by_state_keeps [OF assms]]])
    fix items and ks1 :: "string list"
    assume q: "query_found db tbl t0 s st items \<and> ks1 = []"
    show "cancels (md5_int db) tbl t0 (io_then (cancel_rows db items) (io_return items))
      (\<lambda>items ks'. task_ids items = Inr (ks @ ks1 @ ks') \<and>
        (\<exists>s. v = PStr s \<and> query_found db tbl t0 s st items))"
      unfolding io_then_def
      by (rule cancels_bind [OF cancel_rows_cancels [OF assms] cancels_return]) (use v q in auto)
  qed (auto simp: query_found_def)
qed simp

lemma cancel_session_two:
  "cancel_session db v = io_bind (io_bind (cancel_tasks_by_status db v TASK_STATE_PENDING) (\<lambda>ps.
       io_bind (cancel_tasks_by_status db v TASK_STATE_PROCESSING) (\<lambda>qs. io_return (ps, qs))))
     (\<lambda>(ps, qs). io_return (session_answer ps qs))"
  by (simp add: cancel_session_def task_states_to_cancel_def session_answer_def io_bind_assoc task_state_defs
      AList.update.simps)

lemma cancel_session_cancels:
  assumes "ddb_documented db tbl"
  shows "cancels (md5_int db) tbl t0 (cancel_session db v) (\<lambda>answer ks.
     \<exists>s ps qs. found_rows db tbl t0 v (s, ps, qs) \<and> task_ids (ps @ qs) = Inr ks \<and> answer = session_answer ps qs)"
proof -
  note one = cancel_by_status_cancels [OF assms, where v = v and ?t0.0 = t0]
  have two: "cancels (md5_int db) tbl t0
      (io_bind (cancel_tasks_by_status db v TASK_STATE_PENDING) (\<lambda>ps.
       io_bind (cancel_tasks_by_status db v TASK_STATE_PROCESSING) (\<lambda>qs. io_return (ps, qs))))
      (\<lambda>(ps, qs) ks. \<exists>s. found_rows db tbl t0 v (s, ps, qs) \<and> task_ids (ps @ qs) = Inr ks)"
    by (rule cancels_bind [OF one cancels_bind [OF one cancels_return]])
      (auto simp: found_rows_def task_ids_append)
  show ?thesis unfolding cancel_session_two
    by (rule cancels_bind [OF two], clarify, rule cancels_return) auto
qed

lemma cancel_sessions_cancels:
  assumes "ddb_documented db tbl"
  shows "cancels (md5_int db) tbl t0 (cancel_sessions db vs d) (\<lambda>answers ks.
     \<exists>found. list_all2 (found_rows db tbl t0) vs found \<and> found_tasks found = Inr ks \<and>
       answers = fold (\<lambda>(s, ps, qs) d. AList.update s (session_answer ps qs) d) found d)"
proof (induction vs arbitrary: d)
  case Nil
  show ?case unfolding cancel_sessions.simps
    by (rule cancels_return) (simp add: found_tasks_def task_ids_def)
next
  case (Cons v vs)
  show ?case unfolding cancel_sessions.simps
  proof (rule cancels_bind [OF cancel_session_cancels [OF assms]])
    fix answer ks
    assume "\<exists>s ps qs. found_rows db tbl t0 v (s, ps, qs) \<and> task_ids (ps @ qs) = Inr ks \<and> answer = session_answer ps qs"
    then obtain s ps qs where f: "found_rows db tbl t0 v (s, ps, qs)" "task_ids (ps @ qs) = Inr ks"
      "answer = session_answer ps qs" by blast
    have v: "session_text v = Inr s" using f(1) by (simp add: found_rows_def session_text_def)
    show "cancels (md5_int db) tbl t0 (io_bind (io_of (session_text v)) (\<lambda>key.
        cancel_sessions db vs (AList.update key answer d))) (\<lambda>answers ks'.
        \<exists>found. list_all2 (found_rows db tbl t0) (v # vs) found \<and> found_tasks found = Inr (ks @ ks') \<and>
          answers = fold (\<lambda>(s, ps, qs) d. AList.update s (session_answer ps qs) d) found d)"
      unfolding v io_of_Inr io_return_bind
    proof (rule cancels_weaken [OF Cons.IH])
      fix answers ks'
      assume "\<exists>found. list_all2 (found_rows db tbl t0) vs found \<and> found_tasks found = Inr ks' \<and>
        answers = fold (\<lambda>(s, ps, qs) d. AList.update s (session_answer ps qs) d) found (AList.update s answer d)"
      then obtain found where "list_all2 (found_rows db tbl t0) vs found" "found_tasks found = Inr ks'"
        "answers = fold (\<lambda>(s, ps, qs) d. AList.update s (session_answer ps qs) d) found (AList.update s answer d)"
        by blast
      with f show "\<exists>found. list_all2 (found_rows db tbl t0) (v # vs) found \<and> found_tasks found = Inr (ks @ ks') \<and>
          answers = fold (\<lambda>(s, ps, qs) d. AList.update s (session_answer ps qs) d) found d"
        by (intro exI [of _ "(s, ps, qs) # found"])
          (simp add: found_tasks_def task_ids_append del: append_assoc)
    qed
  qed
qed

text \<open>C29. When the cancel lambda answers 200, it has cancelled exactly the tasks that the two queries of each
  session of the request returned (the pending ones and the ones being processed): those rows are
  in the cancelled state and have no owner, all other rows are as they were, and the answer counts
  them per session.  When it answers 542, all it did is to cancel some tasks.\<close>

theorem cancel_request_cancels:
  assumes "ddb_documented db tbl" and "cancel_tasks_handler db event w = Some (r, w')"
  shows "\<exists>resp ks. r = Inr resp \<and> (\<forall>k \<in> set ks. in_state (md5_int db) (tbl w') k TASK_STATE_CANCELLED \<and>
       owner_of (tbl w') k = Some (PStr ''None'')) \<and> (\<forall>k. k \<notin> set ks \<longrightarrow> tbl w' k = tbl w k) \<and>
     (statusCode resp = 542 \<or> statusCode resp = 200 \<and>
       (\<exists>vs found. bind_result (session_ids_from_event event) py_iter = Inr vs \<and>
         list_all2 (found_rows db tbl (tbl w)) vs found \<and> found_tasks found = Inr ks \<and>
         body resp = json_dumps (PDict
           (fold (\<lambda>(s, ps, qs) d. AList.update s (session_answer ps qs) d) found []))))"
proof -
  let ?m = "io_bind (io_of (bind_result (session_ids_from_event event) py_iter)) (\<lambda>session_ids_to_cancel.
      io_bind (cancel_sessions db session_ids_to_cancel []) (\<lambda>lambda_response.
        io_return \<lparr>statusCode = 200, body = json_dumps (PDict lambda_response)\<rparr>))"
  let ?R = "\<lambda>resp ks. statusCode resp = 200 \<and>
     (\<exists>vs found. bind_result (session_ids_from_event event) py_iter = Inr vs \<and>
         list_all2 (found_rows db tbl (tbl w)) vs found \<and> found_tasks found = Inr ks \<and>
         body resp = json_dumps (PDict
           (fold (\<lambda>(s, ps, qs) d. AList.update s (session_answer ps qs) d) found [])))"
  have m: "cancels (md5_int db) tbl (tbl w) ?m ?R"
  proof (rule cancels_bind)
    show "cancels (md5_int db) tbl (tbl w) (io_of (bind_result (session_ids_from_event event) py_iter))
        (\<lambda>vs ks. ks = [] \<and> bind_result (session_ids_from_event event) py_iter = Inr vs)"
      by (rule cancels_of) simp
    fix vs and ks :: "string list"
    assume vs: "ks = [] \<and> bind_result (session_ids_from_event event) py_iter = Inr vs"
    show "cancels (md5_int db) tbl (tbl w) (io_bind (cancel_sessions db vs []) (\<lambda>lambda_response.
        io_return \<lparr>statusCode = 200, body = json_dumps (PDict lambda_response)\<rparr>)) (\<lambda>b ks'. ?R b (ks @ ks'))"
      by (rule cancels_bind [OF cancel_sessions_cancels [OF assms(1)] cancels_return]) (use vs in auto)
  qed
  from assms(2) consider (ok) resp where "?m w = Some (Inr resp, w')" "r = Inr resp"
    | (bad) e where "?m w = Some (Inl e, w')" "r = Inr (cancel_failure e)"
    unfolding cancel_tasks_handler_def io_catch_Some by auto
  then show ?thesis
  proof cases
    case ok
    from cancelsD [OF m after_cancels_refl ok(1)] obtain ks where
      ks: "task_run (md5_int db) (tbl w) (cancelled ks) (tbl w')" "?R resp ks" by blast
    with ok cancelled_run [OF ks(1)] show ?thesis by blast
  next
    case bad
    from cancelsD [OF m after_cancels_refl bad(1)] obtain ks where
      ks: "task_run (md5_int db) (tbl w) (cancelled ks) (tbl w')" by blast
    have "statusCode (cancel_failure e) = 542" by (simp add: cancel_failure_def)
    with bad cancelled_run [OF ks] show ?thesis by blast
  qed
qed

definition one_in_session :: mem_world where
  "one_in_session = \<lparr>mem_rows = [(''s_1'', (pending_row ''s_1'')(''session_id'' \<mapsto> PStr ''s''))], mem_faults = [],
     mem_clock = 0\<rparr>"

definition cancel_s :: pyval where
  "cancel_s = PDict [(''session_ids_to_cancel'', PList [PStr ''s''])]"

lemma one_in_session_found:
  "index_rows (mem_rows one_in_session) [KeyEq ''session_id'' (PStr ''s''), KeyEq ''task_status''
     (PStr (make_task_state_from_session_id length TASK_STATE_PENDING ''s''))] =
   [(pending_row ''s_1'')(''session_id'' \<mapsto> PStr ''s'')]"
  by (simp add: index_rows_def one_in_session_def pending_row_def s_1_status)

lemma cancel_s_found: "bind_result (session_ids_from_event (query_event cancel_s)) py_iter = Inr [PStr ''s'']"
  by (simp add: session_ids_from_event_def cancel_s_def dict_get_def py_iter_def)

definition one_cancelled :: mem_world where
  "one_cancelled = one_in_session\<lparr>mem_rows := [(''s_1'', (pending_row ''s_1'')(''session_id'' \<mapsto> PStr ''s'',
     ''task_owner'' \<mapsto> PStr ''None'',
     ''task_status'' \<mapsto> PStr (make_task_state_from_task_id length TASK_STATE_CANCELLED ''s_1'')))]\<rparr>"

lemma cancel_s_1: "update_task_status_to_cancelled mem_ddb ''s_1'' one_in_session = Some (Inr (), one_cancelled)"
  by (simp add: update_task_status_to_cancelled_def finalize_tasks_state_def io_apply mem_update_def
      one_in_session_def one_cancelled_def Let_def)

lemma one_cancelled_found:
  "index_rows (mem_rows one_cancelled) [KeyEq ''session_id'' (PStr ''s''), KeyEq ''task_status''
     (PStr (make_task_state_from_session_id length TASK_STATE_PROCESSING ''s''))] = []"
proof -
  have "make_task_state_from_session_id length TASK_STATE_CANCELLED ''s'' \<noteq>
      make_task_state_from_session_id length TASK_STATE_PROCESSING ''s''" by code_simp
  then show ?thesis by (simp add: index_rows_def one_cancelled_def one_in_session_def s_1_status)
qed

lemma cancel_s_session:
  "cancel_session mem_ddb (PStr ''s'') one_in_session = Some (Inr (session_answer
     [(pending_row ''s_1'')(''session_id'' \<mapsto> PStr ''s'')] []), one_cancelled)"
  unfolding cancel_session_two cancel_tasks_by_status_def
  by (simp add: io_apply session_text_def mem_get_tasks_by_state one_in_session_found one_cancelled_found
      cancel_rows_def row_text_def row_get_def pending_row_def [of "''s_1''"] cancel_s_1)

theorem cancel_request_cancels_witness:
  "\<exists>resp. cancel_tasks_handler mem_ddb (query_event cancel_s) one_in_session = Some (Inr resp, one_cancelled) \<and>
     statusCode resp = 200 \<and> in_state length (mem_table one_cancelled) ''s_1'' TASK_STATE_CANCELLED"
proof -
  have run: "cancel_tasks_handler mem_ddb (query_event cancel_s) one_in_session = Some (Inr \<lparr>statusCode = 200,
      body = json_dumps (PDict [(''s'', session_answer
        [(pending_row ''s_1'')(''session_id'' \<mapsto> PStr ''s'')] [])])\<rparr>, one_cancelled)"
    by (simp add: cancel_tasks_handler_def cancel_s_found io_apply cancel_s_session session_text_def)
  obtain ks where
    ks: "\<forall>k \<in> set ks. in_state length (mem_table one_cancelled) k TASK_STATE_CANCELLED"
      "\<forall>k. k \<notin> set ks \<longrightarrow> mem_table one_cancelled k = mem_table one_in_session k"
    using cancel_request_cancels [OF mem_ddb_documented run] by auto
  have d: "make_task_state_from_session_id length TASK_STATE_CANCELLED ''s'' \<noteq>
      make_task_state_from_session_id length TASK_STATE_PENDING ''s''" by code_simp
  have "mem_table one_cancelled ''s_1'' \<noteq> mem_table one_in_session ''s_1''"
  proof
    assume "mem_table one_cancelled ''s_1'' = mem_table one_in_session ''s_1''"
    then have "the (mem_table one_cancelled ''s_1'') ''task_status'' =
        the (mem_table one_in_session ''s_1'') ''task_status''" by simp
    with d show False
      by (simp add: mem_table_def one_cancelled_def one_in_session_def pending_row_def s_1_status)
  qed
  with ks(2) have "''s_1'' \<in> set ks" by blast
  with ks(1) run show ?thesis by auto
qed

end
