(* ===== verification/GetResults.thy ===== *)
theory GetResults
  imports StateTableProps Lambdas
begin

text \<open>
  The lambda \<open>source/control_plane/python/lambda/get_results/get_results.py\<close>: it lists the
  finished, cancelled and failed tasks of a session, and what its answer tells the client.
\<close>

record 'w results_env =
  res_db :: "'w ddb"
  res_host :: "'w host"
  res_metrics :: "'w metrics"

definition no_results :: "(string \<times> pyval) list" where
  "no_results = map (\<lambda>k. (k, PList [])) [''finished'', ''finished_OUTPUT'', ''cancelled'', ''cancelled_OUTPUT'',
     ''failed'', ''failed_OUTPUT'']"

text \<open>The rows of one state enter the response under the state's name, if there are any.\<close>

definition add_results :: "string \<Rightarrow> item list \<Rightarrow> (string \<times> pyval) list \<Rightarrow> exn + (string \<times> pyval) list" where
  "add_results state rows response =
     (if 0 < length rows then
        bind_result (map_result (\<lambda>x. row_get x ''task_id'') rows) (\<lambda>ids.
          Inr (AList.update (state @ ''_OUTPUT'') (PList (map (\<lambda>x. PStr ''read_from_dataplane'') rows))
            (AList.update state (PList ids) response)))
      else Inr response)"

definition results_of_state ::
  "'w ddb \<Rightarrow> pyval \<Rightarrow> string \<Rightarrow> (string \<times> pyval) list \<Rightarrow> ('w, nat \<times> (string \<times> pyval) list) io" where
  "results_of_state db session_id state response =
     io_bind (io_of (session_text session_id)) (\<lambda>session_id.
     io_bind (get_tasks_by_state db session_id state) (\<lambda>tasks.
     io_bind (io_of (add_results state tasks response)) (\<lambda>response.
       io_return (length tasks, response))))"

definition get_tasks_statuses_in_session :: "'w ddb \<Rightarrow> pyval \<Rightarrow> ('w, nat \<times> (string \<times> pyval) list) io" where
  "get_tasks_statuses_in_session db session_id =
     (if session_id = PNone then io_raise AssertionError
      else
        io_bind (results_of_state db session_id TASK_STATE_FINISHED no_results) (\<lambda>(finished, response).
        io_bind (results_of_state db session_id TASK_STATE_CANCELLED response) (\<lambda>(cancelled, response).
        io_bind (results_of_state db session_id TASK_STATE_FAILED response) (\<lambda>(failed, response).
          io_return (finished + cancelled + failed, AList.update ''metadata'' (PDict [(''tasks_in_response'',
            PInt (int (finished + cancelled + failed)))]) response)))))"

definition results_session_id :: "pyval \<Rightarrow> exn + pyval" where
  "results_session_id event = bind_result (query_content event) (\<lambda>event. py_index event ''session_id'')"

definition results_book_keeping :: "'w results_env \<Rightarrow> nat \<Rightarrow> ('w metered, unit) io" where
  "results_book_keeping env tasks_in_response =
     io_then (count_event ''invocations'' 1)
     (io_bind (on_grid (time_now_ms (res_host env))) (\<lambda>t0.
      io_then (count_event ''retrieved_rows'' (int tasks_in_response))
     (io_bind (on_grid (time_now_ms (res_host env))) (\<lambda>t1.
      io_then (add_metric_sample (res_metrics env)
          [(''stage5_getres_01_invocation_tstmp'', PDict [(''label'', PStr ''None''), (''tstmp'', PInt t0)]),
           (''stage5_getres_02_invocation_over_tstmp'',
             PDict [(''label'', PStr ''get_results_invocation_time''), (''tstmp'', PInt t1)])]
          ''stage5_getres_01_invocation_tstmp'' ''stage5_getres_02_invocation_over_tstmp'')
        (submit_measurements (res_metrics env) (res_host env))))))"

definition results_failure :: "exn \<Rightarrow> lambda_response" where
  "results_failure e = \<lparr>statusCode = 542, body = (case e of ClientError code msg \<Rightarrow> msg | _ \<Rightarrow> exn_str e)\<rparr>"

definition get_results_handler :: "'w results_env \<Rightarrow> pyval \<Rightarrow> ('w metered, lambda_response) io" where
  "get_results_handler env event = io_catch
     (io_bind (io_of (results_session_id event)) (\<lambda>session_id.
      io_bind (on_grid (get_tasks_statuses_in_session (res_db env) session_id)) (\<lambda>(count, lambda_response).
      io_then (results_book_keeping env count)
        (io_return \<lparr>statusCode = 200, body = json_dumps (PDict lambda_response)\<rparr>))))
     (\<lambda>e. io_return (results_failure e))"

section \<open>The answer\<close>

definition results_documented :: "'w results_env \<Rightarrow> ('w \<Rightarrow> table) \<Rightarrow> bool" where
  "results_documented env tbl \<longleftrightarrow> ddb_documented (res_db env) tbl \<and> host_keeps (res_host env) tbl \<and>
     metrics_keeps (res_metrics env) tbl"

text \<open>The rows that a query of the session by state returned, at the same table.\<close>

definition state_found :: "'w ddb \<Rightarrow> ('w \<Rightarrow> table) \<Rightarrow> table \<Rightarrow> string \<Rightarrow> string \<Rightarrow> item list \<Rightarrow> pyval list \<Rightarrow> bool" where
  "state_found db tbl t s st rows ids \<longleftrightarrow>
     (\<exists>w w'. tbl w = t \<and> get_tasks_by_state db s st w = Some (Inr rows, w')) \<and>
     map_result (\<lambda>x. row_get x ''task_id'') rows = Inr ids"

definition results_answer :: "pyval list \<Rightarrow> pyval list \<Rightarrow> pyval list \<Rightarrow> pyval" where
  "results_answer fin can fai = (let out = (\<lambda>ids. PList (map (\<lambda>x. PStr ''read_from_dataplane'') ids)) in
     PDict [(''finished'', PList fin), (''finished_OUTPUT'', out fin),
       (''cancelled'', PList can), (''cancelled_OUTPUT'', out can), (''failed'', PList fai), (''failed_OUTPUT'', out fai),
       (''metadata'', PDict [(''tasks_in_response'', PInt (int (length fin + length can + length fai)))])])"

lemma results_of_state_Inr:
  assumes "ddb_documented db tbl" and "results_of_state db v st resp w = Some (Inr (n, resp'), w')"
  shows "\<exists>s rows ids. v = PStr s \<and> state_found db tbl (tbl w) s st rows ids \<and> n = length ids \<and>
     (resp' = (if ids = [] then resp else
        AList.update (st @ ''_OUTPUT'') (PList (map (\<lambda>x. PStr ''read_from_dataplane'') ids))
            (AList.update st (PList ids) resp)))"
proof -
  from assms(2) obtain s rows w1 where v: "v = PStr s"
    and q: "get_tasks_by_state db s st w = Some (Inr rows, w1)"
    and add: "add_results st rows resp = Inr resp'" and n: "n = length rows"
    by (auto simp: results_of_state_def session_text_def io_bind_Inr split: pyval.splits)
  obtain ids where ids: "map_result (\<lambda>x. row_get x ''task_id'') rows = Inr ids"
    using add by (cases rows) (auto simp: add_results_def bind_result_Inr split: if_splits)
  then have len: "length ids = length rows" by (auto simp: map_result_Inr dest: list_all2_lengthD)
  have const: "map (\<lambda>x. PStr ''read_from_dataplane'') rows = map (\<lambda>x. PStr ''read_from_dataplane'') ids"
    using len by (simp add: map_replicate_const)
  have "state_found db tbl (tbl w) s st rows ids" using q ids by (auto simp: state_found_def)
  moreover have "resp' = (if ids = [] then resp else
        AList.update (st @ ''_OUTPUT'') (PList (map (\<lambda>x. PStr ''read_from_dataplane'') ids))
            (AList.update st (PList ids) resp))"
    using add len ids const by (auto simp: add_results_def split: if_splits)
  ultimately show ?thesis unfolding v n len [symmetric] by blast
qed

lemma results_of_state_keeps: "ddb_documented db tbl \<Longrightarrow> keeps tbl (results_of_state db v st resp)"
  unfolding results_of_state_def by (intro keeps_bind keeps_of get_tasks_by_state_keeps keeps_return)

lemma statuses_Inr:
  assumes doc: "ddb_documented db tbl"
    and "get_tasks_statuses_in_session db v w = Some (Inr (n, resp), w')"
  shows "\<exists>s rows1 rows2 rows3 fin can fai. v = PStr s \<and>
     state_found db tbl (tbl w) s TASK_STATE_FINISHED rows1 fin \<and>
     state_found db tbl (tbl w) s TASK_STATE_CANCELLED rows2 can \<and>
     state_found db tbl (tbl w) s TASK_STATE_FAILED rows3 fai \<and>
     PDict resp = results_answer fin can fai"
proof -
  from assms(2) obtain n1 n2 n3 r1 r2 r3 w1 w2 where
    r: "results_of_state db v TASK_STATE_FINISHED no_results w = Some (Inr (n1, r1), w1)"
      "results_of_state db v TASK_STATE_CANCELLED r1 w1 = Some (Inr (n2, r2), w2)"
      "results_of_state db v TASK_STATE_FAILED r2 w2 = Some (Inr (n3, r3), w')"
    and resp: "resp = AList.update ''metadata'' (PDict [(''tasks_in_response'', PInt (int (n1 + n2 + n3)))]) r3"
    by (auto simp: get_tasks_statuses_in_session_def io_bind_Inr split: if_splits)
  have t: "tbl w1 = tbl w" "tbl w2 = tbl w"
    using keepsD [OF results_of_state_keeps [OF doc] r(1)] keepsD [OF results_of_state_keeps [OF doc] r(2)] by simp_all
  from results_of_state_Inr [OF doc r(1)] obtain s rows1 fin where
    1: "v = PStr s" "state_found db tbl (tbl w) s TASK_STATE_FINISHED rows1 fin" "n1 = length fin"
      "r1 = (if fin = [] then no_results else AList.update (TASK_STATE_FINISHED @ ''_OUTPUT'')
         (PList (map (\<lambda>x. PStr ''read_from_dataplane'') fin)) (AList.update TASK_STATE_FINISHED (PList fin) no_results))"
    by (elim exE conjE)
  from results_of_state_Inr [OF doc r(2)] 1(1) obtain rows2 can where
    2: "state_found db tbl (tbl w) s TASK_STATE_CANCELLED rows2 can" "n2 = length can"
      "r2 = (if can = [] then r1 else AList.update (TASK_STATE_CANCELLED @ ''_OUTPUT'')
         (PList (map (\<lambda>x. PStr ''read_from_dataplane'') can)) (AList.update TASK_STATE_CANCELLED (PList can) r1))"
    unfolding t by (elim exE conjE) simp
  from results_of_state_Inr [OF doc r(3)] 1(1) obtain rows3 fai where
    3: "state_found db tbl (tbl w) s TASK_STATE_FAILED rows3 fai" "n3 = length fai"
      "r3 = (if fai = [] then r2 else AList.update (TASK_STATE_FAILED @ ''_OUTPUT'')
         (PList (map (\<lambda>x. PStr ''read_from_dataplane'') fai)) (AList.update TASK_STATE_FAILED (PList fai) r2))"
    unfolding t by (elim exE conjE) simp
  have "PDict resp = results_answer fin can fai"
    unfolding resp 3(3) 2(3) 1(4) 1(3) 2(2) 3(2)
    by (simp add: results_answer_def no_results_def task_state_defs Let_def)
  with 1 2 3 show ?thesis by blast
qed

lemma statuses_keeps: "ddb_documented db tbl \<Longrightarrow> keeps tbl (get_tasks_statuses_in_session db v)"
  unfolding get_tasks_statuses_in_session_def
  by (auto intro!: keeps_bind results_of_state_keeps)

lemma results_book_keeping_keeps:
  assumes "results_documented env tbl"
  shows "keeps (tbl \<circ> grid) (results_book_keeping env n)"
proof -
  have m: "metrics_keeps (res_metrics env) tbl" "host_keeps (res_host env) tbl"
    using assms by (simp_all add: results_documented_def)
  show ?thesis unfolding results_book_keeping_def
    by (intro keeps_then keeps_bind keeps_count_event keeps_on_grid [OF host_keeps_ops(1) [OF m(2)]]
        add_metric_sample_keeps [OF m(1)] submit_measurements_keeps [OF m])
qed

text \<open>C30. Asking for results changes no row.  When the results lambda answers 200, its answer lists the ids
  of exactly the rows that the queries of the session by the states finished, cancelled and failed
  returned, an output per task, and in \<open>tasks_in_response\<close> their number, by which the client knows
  that the session is over.\<close>

theorem results_answer_complete:
  assumes "results_documented env tbl" and "get_results_handler env event s = Some (r, s')"
  shows "tbl (grid s') = tbl (grid s) \<and> (\<exists>resp. r = Inr resp \<and> (statusCode resp = 542 \<or> statusCode resp = 200 \<and>
     (\<exists>sid rows1 rows2 rows3 fin can fai. results_session_id event = Inr (PStr sid) \<and>
        state_found (res_db env) tbl (tbl (grid s)) sid TASK_STATE_FINISHED rows1 fin \<and>
        state_found (res_db env) tbl (tbl (grid s)) sid TASK_STATE_CANCELLED rows2 can \<and>
        state_found (res_db env) tbl (tbl (grid s)) sid TASK_STATE_FAILED rows3 fai \<and>
        body resp = json_dumps (results_answer fin can fai))))"
proof -
  let ?m = "io_bind (io_of (results_session_id event)) (\<lambda>session_id.
      io_bind (on_grid (get_tasks_statuses_in_session (res_db env) session_id)) (\<lambda>(count, lambda_response).
      io_then (results_book_keeping env count)
        (io_return \<lparr>statusCode = 200, body = json_dumps (PDict lambda_response)\<rparr>)))"
  have doc: "ddb_documented (res_db env) tbl" using assms(1) by (simp add: results_documented_def)
  have k: "keeps (tbl \<circ> grid) ?m"
    by (intro keeps_bind keeps_of keeps_on_grid statuses_keeps [OF doc])
      (auto intro!: keeps_then results_book_keeping_keeps [OF assms(1)])
  from assms(2) consider (ok) resp where "?m s = Some (Inr resp, s')" "r = Inr resp"
    | (bad) e where "?m s = Some (Inl e, s')" "r = Inr (results_failure e)"
    unfolding get_results_handler_def io_catch_Some by auto
  then show ?thesis
  proof cases
    case bad
    with keepsD [OF k bad(1)] show ?thesis by (simp add: results_failure_def)
  next
    case ok
    from ok(1) obtain v n d s1 where v: "results_session_id event = Inr v"
      and st: "get_tasks_statuses_in_session (res_db env) v (grid s) = Some (Inr (n, d), s1)"
      and resp: "resp = \<lparr>statusCode = 200, body = json_dumps (PDict d)\<rparr>"
      by (auto simp: io_bind_Inr io_then_Inr on_grid_Some)
    from statuses_Inr [OF doc st] obtain sid rows1 rows2 rows3 fin can fai where f: "v = PStr sid"
      "state_found (res_db env) tbl (tbl (grid s)) sid TASK_STATE_FINISHED rows1 fin"
      "state_found (res_db env) tbl (tbl (grid s)) sid TASK_STATE_CANCELLED rows2 can"
      "state_found (res_db env) tbl (tbl (grid s)) sid TASK_STATE_FAILED rows3 fai"
      "PDict d = results_answer fin can fai" by blast
    have "statusCode resp = 200" "body resp = json_dumps (results_answer fin can fai)"
      unfolding resp f(5) by simp_all
    moreover have "tbl (grid s') = tbl (grid s)" using keepsD [OF k ok(1)] by simp
    ultimately show ?thesis using v f(1-4) ok(2) by blast
  qed
qed

definition mem_results_env :: "mem_world results_env" where
  "mem_results_env = \<lparr>res_db = mem_ddb, res_host = mem_host, res_metrics = mem_metrics\<rparr>"

lemma mem_results_env_db [simp]: "res_db mem_results_env = mem_ddb"
  by (simp add: mem_results_env_def)

lemma mem_results_documented: "results_documented mem_results_env mem_table"
  by (simp add: results_documented_def mem_results_env_def mem_ddb_documented mem_host_keeps mem_metrics_keeps)

definition session_s :: "mem_world metered" where
  "session_s = \<lparr>grid = \<lparr>mem_rows = [(''s_1'', (owned_row ''s_1'' TASK_STATE_FINISHED ''a'')(''session_id'' \<mapsto> PStr ''s''))],
       mem_faults = [], mem_clock = 0\<rparr>,
     perf = Tracker (PerformanceTracker None), events = EventsCounter [''invocations'', ''retrieved_rows'']\<rparr>"

definition results_of_s :: pyval where
  "results_of_s = PDict [(''session_id'', PStr ''s'')]"

lemma session_s_found:
  "st \<in> set task_states \<Longrightarrow> get_tasks_by_state mem_ddb ''s'' st (grid session_s) = Some (Inr
     (if st = TASK_STATE_FINISHED then [(owned_row ''s_1'' TASK_STATE_FINISHED ''a'')(''session_id'' \<mapsto> PStr ''s'')]
      else []), grid session_s)"
  using make_task_state_session_inject [of TASK_STATE_FINISHED st length "''s''" "''s''"]
  by (auto simp: mem_get_tasks_by_state index_rows_def session_s_def owned_row_def s_1_status)

lemma session_s_status:
  "get_tasks_statuses_in_session mem_ddb (PStr ''s'') (grid session_s) = Some (Inr (1,
     [(''finished'', PList [PStr ''s_1'']), (''finished_OUTPUT'', PList [PStr ''read_from_dataplane'']),
      (''cancelled'', PList []), (''cancelled_OUTPUT'', PList []), (''failed'', PList []), (''failed_OUTPUT'', PList []),
      (''metadata'', PDict [(''tasks_in_response'', PInt 1)])]), grid session_s)"
proof -
  have ne: "TASK_STATE_CANCELLED \<noteq> TASK_STATE_FINISHED" "TASK_STATE_FAILED \<noteq> TASK_STATE_FINISHED"
    by (simp_all add: task_state_defs)
  have fin: "results_of_state mem_ddb (PStr ''s'') TASK_STATE_FINISHED no_results (grid session_s) = Some (Inr (1,
      AList.update ''finished_OUTPUT'' (PList [PStr ''read_from_dataplane''])
        (AList.update ''finished'' (PList [PStr ''s_1'']) no_results)), grid session_s)"
    by (simp add: results_of_state_def session_text_def session_s_found io_apply add_results_def
        row_get_def owned_row_def) (simp add: TASK_STATE_FINISHED_def)
  have other: "results_of_state mem_ddb (PStr ''s'') st resp (grid session_s) = Some (Inr (0, resp), grid session_s)"
    if "st \<in> set task_states" "st \<noteq> TASK_STATE_FINISHED" for st resp
    using that by (simp add: results_of_state_def session_text_def session_s_found io_apply add_results_def)
  show ?thesis
    by (simp add: get_tasks_statuses_in_session_def io_bind_apply fin other ne)
      (simp add: no_results_def)
qed

lemma session_s_book_keeping:
  "case results_book_keeping mem_results_env 1 session_s of Some (Inr u, s) \<Rightarrow> True | _ \<Rightarrow> False"
  by code_simp

theorem results_answer_complete_witness:
  "\<exists>resp s'. get_results_handler mem_results_env (query_event results_of_s) session_s = Some (Inr resp, s') \<and>
     statusCode resp = 200 \<and> mem_table (grid s') = mem_table (grid session_s) \<and>
     (\<exists>sid rows fin. state_found (res_db mem_results_env) mem_table (mem_table (grid session_s)) sid TASK_STATE_FINISHED rows fin)"
proof -
  have sid: "results_session_id (query_event results_of_s) = Inr (PStr ''s'')"
    by (simp add: results_session_id_def results_of_s_def dict_get_def)
  obtain s2 where "results_book_keeping mem_results_env 1 session_s = Some (Inr (), s2)"
    using session_s_book_keeping by (auto split: option.splits sum.splits)
  then obtain resp s' where run: "get_results_handler mem_results_env (query_event results_of_s) session_s = Some (Inr resp, s')"
    "statusCode resp = 200"
    by (simp add: get_results_handler_def io_apply on_grid_def sid session_s_status)
  note r = results_answer_complete [OF mem_results_documented run(1)]
  have "\<exists>sid rows fin. state_found (res_db mem_results_env) mem_table (mem_table (grid session_s)) sid TASK_STATE_FINISHED rows fin"
    using conjunct2 [OF r] run(2) by (elim exE conjE disjE) (simp, blast)
  with conjunct1 [OF r] run show ?thesis by blast
qed

end
