(* ===== verification/TtlChecker.thy ===== *)
theory TtlChecker
  imports StateTableProps MemoryQueue Lambdas
begin

text \<open>
  The lambda \<open>source/control_plane/python/lambda/ttl_checker/ttl_checker.py\<close>: once a minute it looks
  for tasks whose heartbeat has expired and retries or fails them.  The imports of line 17 and 18 do
  not exist in \<open>state_table_common.py\<close>; the model is of the handler as it runs once they do (the
  constants defined from them are not used).  \<open>send_to_dlq\<close> is not called.
\<close>

record 'w ttl_env =
  ttl_db :: "'w ddb"
  ttl_host :: "'w host"
  ttl_sqs :: "'w sqs"
  ttl_queue :: task_queue
  ttl_metrics :: "'w metrics"
  throttled_sums :: "'w \<Rightarrow> (exn + int list) \<times> 'w" \<comment> \<open>the sums of CloudWatch's data points\<close>

definition MAX_RETRIES :: int where "MAX_RETRIES = 5"

definition STATE_TABLE_THROTTLING_LIMIT_FOR_MEASURED_PERIOD :: int where
  "STATE_TABLE_THROTTLING_LIMIT_FOR_MEASURED_PERIOD = 1000"

text \<open>A comma is missing between the fourth and the fifth name of the code's list.\<close>

definition ttl_counters :: "string list" where
  "ttl_counters = [''counter_expired_tasks'', ''counter_failed_tasks'', ''counter_retried_tasks'',
     ''counter_retried_tasks_vto_reset_fail'' @ ''counter_tasks_queue_size'',
     ''counter_skip_check_under_throttling'']"

definition is_state_table_under_throttling :: "'w ttl_env \<Rightarrow> ('w, bool) io" where
  "is_state_table_under_throttling env =
     io_bind (io_call (throttled_sums env)) (\<lambda>sums.
       io_return (sum_list sums > STATE_TABLE_THROTTLING_LIMIT_FOR_MEASURED_PERIOD))"

definition do_retry_task :: "'w ttl_env \<Rightarrow> string \<Rightarrow> int \<Rightarrow> ('w, bool) io" where
  "do_retry_task env task_id new_retry_count = io_catch
     (io_then (retry_task (ttl_db env) task_id new_retry_count) (io_return True))
     (\<lambda>e. case e of
        StateTableException caused_by_throttling caused_by_condition \<Rightarrow> io_return False
      | _ \<Rightarrow> io_raise e)"

text \<open>A handle that is not a text is refused by SQS, which the queue reports as its own exception.\<close>

definition handle_text :: "pyval \<Rightarrow> exn + string" where
  "handle_text v = (case v of PStr h \<Rightarrow> Inr h | _ \<Rightarrow> Inl TaskQueueException)"

definition delete_message_from_queue :: "'w ttl_env \<Rightarrow> pyval \<Rightarrow> pyval \<Rightarrow> ('w, unit) io" where
  "delete_message_from_queue env task_sqs_handler_id task_priority =
     io_bind (io_of (handle_text task_sqs_handler_id)) (\<lambda>h.
       delete_message (ttl_sqs env) (ttl_queue env) h task_priority)"

definition fail_task :: "'w ttl_env \<Rightarrow> string \<Rightarrow> pyval \<Rightarrow> pyval \<Rightarrow> ('w, unit) io" where
  "fail_task env task_id task_sqs_handler_id task_priority =
     io_then (delete_message_from_queue env task_sqs_handler_id task_priority)
       (update_task_status_to_failed (ttl_db env) task_id)"

text \<open>\<open>row.get(k)\<close>.\<close>

definition row_value :: "item \<Rightarrow> string \<Rightarrow> pyval" where
  "row_value row k = (case row k of None \<Rightarrow> PNone | Some v \<Rightarrow> v)"

text \<open>
  \<open>get_task_by_id\<close> answers \<open>None\<close> for a task without a row and when it is throttled; then
  \<open>.get\<close> raises.
\<close>

definition retreive_retries_and_task_handler_and_priority ::
  "'w ttl_env \<Rightarrow> string \<Rightarrow> ('w, pyval \<times> pyval \<times> pyval) io" where
  "retreive_retries_and_task_handler_and_priority env task_id =
     io_bind (get_task_by_id (ttl_db env) task_id False) (\<lambda>resp_task. case resp_task of
         None \<Rightarrow> io_raise AttributeError
       | Some row \<Rightarrow> io_return (row_value row ''retries'', row_value row ''sqs_handler_id'',
           row_value row ''task_priority''))"

definition reset_task_msg_vto :: "'w ttl_env \<Rightarrow> pyval \<Rightarrow> pyval \<Rightarrow> ('w, unit) io" where
  "reset_task_msg_vto env handler_id task_priority =
     io_bind (io_of (handle_text handler_id)) (\<lambda>h.
       change_visibility (ttl_sqs env) (ttl_queue env) h 0 task_priority)"

definition py_add :: "pyval \<Rightarrow> int \<Rightarrow> exn + int" where
  "py_add v n = (case v of PInt i \<Rightarrow> Inr (i + n) | PBool b \<Rightarrow> Inr ((if b then 1 else 0) + n) | _ \<Rightarrow> Inl TypeError)"

text \<open>
  The table's key is a text; DynamoDB refuses a query by another value, which the state table
  reports as a generic exception.
\<close>

definition item_task_id :: "item \<Rightarrow> exn + string" where
  "item_task_id item = (case item ''task_id'' of Some (PStr k) \<Rightarrow> Inr k
     | _ \<Rightarrow> Inl (GenericException ''ValidationException''))"

text \<open>The body of the loop over the expired tasks.\<close>

definition reset_retried_task :: "'w ttl_env \<Rightarrow> pyval \<Rightarrow> pyval \<Rightarrow> ('w metered, unit) io" where
  "reset_retried_task env handler priority =
     io_catch (on_grid (reset_task_msg_vto env handler priority))
       (\<lambda>e. case e of
          ClientError code msg \<Rightarrow> count_event ''counter_retried_tasks_vto_reset_fail'' 1
        | _ \<Rightarrow> io_raise e)"

definition process_expired_task :: "'w ttl_env \<Rightarrow> item \<Rightarrow> ('w metered, unit) io" where
  "process_expired_task env item =
     io_bind (io_of (item_task_id item)) (\<lambda>task_id.
     io_bind (on_grid (retreive_retries_and_task_handler_and_priority env task_id)) (\<lambda>(retries, handler, priority).
       if retries = PInt MAX_RETRIES then
         io_then (count_event ''counter_failed_tasks'' 1) (on_grid (fail_task env task_id handler priority))
       else
         io_bind (io_of (py_add retries 1)) (\<lambda>new_retry_count.
         io_bind (on_grid (do_retry_task env task_id new_retry_count)) (\<lambda>retried.
           if retried then
             io_then (count_event ''counter_retried_tasks'' 1) (reset_retried_task env handler priority)
           else io_return ()))))"

definition process_expired_tasks :: "'w ttl_env \<Rightarrow> item list \<Rightarrow> ('w metered, unit) io" where
  "process_expired_tasks env expired_tasks =
     io_then (count_event ''counter_expired_tasks'' (int (length expired_tasks)))
     (io_bind (on_grid (get_queue_length (ttl_sqs env) (ttl_queue env))) (\<lambda>n.
      io_then (count_event ''counter_tasks_queue_size'' n)
        (io_foreach expired_tasks (process_expired_task env))))"

definition check_expired_tasks :: "'w ttl_env \<Rightarrow> ('w metered, unit) io" where
  "check_expired_tasks env =
     io_bind (on_grid (is_state_table_under_throttling env)) (\<lambda>throttled.
       if throttled then count_event ''counter_skip_check_under_throttling'' 1
       else expired_loop (on_grid (random_int (ttl_host env) 0 (int MAX_STATE_PARTITIONS - 1)))
         (\<lambda>p. on_grid (get_expired_tasks_for_partition (ttl_db env) (ttl_host env) p))
         (process_expired_tasks env))"

definition ttl_checker_handler :: "'w ttl_env \<Rightarrow> ('w metered, unit) io" where
  "ttl_checker_handler env =
     io_bind (on_grid (time_now_ms (ttl_host env))) (\<lambda>t0.
     io_then (io_modify (\<lambda>s. s\<lparr>events := EventsCounter ttl_counters\<rparr>))
     (io_then (check_expired_tasks env)
     (io_bind (on_grid (time_now_ms (ttl_host env))) (\<lambda>t1.
      io_then (add_metric_sample (ttl_metrics env)
        [(''01_invocation_tstmp'', PDict [(''label'', PStr ''None''), (''tstmp'', PInt t0)]),
         (''02_completion_tstmp'', PDict [(''label'', PStr ''ttl_execution_time''), (''tstmp'', PInt t1)])]
        ''01_invocation_tstmp'' ''02_completion_tstmp'')
      (submit_measurements (ttl_metrics env) (ttl_host env))))))"

section \<open>What a run does\<close>

definition ttl_documented :: "'w ttl_env \<Rightarrow> ('w \<Rightarrow> table) \<Rightarrow> bool" where
  "ttl_documented env tbl \<longleftrightarrow> ddb_documented (ttl_db env) tbl \<and> sqs_keeps (ttl_sqs env) tbl \<and>
     host_keeps (ttl_host env) tbl \<and> metrics_keeps (ttl_metrics env) tbl \<and>
     keeps tbl (io_call (throttled_sums env))"

definition ttl_event :: "task_event \<Rightarrow> bool" where
  "ttl_event e \<longleftrightarrow> (\<exists>k n. e = Retry k n) \<or> (\<exists>k. e = Finalize k TASK_STATE_FAILED)"

lemma ttl_event_ok: "ttl_event e \<Longrightarrow> event_ok md5 e"
  by (auto simp: ttl_event_def)

lemma get_queue_length_keeps: "sqs_keeps sqs v \<Longrightarrow> keeps v (get_queue_length sqs q)"
proof (cases q)
  case (QueuePrioritySQS pq)
  assume "sqs_keeps sqs v"
  then have "keeps v (sum_queue_lengths sqs pq ps n)" for ps n
    by (induction ps arbitrary: n)
      (auto intro!: keeps_bind simp: single_get_queue_length_def sqs_keeps_def split: option.splits)
  with QueuePrioritySQS show ?thesis by (simp add: priority_get_queue_length_def)
qed (simp add: single_get_queue_length_def sqs_keeps_def)

lemma get_expired_keeps:
  assumes "ddb_documented db tbl" and "host_keeps host tbl"
  shows "keeps tbl (get_expired_tasks_for_partition db host p)"
  unfolding get_expired_tasks_for_partition_def
  by (intro keeps_catch keeps_bind host_keeps_ops(2) [OF assms(2)] query_keeps [OF assms(1)] keeps_return)
    (auto split: exn.splits)

lemma evolves_on_grid: "evolves md5 tbl ok m \<Longrightarrow> evolves md5 (tbl \<circ> grid) ok (on_grid m)"
  unfolding on_grid_def by (rule evolves_zoom) simp_all

lemma keeps_evolves_grid: "keeps tbl m \<Longrightarrow> evolves md5 (tbl \<circ> grid) ok (on_grid m)"
  by (rule evolves_keeps) (rule keeps_on_grid)

lemma ttl_do_retry_evolves:
  assumes "ddb_documented (ttl_db env) tbl"
  shows "evolves (md5_int (ttl_db env)) tbl ttl_event (do_retry_task env k n)"
  unfolding do_retry_task_def
  by (intro evolves_intros evolves_refines [OF retry_refines [OF assms]])
    (auto simp: ttl_event_def split: exn.splits intro: evolves_intros)

lemma ttl_fail_evolves:
  assumes "ddb_documented (ttl_db env) tbl" and "sqs_keeps (ttl_sqs env) tbl"
  shows "evolves (md5_int (ttl_db env)) tbl ttl_event (fail_task env k h p)"
  unfolding fail_task_def delete_message_from_queue_def update_task_status_to_failed_def
  by (intro evolves_intros evolves_refines [OF finalize_refines [OF assms(1)]]
      evolves_keeps [OF grid_queue.op_keeps(2) [OF assms(2)]]) (auto simp: ttl_event_def)

lemma process_expired_task_evolves:
  assumes "ttl_documented env tbl"
  shows "evolves (md5_int (ttl_db env)) (tbl \<circ> grid) ttl_event (process_expired_task env item)"
proof -
  have d: "ddb_documented (ttl_db env) tbl" "sqs_keeps (ttl_sqs env) tbl"
    using assms by (simp_all add: ttl_documented_def)
  note c = evolves_keeps [OF keeps_count_event]
  have read: "keeps tbl (retreive_retries_and_task_handler_and_priority env k)" for k
    unfolding retreive_retries_and_task_handler_and_priority_def
    by (intro keeps_bind get_task_by_id_keeps [OF d(1)]) (auto split: option.splits)
  have vto: "keeps tbl (reset_task_msg_vto env h p)" for h p
    unfolding reset_task_msg_vto_def by (intro keeps_bind keeps_of grid_queue.op_keeps(3) [OF d(2)])
  have reset: "evolves (md5_int (ttl_db env)) (tbl \<circ> grid) ttl_event (reset_retried_task env h p)" for h p
    unfolding reset_retried_task_def
    by (intro evolves_catch keeps_evolves_grid [OF vto]) (auto split: exn.splits intro: evolves_intros c)
  show ?thesis
    unfolding process_expired_task_def
    by (intro evolves_bind evolves_of keeps_evolves_grid [OF read])
      (auto intro!: evolves_intros c evolves_on_grid reset ttl_do_retry_evolves [OF d(1)] ttl_fail_evolves [OF d])
qed

lemma ttl_checker_evolves:
  assumes "ttl_documented env tbl"
  shows "evolves (md5_int (ttl_db env)) (tbl \<circ> grid) ttl_event (ttl_checker_handler env)"
proof -
  have d: "ddb_documented (ttl_db env) tbl" "sqs_keeps (ttl_sqs env) tbl" "host_keeps (ttl_host env) tbl"
    "metrics_keeps (ttl_metrics env) tbl" "keeps tbl (io_call (throttled_sums env))"
    using assms by (simp_all add: ttl_documented_def)
  note c = evolves_keeps [OF keeps_count_event]
  have t: "evolves md5 (tbl \<circ> grid) ttl_event (on_grid (time_now_ms (ttl_host env)))" for md5
    by (rule keeps_evolves_grid [OF host_keeps_ops(1) [OF d(3)]])
  have tasks: "evolves (md5_int (ttl_db env)) (tbl \<circ> grid) ttl_event (process_expired_tasks env items)" for items
    unfolding process_expired_tasks_def
    by (intro evolves_intros c keeps_evolves_grid [OF get_queue_length_keeps [OF d(2)]]
        process_expired_task_evolves [OF assms])
  have check: "evolves (md5_int (ttl_db env)) (tbl \<circ> grid) ttl_event (check_expired_tasks env)"
    unfolding check_expired_tasks_def is_state_table_under_throttling_def expired_loop_def
    by (intro evolves_bind keeps_evolves_grid keeps_bind d(5) keeps_return)
      (auto intro!: evolves_intros c tasks keeps_evolves_grid get_expired_keeps d host_keeps_ops(3))
  have reset: "evolves (md5_int (ttl_db env)) (tbl \<circ> grid) ttl_event
      (io_modify (\<lambda>s. s\<lparr>events := EventsCounter ttl_counters\<rparr>))"
    by (intro evolves_keeps keeps_modify) simp
  show ?thesis unfolding ttl_checker_handler_def
    by (intro evolves_bind evolves_then t check reset evolves_keeps [OF add_metric_sample_keeps [OF d(4)]]
        evolves_keeps [OF submit_measurements_keeps [OF d(4,3)]])
qed

section \<open>One expired task\<close>

text \<open>A retry is refused by an error response to one request for this task.\<close>

lemma retry_task_refused:
  assumes "ddb_documented db tbl" and "retry_task db k n w = Some (Inl (StateTableException tr c), w')"
  shows "\<exists>q code m. upd_key q = k \<and> ddb_update_item db q w = (Inl (ClientError code m), w') \<and> tbl w' = tbl w \<and>
     (code = CONDITION_FAILED \<and> (\<forall>t'. \<not> task_step (md5_int db) (tbl w) (Retry k n) t') \<or> code \<in> set throttling_codes)"
proof -
  define q where "q = \<lparr>upd_key = k,
         upd_set = [(''task_owner'', PStr ''None''),
           (''task_status'', PStr (make_task_state_from_task_id (md5_int db) TASK_STATE_PENDING k)),
           (''retries'', PInt n)],
         upd_cond = Some [(''task_status'', PStr (make_task_state_from_task_id (md5_int db) TASK_STATE_PROCESSING k))]\<rparr>"
  obtain res w1 where u: "ddb_update_item db q w = (res, w1)" by (metis prod.exhaust)
  note doc = ddb_update_case [OF assms(1) u]
  have run: "io_catch (io_call (ddb_update_item db q)) (\<lambda>e. case e of
        ClientError c m \<Rightarrow>
          if c = CONDITION_FAILED then io_raise (StateTableException False True)
          else if c \<in> set throttling_codes then io_raise (StateTableException True False)
          else io_raise (GenericException (exn_str e))
      | _ \<Rightarrow> io_raise e) w = Some (Inl (StateTableException tr c), w')"
    using assms(2) unfolding retry_task_def q_def .
  with u doc obtain code m where e: "res = Inl (ClientError code m)" "w' = w1" "code = CONDITION_FAILED \<or> code \<in> set throttling_codes"
    by (cases res) (simp_all add: io_catch_apply split: exn.splits if_splits)
  have "\<forall>t'. \<not> task_step (md5_int db) (tbl w) (Retry k n) t'" if "code = CONDITION_FAILED"
  proof -
    from run u e that have "retry_task db k n w = Some (Inl (StateTableException False True), w')"
      unfolding retry_task_def q_def by (simp add: io_catch_apply)
    from refines_condition [OF retry_refines [OF assms(1)] this] show ?thesis by simp
  qed
  with u e doc show ?thesis by (intro exI [of _ q] exI [of _ code] exI [of _ m]) (auto simp: q_def)
qed

lemma do_retry_outcome:
  assumes "ddb_documented (ttl_db env) tbl" and "do_retry_task env k n w = Some (Inr b, w')"
  shows "if b then task_step (md5_int (ttl_db env)) (tbl w) (Retry k n) (tbl w')
     else \<exists>q code m. upd_key q = k \<and> ddb_update_item (ttl_db env) q w = (Inl (ClientError code m), w') \<and> tbl w' = tbl w \<and>
       (code = CONDITION_FAILED \<and> (\<forall>t'. \<not> task_step (md5_int (ttl_db env)) (tbl w) (Retry k n) t') \<or>
        code \<in> set throttling_codes)"
proof -
  from assms(2) consider (ok) "retry_task (ttl_db env) k n w = Some (Inr (), w')" "b"
    | (bad) tr c where "retry_task (ttl_db env) k n w = Some (Inl (StateTableException tr c), w')" "\<not> b"
  proof -
    from assms(2) consider "io_then (retry_task (ttl_db env) k n) (io_return True) w = Some (Inr b, w')"
      | e w1 where "io_then (retry_task (ttl_db env) k n) (io_return True) w = Some (Inl e, w1)"
          "(case e of StateTableException caused_by_throttling caused_by_condition \<Rightarrow> io_return False
             | _ \<Rightarrow> io_raise e) w1 = Some (Inr b, w')"
      by (auto simp: do_retry_task_def io_catch_Some)
    then show thesis
    proof cases
      case 1
      then show thesis by (intro ok) (auto simp: io_then_Some)
    next
      case (2 e)
      then show thesis by (cases e) (auto simp: io_then_Some intro: bad)
    qed
  qed
  then show ?thesis
  proof cases
    case ok
    with refines_ok [OF retry_refines [OF assms(1)] ok(1)] show ?thesis by simp
  next
    case bad
    with retry_task_refused [OF assms(1) bad(1)] show ?thesis by simp
  qed
qed

lemma fail_task_Inr:
  assumes "ddb_documented (ttl_db env) tbl" and "sqs_keeps (ttl_sqs env) tbl"
    and "fail_task env k h p w = Some (Inr (), w')"
  shows "\<exists>hd w1. h = PStr hd \<and> delete_message (ttl_sqs env) (ttl_queue env) hd p w = Some (Inr (), w1) \<and>
     task_step (md5_int (ttl_db env)) (tbl w) (Finalize k TASK_STATE_FAILED) (tbl w')"
proof -
  from assms(3) obtain hd w1 where h: "h = PStr hd"
    and d: "delete_message (ttl_sqs env) (ttl_queue env) hd p w = Some (Inr (), w1)"
    and u: "finalize_tasks_state (ttl_db env) k TASK_STATE_FAILED w1 = Some (Inr (), w')"
    by (auto simp: fail_task_def delete_message_from_queue_def handle_text_def io_then_Inr io_bind_Inr
        update_task_status_to_failed_def split: pyval.splits)
  have "tbl w1 = tbl w" by (rule keepsD [OF grid_queue.op_keeps(2) [OF assms(2)] d])
  with refines_ok [OF finalize_refines [OF assms(1)] u] h d show ?thesis by auto
qed

lemma reset_retried_Inr:
  "reset_retried_task env h p s = Some (Inr (), s') \<Longrightarrow>
     \<exists>hd. h = PStr hd \<and> change_visibility (ttl_sqs env) (ttl_queue env) hd 0 p (grid s) = Some (Inr (), grid s')"
  by (cases h) (auto simp: reset_retried_task_def reset_task_msg_vto_def handle_text_def io_catch_Some on_grid_Some
      io_bind_Some dest!: grid_queue.change_raises)

text \<open>C27. Processing an expired task that returns normally has read the task's row and has either failed the
  task, if the row shows five retries, after deleting its message from the queue; or retried it:
  the row, if it was still being processed, is pending and without owner again with one more retry,
  and only after that its message is made visible again.  It changes nothing only when the state table answered
  the update of this task with an error: a failed condition, and then the task was not being processed any
  more, or throttling.  No other task's row changes.\<close>

theorem expired_task_retried_or_failed:
  assumes "ttl_documented env tbl" and "process_expired_task env item s = Some (Inr (), s')"
  shows "\<exists>k row w1. item ''task_id'' = Some (PStr k) \<and>
     get_task_by_id (ttl_db env) k False (grid s) = Some (Inr (Some row), w1) \<and> tbl w1 = tbl (grid s) \<and>
     (\<forall>k'. k' \<noteq> k \<longrightarrow> tbl (grid s') k' = tbl (grid s) k') \<and>
     (if row_value row ''retries'' = PInt 5 then
        task_step (md5_int (ttl_db env)) (tbl (grid s)) (Finalize k TASK_STATE_FAILED) (tbl (grid s')) \<and>
        (\<exists>h w2. row_value row ''sqs_handler_id'' = PStr h \<and> tbl w2 = tbl (grid s) \<and>
           delete_message (ttl_sqs env) (ttl_queue env) h (row_value row ''task_priority'') w1 = Some (Inr (), w2))
      else \<exists>n. py_add (row_value row ''retries'') 1 = Inr n \<and>
        ((\<exists>q code m. upd_key q = k \<and> ddb_update_item (ttl_db env) q w1 = (Inl (ClientError code m), grid s') \<and>
            tbl (grid s') = tbl (grid s) \<and>
            (code = CONDITION_FAILED \<and> (\<forall>t'. \<not> task_step (md5_int (ttl_db env)) (tbl (grid s)) (Retry k n) t') \<or>
             code \<in> set throttling_codes)) \<or>
         (\<exists>h w2. task_step (md5_int (ttl_db env)) (tbl (grid s)) (Retry k n) (tbl w2) \<and> tbl (grid s') = tbl w2 \<and>
           row_value row ''sqs_handler_id'' = PStr h \<and> change_visibility (ttl_sqs env) (ttl_queue env) h 0
             (row_value row ''task_priority'') w2 = Some (Inr (), grid s'))))"
proof -
  have d: "ddb_documented (ttl_db env) tbl" "sqs_keeps (ttl_sqs env) tbl"
    using assms(1) by (simp_all add: ttl_documented_def)
  let ?md5 = "md5_int (ttl_db env)"
  from assms(2) obtain k row w1 where k: "item ''task_id'' = Some (PStr k)"
    and row: "get_task_by_id (ttl_db env) k False (grid s) = Some (Inr (Some row), w1)"
    and rest: "(if row_value row ''retries'' = PInt MAX_RETRIES then
         io_then (count_event ''counter_failed_tasks'' 1) (on_grid (fail_task env k
           (row_value row ''sqs_handler_id'') (row_value row ''task_priority'')))
       else
         io_bind (io_of (py_add (row_value row ''retries'') 1)) (\<lambda>new_retry_count.
         io_bind (on_grid (do_retry_task env k new_retry_count)) (\<lambda>retried.
           if retried then
             io_then (count_event ''counter_retried_tasks'' 1) (reset_retried_task env
               (row_value row ''sqs_handler_id'') (row_value row ''task_priority''))
           else io_return ()))) (s\<lparr>grid := w1\<rparr>) = Some (Inr (), s')"
    by (auto simp: process_expired_task_def retreive_retries_and_task_handler_and_priority_def io_bind_Inr
        on_grid_Some item_task_id_def split: option.splits pyval.splits)
  have t1: "tbl w1 = tbl (grid s)" by (rule keepsD [OF get_task_by_id_keeps [OF d(1)] row])
  show ?thesis
  proof (cases "row_value row ''retries'' = PInt 5")
    case True
    with rest obtain s2 w3 where
      c: "count_event ''counter_failed_tasks'' 1 (s\<lparr>grid := w1\<rparr>) = Some (Inr (), s2)"
      and f: "fail_task env k (row_value row ''sqs_handler_id'') (row_value row ''task_priority'') (grid s2) =
        Some (Inr (), w3)" and s': "s' = s2\<lparr>grid := w3\<rparr>"
      by (auto simp: MAX_RETRIES_def io_then_Inr on_grid_Some)
    from count_event_grid [OF c] have g: "grid s2 = w1" by simp
    from fail_task_Inr [OF d f] obtain h w2 where h: "row_value row ''sqs_handler_id'' = PStr h"
      "delete_message (ttl_sqs env) (ttl_queue env) h (row_value row ''task_priority'') w1 = Some (Inr (), w2)"
      and step: "task_step ?md5 (tbl (grid s)) (Finalize k TASK_STATE_FAILED) (tbl (grid s'))"
      by (auto simp: g s' t1)
    have "\<forall>k'. k' \<noteq> k \<longrightarrow> tbl (grid s') k' = tbl (grid s) k'" using task_step_other [OF step] by simp
    moreover have "tbl w2 = tbl (grid s)" using keepsD [OF grid_queue.op_keeps(2) [OF d(2)] h(2)] t1 by simp
    ultimately show ?thesis using k row True h step t1 by auto
  next
    case False
    with rest obtain n b w2 where n: "py_add (row_value row ''retries'') 1 = Inr n"
      and r: "do_retry_task env k n w1 = Some (Inr b, w2)"
      and c: "(if b then io_then (count_event ''counter_retried_tasks'' 1) (reset_retried_task env
               (row_value row ''sqs_handler_id'') (row_value row ''task_priority''))
           else io_return ()) (s\<lparr>grid := w2\<rparr>) = Some (Inr (), s')"
      by (auto simp: MAX_RETRIES_def io_bind_Inr on_grid_Some)
    show ?thesis
    proof (cases b)
      case True
      with c obtain s2 where "count_event ''counter_retried_tasks'' 1 (s\<lparr>grid := w2\<rparr>) = Some (Inr (), s2)"
        and v: "reset_retried_task env (row_value row ''sqs_handler_id'') (row_value row ''task_priority'') s2 =
          Some (Inr (), s')" by (auto simp: io_then_Inr)
      then have g: "grid s2 = w2" by (auto dest: count_event_grid)
      from reset_retried_Inr [OF v] obtain h where h: "row_value row ''sqs_handler_id'' = PStr h"
        "change_visibility (ttl_sqs env) (ttl_queue env) h 0 (row_value row ''task_priority'') w2 =
          Some (Inr (), grid s')" by (auto simp: g)
      have same: "tbl (grid s') = tbl w2" by (rule keepsD [OF grid_queue.op_keeps(3) [OF d(2)] h(2)])
      have step: "task_step ?md5 (tbl (grid s)) (Retry k n) (tbl w2)"
        using do_retry_outcome [OF d(1) r] True by (simp add: t1)
      have "\<forall>k'. k' \<noteq> k \<longrightarrow> tbl (grid s') k' = tbl (grid s) k'" using task_step_other [OF step] same by simp
      with k row False n h step same t1 show ?thesis by auto
    next
      case b: False
      with c have "grid s' = w2" by auto
      with do_retry_outcome [OF d(1) r] b n k row False t1 show ?thesis by auto
    qed
  qed
qed

text \<open>C28. However a run of the TTL lambda ends, all it has done to the table is to retry tasks that were
  being processed and to fail tasks: the table of a grid stays one the grid can reach, and no task
  is claimed, finished, cancelled or created by it.\<close>

theorem ttl_run_retries_and_fails:
  assumes "ttl_documented env tbl" and "ttl_checker_handler env s = Some (r, s')"
    and "reachable (md5_int (ttl_db env)) (tbl (grid s))"
  shows "(\<exists>es. list_all ttl_event es \<and> task_run (md5_int (ttl_db env)) (tbl (grid s)) es (tbl (grid s'))) \<and>
     reachable (md5_int (ttl_db env)) (tbl (grid s')) \<and> table_ok (md5_int (ttl_db env)) (tbl (grid s'))"
proof -
  note ev = ttl_checker_evolves [OF assms(1)]
  have "reachable (md5_int (ttl_db env)) ((tbl \<circ> grid) s')"
    by (rule evolves_reachable [OF ev ttl_event_ok assms(2)]) (use assms(3) in simp_all)
  with evolvesD [OF ev assms(2)] show ?thesis by (auto intro: reachable_table_ok)
qed

text \<open>A task whose message cannot be made visible again stops the whole run: the queue reports the error as
  \<open>TaskQueueException\<close>, which the handler for \<open>ClientError\<close> around the call does not catch, so the
  failure is not counted, the run raises, and the expired tasks after it are not looked at.\<close>

theorem vto_reset_failure_aborts:
  assumes "item ''task_id'' = Some (PStr k)"
    and "get_task_by_id (ttl_db env) k False (grid s) = Some (Inr (Some row), w1)"
    and "row_value row ''retries'' = PInt n" and "n \<noteq> MAX_RETRIES"
    and "row_value row ''sqs_handler_id'' = PStr h"
    and "do_retry_task env k (n + 1) w1 = Some (Inr True, w2)"
    and "change_visibility (ttl_sqs env) (ttl_queue env) h 0 (row_value row ''task_priority'') w2 = Some (Inl e, w3)"
    and "increment ''counter_retried_tasks'' 1 (events s) = Inr c"
  shows "io_foreach (item # items) (process_expired_task env) s =
     Some (Inl TaskQueueException, s\<lparr>grid := w3, events := c\<rparr>)"
proof -
  from grid_queue.change_raises [OF assms(7)] have e: "e = TaskQueueException" .
  show ?thesis
    using assms(1-6,8) assms(7) [unfolded e]
    by (simp add: io_apply process_expired_task_def item_task_id_def
        retreive_retries_and_task_handler_and_priority_def on_grid_def py_add_def count_event_def
        reset_retried_task_def reset_task_msg_vto_def handle_text_def)
qed

section \<open>The TTL lambda on the services in memory\<close>

definition mem_ttl_env :: "mem_grid sqs \<Rightarrow> mem_grid ttl_env" where
  "mem_ttl_env sqs = \<lparr>ttl_db = mem_ddb, ttl_host = mem_host, ttl_sqs = sqs, ttl_queue = QueueSQS ''tasks'',
     ttl_metrics = mem_metrics, throttled_sums = (\<lambda>w. (Inr [], w))\<rparr>"

lemma mem_ttl_env_simps [simp]:
  "ttl_db (mem_ttl_env sqs) = mem_ddb" "ttl_sqs (mem_ttl_env sqs) = sqs" "ttl_queue (mem_ttl_env sqs) = QueueSQS ''tasks''"
  by (simp_all add: mem_ttl_env_def)

lemma mem_ttl_documented: "ttl_documented (mem_ttl_env mem_sqs) mem_table"
proof -
  have "sqs_keeps (mem_sqs :: mem_grid sqs) (mem_table :: mem_grid \<Rightarrow> table)"
    by (auto simp: sqs_keeps_def keeps_def mem_table_def)
  then show ?thesis
    by (simp add: ttl_documented_def mem_ddb_documented mem_ttl_env_def mem_host_keeps mem_metrics_keeps)
      (simp add: keeps_def)
qed

text \<open>A table with one task that is being processed, and its message.\<close>

definition expired_task :: "int \<Rightarrow> item" where
  "expired_task n = (owned_row ''s_1'' TASK_STATE_PROCESSING ''a'')(''retries'' \<mapsto> PInt n,
     ''sqs_handler_id'' \<mapsto> PStr ''m'', ''task_priority'' \<mapsto> PInt 0)"

definition ttl_state :: "int \<Rightarrow> mem_grid metered" where
  "ttl_state n = \<lparr>grid = \<lparr>mem_rows = [(''s_1'', expired_task n)], mem_faults = [], mem_clock = 0,
       mem_msgs = (\<lambda>q. [''m''])\<rparr>,
     perf = Tracker (PerformanceTracker None), events = EventsCounter ttl_counters\<rparr>"

lemma ttl_state_read:
  "get_task_by_id mem_ddb ''s_1'' False (grid (ttl_state n)) = Some (Inr (Some (expired_task n)), grid (ttl_state n))"
  by (simp add: get_task_by_id_def io_apply mem_query_def base_rows_def ttl_state_def)

lemma get_queue_length_returns: "returns (get_queue_length sqs q)"
proof (cases q)
  case (QueuePrioritySQS pq)
  have "returns (sum_queue_lengths sqs pq ps n)" for ps n
  proof (induction ps arbitrary: n)
    case Nil
    show ?case unfolding sum_queue_lengths.simps by (rule returns_return)
  next
    case (Cons p ps)
    then show ?case by (cases "priority_to_queue_lookup pq p")
        (auto simp del: io_raise_apply intro!: returns_bind single_returns)
  qed
  with QueuePrioritySQS show ?thesis by (simp add: priority_get_queue_length_def)
qed simp

lemma state_op_returns [simp]:
  "returns (retry_task db k n)" "returns (finalize_tasks_state db k st)" "returns (get_task_by_id db k c)"
  "returns (get_expired_tasks_for_partition db host p)"
  unfolding retry_task_def finalize_tasks_state_def get_expired_tasks_for_partition_def
  by (auto simp del: io_raise_apply io_return_apply intro!: returns_catch returns_bind get_task_by_id_returns
      split: exn.splits)

lemma process_expired_task_returns [simp]: "returns (process_expired_task env item)"
proof -
  have r: "returns (do_retry_task env k n)" for k n
    unfolding do_retry_task_def by (auto simp del: io_raise_apply io_return_apply
        intro!: returns_catch returns_then split: exn.splits)
  have f: "returns (fail_task env k h p)" for k h p
    unfolding fail_task_def delete_message_from_queue_def update_task_status_to_failed_def
    by (auto intro!: returns_then returns_bind grid_queue.delete_returns)
  have v: "returns (reset_retried_task env h p)" for h p
    unfolding reset_retried_task_def reset_task_msg_vto_def
    by (auto simp del: io_raise_apply intro!: returns_catch on_grid_returns returns_bind grid_queue.change_returns
        split: exn.splits)
  have g: "returns (retreive_retries_and_task_handler_and_priority env k)" for k
    unfolding retreive_retries_and_task_handler_and_priority_def
    by (auto simp del: io_raise_apply io_return_apply intro!: returns_bind split: option.splits)
  show ?thesis unfolding process_expired_task_def
    by (auto simp del: io_return_apply intro!: returns_bind returns_then on_grid_returns r f v g)
qed

lemma ttl_checker_returns: "returns (ttl_checker_handler env)"
proof -
  have "returns (check_expired_tasks env)"
    unfolding check_expired_tasks_def is_state_table_under_throttling_def expired_loop_def process_expired_tasks_def
    by (auto simp del: io_return_apply intro!: returns_bind returns_then returns_foreach on_grid_returns
        get_queue_length_returns)
  then show ?thesis unfolding ttl_checker_handler_def
    by (intro returns_bind returns_then on_grid_returns) auto
qed

lemma ttl_five_fails:
  "case process_expired_task (mem_ttl_env mem_sqs) (expired_task 5) (ttl_state 5) of
     Some (Inr u, s) \<Rightarrow> True | _ \<Rightarrow> False"
  by code_simp

theorem expired_task_retried_or_failed_witness:
  "\<exists>s'. process_expired_task (mem_ttl_env mem_sqs) (expired_task 5) (ttl_state 5) = Some (Inr (), s') \<and>
     in_state length (mem_table (grid s')) ''s_1'' TASK_STATE_FAILED"
proof -
  obtain s' where run: "process_expired_task (mem_ttl_env mem_sqs) (expired_task 5) (ttl_state 5) = Some (Inr (), s')"
    using ttl_five_fails by (auto split: option.splits sum.splits)
  have k: "expired_task 5 ''task_id'' = Some (PStr ''s_1'')" "row_value (expired_task 5) ''retries'' = PInt 5"
    by (simp_all add: expired_task_def owned_row_def row_value_def)
  from expired_task_retried_or_failed [OF mem_ttl_documented run] k ttl_state_read [of 5]
  have "task_step length (mem_table (grid (ttl_state 5))) (Finalize ''s_1'' TASK_STATE_FAILED) (mem_table (grid s'))"
    by auto
  with run show ?thesis by (auto simp: task_step_simps row_defs)
qed

definition submitted_claimed :: item where
  "submitted_claimed = (pending_row ''s_1'')(''task_owner'' \<mapsto> PStr ''a'',
     ''task_status'' \<mapsto> PStr (make_task_state_from_task_id length TASK_STATE_PROCESSING ''s_1''),
     ''heartbeat_expiration_timestamp'' \<mapsto> PInt (- 1), ''sqs_handler_id'' \<mapsto> PStr ''m'')"

lemma submitted_claimed_reachable: "reachable length [''s_1'' \<mapsto> submitted_claimed]"
proof -
  have k: "item_key (pending_row ''s_1'') = ''s_1''" by (simp add: item_key_def pending_row_def)
  have "task_step length Map.empty (Submit [pending_row ''s_1'']) [''s_1'' \<mapsto> pending_row ''s_1'']"
    using submit [of length Map.empty "[pending_row ''s_1'']"] by (simp add: k)
  moreover have "event_ok length (Submit [pending_row ''s_1''])"
    by (simp add: submitted_row_def k) (simp add: pending_row_def)
  ultimately have "reachable length [''s_1'' \<mapsto> pending_row ''s_1'']" by (rule step_table [OF empty_table])
  moreover have "task_step length [''s_1'' \<mapsto> pending_row ''s_1''] (Claim ''s_1'' ''m'' ''a'' (- 1))
      [''s_1'' \<mapsto> submitted_claimed]"
    by (auto simp: task_step_simps row_defs pending_row_def submitted_claimed_def)
  ultimately show ?thesis by (rule step_table) simp
qed

definition claimed_state :: "mem_grid metered" where
  "claimed_state = (ttl_state 0)\<lparr>grid := (grid (ttl_state 0))\<lparr>mem_rows := [(''s_1'', submitted_claimed)]\<rparr>\<rparr>"

theorem ttl_run_retries_and_fails_witness:
  "\<exists>r s'. ttl_checker_handler (mem_ttl_env mem_sqs) claimed_state = Some (r, s') \<and>
     reachable length (mem_table (grid s'))"
proof -
  obtain r s' where run: "ttl_checker_handler (mem_ttl_env mem_sqs) claimed_state = Some (r, s')"
    using ttl_checker_returns [of "mem_ttl_env mem_sqs"] by (fastforce simp: returns_def)
  have "reachable (md5_int (ttl_db (mem_ttl_env mem_sqs))) (mem_table (grid claimed_state))"
    using submitted_claimed_reachable by (simp add: mem_table_def claimed_state_def)
  from ttl_run_retries_and_fails [OF mem_ttl_documented run this] run show ?thesis by auto
qed

definition broken_visibility :: "mem_grid sqs" where
  "broken_visibility = mem_sqs\<lparr>sqs_change_visibility := (\<lambda>q h t w. (Inl (ClientError ''InvalidParameterValue'' ''expired''), w))\<rparr>"

lemma ttl_retries:
  "\<exists>w2. do_retry_task (mem_ttl_env broken_visibility) ''s_1'' (0 + 1) (grid (ttl_state 0)) = Some (Inr True, w2)"
  by (simp add: do_retry_task_def retry_task_def io_apply mem_update_def ttl_state_def expired_task_def owned_row_def Let_def)

theorem vto_reset_failure_aborts_witness:
  "\<exists>s'. io_foreach [expired_task 0, expired_task 0] (process_expired_task (mem_ttl_env broken_visibility)) (ttl_state 0) =
     Some (Inl TaskQueueException, s')"
proof -
  obtain w2 where r: "do_retry_task (mem_ttl_env broken_visibility) ''s_1'' (0 + 1) (grid (ttl_state 0)) = Some (Inr True, w2)"
    using ttl_retries by blast
  obtain c where c: "increment ''counter_retried_tasks'' 1 (events (ttl_state 0)) = Inr c"
    by (simp add: ttl_state_def increment_def EventsCounter_def counter_reset_def ttl_counters_def initial_count_def
        str_startswith_def)
  have k: "expired_task 0 ''task_id'' = Some (PStr ''s_1'')" "row_value (expired_task 0) ''retries'' = PInt 0"
    "row_value (expired_task 0) ''sqs_handler_id'' = PStr ''m''"
    by (simp_all add: expired_task_def owned_row_def row_value_def)
  have v: "change_visibility (ttl_sqs (mem_ttl_env broken_visibility)) (ttl_queue (mem_ttl_env broken_visibility)) ''m'' 0
      (row_value (expired_task 0) ''task_priority'') w2 = Some (Inl TaskQueueException, w2)"
    by (simp add: single_change_visibility_def wrap_queue_error_def io_apply broken_visibility_def)
  have n: "(0 :: int) \<noteq> MAX_RETRIES" by (simp add: MAX_RETRIES_def)
  have read: "get_task_by_id (ttl_db (mem_ttl_env broken_visibility)) ''s_1'' False (grid (ttl_state 0)) =
      Some (Inr (Some (expired_task 0)), grid (ttl_state 0))" using ttl_state_read [of 0] by simp
  from vto_reset_failure_aborts [where env = "mem_ttl_env broken_visibility" and s = "ttl_state 0" and n = 0
      and row = "expired_task 0" and item = "expired_task 0", OF k(1) read k(2) n k(3) r v c, of "[expired_task 0]"]
  show ?thesis by auto
qed

end
