(* ===== verification/Connector.thy ===== *)
theory Connector
  imports Lambdas DataPlaneLaws DynamoTable
begin

text \<open>
  The client library \<open>source/client/python/api-v0.1/api/connector.py\<close>: the class \<open>AWSConnector\<close>, method by
  method.  The data plane is the one of \<open>in_out_manager.py\<close>; Cognito, the scheduler of background jobs, the generated
  HTTP client of the API gateway, the clock and \<open>uuid1\<close> are parameters.  An answer of the API is the dictionary that
  its JSON describes.  \<open>except ApiException\<close> only logs and raises the exception again.  Left out: logging, the boto3
  constructors and attributes that are never read.
\<close>

section \<open>The object\<close>

text \<open>What the code sets of the generated class \<open>Configuration\<close>.\<close>

record configuration =
  config_host :: pyval
  config_api_key :: "(string \<times> pyval) list"

record 'w connector_env =
  con_storage :: "'w storage"
  con_host :: "'w host"
  con_sleep :: "pyval \<Rightarrow> 'w \<Rightarrow> (exn + unit) \<times> 'w"
  con_uuid1 :: "'w \<Rightarrow> string \<times> 'w"
  INTRA_VPC :: bool \<comment> \<open>whether the environment variable is set to a text that is not empty\<close>
  warrant_authenticate :: "string \<Rightarrow> string \<Rightarrow> pyval \<Rightarrow> pyval \<Rightarrow> 'w \<Rightarrow> (exn + pyval) \<times> 'w"
  initiate_auth :: "pyval \<Rightarrow> pyval \<Rightarrow> 'w \<Rightarrow> (exn + pyval) \<times> 'w"
  scheduler_new :: "'w \<Rightarrow> 'w"
  scheduler_add_refresh :: "int \<Rightarrow> 'w \<Rightarrow> (exn + unit) \<times> 'w"
  scheduler_start :: "'w \<Rightarrow> (exn + unit) \<times> 'w"
  submit_post :: "configuration option \<Rightarrow> string \<Rightarrow> 'w \<Rightarrow> (exn + pyval) \<times> 'w"
  result_get :: "configuration option \<Rightarrow> string \<Rightarrow> 'w \<Rightarrow> (exn + pyval) \<times> 'w"
  cancel_post :: "configuration option \<Rightarrow> string \<Rightarrow> 'w \<Rightarrow> (exn + pyval) \<times> 'w"

record 'w connector =
  con_world :: 'w
  con_iom :: "in_out option"
  api_gateway_endpoint :: pyval
  public_api_gateway_endpoint :: pyval
  private_api_gateway_endpoint :: pyval
  gateway_api_key :: pyval
  user_pool_id :: pyval
  user_pool_client_id :: pyval
  con_username :: string
  con_password :: string
  dynamodb_results_pull_intervall :: pyval
  input_via_external_storage :: pyval
  user_token_id :: pyval
  user_refresh_token :: pyval
  has_cognito_client :: bool
  intra_vpc :: bool
  has_scheduler :: bool
  con_configuration :: "configuration option"

definition on_client :: "('w, 'a) io \<Rightarrow> ('w connector, 'a) io" where
  "on_client m = io_zoom con_world (\<lambda>w s. s\<lparr>con_world := w\<rparr>) m"

definition TASK_TIMEOUT_SEC :: int where "TASK_TIMEOUT_SEC = 3600"
definition RETRY_COUNT :: int where "RETRY_COUNT = 5"
definition TOKEK_REFRESH_INTERVAL_SEC :: int where "TOKEK_REFRESH_INTERVAL_SEC = 200"

definition new_session_id :: "'w connector_env \<Rightarrow> ('w connector, string) io" where
  "new_session_id env = on_client (io_read (con_uuid1 env))"

text \<open>\<open>AWSConnector()\<close>.\<close>

definition new_connector :: "'w \<Rightarrow> 'w connector" where
  "new_connector w = \<lparr>con_world = w, con_iom = None, api_gateway_endpoint = PStr [],
     public_api_gateway_endpoint = PStr [], private_api_gateway_endpoint = PStr [], gateway_api_key = PStr [],
     user_pool_id = PStr [], user_pool_client_id = PStr [], con_username = [], con_password = [],
     dynamodb_results_pull_intervall = PStr [], input_via_external_storage = PStr [], user_token_id = PNone,
     user_refresh_token = PNone, has_cognito_client = False, intra_vpc = False, has_scheduler = False,
     con_configuration = None\<rparr>"

section \<open>Configuration and authentication\<close>

text \<open>\<open>self.in_out_manager = in_out_manager(...)\<close>; names of services and buckets are texts.\<close>

definition connect_storage :: "pyval \<Rightarrow> exn + in_out" where
  "connect_storage agent_config_data =
     bind_result (map_result (py_index agent_config_data) [''grid_storage_service'', ''s3_bucket'', ''redis_url'',
        ''redis_password'', ''s3_kms_key_id'', ''region'']) (\<lambda>vs.
       in_out_manager (py_str (vs ! 0)) (py_str (vs ! 1))
         (case vs ! 4 of PStr k \<Rightarrow> Some k | _ \<Rightarrow> None))"

definition connector_init ::
  "'w connector_env \<Rightarrow> pyval \<Rightarrow> string \<Rightarrow> string \<Rightarrow> ('w connector, unit) io" where
  "connector_init env agent_config_data username password =
     io_bind (io_of (connect_storage agent_config_data)) (\<lambda>iom.
     io_then (io_modify (\<lambda>s. s\<lparr>con_iom := Some iom, api_gateway_endpoint := PStr []\<rparr>))
     (io_bind (io_of (py_index agent_config_data ''public_api_gateway_url'')) (\<lambda>public.
      io_then (io_modify (\<lambda>s. s\<lparr>public_api_gateway_endpoint := public\<rparr>))
     (io_bind (io_of (py_index agent_config_data ''private_api_gateway_url'')) (\<lambda>private.
      io_then (io_modify (\<lambda>s. s\<lparr>private_api_gateway_endpoint := private\<rparr>))
     (io_bind (io_of (py_index agent_config_data ''api_gateway_key'')) (\<lambda>key.
      io_then (io_modify (\<lambda>s. s\<lparr>gateway_api_key := key\<rparr>))
     (io_bind (io_of (py_index agent_config_data ''user_pool_id'')) (\<lambda>pool.
      io_then (io_modify (\<lambda>s. s\<lparr>user_pool_id := pool\<rparr>))
     (io_bind (io_of (py_index agent_config_data ''cognito_userpool_client_id'')) (\<lambda>client_id.
      io_then (io_modify (\<lambda>s. s\<lparr>user_pool_client_id := client_id, con_username := username, con_password := password\<rparr>))
     (io_bind (io_of (py_index agent_config_data ''dynamodb_results_pull_interval_sec'')) (\<lambda>interval.
      io_then (io_modify (\<lambda>s. s\<lparr>dynamodb_results_pull_intervall := interval\<rparr>))
     (io_bind (io_of (py_index agent_config_data ''task_input_passed_via_external_storage'')) (\<lambda>external.
      io_then (io_modify (\<lambda>s. s\<lparr>input_via_external_storage := external, user_token_id := PNone,
        has_cognito_client := True, intra_vpc := INTRA_VPC env,
        api_gateway_endpoint := (if INTRA_VPC env then private else public),
        con_configuration := Some \<lparr>config_host = (if INTRA_VPC env then private else public),
          config_api_key = (if INTRA_VPC env then [(''api_key'', key)] else [])\<rparr>,
        has_scheduler := True\<rparr>))
     (on_client (io_modify (scheduler_new env))))))))))))))))))"

definition connector_refresh :: "'w connector_env \<Rightarrow> ('w connector, unit) io" where
  "connector_refresh env = io_catch
     (io_bind (io_get has_cognito_client) (\<lambda>has_client. if \<not> has_client then io_raise AttributeError
      else io_bind (io_get user_pool_client_id) (\<lambda>client_id.
      io_bind (io_get user_refresh_token) (\<lambda>token.
      io_bind (on_client (io_call (initiate_auth env client_id token))) (\<lambda>tokens.
      io_bind (io_of (py_path tokens [''AuthenticationResult'', ''IdToken''])) (\<lambda>id_token.
        io_modify (\<lambda>s. s\<lparr>user_token_id := id_token\<rparr>)))))))
     (\<lambda>e. case e of ClientError code msg \<Rightarrow> io_return () | _ \<Rightarrow> io_raise e)"

text \<open>The body of the \<open>try\<close>, whose handler logs and raises again.\<close>

definition obtain_tokens :: "'w connector_env \<Rightarrow> ('w connector, unit) io" where
  "obtain_tokens env =
     io_bind (io_get (\<lambda>s. s)) (\<lambda>self.
     io_bind (on_client (io_call (warrant_authenticate env (con_username self) (con_password self) (user_pool_id self)
       (user_pool_client_id self)))) (\<lambda>tokens.
     io_bind (io_of (py_path tokens [''AuthenticationResult'', ''IdToken''])) (\<lambda>id_token.
     io_then (io_modify (\<lambda>s. s\<lparr>user_token_id := id_token\<rparr>))
     (io_bind (io_of (py_path tokens [''AuthenticationResult'', ''RefreshToken''])) (\<lambda>refresh_token.
      io_then (io_modify (\<lambda>s. s\<lparr>user_refresh_token := refresh_token\<rparr>))
     (if \<not> has_scheduler self then io_raise AttributeError
      else io_then (on_client (io_call (scheduler_add_refresh env TOKEK_REFRESH_INTERVAL_SEC)))
        (on_client (io_call (scheduler_start env)))))))))"

definition authenticate :: "'w connector_env \<Rightarrow> ('w connector, unit) io" where
  "authenticate env = io_bind (io_get intra_vpc) (\<lambda>private. if private then io_return ()
     else io_then (obtain_tokens env) (io_bind (io_get (\<lambda>s. s)) (\<lambda>self. case con_configuration self of
         None \<Rightarrow> io_raise AttributeError
       | Some c \<Rightarrow> io_modify (\<lambda>s. s\<lparr>con_configuration := Some (c\<lparr>config_api_key :=
           AList.update ''htc_cognito_authorizer'' (user_token_id self) (config_api_key c)\<rparr>)\<rparr>))))"

section \<open>Submitting\<close>

definition client_plane :: "('w connector, in_out) io" where
  "client_plane = io_bind (io_get con_iom) (\<lambda>iom. case iom of None \<Rightarrow> io_raise AttributeError | Some h \<Rightarrow> io_return h)"

definition by_external_storage :: "pyval \<Rightarrow> bool" where
  "by_external_storage v \<longleftrightarrow> v \<in> {PInt 1, PBool True}"

text \<open>One task of the loop: its input is stored under \<open>session_id + "_" + str(i)\<close>.\<close>

definition put_task_input :: "'w connector_env \<Rightarrow> string \<Rightarrow> nat \<times> pyval \<Rightarrow> ('w connector, string) io" where
  "put_task_input env session_id = (\<lambda>(i, data).
     let task_id = session_id @ ''_'' @ str_of_nat i; b64data = b64encode (utf8_encode (json_dumps data)) in
     io_bind client_plane (\<lambda>iom.
     io_then (on_client (put_input_from_bytes (con_storage env) iom task_id b64data)) (io_return task_id)))"

definition upload_tasks :: "'w connector_env \<Rightarrow> pyval \<Rightarrow> ('w connector, string \<times> string list) io" where
  "upload_tasks env tasks_list =
     io_bind (io_get input_via_external_storage) (\<lambda>external.
       if by_external_storage external then
         io_bind (new_session_id env) (\<lambda>session_id.
         io_bind (io_of (py_iter tasks_list)) (\<lambda>tasks.
         io_bind (io_mapM (put_task_input env session_id) (List.enumerate 0 tasks)) (\<lambda>binary_tasks_list.
           io_return (session_id, binary_tasks_list))))
       else io_return (''None'', []))"

definition stage :: "string \<Rightarrow> string \<Rightarrow> int \<Rightarrow> string \<times> pyval" where
  "stage name label t = (name, PDict [(''label'', PStr label), (''tstmp'', PInt t)])"

definition user_task_json :: "string \<Rightarrow> int \<Rightarrow> int \<Rightarrow> pyval \<Rightarrow> pyval" where
  "user_task_json session_id time_start_ms time_upload_ms tasks = PDict [
     (''session_id'', PStr session_id),
     (''scheduler_data'', PDict [
        (''task_timeout_sec'', PInt TASK_TIMEOUT_SEC), (''retry_count'', PInt RETRY_COUNT),
        (''tstamp_api_grid_connector_ms'', PInt 0), (''tstamp_agent_read_from_sqs_ms'', PInt 0)]),
     (''stats'', PDict [
        stage ''stage1_grid_api_01_task_creation_tstmp'' '' '' time_start_ms,
        stage ''stage1_grid_api_02_task_submission_tstmp'' ''upload_data_to_storage'' time_upload_ms,
        stage ''stage2_sbmtlmba_01_invocation_tstmp'' ''grid_api_2_lambda_ms'' 0,
        stage ''stage2_sbmtlmba_02_before_batch_write_tstmp'' ''task_construction_ms'' 0,
        stage ''stage3_agent_01_task_acquired_sqs_tstmp'' ''sqs_queuing_time_ms'' 0,
        stage ''stage3_agent_02_task_acquired_ddb_tstmp'' ''ddb_task_claiming_time_ms'' 0,
        stage ''stage4_agent_01_user_code_finished_tstmp'' ''user_code_exec_time_ms'' 0,
        stage ''stage4_agent_02_S3_stdout_delivered_tstmp'' ''S3_stdout_upload_time_ms'' 0]),
     (''tasks_list'', PDict [(''tasks'', tasks)])]"

definition generate_user_task_json :: "'w connector_env \<Rightarrow> pyval \<Rightarrow> ('w connector, pyval) io" where
  "generate_user_task_json env tasks_list =
     io_bind (on_client (time_now_ms (con_host env))) (\<lambda>time_start_ms.
     io_bind (upload_tasks env tasks_list) (\<lambda>(session_id, binary_tasks_list).
     io_bind (on_client (time_now_ms (con_host env))) (\<lambda>time_upload_ms.
     io_bind (io_get input_via_external_storage) (\<lambda>external.
       io_return (user_task_json session_id time_start_ms time_upload_ms
         (if by_external_storage external then PList (map PStr binary_tasks_list) else tasks_list))))))"

text \<open>The session id, a local variable, is bound only if inputs pass through external storage.\<close>

definition put_payload :: "'w connector_env \<Rightarrow> pyval \<Rightarrow> ('w connector, pyval option) io" where
  "put_payload env jobs =
     io_bind (io_get input_via_external_storage) (\<lambda>external.
       if by_external_storage external then
         io_bind (io_of (py_index jobs ''session_id'')) (\<lambda>session_id.
           if session_id = PNone \<or> session_id = PStr ''None''
           then io_raise (GenericException ''Invalid configuration : session id must be set'')
           else io_bind client_plane (\<lambda>iom.
             io_then (on_client (put_payload_from_bytes (con_storage env) iom (py_str session_id)
                 (urlsafe_b64encode (utf8_encode (json_dumps jobs)))))
               (io_return (Some session_id))))
       else io_return None)"

definition submit :: "'w connector_env \<Rightarrow> pyval \<Rightarrow> ('w connector, pyval) io" where
  "submit env jobs =
     io_bind (put_payload env jobs) (\<lambda>bound.
     io_bind (io_get con_configuration) (\<lambda>configuration. case bound of
         None \<Rightarrow> io_raise UnboundLocalError
       | Some session_id \<Rightarrow> on_client (io_call (submit_post env configuration (py_str session_id)))))"

text \<open>\<open>len(v)\<close>.\<close>

definition py_len :: "pyval \<Rightarrow> exn + nat" where
  "py_len v = (case v of
      PList xs \<Rightarrow> Inr (length xs) | PDict d \<Rightarrow> Inr (length d) | PStr s \<Rightarrow> Inr (length s) | _ \<Rightarrow> Inl TypeError)"

definition send :: "'w connector_env \<Rightarrow> pyval \<Rightarrow> ('w connector, pyval) io" where
  "send env tasks_list =
     io_then (io_of (bind_result (py_len tasks_list) (\<lambda>n. Inr ())))
     (io_bind (generate_user_task_json env tasks_list) (\<lambda>user_task_json_request.
        submit env user_task_json_request))"

section \<open>Results and cancellation\<close>

text \<open>The text of a request, the same for both.\<close>

definition submission_string :: "pyval \<Rightarrow> exn + string" where
  "submission_string v = utf8_decode (urlsafe_b64encode (utf8_encode (json_dumps v)))"

definition invoke_get_results_lambda :: "'w connector_env \<Rightarrow> pyval \<Rightarrow> ('w connector, pyval) io" where
  "invoke_get_results_lambda env session_id =
     io_bind (io_of (submission_string session_id)) (\<lambda>submission_payload_string.
     io_bind (io_get con_configuration) (\<lambda>configuration.
       on_client (io_call (result_get env configuration submission_payload_string))))"

definition connector_cancel_sessions :: "'w connector_env \<Rightarrow> pyval \<Rightarrow> ('w connector, pyval) io" where
  "connector_cancel_sessions env session_ids =
     io_bind (io_of (submission_string (PDict [(''session_ids_to_cancel'', session_ids)])))
       (\<lambda>submission_payload_string.
     io_bind (io_get con_configuration) (\<lambda>configuration.
       on_client (io_call (cancel_post env configuration submission_payload_string))))"

text \<open>\<open>cancel\<close> is not implemented.\<close>

definition connector_cancel :: "pyval \<Rightarrow> ('w connector, pyval) io" where
  "connector_cancel session_id = io_return PNone"

text \<open>\<open>v == n\<close> for an integer \<open>n\<close>; \<open>True\<close> and \<open>False\<close> are 1 and 0.\<close>

definition py_eq_int :: "pyval \<Rightarrow> int \<Rightarrow> bool" where
  "py_eq_int v n = (case v of PInt i \<Rightarrow> i = n | PBool b \<Rightarrow> (if b then 1 else 0) = n | _ \<Rightarrow> False)"

definition session_complete :: "pyval \<Rightarrow> nat \<Rightarrow> exn + bool" where
  "session_complete session_results session_tasks_count =
     bind_result (py_has session_results ''metadata'') (\<lambda>has.
       if has then bind_result (py_path session_results [''metadata'', ''tasks_in_response'']) (\<lambda>n.
         Inr (py_eq_int n (int session_tasks_count)))
       else Inr False)"

text \<open>\<open>0 < timeout_sec < time.time() - start_time\<close>; the clock is read only if the first part holds.\<close>

definition timed_out :: "'w connector_env \<Rightarrow> int \<Rightarrow> int \<Rightarrow> ('w connector, bool) io" where
  "timed_out env timeout_sec start_ms =
     (if 0 < timeout_sec
      then io_bind (on_client (time_now_ms (con_host env))) (\<lambda>now. io_return (1000 * timeout_sec < now - start_ms))
      else io_return False)"

definition results_round ::
  "'w connector_env \<Rightarrow> pyval \<Rightarrow> nat \<Rightarrow> int \<Rightarrow> int \<Rightarrow> ('w connector, pyval option) io" where
  "results_round env submission_response session_tasks_count timeout_sec start_ms =
     io_bind (io_of (py_index submission_response ''session_id'')) (\<lambda>session_id.
     io_bind (invoke_get_results_lambda env (PDict [(''session_id'', session_id)])) (\<lambda>session_results.
     io_bind (io_of (session_complete session_results session_tasks_count)) (\<lambda>complete.
       if complete then io_return (Some session_results)
       else io_bind (timed_out env timeout_sec start_ms) (\<lambda>over.
         if over then io_return (Some session_results)
         else io_bind (io_get dynamodb_results_pull_intervall) (\<lambda>interval.
           io_then (on_client (io_call (con_sleep env interval))) (io_return None))))))"

text \<open>\<open>session_results["finished_OUTPUT"][i] = output\<close>.\<close>

definition set_output :: "pyval \<Rightarrow> nat \<Rightarrow> string \<Rightarrow> exn + pyval" where
  "set_output session_results i output =
     bind_result (py_index session_results (TASK_STATE_FINISHED @ ''_OUTPUT'')) (\<lambda>outputs. case outputs of
         PList xs \<Rightarrow>
           if i < length xs then py_set session_results (TASK_STATE_FINISHED @ ''_OUTPUT'') (PList (xs[i := PStr output]))
           else Inl IndexError
       | _ \<Rightarrow> Inl TypeError)"

definition get_output :: "'w connector_env \<Rightarrow> pyval \<Rightarrow> ('w connector, string) io" where
  "get_output env completed_task =
     io_bind client_plane (\<lambda>iom.
     io_bind (on_client (get_output_to_bytes (con_storage env) iom (py_str completed_task))) (\<lambda>stdout_bytes.
       io_of (bind_result (b64decode stdout_bytes) utf8_decode)))"

primrec collect_outputs :: "'w connector_env \<Rightarrow> (nat \<times> pyval) list \<Rightarrow> pyval \<Rightarrow> ('w connector, pyval) io" where
  "collect_outputs env [] session_results = io_return session_results"
| "collect_outputs env (e # es) session_results =
     io_bind (get_output env (snd e)) (\<lambda>output.
     io_bind (io_of (set_output session_results (fst e) output)) (collect_outputs env es))"

definition get_results :: "'w connector_env \<Rightarrow> pyval \<Rightarrow> int \<Rightarrow> ('w connector, pyval) io" where
  "get_results env submission_response timeout_sec =
     io_bind (on_client (time_now_ms (con_host env))) (\<lambda>start_time.
     io_bind (io_of (bind_result (py_index submission_response ''task_ids'') py_len)) (\<lambda>session_tasks_count.
     io_bind (io_until (results_round env submission_response session_tasks_count timeout_sec start_time))
       (\<lambda>session_results.
     io_bind (io_of (bind_result (py_index session_results TASK_STATE_FINISHED) py_iter)) (\<lambda>completed_tasks.
       collect_outputs env (List.enumerate 0 completed_tasks) session_results))))"

end
