(* ===== verification/Agent.thy ===== *)
theory Agent
  imports SubmitProps TtlChecker TtlGenerator "HOL-Library.Sublist"
begin

text \<open>
  The agent \<open>source/compute_plane/python/agent/agent.py\<close>: the process next to every worker, which
  takes a message from the queue, claims its task in the state table, lets the worker's lambda
  function run it while it renews the claim, stores the output, marks the task finished and deletes
  the message.  The module's global objects are the state \<open>agent_state\<close>; its configuration, its
  clients and what the operating system does are the record \<open>agent_env\<close>.

  The two coroutines of \<open>run_task\<close> share one thread: the execution of the task starts first and
  waits for the worker; the heartbeat runs at once, then whenever its sleep is over and the worker
  has not answered yet.  An exception in the heartbeat cancels the waiting execution.

  Left out: logging, X-Ray, and \<open>do_task_local_execution_thread\<close>, which nothing calls.
\<close>

section \<open>Configuration and state\<close>

record 'w agent_env =
  ag_db :: "'w ddb"
  ag_host :: "'w host"
  ag_sqs :: "'w sqs"
  ag_storage :: "'w storage"
  ag_metrics :: "'w metrics"
  SELF_ID :: string
  work_proc_status_pull_interval_sec :: int
  agent_task_visibility_timeout_sec :: int
  task_input_passed_via_external_storage :: pyval
  lambda_start :: "string \<Rightarrow> 'w \<Rightarrow> 'w" \<comment> \<open>the invocation begins in a thread of its own\<close>
  lambda_poll :: "'w \<Rightarrow> (exn + string) option \<times> 'w" \<comment> \<open>one pull interval passes; the answer, if it came\<close>
  lambda_wait :: "'w \<Rightarrow> (exn + string) \<times> 'w" \<comment> \<open>until the answer comes\<close>
  process_iter :: "'w \<Rightarrow> (exn + (string \<times> nat) list) \<times> 'w" \<comment> \<open>names and ids\<close>
  process_terminate :: "nat \<Rightarrow> 'w \<Rightarrow> (exn + unit) \<times> 'w"
  kill_now :: "'w \<Rightarrow> bool \<times> 'w" \<comment> \<open>whether SIGTERM has been received\<close>
  backoff_sleep :: "'w \<Rightarrow> 'w" \<comment> \<open>between one and two back-off timeouts\<close>

record 'w agent_state =
  ag_world :: 'w
  stdout_iom :: in_out
  perf_tracker_pre :: tracker_object
  event_counter_pre :: events_counter
  perf_tracker_post :: tracker_object
  event_counter_post :: events_counter
  ttl_gen :: ttl_generator
  tasks_queue :: task_queue
  AGENT_EXEC_TIMESTAMP_MS :: int
  execution_is_completed_flag :: bool

text \<open>A computation on the world, and one on the world with the first or the second tracker.\<close>

definition on_world :: "('w, 'a) io \<Rightarrow> ('w agent_state, 'a) io" where
  "on_world m = io_zoom ag_world (\<lambda>w s. s\<lparr>ag_world := w\<rparr>) m"

definition on_pre :: "('w metered, 'a) io \<Rightarrow> ('w agent_state, 'a) io" where
  "on_pre m = io_zoom
     (\<lambda>s. \<lparr>grid = ag_world s, perf = perf_tracker_pre s, events = event_counter_pre s\<rparr>)
     (\<lambda>m s. s\<lparr>ag_world := grid m, perf_tracker_pre := perf m, event_counter_pre := events m\<rparr>) m"

definition on_post :: "('w metered, 'a) io \<Rightarrow> ('w agent_state, 'a) io" where
  "on_post m = io_zoom
     (\<lambda>s. \<lparr>grid = ag_world s, perf = perf_tracker_post s, events = event_counter_post s\<rparr>)
     (\<lambda>m s. s\<lparr>ag_world := grid m, perf_tracker_post := perf m, event_counter_post := events m\<rparr>) m"

definition get_time_now_ms :: "'w agent_env \<Rightarrow> ('w agent_state, int) io" where
  "get_time_now_ms env = on_world (time_now_ms (ag_host env))"

text \<open>The queue object of the module.\<close>

definition tasks_queue_receive :: "'w agent_env \<Rightarrow> ('w agent_state, message option) io" where
  "tasks_queue_receive env = io_bind (io_get tasks_queue) (\<lambda>q.
     io_bind (on_world (receive_message (ag_sqs env) q 10)) (\<lambda>(m, q').
       io_then (io_modify (\<lambda>s. s\<lparr>tasks_queue := q'\<rparr>)) (io_return m)))"

definition tasks_queue_delete :: "'w agent_env \<Rightarrow> string \<Rightarrow> ('w agent_state, unit) io" where
  "tasks_queue_delete env h = io_bind (io_get tasks_queue) (\<lambda>q.
     on_world (delete_message (ag_sqs env) q h PNone))"

definition tasks_queue_hide :: "'w agent_env \<Rightarrow> string \<Rightarrow> ('w agent_state, unit) io" where
  "tasks_queue_hide env h = io_bind (io_get tasks_queue) (\<lambda>q.
     on_world (change_visibility (ag_sqs env) q h (agent_task_visibility_timeout_sec env) PNone))"

text \<open>\<open>ttl_gen.generate_next_ttl().get_next_expiration_timestamp()\<close>.\<close>

definition next_expiration :: "'w agent_env \<Rightarrow> ('w agent_state, int) io" where
  "next_expiration env = io_bind (io_get ttl_gen) (\<lambda>g.
     io_bind (on_world (generate_next_ttl (ag_host env) g)) (\<lambda>g'.
       io_then (io_modify (\<lambda>s. s\<lparr>ttl_gen := g'\<rparr>)) (io_return (get_next_expiration_timestamp g'))))"

text \<open>\<open>task["task_id"]\<close> where the code needs a text.\<close>

definition task_id_of :: "pyval \<Rightarrow> exn + string" where
  "task_id_of task = bind_result (py_index task ''task_id'') session_text"

text \<open>\<open>task["stats"][event]["tstmp"] = t\<close>, and \<open>task["stats"]\<close> where the code needs a dictionary.\<close>

definition set_task_tstmp :: "pyval \<Rightarrow> string \<Rightarrow> int \<Rightarrow> exn + pyval" where
  "set_task_tstmp task event t = bind_result (py_index task ''stats'') (\<lambda>stats.
     bind_result (set_tstmp stats event t) (py_set task ''stats''))"

definition task_stats :: "pyval \<Rightarrow> exn + (string \<times> pyval) list" where
  "task_stats task = bind_result (py_index task ''stats'') (\<lambda>v. case v of
      PDict d \<Rightarrow> Inr d
    | _ \<Rightarrow> Inl AttributeError)"

text \<open>The module's objects, in the order they are made; the configuration file is the record.\<close>

record agent_config =
  cfg_task_queue_service :: string
  cfg_task_queue_config :: string
  cfg_tasks_queue_name :: string
  cfg_grid_storage_service :: string
  cfg_s3_bucket :: string
  cfg_metrics_are_enabled :: string
  cfg_metrics_pre_agent :: string
  cfg_metrics_post_agent :: string
  cfg_metrics_grafana_private_ip :: string
  cfg_task_ttl_refresh_interval_sec :: int
  cfg_task_ttl_expiration_offset_sec :: int

definition pre_counters :: "string list" where
  "pre_counters = [''agent_no_messages_in_tasks_queue'', ''agent_failed_to_claim_ddb_task'',
     ''agent_successful_acquire_a_task'', ''agent_auto_throttling_event'', ''rc_cubic_decrease_event'']"

definition post_counters :: "string list" where
  "post_counters = [''ddb_set_task_finished_failed'', ''ddb_set_task_finished_succeeded'',
     ''counter_update_ttl'', ''counter_update_ttl_failed'', ''counter_user_code_ret_code_failed'',
     ''bootstrap_failure'', ''task_exec_time_ms'', ''agent_total_time_ms'', ''str_pod_id'']"

definition agent_objects :: "'w sqs \<Rightarrow> 'w metrics \<Rightarrow> agent_config \<Rightarrow> ('w, 'w \<Rightarrow> 'w agent_state) io" where
  "agent_objects sqs mt cfg =
     io_bind (queue_manager sqs (cfg_task_queue_service cfg) (cfg_task_queue_config cfg)
       (cfg_tasks_queue_name cfg)) (\<lambda>q.
     io_bind (io_of (in_out_manager (cfg_grid_storage_service cfg) (cfg_s3_bucket cfg) None)) (\<lambda>iom.
     io_bind (performance_tracker_initializer mt (cfg_metrics_are_enabled cfg) (cfg_metrics_pre_agent cfg)
       (cfg_metrics_grafana_private_ip cfg)) (\<lambda>pre.
     io_bind (performance_tracker_initializer mt (cfg_metrics_are_enabled cfg) (cfg_metrics_post_agent cfg)
       (cfg_metrics_grafana_private_ip cfg)) (\<lambda>post.
     io_bind (io_of (TTLExpirationGenerator (cfg_task_ttl_refresh_interval_sec cfg)
       (cfg_task_ttl_expiration_offset_sec cfg))) (\<lambda>ttl.
     io_return (\<lambda>w. \<lparr>ag_world = w, stdout_iom = iom,
       perf_tracker_pre = pre, event_counter_pre = EventsCounter pre_counters,
       perf_tracker_post = post, event_counter_post = EventsCounter post_counters,
       ttl_gen = ttl, tasks_queue = q, AGENT_EXEC_TIMESTAMP_MS = 0,
       execution_is_completed_flag = False\<rparr>))))))"

section \<open>Taking a task\<close>

definition is_task_has_been_cancelled :: "'w agent_env \<Rightarrow> string \<Rightarrow> ('w agent_state, bool) io" where
  "is_task_has_been_cancelled env task_id =
     io_bind (on_world (get_task_by_id (ag_db env) task_id True)) (\<lambda>task_row. case task_row of
         None \<Rightarrow> io_return False
       | Some row \<Rightarrow> io_bind (io_of (row_text row ''task_status'')) (\<lambda>status.
           io_return (str_startswith status TASK_STATE_CANCELLED)))"

text \<open>
  The \<open>try\<close> statement: whether the agent goes on with the task.  A \<open>StateTableException\<close> without
  a flag falls through the handler.
\<close>

definition claim_lost :: "'w agent_env \<Rightarrow> string \<Rightarrow> string \<Rightarrow> ('w agent_state, bool) io" where
  "claim_lost env task_id handle =
     io_then (on_pre (count_event ''agent_failed_to_claim_ddb_task'' 1))
     (io_bind (is_task_has_been_cancelled env task_id) (\<lambda>cancelled.
        if cancelled then io_then (tasks_queue_delete env handle) (io_return False)
        else io_bind (on_world (random_int (ag_host env) 1 3)) (\<lambda>sec.
          io_then (on_world (time_sleep (ag_host env) sec)) (io_return False))))"

definition claim_received :: "'w agent_env \<Rightarrow> pyval \<Rightarrow> string \<Rightarrow> ('w agent_state, bool) io" where
  "claim_received env task handle = io_catch
     (io_then (io_of (bind_result (py_index task ''task_id'') (\<lambda>_. Inr ())))
     (io_bind (next_expiration env) (\<lambda>expiration.
      io_bind (io_of (task_id_of task)) (\<lambda>task_id.
      io_bind (on_world (claim_task_for_agent (ag_db env) task_id handle (SELF_ID env) expiration))
        (\<lambda>claim_result. io_return True)))))
     (\<lambda>e. case e of
        StateTableException caused_by_throttling caused_by_condition \<Rightarrow>
          if caused_by_condition \<or> caused_by_throttling
          then io_bind (io_of (task_id_of task)) (\<lambda>task_id. claim_lost env task_id handle)
          else io_return True
      | _ \<Rightarrow> io_raise e)"

definition load_message :: "message \<Rightarrow> exn + pyval" where
  "load_message message = bind_result (json_loads (msg_body message)) (\<lambda>task.
     py_set task ''sqs_handle_id'' (PStr (message_handle_id message)))"

definition acquire_task ::
  "'w agent_env \<Rightarrow> message \<Rightarrow> int \<Rightarrow> pyval \<Rightarrow> ('w agent_state, (message \<times> pyval) option) io" where
  "acquire_task env message task_pick_up_from_sqs_ms task =
     io_bind (claim_received env task (message_handle_id message)) (\<lambda>go_on.
       if \<not> go_on then io_return None
       else
         io_then (tasks_queue_hide env (message_handle_id message))
         (io_bind (io_of (set_task_tstmp task ''stage3_agent_01_task_acquired_sqs_tstmp''
             task_pick_up_from_sqs_ms)) (\<lambda>task.
          io_bind (get_time_now_ms env) (\<lambda>now.
          io_bind (io_of (set_task_tstmp task ''stage3_agent_02_task_acquired_ddb_tstmp'' now)) (\<lambda>task.
          io_then (on_pre (count_event ''agent_successful_acquire_a_task'' 1))
            (io_return (Some (message, task))))))))"

definition acquire_received ::
  "'w agent_env \<Rightarrow> message \<Rightarrow> int \<Rightarrow> ('w agent_state, (message \<times> pyval) option) io" where
  "acquire_received env message task_pick_up_from_sqs_ms =
     io_bind (get_time_now_ms env) (\<lambda>now.
     io_then (io_modify (\<lambda>s. s\<lparr>AGENT_EXEC_TIMESTAMP_MS := now\<rparr>))
     (io_bind (io_of (load_message message)) (acquire_task env message task_pick_up_from_sqs_ms)))"

definition try_to_acquire_a_task :: "'w agent_env \<Rightarrow> ('w agent_state, (message \<times> pyval) option) io" where
  "try_to_acquire_a_task env =
     io_bind (tasks_queue_receive env) (\<lambda>message.
     io_bind (get_time_now_ms env) (\<lambda>task_pick_up_from_sqs_ms. case message of
         None \<Rightarrow> io_then (on_pre (count_event ''agent_no_messages_in_tasks_queue'' 1)) (io_return None)
       | Some message \<Rightarrow> acquire_received env message task_pick_up_from_sqs_ms))"

section \<open>Measurements\<close>

definition submit_post_agent_measurements :: "'w agent_env \<Rightarrow> pyval \<Rightarrow> ('w agent_state, unit) io" where
  "submit_post_agent_measurements env task =
     io_bind (io_of (task_stats task)) (\<lambda>stats.
     io_then (on_post (add_metric_sample (ag_metrics env) stats
        ''stage3_agent_02_task_acquired_ddb_tstmp'' ''stage4_agent_02_S3_stdout_delivered_tstmp''))
       (on_post (submit_measurements (ag_metrics env) (ag_host env))))"

definition submit_pre_agent_measurements :: "'w agent_env \<Rightarrow> pyval \<Rightarrow> ('w agent_state, unit) io" where
  "submit_pre_agent_measurements env task =
     io_bind (io_of (task_stats task)) (\<lambda>stats.
     io_then (on_pre (add_metric_sample (ag_metrics env) stats
        ''stage2_sbmtlmba_02_before_batch_write_tstmp'' ''stage3_agent_02_task_acquired_ddb_tstmp''))
       (on_pre (submit_measurements (ag_metrics env) (ag_host env))))"

section \<open>Completing a task\<close>

text \<open>One round of the loop that marks the task finished; a throttled update is tried again.\<close>

definition finish_attempt :: "'w agent_env \<Rightarrow> string \<Rightarrow> ('w agent_state, bool option) io" where
  "finish_attempt env task_id =
     io_bind (get_time_now_ms env) (\<lambda>time_start_ms. io_catch
       (io_bind (on_world (update_task_status_to_finished (ag_db env) (ag_host env) task_id (SELF_ID env)))
         (\<lambda>is_update_successful. io_return (Some is_update_successful)))
       (\<lambda>e. case e of
          StateTableException caused_by_throttling caused_by_condition \<Rightarrow>
            if caused_by_throttling then io_bind (get_time_now_ms env) (\<lambda>time_end_ms. io_return None)
            else if caused_by_condition then io_return (Some False)
            else io_return None
        | _ \<Rightarrow> io_raise e))"

definition mark_finished :: "'w agent_env \<Rightarrow> string \<Rightarrow> ('w agent_state, bool) io" where
  "mark_finished env task_id = io_until (finish_attempt env task_id)"

definition store_output :: "'w agent_env \<Rightarrow> string \<Rightarrow> string \<Rightarrow> string option \<Rightarrow> ('w agent_state, unit) io" where
  "store_output env task_id fname_stdout stdout = io_bind (io_get stdout_iom) (\<lambda>iom. on_world (case stdout of
      Some out \<Rightarrow> put_output_from_bytes (ag_storage env) iom task_id (b64encode (utf8_encode out))
    | None \<Rightarrow> put_output_from_file (ag_storage env) iom task_id fname_stdout))"

definition report_completion ::
  "'w agent_env \<Rightarrow> pyval \<Rightarrow> message \<Rightarrow> bool \<Rightarrow> ('w agent_state, unit) io" where
  "report_completion env task sqs_msg is_update_successful =
     io_then
       (if \<not> is_update_successful then on_post (count_event ''ddb_set_task_finished_failed'' 1)
        else io_then (on_post (count_event ''ddb_set_task_finished_succeeded'' 1))
          (tasks_queue_delete env (message_handle_id sqs_msg)))
     (io_bind (get_time_now_ms env) (\<lambda>logged.
      io_bind (get_time_now_ms env) (\<lambda>now.
      io_bind (io_get AGENT_EXEC_TIMESTAMP_MS) (\<lambda>started.
      io_then (on_post (count_event ''agent_total_time_ms'' (now - started)))
      (io_then (on_post (set_event ''str_pod_id'' (PStr (SELF_ID env))))
        (submit_post_agent_measurements env task))))))"

definition process_subprocess_completion ::
  "'w agent_env \<Rightarrow> pyval \<Rightarrow> message \<Rightarrow> string \<Rightarrow> string option \<Rightarrow> ('w agent_state, unit) io" where
  "process_subprocess_completion env task sqs_msg fname_stdout stdout =
     io_bind (get_time_now_ms env) (\<lambda>now.
     io_bind (io_of (set_task_tstmp task ''stage4_agent_01_user_code_finished_tstmp'' now)) (\<lambda>task.
     io_bind (io_of (task_id_of task)) (\<lambda>task_id.
     io_then (store_output env task_id fname_stdout stdout)
     (io_bind (get_time_now_ms env) (\<lambda>now.
      io_bind (io_of (set_task_tstmp task ''stage4_agent_02_S3_stdout_delivered_tstmp'' now)) (\<lambda>task.
      io_bind (mark_finished env task_id) (\<lambda>is_update_successful.
        report_completion env task sqs_msg is_update_successful)))))))"

section \<open>Heartbeats\<close>

text \<open>\<open>sqs_msg.delete()\<close>: the message is a dictionary, which has no such method.\<close>

definition message_delete :: "message \<Rightarrow> exn + unit" where
  "message_delete sqs_msg = Inl AttributeError"

definition terminate_worker_lambda_container :: "'w agent_env \<Rightarrow> ('w agent_state, unit) io" where
  "terminate_worker_lambda_container env =
     io_bind (on_world (io_call (process_iter env))) (\<lambda>procs. io_foreach procs (\<lambda>(name, pid).
       if name = ''aws-lambda-rie'' then on_world (io_call (process_terminate env pid)) else io_return ()))"

text \<open>\<open>os.kill(os.getpid(), signal.SIGKILL)\<close> does not return.\<close>

definition kill_self :: "('s, 'a) io" where
  "kill_self = (\<lambda>s. None)"

definition refresh_lost ::
  "'w agent_env \<Rightarrow> pyval \<Rightarrow> message \<Rightarrow> exn \<Rightarrow> bool \<Rightarrow> ('w agent_state, bool option) io" where
  "refresh_lost env task sqs_msg e caused_by_condition =
     io_bind (if caused_by_condition
         then io_bind (io_of (task_id_of task)) (is_task_has_been_cancelled env) else io_return False)
       (\<lambda>cancelled.
         if cancelled then
           io_then (io_of (message_delete sqs_msg)) (io_then (terminate_worker_lambda_container env) kill_self)
         else io_raise (GenericException (exn_str e)))"

text \<open>The body of the \<open>try\<close>, and one round of the loop: \<open>None\<close> after a throttled update.\<close>

definition refresh_ttl :: "'w agent_env \<Rightarrow> pyval \<Rightarrow> ('w agent_state, bool option) io" where
  "refresh_ttl env task =
     io_then (io_of (bind_result (py_index task ''task_id'') (\<lambda>_. Inr ())))
     (io_bind (next_expiration env) (\<lambda>expiration.
      io_bind (io_of (task_id_of task)) (\<lambda>task_id.
      io_bind (on_world (refresh_ttl_for_ongoing_task (ag_db env) task_id (SELF_ID env) expiration))
        (\<lambda>is_refresh_successful. io_return (Some is_refresh_successful)))))"

definition refresh_attempt :: "'w agent_env \<Rightarrow> pyval \<Rightarrow> message \<Rightarrow> ('w agent_state, bool option) io" where
  "refresh_attempt env task sqs_msg =
     io_bind (get_time_now_ms env) (\<lambda>t1. io_catch (refresh_ttl env task)
       (\<lambda>e. case e of
          StateTableException caused_by_throttling caused_by_condition \<Rightarrow>
            if caused_by_throttling then io_bind (get_time_now_ms env) (\<lambda>t2. io_return None)
            else refresh_lost env task sqs_msg e caused_by_condition
        | _ \<Rightarrow> io_raise e))"

text \<open>\<open>time.time()\<close> is read in milliseconds.\<close>

definition refresh_is_due :: "'w agent_env \<Rightarrow> ('w agent_state, bool) io" where
  "refresh_is_due env = io_bind (io_get ttl_gen) (\<lambda>g.
     if get_next_refresh_timestamp g = 0 then io_return True
     else io_bind (get_time_now_ms env) (\<lambda>now.
       io_return (1000 * get_next_refresh_timestamp g < now + 1000 * work_proc_status_pull_interval_sec env)))"

definition update_ttl_if_required :: "'w agent_env \<Rightarrow> pyval \<Rightarrow> message \<Rightarrow> ('w agent_state, bool) io" where
  "update_ttl_if_required env task sqs_msg = io_bind (refresh_is_due env) (\<lambda>due.
     if due then io_until (refresh_attempt env task sqs_msg) else io_return True)"

text \<open>The heartbeat up to its next sleep: whether it will go on.\<close>

definition do_ttl_updates_thread :: "'w agent_env \<Rightarrow> pyval \<Rightarrow> message \<Rightarrow> ('w agent_state, bool) io" where
  "do_ttl_updates_thread env task sqs_msg =
     io_bind (io_get execution_is_completed_flag) (\<lambda>completed.
       if completed then io_return False
       else io_bind (update_ttl_if_required env task sqs_msg) (\<lambda>ddb_res.
         if \<not> ddb_res then
           io_then (on_post (count_event ''counter_update_ttl_failed'' 1))
             (io_then (submit_post_agent_measurements env task) (io_return False))
         else io_return True))"

section \<open>Running a task\<close>

datatype execution_input = InputBytes string | TaskDefinition pyval

definition prepare_arguments_for_execution ::
  "'w agent_env \<Rightarrow> pyval \<Rightarrow> ('w agent_state, execution_input) io" where
  "prepare_arguments_for_execution env task =
     (if task_input_passed_via_external_storage env \<in> {PInt 1, PBool True} then
        io_bind (io_of (task_id_of task)) (\<lambda>task_id.
        io_bind (io_get stdout_iom) (\<lambda>iom.
        io_bind (on_world (get_input_to_bytes (ag_storage env) iom task_id)) (\<lambda>execution_payload.
        io_bind (io_of (b64decode execution_payload)) (\<lambda>execution_payload.
          io_return (InputBytes execution_payload)))))
      else io_bind (io_of (py_index task ''task_definition'')) (\<lambda>v. io_return (TaskDefinition v)))"

text \<open>\<open>bin_protobuf.decode("utf-8")\<close>: only bytes have this method, no value that came out of JSON.\<close>

fun input_decode :: "execution_input \<Rightarrow> exn + string" where
  "input_decode (InputBytes b) = utf8_decode b"
| "input_decode (TaskDefinition v) = Inl AttributeError"

text \<open>The execution from the moment the invocation has ended.\<close>

definition do_task_local_lambda_execution_thread ::
  "'w agent_env \<Rightarrow> pyval \<Rightarrow> message \<Rightarrow> int \<Rightarrow> exn + string \<Rightarrow> ('w agent_state, string) io" where
  "do_task_local_lambda_execution_thread env task sqs_msg t_start response =
     io_bind (io_of (bind_result response utf8_decode)) (\<lambda>ret_value.
     io_then (io_modify (\<lambda>s. s\<lparr>execution_is_completed_flag := True\<rparr>))
     (io_then
       (if sublist ''BOOTSTRAP ERROR'' ret_value then on_post (count_event ''bootstrap_failure'' 1)
        else io_bind (get_time_now_ms env) (\<lambda>now.
          io_then (on_post (count_event ''task_exec_time_ms'' (now - t_start)))
            (process_subprocess_completion env task sqs_msg [] (Some ret_value))))
       (io_return ret_value)))"

text \<open>One turn of the two coroutines: a heartbeat, then the answer if it came before the next one.\<close>

definition await_worker :: "'w agent_env \<Rightarrow> pyval \<Rightarrow> message \<Rightarrow> ('w agent_state, (exn + string) option) io" where
  "await_worker env task sqs_msg =
     io_bind (do_ttl_updates_thread env task sqs_msg) (\<lambda>alive.
       if alive then on_world (io_read (lambda_poll env))
       else io_bind (on_world (io_read (lambda_wait env))) (\<lambda>response. io_return (Some response)))"

definition run_task :: "'w agent_env \<Rightarrow> pyval \<Rightarrow> message \<Rightarrow> ('w agent_state, bool) io" where
  "run_task env task sqs_msg =
     io_bind (prepare_arguments_for_execution env task) (\<lambda>bin_protobuf.
     io_bind (io_of (bind_result (input_decode bin_protobuf) json_loads)) (\<lambda>task_def.
     io_then (submit_pre_agent_measurements env task)
     (io_then (io_modify (\<lambda>s. s\<lparr>execution_is_completed_flag := False\<rparr>))
     (io_bind (get_time_now_ms env) (\<lambda>t_start.
      io_then (on_world (io_modify (lambda_start env (utf8_encode (json_dumps task_def)))))
      (io_bind (io_until (await_worker env task sqs_msg)) (\<lambda>response.
       io_bind (do_task_local_lambda_execution_thread env task sqs_msg t_start response) (\<lambda>ret_value.
         io_return True))))))))"

section \<open>The event loop\<close>

definition event_loop_turn :: "'w agent_env \<Rightarrow> ('w agent_state, unit option) io" where
  "event_loop_turn env =
     io_bind (on_world (io_read (kill_now env))) (\<lambda>stop.
       if stop then io_return (Some ())
       else io_bind (try_to_acquire_a_task env) (\<lambda>r. case r of
           Some (sqs_msg, task) \<Rightarrow> io_bind (run_task env task sqs_msg) (\<lambda>done. io_return None)
         | None \<Rightarrow> io_then (on_world (io_modify (backoff_sleep env))) (io_return None)))"

definition event_loop :: "'w agent_env \<Rightarrow> ('w agent_state, unit) io" where
  "event_loop env = io_then (io_until (event_loop_turn env)) (terminate_worker_lambda_container env)"

text \<open>The process: its exit status.\<close>

definition agent_main :: "'w agent_env \<Rightarrow> ('w agent_state, int) io" where
  "agent_main env = io_catch (io_then (event_loop env) (io_return 0)) (\<lambda>e. io_return 1)"

end
