(* ===== verification/AgentProps.thy ===== *)
theory AgentProps
  imports Agent
begin

text \<open>
  What the agent does to the state table, the queue and the data plane: the table changes only by
  claims, refreshes and completions of this agent; a task that is being run is held; an output is
  stored before its row is finished, and the message is deleted after it; and the paths on which
  the agent gives a task up.
\<close>

section \<open>Frames\<close>

definition agent_frame :: "'w agent_env \<Rightarrow> ('w \<Rightarrow> 'v) \<Rightarrow> bool" where
  "agent_frame env v \<longleftrightarrow> host_keeps (ag_host env) v \<and> metrics_keeps (ag_metrics env) v \<and>
     storage_keeps (ag_storage env) v \<and>
     (\<forall>b k kms f. keeps v (io_call (s3_upload_file (ag_storage env) b k kms f))) \<and>
     (\<forall>f. keeps v (io_call (read_file (ag_storage env) f))) \<and>
     (\<forall>p. keeps v (io_modify (lambda_start env p))) \<and> keeps v (io_read (lambda_poll env)) \<and>
     keeps v (io_read (lambda_wait env)) \<and> keeps v (io_call (process_iter env)) \<and>
     (\<forall>n. keeps v (io_call (process_terminate env n))) \<and> keeps v (io_read (kill_now env)) \<and>
     keeps v (io_modify (backoff_sleep env))"

definition agent_documented :: "'w agent_env \<Rightarrow> ('w \<Rightarrow> table) \<Rightarrow> bool" where
  "agent_documented env tbl \<longleftrightarrow>
     ddb_documented (ag_db env) tbl \<and> sqs_keeps (ag_sqs env) tbl \<and> agent_frame env tbl"

lemma agent_frameD:
  assumes "agent_frame env v"
  shows "host_keeps (ag_host env) v" "metrics_keeps (ag_metrics env) v" "storage_keeps (ag_storage env) v"
    "keeps v (io_modify (lambda_start env p))" "keeps v (io_read (lambda_poll env))"
    "keeps v (io_read (lambda_wait env))" "keeps v (io_call (process_iter env))"
    "keeps v (io_call (process_terminate env n))" "keeps v (io_read (kill_now env))"
    "keeps v (io_modify (backoff_sleep env))"
  using assms by (simp_all add: agent_frame_def)

lemma agent_documentedD:
  assumes "agent_documented env tbl"
  shows "ddb_documented (ag_db env) tbl" "sqs_keeps (ag_sqs env) tbl" "agent_frame env tbl"
  using assms by (simp_all add: agent_documented_def)

lemma on_world_Some:
  "on_world m s = Some (r, t) \<longleftrightarrow> (\<exists>w. m (ag_world s) = Some (r, w) \<and> t = s\<lparr>ag_world := w\<rparr>)"
  by (auto simp: on_world_def io_zoom_apply split: option.splits)

lemma keeps_on_world: "keeps v m \<Longrightarrow> keeps (v \<circ> ag_world) (on_world m)"
  by (auto simp: keeps_def on_world_Some)

lemma keeps_on_pre: "keeps (v \<circ> grid) m \<Longrightarrow> keeps (v \<circ> ag_world) (on_pre m)"
  by (fastforce simp: keeps_def on_pre_def io_zoom_apply split: option.splits)

lemma keeps_on_post: "keeps (v \<circ> grid) m \<Longrightarrow> keeps (v \<circ> ag_world) (on_post m)"
  by (fastforce simp: keeps_def on_post_def io_zoom_apply split: option.splits)

lemma evolves_on_world: "evolves md5 tbl ok m \<Longrightarrow> evolves md5 (tbl \<circ> ag_world) ok (on_world m)"
  unfolding on_world_def by (rule evolves_zoom) simp_all

lemmas keeps_counters = keeps_on_pre [OF keeps_count_event] keeps_on_post [OF keeps_count_event]
  keeps_on_post [OF keeps_set_event]

lemma get_time_now_keeps: "agent_frame env v \<Longrightarrow> keeps (v \<circ> ag_world) (get_time_now_ms env)"
  unfolding get_time_now_ms_def by (intro keeps_on_world host_keeps_ops agent_frameD)

lemma next_expiration_keeps: "agent_frame env v \<Longrightarrow> keeps (v \<circ> ag_world) (next_expiration env)"
  unfolding next_expiration_def
  by (intro keeps_bind keeps_then keeps_get keeps_return keeps_on_world generate_next_ttl_keeps agent_frameD keeps_modify)
    simp_all

lemma submit_post_keeps: "agent_frame env v \<Longrightarrow> keeps (v \<circ> ag_world) (submit_post_agent_measurements env task)"
  unfolding submit_post_agent_measurements_def
  by (intro keeps_bind keeps_then keeps_of keeps_on_post add_metric_sample_keeps submit_measurements_keeps agent_frameD)

lemma submit_pre_keeps: "agent_frame env v \<Longrightarrow> keeps (v \<circ> ag_world) (submit_pre_agent_measurements env task)"
  unfolding submit_pre_agent_measurements_def
  by (intro keeps_bind keeps_then keeps_of keeps_on_pre add_metric_sample_keeps submit_measurements_keeps agent_frameD)

lemma put_from_file_keeps: "agent_frame env v \<Longrightarrow> keeps v (put_from_file (ag_storage env) h t f p)"
  by (cases h) (auto simp: s3_put_from_file_def redis_put_from_file_def Let_def agent_frame_def storage_keeps_def
      intro!: keeps_then keeps_bind)

lemma store_output_keeps: "agent_frame env v \<Longrightarrow> keeps (v \<circ> ag_world) (store_output env k f out)"
  unfolding store_output_def put_output_from_bytes_def put_output_from_file_def
  by (intro keeps_bind keeps_get keeps_on_world)
    (auto split: option.splits intro: put_from_file_keeps put_from_bytes_keeps agent_frameD)

lemma terminate_worker_keeps: "agent_frame env v \<Longrightarrow> keeps (v \<circ> ag_world) (terminate_worker_lambda_container env)"
  unfolding terminate_worker_lambda_container_def
  by (intro keeps_bind keeps_foreach keeps_on_world agent_frameD)
    (auto intro: keeps_on_world agent_frameD split: prod.splits)

lemma kill_self_keeps [simp]: "keeps v kill_self"
  by (simp add: keeps_def kill_self_def)

lemma prepare_arguments_keeps: "agent_frame env v \<Longrightarrow> keeps (v \<circ> ag_world) (prepare_arguments_for_execution env task)"
  unfolding prepare_arguments_for_execution_def get_input_to_bytes_def
  by (auto intro!: keeps_bind keeps_on_world get_to_bytes_keeps agent_frameD)

lemmas frame_keeps = get_time_now_keeps next_expiration_keeps submit_post_keeps submit_pre_keeps
  store_output_keeps terminate_worker_keeps prepare_arguments_keeps

text \<open>The queue operations keep what SQS keeps, and reading the table keeps what a query keeps.\<close>

lemma tasks_queue_keeps:
  assumes "sqs_keeps (ag_sqs env) v"
  shows "keeps (v \<circ> ag_world) (tasks_queue_receive env)" "keeps (v \<circ> ag_world) (tasks_queue_delete env h)"
    "keeps (v \<circ> ag_world) (tasks_queue_hide env h)"
proof -
  note k = grid_queue.op_keeps [OF assms, THEN keeps_on_world]
  show "keeps (v \<circ> ag_world) (tasks_queue_receive env)"
    unfolding tasks_queue_receive_def
    by (intro keeps_bind keeps_get k) (auto split: prod.splits intro!: keeps_then keeps_modify)
  show "keeps (v \<circ> ag_world) (tasks_queue_delete env h)" "keeps (v \<circ> ag_world) (tasks_queue_hide env h)"
    unfolding tasks_queue_delete_def tasks_queue_hide_def by (intro keeps_bind keeps_get k)+
qed

lemma is_cancelled_keeps:
  assumes "keeps v (get_task_by_id (ag_db env) k True)"
  shows "keeps (v \<circ> ag_world) (is_task_has_been_cancelled env k)"
  unfolding is_task_has_been_cancelled_def
  by (intro keeps_bind keeps_on_world assms) (auto split: option.splits)

section \<open>The agent takes only steps of its own\<close>

definition agent_event :: "string \<Rightarrow> task_event \<Rightarrow> bool" where
  "agent_event a e \<longleftrightarrow> (\<exists>k q x. e = Claim k q a x) \<or> (\<exists>k x. e = Refresh k a x) \<or> (\<exists>k ms. e = Finish k a ms)"

lemma agent_event_simps [simp]:
  "agent_event a (Claim k q b x) \<longleftrightarrow> b = a" "agent_event a (Refresh k b x) \<longleftrightarrow> b = a"
  "agent_event a (Finish k b ms) \<longleftrightarrow> b = a" "\<not> agent_event a (Submit xs)"
  "\<not> agent_event a (Retry k n)" "\<not> agent_event a (Finalize k st)"
  by (auto simp: agent_event_def)

lemma agent_event_ok: "agent_event a e \<Longrightarrow> a \<noteq> ''None'' \<Longrightarrow> event_ok md5 e"
  by (auto simp: agent_event_def)

lemma frame_evolves:
  assumes "agent_documented env tbl"
  shows "evolves md5 (tbl \<circ> ag_world) ok (get_time_now_ms env)" "evolves md5 (tbl \<circ> ag_world) ok (next_expiration env)"
    "evolves md5 (tbl \<circ> ag_world) ok (submit_post_agent_measurements env task)"
    "evolves md5 (tbl \<circ> ag_world) ok (submit_pre_agent_measurements env task)"
    "evolves md5 (tbl \<circ> ag_world) ok (store_output env k f out)"
    "evolves md5 (tbl \<circ> ag_world) ok (terminate_worker_lambda_container env)"
    "evolves md5 (tbl \<circ> ag_world) ok (prepare_arguments_for_execution env task)"
    "evolves md5 (tbl \<circ> ag_world) ok (tasks_queue_receive env)"
    "evolves md5 (tbl \<circ> ag_world) ok (tasks_queue_delete env h)"
    "evolves md5 (tbl \<circ> ag_world) ok (tasks_queue_hide env h)"
    "evolves md5 (tbl \<circ> ag_world) ok (is_task_has_been_cancelled env k)"
  by (intro evolves_keeps frame_keeps tasks_queue_keeps is_cancelled_keeps get_task_by_id_keeps
      agent_documentedD [OF assms])+

lemma counters_evolve:
  "evolves md5 (tbl \<circ> ag_world) ok (on_pre (count_event name n))"
  "evolves md5 (tbl \<circ> ag_world) ok (on_post (count_event name n))"
  "evolves md5 (tbl \<circ> ag_world) ok (on_post (set_event name x))"
  by (intro evolves_keeps keeps_counters)+

lemma evolves_world_keeps: "keeps tbl m \<Longrightarrow> evolves md5 (tbl \<circ> ag_world) ok (on_world m)"
  by (rule evolves_keeps) (rule keeps_on_world)

lemma evolves_modify:
  "(\<And>s. ag_world (f s) = ag_world s) \<Longrightarrow> evolves md5 (tbl \<circ> ag_world) ok (io_modify f)"
  by (rule evolves_keeps) (simp add: keeps_modify)

lemmas agent_evolves = evolves_intros frame_evolves counters_evolve evolves_world_keeps evolves_modify

abbreviation agent_evolves_by ::
  "'w agent_env \<Rightarrow> ('w \<Rightarrow> table) \<Rightarrow> ('w agent_state, 'a) io \<Rightarrow> bool" where
  "agent_evolves_by env tbl m \<equiv>
     evolves (md5_int (ag_db env)) (tbl \<circ> ag_world) (agent_event (SELF_ID env)) m"

lemma store_calls_evolve:
  assumes "agent_documented env tbl"
  shows "agent_evolves_by env tbl (on_world (claim_task_for_agent (ag_db env) k h (SELF_ID env) x))"
    "agent_evolves_by env tbl (on_world (refresh_ttl_for_ongoing_task (ag_db env) k (SELF_ID env) x))"
    "agent_evolves_by env tbl (on_world (update_task_status_to_finished (ag_db env) (ag_host env) k (SELF_ID env)))"
proof -
  note d = agent_documentedD [OF assms]
  note r = claim_refines [OF d(1)] refresh_refines [OF d(1)] finish_refines [OF d(1) agent_frameD(1) [OF d(3)]]
  show "agent_evolves_by env tbl (on_world (claim_task_for_agent (ag_db env) k h (SELF_ID env) x))"
    "agent_evolves_by env tbl (on_world (refresh_ttl_for_ongoing_task (ag_db env) k (SELF_ID env) x))"
    "agent_evolves_by env tbl (on_world (update_task_status_to_finished (ag_db env) (ag_host env) k (SELF_ID env)))"
    by (rule evolves_on_world, rule evolves_refines, rule r, auto)+
qed

lemma claim_received_evolves:
  assumes "agent_documented env tbl"
  shows "agent_evolves_by env tbl (claim_received env task h)"
proof -
  note d = agent_documentedD [OF assms] and f = frame_evolves [OF assms]
  have lost: "agent_evolves_by env tbl (claim_lost env k h)" for k
    unfolding claim_lost_def
    by (intro evolves_then evolves_bind counters_evolve f)
      (auto intro!: evolves_intros f evolves_world_keeps host_keeps_ops agent_frameD d)
  show ?thesis unfolding claim_received_def
    by (intro evolves_catch evolves_then evolves_bind evolves_of f store_calls_evolve [OF assms])
      (auto intro!: evolves_intros lost split: exn.splits)
qed

lemma try_to_acquire_evolves:
  assumes "agent_documented env tbl"
  shows "agent_evolves_by env tbl (try_to_acquire_a_task env)"
proof -
  note f = frame_evolves [OF assms]
  have "agent_evolves_by env tbl (acquire_received env message t)" for message t
    unfolding acquire_received_def acquire_task_def
    by (intro evolves_then evolves_bind evolves_of f claim_received_evolves [OF assms] evolves_modify)
      (auto intro!: evolves_intros f counters_evolve)
  then show ?thesis unfolding try_to_acquire_a_task_def
    by (intro evolves_bind f) (auto intro!: evolves_intros counters_evolve split: option.splits)
qed

lemma completion_evolves:
  assumes "agent_documented env tbl"
  shows "agent_evolves_by env tbl (process_subprocess_completion env task sqs_msg f out)"
proof -
  note f = frame_evolves [OF assms]
  have attempt: "agent_evolves_by env tbl (finish_attempt env k)" for k
    unfolding finish_attempt_def
    by (intro evolves_bind evolves_catch f store_calls_evolve [OF assms])
      (auto intro!: evolves_intros f split: exn.splits)
  have report: "agent_evolves_by env tbl (report_completion env task sqs_msg b)" for task b
    unfolding report_completion_def
    by (intro evolves_then evolves_bind evolves_get f counters_evolve) (auto intro!: evolves_intros f counters_evolve)
  show ?thesis unfolding process_subprocess_completion_def mark_finished_def
    by (intro evolves_then evolves_bind evolves_of evolves_until f attempt report)
qed

lemma heartbeat_evolves:
  assumes "agent_documented env tbl"
  shows "agent_evolves_by env tbl (do_ttl_updates_thread env task sqs_msg)"
proof -
  note f = frame_evolves [OF assms]
  have k: "evolves md5 (tbl \<circ> ag_world) ok kill_self" for md5 ok by (rule evolves_keeps) simp
  have lost: "agent_evolves_by env tbl (refresh_lost env task sqs_msg e c)" for e c
    unfolding refresh_lost_def by (intro evolves_bind) (auto intro!: evolves_intros f k)
  have attempt: "agent_evolves_by env tbl (refresh_attempt env task sqs_msg)"
    unfolding refresh_attempt_def refresh_ttl_def
    by (intro evolves_bind evolves_then evolves_catch evolves_of f store_calls_evolve [OF assms])
      (auto intro!: evolves_intros f lost split: exn.splits)
  have due: "agent_evolves_by env tbl (refresh_is_due env)"
    unfolding refresh_is_due_def by (intro evolves_bind evolves_get) (auto intro!: evolves_intros f)
  show ?thesis unfolding do_ttl_updates_thread_def update_ttl_if_required_def
    by (intro evolves_bind evolves_get) (auto intro!: evolves_intros f counters_evolve attempt due)
qed

lemma run_task_evolves:
  assumes "agent_documented env tbl"
  shows "agent_evolves_by env tbl (run_task env task sqs_msg)"
proof -
  note d = agent_documentedD [OF assms] and f = frame_evolves [OF assms]
  have turn: "agent_evolves_by env tbl (await_worker env task sqs_msg)"
    unfolding await_worker_def
    by (intro evolves_bind heartbeat_evolves [OF assms])
      (auto intro!: evolves_intros evolves_world_keeps agent_frameD d)
  have answer: "agent_evolves_by env tbl (do_task_local_lambda_execution_thread env task sqs_msg t response)"
    for t response
    unfolding do_task_local_lambda_execution_thread_def
    by (intro evolves_bind evolves_then evolves_of evolves_modify)
      (auto intro!: evolves_intros f counters_evolve completion_evolves [OF assms])
  show ?thesis unfolding run_task_def
    by (intro evolves_bind evolves_then evolves_of evolves_modify evolves_until evolves_return f turn answer
        evolves_world_keeps agent_frameD d) simp_all
qed

lemma event_loop_evolves:
  assumes "agent_documented env tbl"
  shows "agent_evolves_by env tbl (event_loop env)"
proof -
  note d = agent_documentedD [OF assms]
  have turn: "agent_evolves_by env tbl (event_loop_turn env)"
    unfolding event_loop_turn_def
    by (intro evolves_bind evolves_world_keeps agent_frameD d)
      (auto intro!: evolves_intros try_to_acquire_evolves run_task_evolves assms evolves_world_keeps agent_frameD d
        split: option.splits)
  show ?thesis unfolding event_loop_def
    by (intro evolves_then evolves_until turn frame_evolves [OF assms])
qed

section \<open>Exceptions of the state table\<close>

lemma consistent_read_row:
  assumes "ddb_documented db tbl" and "get_task_by_id db k True w = Some (Inr (Some i), w')"
  shows "tbl w k = Some i"
proof -
  define q where "q = \<lparr>q_index = None, q_conds = [KeyEq ''task_id'' (PStr k)],
      q_limit = None, q_consistent = True, q_start = None\<rparr>"
  obtain r w1 where c: "ddb_query db q w = (r, w1)" by (cases "ddb_query db q w")
  show ?thesis
  proof (cases r)
    case (Inr resp)
    have "r_items resp = (case tbl w k of None \<Rightarrow> [] | Some i \<Rightarrow> [i])"
      by (rule ddb_query_key [OF assms(1)]) (use c Inr q_def in simp)
    then show ?thesis using assms(2) c Inr
      by (cases "tbl w k") (simp_all add: get_task_by_id_def io_bind_apply io_catch_apply q_def)
  next
    case (Inl e)
    with assms(2) c show ?thesis
      by (cases e) (auto simp: get_task_by_id_def io_apply q_def split: if_splits)
  qed
qed

text \<open>A \<open>StateTableException\<close> of a claim has one of its two flags, and reports that nothing was claimed.\<close>

lemma claim_exception:
  assumes "ddb_documented db tbl"
    and "claim_task_for_agent db k h a x w = Some (Inl (StateTableException tr c), w')"
  shows "(tr \<or> c) \<and> tbl w' = tbl w"
proof
  show "tbl w' = tbl w" using refines_error [OF claim_refines [OF assms(1)] assms(2)] by simp
  obtain r where r: "claim_task_for_agent db k h a x =
      (\<lambda>w. io_catch (io_then (io_call (ddb_update_item db r)) (io_return True))
        (\<lambda>e. case e of
           ClientError c m \<Rightarrow>
             if c = CONDITION_FAILED then io_raise (StateTableException False True)
             else if c \<in> set throttling_codes then io_raise (StateTableException True False)
             else io_raise (GenericException (exn_str e))
         | _ \<Rightarrow> io_raise e) w)"
    unfolding claim_task_for_agent_def Let_def by blast
  obtain res v where u: "ddb_update_item db r w = (res, v)" by (cases "ddb_update_item db r w")
  from ddb_update_case [OF assms(1) u] assms(2) show "tr \<or> c"
    unfolding r using u by (cases res) (auto simp: io_apply split: exn.splits if_splits)
qed

lemma finish_answers_True:
  "update_task_status_to_finished db host k a w = Some (Inr b, w') \<Longrightarrow> b"
  by (auto simp: update_task_status_to_finished_def Let_def io_catch_Some io_bind_Some io_then_Some
      split: exn.splits if_splits) (metis exn.exhaust)

lemma refresh_answers_True:
  "refresh_ttl_for_ongoing_task db k a x w = Some (Inr b, w') \<Longrightarrow> b"
  by (auto simp: refresh_ttl_for_ongoing_task_def Let_def io_catch_Some io_bind_Some io_then_Some
      split: exn.splits if_splits) (metis exn.exhaust)

section \<open>The queue beside the table\<close>

definition queue_state :: "'w queue_view \<Rightarrow> 'w \<Rightarrow> _" where
  "queue_state qv w = (stored qv w, live_handle qv w)"

definition agent_queues :: "'w agent_env \<Rightarrow> 'w queue_view \<Rightarrow> bool" where
  "agent_queues env qv \<longleftrightarrow> sqs_documented (ag_sqs env) qv \<and> agent_frame env (queue_state qv) \<and>
     ddb_keeps (ag_db env) (queue_state qv)"

lemma agent_queuesD:
  assumes "agent_queues env qv"
  shows "sqs_documented (ag_sqs env) qv" "agent_frame env (queue_state qv)" "ddb_keeps (ag_db env) (queue_state qv)"
  using assms by (simp_all add: agent_queues_def)

lemma get_task_keeps_other: "ddb_keeps db v \<Longrightarrow> keeps v (get_task_by_id db k c)"
  unfolding get_task_by_id_def ddb_keeps_def
  by (intro keeps_catch keeps_bind) (auto split: list.splits exn.splits)

lemma store_calls_keep_other:
  assumes "ddb_keeps db v"
  shows "keeps v (claim_task_for_agent db k h a x)" "keeps v (refresh_ttl_for_ongoing_task db k a x)"
    "host_keeps host v \<Longrightarrow> keeps v (update_task_status_to_finished db host k a)"
proof -
  have u: "keeps v (io_call (ddb_update_item db r))" for r using assms by (simp add: ddb_keeps_def)
  note g = get_task_keeps_other [OF assms]
  show "keeps v (claim_task_for_agent db k h a x)"
    unfolding claim_task_for_agent_def Let_def
    by (intro keeps_catch keeps_then u) (auto split: exn.splits)
  show "keeps v (refresh_ttl_for_ongoing_task db k a x)"
    unfolding refresh_ttl_for_ongoing_task_def Let_def
    by (intro keeps_catch keeps_then u) (auto split: exn.splits intro!: keeps_bind g)
  show "host_keeps host v \<Longrightarrow> keeps v (update_task_status_to_finished db host k a)"
    unfolding update_task_status_to_finished_def Let_def
    by (intro keeps_catch keeps_bind keeps_then u host_keeps_ops) (auto split: exn.splits intro!: keeps_bind g)
qed

text \<open>The agent's own fields.\<close>

lemma keeps_local:
  assumes "\<And>s w. f (s\<lparr>ag_world := w\<rparr>) = f s"
  shows "keeps f (on_world m)"
  using assms by (auto simp: keeps_def on_world_Some)

lemma keeps_local_metered:
  assumes "\<And>s w p e. f (s\<lparr>ag_world := w, perf_tracker_pre := p, event_counter_pre := e\<rparr>) = f s"
    and "\<And>s w p e. f (s\<lparr>ag_world := w, perf_tracker_post := p, event_counter_post := e\<rparr>) = f s"
  shows "keeps f (on_pre m)" "keeps f (on_post m)"
  using assms by (auto simp: keeps_def on_pre_def on_post_def io_zoom_apply split: option.splits)

lemma keeps_tasks_queue:
  "keeps tasks_queue (on_world m)" "keeps tasks_queue (on_pre m')" "keeps tasks_queue (on_post m')"
  "keeps tasks_queue (next_expiration env)" "keeps tasks_queue (get_time_now_ms env)"
  "keeps tasks_queue (store_output env k f out)"
proof -
  show w: "keeps tasks_queue (on_world m)" for m :: "('a, 'b) io" by (rule keeps_local) simp
  show "keeps tasks_queue (on_pre m')" "keeps tasks_queue (on_post m')" by (rule keeps_local_metered; simp)+
  show "keeps tasks_queue (next_expiration env)"
    unfolding next_expiration_def by (intro keeps_bind keeps_then keeps_get keeps_return keeps_modify keeps_local) simp_all
  show "keeps tasks_queue (get_time_now_ms env)" unfolding get_time_now_ms_def by (rule keeps_local) simp
  show "keeps tasks_queue (store_output env k f out)"
    unfolding store_output_def by (intro keeps_bind keeps_get keeps_local) simp
qed

section \<open>Taking a task\<close>

lemma next_expiration_raises: "next_expiration env s = Some (Inl e, s') \<Longrightarrow> e = ValueError"
  by (auto simp: next_expiration_def generate_next_ttl_def time_now_sec_def random_int_def Let_def
      on_world_Some io_bind_Some io_then_Some io_read_apply split: if_splits)

lemma py_index_raises: "py_index v k = Inl e \<Longrightarrow> e \<noteq> StateTableException tr c"
  by (cases v) (auto split: option.splits)

lemma task_id_of_raises: "task_id_of task = Inl e \<Longrightarrow> e \<noteq> StateTableException tr c"
  by (cases "py_index task ''task_id''") (auto simp: task_id_of_def session_text_def py_index_raises split: pyval.splits)

text \<open>What the \<open>try\<close> statement around the claim does, and what reaches its handler.\<close>

lemma claim_received_Some:
  assumes doc: "agent_documented env tbl" and run: "claim_received env task h s = Some (Inr go_on, s')"
  obtains (claimed) k x where "go_on" "task_id_of task = Inr k" "tasks_queue s' = tasks_queue s"
      "task_step (md5_int (ag_db env)) (tbl (ag_world s)) (Claim k h (SELF_ID env) x) (tbl (ag_world s'))"
  | (lost) k s1 s2 x w tr c where "task_id_of task = Inr k" "claim_lost env k h s2 = Some (Inr go_on, s')"
      "tbl (ag_world s2) = tbl (ag_world s)"
      "next_expiration env s = Some (Inr x, s1)" "s2 = s1\<lparr>ag_world := w\<rparr>"
      "claim_task_for_agent (ag_db env) k h (SELF_ID env) x (ag_world s1) = Some (Inl (StateTableException tr c), w)"
proof -
  note d = agent_documentedD [OF doc]
  note next_keeps = keepsD [OF next_expiration_keeps [OF d(3)]] keepsD [OF keeps_tasks_queue(4)]
  let ?attempt = "io_then (io_of (bind_result (py_index task ''task_id'') (\<lambda>_. Inr ())))
     (io_bind (next_expiration env) (\<lambda>expiration.
      io_bind (io_of (task_id_of task)) (\<lambda>task_id.
      io_bind (on_world (claim_task_for_agent (ag_db env) task_id h (SELF_ID env) expiration))
        (\<lambda>claim_result. io_return True))))"
  from run consider (tried) "?attempt s = Some (Inr go_on, s')"
    | (exc) e s2 where "?attempt s = Some (Inl e, s2)" "(case e of
          StateTableException caused_by_throttling caused_by_condition \<Rightarrow>
            if caused_by_condition \<or> caused_by_throttling
            then io_bind (io_of (task_id_of task)) (\<lambda>task_id. claim_lost env task_id h)
            else io_return True
        | _ \<Rightarrow> io_raise e) s2 = Some (Inr go_on, s')"
    unfolding claim_received_def io_catch_Some by blast
  then show thesis
  proof cases
    case tried
    then obtain x s1 k b w where n: "next_expiration env s = Some (Inr x, s1)" and k: "task_id_of task = Inr k"
      and c: "claim_task_for_agent (ag_db env) k h (SELF_ID env) x (ag_world s1) = Some (Inr b, w)"
      and s': "s' = s1\<lparr>ag_world := w\<rparr>" and "go_on"
      by (auto simp: io_then_Inr io_bind_Inr on_world_Some)
    from refines_ok [OF claim_refines [OF d(1)] c] next_keeps [OF n] s'
    have "task_step (md5_int (ag_db env)) (tbl (ag_world s)) (Claim k h (SELF_ID env) x) (tbl (ag_world s'))"
      "tasks_queue s' = tasks_queue s" by simp_all
    with k \<open>go_on\<close> show thesis by (intro claimed)
  next
    case exc
    from exc(2) obtain tr c where e: "e = StateTableException tr c" by (cases e) auto
    from exc(1) e obtain x s1 k w where n: "next_expiration env s = Some (Inr x, s1)" and k: "task_id_of task = Inr k"
      and c: "claim_task_for_agent (ag_db env) k h (SELF_ID env) x (ag_world s1) = Some (Inl e, w)"
      and s2: "s2 = s1\<lparr>ag_world := w\<rparr>"
      by (cases "py_index task ''task_id''")
        (auto simp: io_then_Some io_bind_Some on_world_Some dest: next_expiration_raises py_index_raises task_id_of_raises)
    from claim_exception [OF d(1) c [unfolded e]] have flags: "tr \<or> c" "tbl w = tbl (ag_world s1)" by simp_all
    with next_keeps(1) [OF n] s2 have "tbl (ag_world s2) = tbl (ag_world s)" by simp
    moreover from exc(2) e flags(1) k have "claim_lost env k h s2 = Some (Inr go_on, s')" by auto
    ultimately show thesis using k n s2 c e by (intro lost) simp_all
  qed
qed

lemma row_text_Inr: "row_text row a = Inr st \<longleftrightarrow> row a = Some (PStr st)"
  by (auto simp: row_text_def row_get_def split: option.splits pyval.splits)

lemma is_cancelled_Some:
  assumes "is_task_has_been_cancelled env k s = Some (Inr b, s')"
  obtains row_opt w where "get_task_by_id (ag_db env) k True (ag_world s) = Some (Inr row_opt, w)"
    "s' = s\<lparr>ag_world := w\<rparr>"
    "b \<Longrightarrow> \<exists>row st. row_opt = Some row \<and> row ''task_status'' = Some (PStr st) \<and> str_startswith st TASK_STATE_CANCELLED"
proof -
  from assms obtain row_opt w where "get_task_by_id (ag_db env) k True (ag_world s) = Some (Inr row_opt, w)"
    and rest: "(case row_opt of None \<Rightarrow> io_return False
       | Some row \<Rightarrow> io_bind (io_of (row_text row ''task_status'')) (\<lambda>status.
           io_return (str_startswith status TASK_STATE_CANCELLED))) (s\<lparr>ag_world := w\<rparr>) = Some (Inr b, s')"
    by (auto simp: is_task_has_been_cancelled_def io_bind_Inr on_world_Some)
  with that show thesis by (cases row_opt) (auto simp: io_bind_Inr row_text_Inr)
qed

lemma claim_lost_False: "claim_lost env k h s = Some (Inr b, s') \<Longrightarrow> \<not> b"
  by (auto simp: claim_lost_def io_then_Inr io_bind_Inr split: if_splits)

lemma claim_lost_Some:
  assumes doc: "agent_documented env tbl" and run: "claim_lost env k h s = Some (Inr go_on, s')"
    and v: "agent_frame env v" "ddb_keeps (ag_db env) v"
  shows "\<not> go_on \<and> tbl (ag_world s') = tbl (ag_world s) \<and>
     (v (ag_world s') = v (ag_world s) \<or>
      (\<exists>row st w. tbl (ag_world s) k = Some row \<and> row ''task_status'' = Some (PStr st) \<and>
         str_startswith st TASK_STATE_CANCELLED \<and> v w = v (ag_world s) \<and>
         delete_message (ag_sqs env) (tasks_queue s) h PNone w = Some (Inr (), ag_world s')))"
proof -
  note d = agent_documentedD [OF doc]
  from run obtain s1 b s2 where count: "on_pre (count_event ''agent_failed_to_claim_ddb_task'' 1) s = Some (Inr (), s1)"
    and read: "is_task_has_been_cancelled env k s1 = Some (Inr b, s2)"
    and rest: "(if b then io_then (tasks_queue_delete env h) (io_return False)
        else io_bind (on_world (random_int (ag_host env) 1 3)) (\<lambda>sec.
          io_then (on_world (time_sleep (ag_host env) sec)) (io_return False))) s2 = Some (Inr go_on, s')"
    unfolding claim_lost_def io_then_Inr io_bind_Inr by blast
  have s1: "v' (ag_world s1) = v' (ag_world s)" for v' :: "'a \<Rightarrow> 'd"
    using keepsD [OF keeps_counters(1) count, of v'] by simp
  have s1t: "tbl (ag_world s1) = tbl (ag_world s)" using keepsD [OF keeps_counters(1) count, of tbl] by simp
  have q: "tasks_queue s1 = tasks_queue s" by (rule keepsD [OF keeps_tasks_queue(2) count])
  from read obtain row_opt w where get: "get_task_by_id (ag_db env) k True (ag_world s1) = Some (Inr row_opt, w)"
    and s2: "s2 = s1\<lparr>ag_world := w\<rparr>"
    and b: "b \<Longrightarrow> \<exists>row st. row_opt = Some row \<and> row ''task_status'' = Some (PStr st) \<and> str_startswith st TASK_STATE_CANCELLED"
    by (rule is_cancelled_Some) blast
  have wt: "tbl w = tbl (ag_world s)"
    using keepsD [OF get_task_by_id_keeps [OF d(1)] get] s1t by simp
  have wv: "v w = v (ag_world s)"
    using keepsD [OF get_task_keeps_other [OF v(2)] get] s1 [of v] by simp
  show ?thesis
  proof (cases b)
    case True
    with rest obtain "\<not> go_on" and del: "tasks_queue_delete env h s2 = Some (Inr (), s')"
      by (auto simp: io_then_Inr)
    from del s2 q have "delete_message (ag_sqs env) (tasks_queue s) h PNone w = Some (Inr (), ag_world s')"
      by (auto simp: tasks_queue_delete_def io_bind_Inr on_world_Some)
    moreover have "tbl (ag_world s') = tbl (ag_world s)"
      using keepsD [OF tasks_queue_keeps(2) [OF d(2)] del] s2 wt by simp
    moreover from b [OF True] obtain row st where "row_opt = Some row" "row ''task_status'' = Some (PStr st)"
      "str_startswith st TASK_STATE_CANCELLED" by blast
    moreover from this(1) consistent_read_row [OF d(1)] get s1t have "tbl (ag_world s) k = Some row" by fastforce
    ultimately show ?thesis using \<open>\<not> go_on\<close> wv by blast
  next
    case False
    have "keeps (v' \<circ> ag_world) (io_bind (on_world (random_int (ag_host env) 1 3)) (\<lambda>sec.
          io_then (on_world (time_sleep (ag_host env) sec)) (io_return False)))"
      if "agent_frame env v'" for v' :: "'a \<Rightarrow> 'e"
      by (intro keeps_bind keeps_then keeps_on_world host_keeps_ops keeps_return agent_frameD [OF that])
    from keepsD [OF this [OF v(1)]] rest False s2 wv have "v (ag_world s') = v (ag_world s)" by simp
    moreover have "keeps (tbl \<circ> ag_world) (io_bind (on_world (random_int (ag_host env) 1 3)) (\<lambda>sec.
          io_then (on_world (time_sleep (ag_host env) sec)) (io_return False)))"
      by (intro keeps_bind keeps_then keeps_on_world host_keeps_ops keeps_return agent_frameD [OF d(3)])
    from keepsD [OF this] rest False s2 wt have "tbl (ag_world s') = tbl (ag_world s)" by simp
    moreover from rest False have "\<not> go_on" by (auto simp: io_bind_Inr io_then_Inr)
    ultimately show ?thesis by simp
  qed
qed

lemma py_set_index: "py_set d k v = Inr d' \<Longrightarrow> k' \<noteq> k \<Longrightarrow> py_index d' k' = py_index d k'"
  by (auto simp: py_set_def dict_get_def update_conv' split: pyval.splits)

lemma task_id_of_set [simp]: "py_set task k v = Inr task' \<Longrightarrow> k \<noteq> ''task_id'' \<Longrightarrow> task_id_of task' = task_id_of task"
  by (simp add: task_id_of_def py_set_index)

lemma task_id_of_tstmp: "set_task_tstmp task e t = Inr task' \<Longrightarrow> task_id_of task' = task_id_of task"
  by (auto simp: set_task_tstmp_def bind_result_Inr)

lemma tasks_queue_receive_Some:
  assumes "tasks_queue_receive env s = Some (Inr m, s1)"
  obtains q w where "receive_message (ag_sqs env) (tasks_queue s) 10 (ag_world s) = Some (Inr (m, q), w)"
    "s1 = s\<lparr>ag_world := w, tasks_queue := q\<rparr>"
  using assms by (auto simp: tasks_queue_receive_def io_bind_Inr io_then_Inr on_world_Some split: prod.splits)

lemma try_to_acquire_Some:
  assumes "try_to_acquire_a_task env s = Some (Inr r, s')"
  obtains (empty) q w s1 t where "r = None" "receive_message (ag_sqs env) (tasks_queue s) 10 (ag_world s) = Some (Inr (None, q), w)"
      "get_time_now_ms env (s\<lparr>ag_world := w, tasks_queue := q\<rparr>) = Some (Inr t, s1)"
      "on_pre (count_event ''agent_no_messages_in_tasks_queue'' 1) s1 = Some (Inr (), s')"
  | (received) m q w s1 t where
      "receive_message (ag_sqs env) (tasks_queue s) 10 (ag_world s) = Some (Inr (Some m, q), w)"
      "get_time_now_ms env (s\<lparr>ag_world := w, tasks_queue := q\<rparr>) = Some (Inr t, s1)"
      "acquire_received env m t s1 = Some (Inr r, s')"
proof -
  from assms obtain m s0 t s1 where m: "tasks_queue_receive env s = Some (Inr m, s0)"
    and t: "get_time_now_ms env s0 = Some (Inr t, s1)"
    and rest: "(case m of
         None \<Rightarrow> io_then (on_pre (count_event ''agent_no_messages_in_tasks_queue'' 1)) (io_return None)
       | Some message \<Rightarrow> acquire_received env message t) s1 = Some (Inr r, s')"
    unfolding try_to_acquire_a_task_def io_bind_Inr by blast
  from tasks_queue_receive_Some [OF m] obtain q w where
    q: "receive_message (ag_sqs env) (tasks_queue s) 10 (ag_world s) = Some (Inr (m, q), w)"
    and s0: "s0 = s\<lparr>ag_world := w, tasks_queue := q\<rparr>" .
  show thesis
  proof (cases m)
    case None
    with rest q t s0 show thesis by (intro empty) (auto simp: io_then_Inr)
  next
    case (Some message)
    with rest q t s0 show thesis by (intro received) auto
  qed
qed

lemma receive_keeps_table:
  assumes "agent_documented env tbl" and "receive_message (ag_sqs env) q t (ag_world s) = Some (r, w)"
    and "get_time_now_ms env (s\<lparr>ag_world := w, tasks_queue := q'\<rparr>) = Some (r', s1)"
  shows "tbl (ag_world s1) = tbl (ag_world s)" "tasks_queue s1 = q'"
  using keepsD [OF grid_queue.op_keeps(1) [OF agent_documentedD(2) [OF assms(1)]] assms(2)]
    keepsD [OF get_time_now_keeps [OF agent_documentedD(3) [OF assms(1)]] assms(3)]
    keepsD [OF keeps_tasks_queue(5) assms(3)] by simp_all

lemma acquire_received_Some:
  assumes "acquire_received env m t s = Some (Inr r, s')"
  obtains task0 task go_on s1 s2 now where "json_loads (msg_body m) = Inr task0"
      "py_set task0 ''sqs_handle_id'' (PStr (message_handle_id m)) = Inr task"
      "get_time_now_ms env s = Some (Inr now, s1)"
      "claim_received env task (message_handle_id m) (s1\<lparr>AGENT_EXEC_TIMESTAMP_MS := now\<rparr>) = Some (Inr go_on, s2)"
      "if go_on then \<exists>s3 task1 t1 s4 task2. tasks_queue_hide env (message_handle_id m) s2 = Some (Inr (), s3) \<and>
          set_task_tstmp task ''stage3_agent_01_task_acquired_sqs_tstmp'' t = Inr task1 \<and>
          get_time_now_ms env s3 = Some (Inr t1, s4) \<and>
          set_task_tstmp task1 ''stage3_agent_02_task_acquired_ddb_tstmp'' t1 = Inr task2 \<and>
          on_pre (count_event ''agent_successful_acquire_a_task'' 1) s4 = Some (Inr (), s') \<and> r = Some (m, task2)
        else r = None \<and> s' = s2"
proof -
  let ?rest = "\<lambda>task. \<lambda>go_on. if \<not> go_on then io_return None
        else
          io_then (tasks_queue_hide env (message_handle_id m))
          (io_bind (io_of (set_task_tstmp task ''stage3_agent_01_task_acquired_sqs_tstmp'' t)) (\<lambda>task.
           io_bind (get_time_now_ms env) (\<lambda>now.
           io_bind (io_of (set_task_tstmp task ''stage3_agent_02_task_acquired_ddb_tstmp'' now)) (\<lambda>task.
           io_then (on_pre (count_event ''agent_successful_acquire_a_task'' 1)) (io_return (Some (m, task)))))))"
  from assms obtain now s1 task0 task go_on s2 where "get_time_now_ms env s = Some (Inr now, s1)"
    "json_loads (msg_body m) = Inr task0" "py_set task0 ''sqs_handle_id'' (PStr (message_handle_id m)) = Inr task"
    "claim_received env task (message_handle_id m) (s1\<lparr>AGENT_EXEC_TIMESTAMP_MS := now\<rparr>) = Some (Inr go_on, s2)"
    and rest: "?rest task go_on s2 = Some (Inr r, s')"
    by (auto simp: acquire_received_def acquire_task_def load_message_def io_bind_Inr io_then_Inr bind_result_Inr)
  moreover from rest have "if go_on then \<exists>s3 task1 t1 s4 task2. tasks_queue_hide env (message_handle_id m) s2 = Some (Inr (), s3) \<and>
          set_task_tstmp task ''stage3_agent_01_task_acquired_sqs_tstmp'' t = Inr task1 \<and>
          get_time_now_ms env s3 = Some (Inr t1, s4) \<and>
          set_task_tstmp task1 ''stage3_agent_02_task_acquired_ddb_tstmp'' t1 = Inr task2 \<and>
          on_pre (count_event ''agent_successful_acquire_a_task'' 1) s4 = Some (Inr (), s') \<and> r = Some (m, task2)
        else r = None \<and> s' = s2"
    by (auto simp: io_bind_Inr io_then_Inr split: if_splits)
  ultimately show thesis using that by blast
qed

text \<open>C6. When an agent has acquired a task, the task was pending and without owner and the agent's claim, with
  the handle of the received message, is the only change of the table: the task is being processed
  and held by this agent; and the message has been hidden from other agents by its handle.\<close>

theorem acquired_task_is_held:
  assumes "agent_documented env tbl" and "try_to_acquire_a_task env s = Some (Inr (Some (m, task)), s')"
  shows "\<exists>task0 k x w w'. json_loads (msg_body m) = Inr task0 \<and> task_id_of task0 = Inr k \<and> task_id_of task = Inr k \<and>
     task_step (md5_int (ag_db env)) (tbl (ag_world s)) (Claim k (message_handle_id m) (SELF_ID env) x)
       (tbl (ag_world s')) \<and>
     held (md5_int (ag_db env)) (tbl (ag_world s')) k (SELF_ID env) \<and>
     change_visibility (ag_sqs env) (tasks_queue s') (message_handle_id m)
       (agent_task_visibility_timeout_sec env) PNone w = Some (Inr (), w')"
proof -
  note d = agent_documentedD [OF assms(1)]
  from assms(2) obtain m' q w s1 t where
    rec: "receive_message (ag_sqs env) (tasks_queue s) 10 (ag_world s) = Some (Inr (Some m', q), w)"
    and now: "get_time_now_ms env (s\<lparr>ag_world := w, tasks_queue := q\<rparr>) = Some (Inr t, s1)"
    and acq: "acquire_received env m' t s1 = Some (Inr (Some (m, task)), s')"
    by (rule try_to_acquire_Some) auto
  note s1 = receive_keeps_table [OF assms(1) rec now]
  from acq obtain task0 task' go_on s2 s3 n where
    body: "json_loads (msg_body m') = Inr task0" "py_set task0 ''sqs_handle_id'' (PStr (message_handle_id m')) = Inr task'"
    and n: "get_time_now_ms env s1 = Some (Inr n, s2)"
    and claim: "claim_received env task' (message_handle_id m') (s2\<lparr>AGENT_EXEC_TIMESTAMP_MS := n\<rparr>) = Some (Inr go_on, s3)"
    and fin: "\<exists>s4 task1 t1 s5 task2. tasks_queue_hide env (message_handle_id m') s3 = Some (Inr (), s4) \<and>
          set_task_tstmp task' ''stage3_agent_01_task_acquired_sqs_tstmp'' t = Inr task1 \<and>
          get_time_now_ms env s4 = Some (Inr t1, s5) \<and>
          set_task_tstmp task1 ''stage3_agent_02_task_acquired_ddb_tstmp'' t1 = Inr task2 \<and>
          on_pre (count_event ''agent_successful_acquire_a_task'' 1) s5 = Some (Inr (), s') \<and>
          Some (m, task) = Some (m', task2)" and go: "go_on"
    by (rule acquire_received_Some) (auto split: if_splits)
  then obtain s4 task1 t1 s5 where hide: "tasks_queue_hide env (message_handle_id m) s3 = Some (Inr (), s4)"
    and st: "set_task_tstmp task' ''stage3_agent_01_task_acquired_sqs_tstmp'' t = Inr task1"
      "set_task_tstmp task1 ''stage3_agent_02_task_acquired_ddb_tstmp'' t1 = Inr task"
    and t1: "get_time_now_ms env s4 = Some (Inr t1, s5)"
    and count: "on_pre (count_event ''agent_successful_acquire_a_task'' 1) s5 = Some (Inr (), s')" and m: "m' = m"
    by blast
  from go claim_lost_False have no_lost: "claim_lost env k (message_handle_id m') u \<noteq> Some (Inr go_on, s3)" for k u
    by blast
  from assms(1) claim obtain k x where
    k: "task_id_of task' = Inr k" and q3: "tasks_queue s3 = tasks_queue s2"
    and step: "task_step (md5_int (ag_db env)) (tbl (ag_world s2)) (Claim k (message_handle_id m') (SELF_ID env) x)
        (tbl (ag_world s3))"
    by (rule claim_received_Some) (use no_lost in simp_all)
  have s2: "tbl (ag_world s2) = tbl (ag_world s1)"
    using keepsD [OF get_time_now_keeps [OF d(3)] n] by simp
  have s': "tbl (ag_world s') = tbl (ag_world s3)"
    using keepsD [OF tasks_queue_keeps(3) [OF d(2)] hide] keepsD [OF get_time_now_keeps [OF d(3)] t1]
      keepsD [OF keeps_counters(1) count, of tbl] by simp
  have "keeps tasks_queue (tasks_queue_hide env h)" for h
    unfolding tasks_queue_hide_def by (intro keeps_bind keeps_get keeps_tasks_queue)
  from keepsD [OF this hide] keepsD [OF keeps_tasks_queue(5) t1] keepsD [OF keeps_tasks_queue(2) count]
  have q': "tasks_queue s' = tasks_queue s3" by simp
  from hide obtain v v' where change: "change_visibility (ag_sqs env) (tasks_queue s3) (message_handle_id m)
       (agent_task_visibility_timeout_sec env) PNone v = Some (Inr (), v')"
    by (auto simp: tasks_queue_hide_def io_bind_Inr on_world_Some)
  have final: "task_step (md5_int (ag_db env)) (tbl (ag_world s)) (Claim k (message_handle_id m) (SELF_ID env) x)
       (tbl (ag_world s'))" using step s1 s2 s' m by simp
  have "task_id_of task0 = Inr k" "task_id_of task = Inr k"
    using k body(2) st by (simp_all add: task_id_of_tstmp)
  with final claim_held [OF final] body(1) m change q' show ?thesis
    by (intro exI [of _ task0] exI [of _ k] exI [of _ x] exI [of _ v] exI [of _ v'] conjI) simp_all
qed

text \<open>C7. An acquisition that ends without a task has changed no row, and it has removed no message from any
  queue, except the received message of a task whose row says that it was cancelled.\<close>

theorem failed_acquisition_loses_nothing:
  assumes "agent_documented env tbl" and "agent_queues env qv" and "queue_ok (tasks_queue s)"
    and "try_to_acquire_a_task env s = Some (Inr None, s')"
  shows "tbl (ag_world s') = tbl (ag_world s) \<and>
     (stored qv (ag_world s') = stored qv (ag_world s) \<or>
      (\<exists>b task0 k row st n. json_loads b = Inr task0 \<and> task_id_of task0 = Inr k \<and> tbl (ag_world s) k = Some row \<and>
         row ''task_status'' = Some (PStr st) \<and> str_startswith st TASK_STATE_CANCELLED \<and>
         b \<in># stored qv (ag_world s) n \<and>
         stored qv (ag_world s') = (stored qv (ag_world s))(n := stored qv (ag_world s) n - {#b#})))"
  using assms(4)
proof (cases rule: try_to_acquire_Some)
  case (empty q w s1 t)
  have "stored qv w = stored qv (ag_world s)"
    using grid_queue.receive_stored [OF agent_queuesD(1) [OF assms(2)] assms(3) empty(2)] by simp
  moreover have "stored qv (ag_world s1) = stored qv w"
    using keepsD [OF get_time_now_keeps [OF agent_queuesD(2) [OF assms(2)]] empty(3)] by (simp add: queue_state_def)
  ultimately show ?thesis
    using receive_keeps_table [OF assms(1) empty(2,3)] keepsD [OF keeps_counters(1) empty(4), of tbl]
      keepsD [OF keeps_counters(1) empty(4), of "stored qv"] by simp
next
  case (received m q w s1 t)
  note d = agent_documentedD [OF assms(1)] and e = agent_queuesD [OF assms(2)]
  note s1 = receive_keeps_table [OF assms(1) received(1,2)]
  have now: "queue_state qv (ag_world u') = queue_state qv (ag_world u)" "tbl (ag_world u') = tbl (ag_world u)"
    "tasks_queue u' = tasks_queue u" if "get_time_now_ms env u = Some (r, u')" for u r u'
    using keepsD [OF get_time_now_keeps [OF e(2)] that] keepsD [OF get_time_now_keeps [OF d(3)] that]
      keepsD [OF keeps_tasks_queue(5) that] by simp_all
  from grid_queue.received_issued [OF e(1) assms(3) received(1)] obtain n where
    n: "queue_source q (message_handle_id m) = Some n" "live_handle qv w n (message_handle_id m) = Some (msg_body m)"
       "msg_body m \<in># stored qv w n" by blast
  have w: "stored qv w = stored qv (ag_world s)"
    using grid_queue.receive_stored [OF e(1) assms(3) received(1)] by simp
  from received(3) obtain task0 task s2 ms where body: "json_loads (msg_body m) = Inr task0"
    and set: "py_set task0 ''sqs_handle_id'' (PStr (message_handle_id m)) = Inr task"
    and ms: "get_time_now_ms env s1 = Some (Inr ms, s2)"
    and claim: "claim_received env task (message_handle_id m) (s2\<lparr>AGENT_EXEC_TIMESTAMP_MS := ms\<rparr>) = Some (Inr False, s')"
    by (rule acquire_received_Some) (auto split: if_splits)
  from assms(1) claim obtain k s3 s4 x v tr c where k: "task_id_of task = Inr k"
    and lost: "claim_lost env k (message_handle_id m) s4 = Some (Inr False, s')"
    and t4: "tbl (ag_world s4) = tbl (ag_world s2)"
    and x: "next_expiration env (s2\<lparr>AGENT_EXEC_TIMESTAMP_MS := ms\<rparr>) = Some (Inr x, s3)"
    and s4: "s4 = s3\<lparr>ag_world := v\<rparr>"
    and call: "claim_task_for_agent (ag_db env) k (message_handle_id m) (SELF_ID env) x (ag_world s3) =
        Some (Inl (StateTableException tr c), v)"
    by (rule claim_received_Some) simp_all
  have q4: "queue_state qv (ag_world s4) = queue_state qv w" "tasks_queue s4 = q"
    using keepsD [OF next_expiration_keeps [OF e(2)] x] keepsD [OF keeps_tasks_queue(4) x]
      keepsD [OF store_calls_keep_other(1) [OF e(3)] call] s4 now [OF ms] now [OF received(2)] by simp_all
  note lost' = claim_lost_Some [OF assms(1) lost e(2,3)]
  have tbl: "tbl (ag_world s') = tbl (ag_world s)" using lost' t4 now(2) [OF ms] s1 by simp
  from lost' consider "queue_state qv (ag_world s') = queue_state qv (ag_world s4)"
    | row st u where "tbl (ag_world s4) k = Some row" "row ''task_status'' = Some (PStr st)"
        "str_startswith st TASK_STATE_CANCELLED" "queue_state qv u = queue_state qv (ag_world s4)"
        "delete_message (ag_sqs env) q (message_handle_id m) PNone u = Some (Inr (), ag_world s')"
    using q4(2) by blast
  then show ?thesis
  proof cases
    case 1
    with q4(1) w tbl show ?thesis by (simp add: queue_state_def)
  next
    case (2 row st u)
    have u: "stored qv u = stored qv w" "live_handle qv u = live_handle qv w"
      using 2(4) q4(1) by (simp_all add: queue_state_def)
    have "stored qv (ag_world s') = (stored qv u)(n := stored qv u n - {#msg_body m#})"
      by (rule grid_queue.delete_received [OF e(1) n(1) _ 2(5)]) (simp add: u n(2))
    moreover have "task_id_of task0 = Inr k" using k set by simp
    moreover have "tbl (ag_world s) k = Some row" using 2(1) t4 now(2) [OF ms] s1 by simp
    ultimately show ?thesis using 2(2,3) u w n(3) tbl body
      by (intro conjI disjI2 exI [of _ "msg_body m"] exI [of _ task0] exI [of _ k] exI [of _ row] exI [of _ st]
          exI [of _ n]) simp_all
  qed
qed

section \<open>Completing a task\<close>

lemma finish_attempt_Some:
  assumes doc: "agent_documented env tbl" and run: "finish_attempt env k s = Some (Inr r, s')"
  shows "case r of None \<Rightarrow> tbl (ag_world s') = tbl (ag_world s)
     | Some b \<Rightarrow> if b then \<exists>ms. task_step (md5_int (ag_db env)) (tbl (ag_world s)) (Finish k (SELF_ID env) ms) (tbl (ag_world s'))
         else tbl (ag_world s') = tbl (ag_world s) \<and>
           (\<forall>ms t'. \<not> task_step (md5_int (ag_db env)) (tbl (ag_world s)) (Finish k (SELF_ID env) ms) t')"
proof -
  note d = agent_documentedD [OF doc]
  note fin = finish_refines [OF d(1) agent_frameD(1) [OF d(3)], of k "SELF_ID env"]
  let ?finish = "update_task_status_to_finished (ag_db env) (ag_host env) k (SELF_ID env)"
  have now: "tbl (ag_world u') = tbl (ag_world u)" if "get_time_now_ms env u = Some (res, u')" for u res u'
    using keepsD [OF get_time_now_keeps [OF d(3)] that] by simp
  from run obtain t0 s1 where t0: "get_time_now_ms env s = Some (Inr t0, s1)"
    and c: "io_catch (io_bind (on_world ?finish) (\<lambda>b. io_return (Some b)))
       (\<lambda>e. case e of
          StateTableException caused_by_throttling caused_by_condition \<Rightarrow>
            if caused_by_throttling then io_bind (get_time_now_ms env) (\<lambda>time_end_ms. io_return None)
            else if caused_by_condition then io_return (Some False)
            else io_return None
        | _ \<Rightarrow> io_raise e) s1 = Some (Inr r, s')"
    unfolding finish_attempt_def io_bind_Inr by blast
  from c consider (ok) b w where "?finish (ag_world s1) = Some (Inr b, w)" "r = Some b" "s' = s1\<lparr>ag_world := w\<rparr>"
    | (exc) e w where "?finish (ag_world s1) = Some (Inl e, w)" "(case e of
          StateTableException caused_by_throttling caused_by_condition \<Rightarrow>
            if caused_by_throttling then io_bind (get_time_now_ms env) (\<lambda>time_end_ms. io_return None)
            else if caused_by_condition then io_return (Some False)
            else io_return None
        | _ \<Rightarrow> io_raise e) (s1\<lparr>ag_world := w\<rparr>) = Some (Inr r, s')"
    by (auto simp: io_catch_Some io_bind_Some on_world_Some)
  then show ?thesis
  proof cases
    case ok
    with refines_ok [OF fin ok(1)] finish_answers_True [OF ok(1)] now [OF t0] show ?thesis by auto
  next
    case exc
    from exc(2) obtain tr c where e: "e = StateTableException tr c" by (cases e) auto
    have "tbl w = tbl (ag_world s1)" using refines_error [OF fin exc(1)] e by simp
    moreover have "tbl (ag_world s') = tbl w" using exc(2) e
      by (cases tr; cases c) (auto simp: io_bind_Inr dest: now)
    moreover have "\<forall>ms t'. \<not> task_step (md5_int (ag_db env)) (tbl (ag_world s1)) (Finish k (SELF_ID env) ms) t'"
      if "r = Some b" for b
    proof -
      have c using that exc(2) e by (cases tr; cases c) (auto simp: io_bind_Inr)
      with refines_condition [OF fin, of "ag_world s1" tr w] exc(1) e show ?thesis by auto
    qed
    moreover have "\<not> b" if "r = Some b" for b
      using that exc(2) e by (cases tr; cases c) (auto simp: io_bind_Inr)
    ultimately show ?thesis using now [OF t0] by (cases r) auto
  qed
qed

lemma finish_attempt_keeps:
  assumes "agent_frame env v" and "ddb_keeps (ag_db env) v"
  shows "keeps (v \<circ> ag_world) (finish_attempt env k)" "keeps tasks_queue (finish_attempt env k)"
proof -
  note n = get_time_now_keeps [OF assms(1)]
  note u = keeps_on_world [OF store_calls_keep_other(3) [OF assms(2) agent_frameD(1) [OF assms(1)]]]
  show "keeps (v \<circ> ag_world) (finish_attempt env k)"
    unfolding finish_attempt_def
    by (intro keeps_bind keeps_catch n u keeps_return) (auto intro!: keeps_bind n split: exn.splits)
  show "keeps tasks_queue (finish_attempt env k)"
    unfolding finish_attempt_def
    by (intro keeps_bind keeps_catch keeps_tasks_queue keeps_return)
      (auto intro!: keeps_bind keeps_tasks_queue split: exn.splits)
qed

lemma mark_finished_Some:
  assumes doc: "agent_documented env tbl" and run: "mark_finished env k s = Some (Inr b, s')"
  shows "if b then \<exists>ms. task_step (md5_int (ag_db env)) (tbl (ag_world s)) (Finish k (SELF_ID env) ms) (tbl (ag_world s'))
     else tbl (ag_world s') = tbl (ag_world s) \<and>
       (\<forall>ms t'. \<not> task_step (md5_int (ag_db env)) (tbl (ag_world s)) (Finish k (SELF_ID env) ms) t')"
proof -
  from run obtain n u x where u: "io_rounds (finish_attempt env k) n s = Some u"
    "finish_attempt env k u = Some (x, s')" "last_round x (Inr b)"
    unfolding mark_finished_def io_until_iff by blast
  from u(3) have x: "x = Inr (Some b)" by (auto simp: last_round_def split: sum.splits option.splits)
  have "tbl (ag_world u) = tbl (ag_world s)"
    by (rule io_rounds_invariant [OF u(1)]) (auto dest: finish_attempt_Some [OF doc])
  with finish_attempt_Some [OF doc u(2) [unfolded x]] show ?thesis by (cases b) simp_all
qed

lemma report_completion_Some:
  assumes run: "report_completion env task m b s = Some (Inr (), s')" and v: "agent_frame env v"
  obtains (deleted) w where "b" "delete_message (ag_sqs env) (tasks_queue s) (message_handle_id m) PNone (ag_world s) = Some (Inr (), w)"
      "v (ag_world s') = v w"
  | (left_alone) "\<not> b" "v (ag_world s') = v (ag_world s)"
proof -
  let ?last = "io_bind (get_time_now_ms env) (\<lambda>logged.
      io_bind (get_time_now_ms env) (\<lambda>now.
      io_bind (io_get AGENT_EXEC_TIMESTAMP_MS) (\<lambda>started.
      io_then (on_post (count_event ''agent_total_time_ms'' (now - started)))
      (io_then (on_post (set_event ''str_pod_id'' (PStr (SELF_ID env))))
        (submit_post_agent_measurements env task)))))"
  have last: "keeps (v \<circ> ag_world) ?last"
    by (intro keeps_bind keeps_then keeps_get keeps_counters frame_keeps v)
  from run obtain s1 where first: "(if \<not> b then on_post (count_event ''ddb_set_task_finished_failed'' 1)
        else io_then (on_post (count_event ''ddb_set_task_finished_succeeded'' 1))
          (tasks_queue_delete env (message_handle_id m))) s = Some (Inr (), s1)"
    and rest: "?last s1 = Some (Inr (), s')"
    unfolding report_completion_def io_then_Inr by blast
  have s': "v (ag_world s') = v (ag_world s1)" using keepsD [OF last rest] by simp
  show thesis
  proof (cases b)
    case True
    with first obtain s2 where count: "on_post (count_event ''ddb_set_task_finished_succeeded'' 1) s = Some (Inr (), s2)"
      and del: "tasks_queue_delete env (message_handle_id m) s2 = Some (Inr (), s1)"
      by (auto simp: io_then_Inr)
    have "ag_world s2 = ag_world s" using keepsD [OF keeps_counters(2) count, of "\<lambda>w. w"] by simp
    with del keepsD [OF keeps_tasks_queue(3) count]
    have "delete_message (ag_sqs env) (tasks_queue s) (message_handle_id m) PNone (ag_world s) = Some (Inr (), ag_world s1)"
      by (auto simp: tasks_queue_delete_def io_bind_Inr on_world_Some)
    with True s' show thesis by (intro deleted)
  next
    case False
    with first have "on_post (count_event ''ddb_set_task_finished_failed'' 1) s = Some (Inr (), s1)" by simp
    with keepsD [OF keeps_counters(2) this, of v] False s' show thesis by (intro left_alone) simp_all
  qed
qed

text \<open>C8. A completion that returns has stored the output before it touched row or message.  Then either the
  row was still being processed by this agent and is finished now, and the message has been removed
  from its queue; or the row was not this agent's any more, and table and queues are as before.  The agent's
  receipt handle must still be the most recent one of the message: SQS promises a deletion for that handle only, so no
  other agent may have received the message again meanwhile, which the agent's visibility timeout is for.\<close>

theorem completion_stores_finishes_deletes:
  assumes "agent_documented env tbl" and "agent_queues env qv"
    and "process_subprocess_completion env task m f out s = Some (Inr (), s')"
    and "queue_source (tasks_queue s) (message_handle_id m) = Some n"
    and "live_handle qv (ag_world s) n (message_handle_id m) = Some b"
  shows "\<exists>k s1 s2. task_id_of task = Inr k \<and> store_output env k f out s1 = Some (Inr (), s2) \<and>
     tbl (ag_world s2) = tbl (ag_world s) \<and> stored qv (ag_world s2) = stored qv (ag_world s) \<and>
     ((\<exists>ms. task_step (md5_int (ag_db env)) (tbl (ag_world s)) (Finish k (SELF_ID env) ms) (tbl (ag_world s'))) \<and>
        stored qv (ag_world s') = (stored qv (ag_world s))(n := stored qv (ag_world s) n - {#b#}) \<or>
      (\<forall>ms t'. \<not> task_step (md5_int (ag_db env)) (tbl (ag_world s)) (Finish k (SELF_ID env) ms) t') \<and>
        tbl (ag_world s') = tbl (ag_world s) \<and> stored qv (ag_world s') = stored qv (ag_world s))"
proof -
  note d = agent_documentedD [OF assms(1)] and e = agent_queuesD [OF assms(2)]
  from assms(3) obtain t1 s1 task1 k s2 t2 s3 task2 ok s4 where t1: "get_time_now_ms env s = Some (Inr t1, s1)"
    and task1: "set_task_tstmp task ''stage4_agent_01_user_code_finished_tstmp'' t1 = Inr task1"
    and k: "task_id_of task1 = Inr k" and store: "store_output env k f out s1 = Some (Inr (), s2)"
    and t2: "get_time_now_ms env s2 = Some (Inr t2, s3)"
    and mark: "mark_finished env k s3 = Some (Inr ok, s4)"
    and report: "report_completion env task2 m ok s4 = Some (Inr (), s')"
    by (auto simp: process_subprocess_completion_def io_bind_Inr io_then_Inr)
  have table: "tbl (ag_world s2) = tbl (ag_world s)" "tbl (ag_world s3) = tbl (ag_world s)"
    using keepsD [OF get_time_now_keeps [OF d(3)] t1] keepsD [OF get_time_now_keeps [OF d(3)] t2]
      keepsD [OF store_output_keeps [OF d(3)] store] by simp_all
  have mark_keeps: "keeps (queue_state qv \<circ> ag_world) (mark_finished env k)" "keeps tasks_queue (mark_finished env k)"
    unfolding mark_finished_def by (intro keeps_until finish_attempt_keeps [OF e(2,3)])+
  have queue: "queue_state qv (ag_world s2) = queue_state qv (ag_world s)"
    "queue_state qv (ag_world s4) = queue_state qv (ag_world s)" "tasks_queue s4 = tasks_queue s"
    using keepsD [OF get_time_now_keeps [OF e(2)] t1] keepsD [OF get_time_now_keeps [OF e(2)] t2]
      keepsD [OF store_output_keeps [OF e(2)] store] keepsD [OF mark_keeps(1) mark] keepsD [OF mark_keeps(2) mark]
      keepsD [OF keeps_tasks_queue(5) t1] keepsD [OF keeps_tasks_queue(5) t2] keepsD [OF keeps_tasks_queue(6) store]
    by simp_all
  have removed: "stored qv w = (stored qv (ag_world s))(n := stored qv (ag_world s) n - {#b#})"
    if "delete_message (ag_sqs env) (tasks_queue s4) (message_handle_id m) PNone (ag_world s4) = Some (Inr (), w)" for w
    using grid_queue.delete_received [OF e(1), of "tasks_queue s4" "message_handle_id m" n "ag_world s4" b PNone "()" w]
      that assms(4,5) queue(2,3) by (simp add: queue_state_def)
  from report d(3) e(2) have end_queue: "if ok
      then stored qv (ag_world s') = (stored qv (ag_world s))(n := stored qv (ag_world s) n - {#b#})
      else stored qv (ag_world s') = stored qv (ag_world s)"
    by - (erule report_completion_Some [where v = "queue_state qv"],
        auto simp: queue_state_def removed queue(2) [unfolded queue_state_def])
  from report d(3) have "tbl (ag_world s') = tbl (ag_world s4)"
    by - (erule report_completion_Some [where v = tbl], auto dest: keepsD [OF grid_queue.op_keeps(2) [OF d(2)]])
  with mark_finished_Some [OF assms(1) mark] end_queue table queue(1) task_id_of_tstmp [OF task1] k store
  show ?thesis
    by (intro exI [of _ k] exI [of _ s1] exI [of _ s2]) (cases ok, auto simp: queue_state_def)
qed

section \<open>A run of the agent\<close>

lemma agent_event_other:
  assumes "held md5 t k b" and "agent_event a e" and "b \<noteq> a" and "task_step md5 t e t'"
  shows "t' k = t k"
proof (cases "event_task e k")
  case True
  with assms held_excludes [OF assms(1)] show ?thesis by (auto simp: agent_event_def)
next
  case False
  with assms(4) show ?thesis by (rule task_step_other)
qed

lemma agent_run_other:
  assumes "task_run md5 t es t'" and "held md5 t k b" and "list_all (agent_event a) es" and "b \<noteq> a"
  shows "t' k = t k"
  using assms
proof (induction rule: task_run.induct)
  case (run_cons t e t1 es t2)
  then have same: "t1 k = t k" by (auto intro: agent_event_other)
  then have "held md5 t1 k b" using run_cons.prems(1) by (simp add: held_def row_defs)
  with run_cons same show ?case by simp
qed simp

text \<open>C9. However a run of the event loop ends, the table has changed only by claims, heartbeats and completions
  of this agent.  So the grid's invariants survive it, and a task that another agent holds has the row it had.\<close>

theorem agent_takes_own_steps:
  assumes "agent_documented env tbl" and "agent_main env s = Some (r, s')"
    and "SELF_ID env \<noteq> ''None''" and "reachable (md5_int (ag_db env)) (tbl (ag_world s))"
    and "b \<noteq> SELF_ID env"
  shows "\<exists>es. list_all (agent_event (SELF_ID env)) es \<and>
     task_run (md5_int (ag_db env)) (tbl (ag_world s)) es (tbl (ag_world s')) \<and>
     reachable (md5_int (ag_db env)) (tbl (ag_world s')) \<and> table_ok (md5_int (ag_db env)) (tbl (ag_world s')) \<and>
     {k. held (md5_int (ag_db env)) (tbl (ag_world s)) k b \<and> tbl (ag_world s') k \<noteq> tbl (ag_world s) k} = {}"
proof -
  let ?md5 = "md5_int (ag_db env)"
  have ev: "agent_evolves_by env tbl (agent_main env)"
    unfolding agent_main_def by (intro evolves_intros event_loop_evolves [OF assms(1)])
  from evolvesD [OF ev assms(2)] obtain es where es: "list_all (agent_event (SELF_ID env)) es"
    "task_run ?md5 (tbl (ag_world s)) es (tbl (ag_world s'))" by auto
  have "reachable ?md5 (tbl (ag_world s'))"
    using evolves_reachable [OF ev _ assms(2)] agent_event_ok [OF _ assms(3)] assms(4) by simp
  moreover from this have "table_ok ?md5 (tbl (ag_world s'))" by (rule reachable_table_ok)
  ultimately show ?thesis using es agent_run_other [OF es(2) _ es(1) assms(5)] by auto
qed

end
