(* ===== verification/AgentFaults.thy ===== *)
theory AgentFaults
  imports AgentProps
begin

text \<open>
  How the agent copes with what goes wrong around it: a throttled state table, a task that is
  cancelled while it runs, a worker that does not start, and an input that is not in the data
  plane.  At the end the agent runs on services in memory, as the witnesses of its properties.
\<close>

section \<open>A throttled state table\<close>

text \<open>
  \<open>raises_only E m\<close>: the exceptions that escape from \<open>m\<close> satisfy \<open>E\<close>.  A method of the state
  table raises a \<open>StateTableException\<close> with exactly one flag, or one of two kinds of errors.
\<close>

abbreviation raises_only :: "(exn \<Rightarrow> bool) \<Rightarrow> ('s, 'a) io \<Rightarrow> bool" where
  "raises_only E m \<equiv> hoare (\<lambda>_. True) m (\<lambda>_ _. True) (\<lambda>e _. E e)"

definition store_exn :: "exn \<Rightarrow> bool" where
  "store_exn e \<longleftrightarrow> (\<exists>tr c. e = StateTableException tr c \<and> tr = (\<not> c)) \<or>
     (\<exists>x. e = GenericException x \<or> e = ServiceFailure x)"

lemma store_exn_simps [simp]:
  "store_exn (StateTableException tr c) \<longleftrightarrow> tr = (\<not> c)" "store_exn (GenericException x)" "store_exn (ServiceFailure x)"
  by (auto simp: store_exn_def)

lemma update_raises: "ddb_documented db tbl \<Longrightarrow> raises_only service_error (io_call (ddb_update_item db r))"
  unfolding hoare_def
proof (intro conjI allI impI)
  fix s e t
  assume "ddb_documented db tbl" and "True \<and> io_call (ddb_update_item db r) s = Some (Inl e, t)"
  then show "service_error e"
    using ddb_update_case [of db tbl r s "Inl e" t] by (cases e) (auto simp: service_error_def)
qed simp

lemma get_task_raises: "ddb_documented db tbl \<Longrightarrow> raises_only store_exn (get_task_by_id db k c)"
  unfolding hoare_def by (auto dest: get_task_by_id_error)

lemma clock_raises: "raises_only E (time_now_ms host)"
  by (simp add: hoare_def time_now_ms_def io_read_apply)

lemma reading_handler_raises:
  assumes "ddb_documented db tbl"
  shows "hoare (\<lambda>_. service_error e) (case e of
      ClientError c m \<Rightarrow>
             if c = CONDITION_FAILED then
               io_bind (get_task_by_id db k True) (\<lambda>task_row. io_raise (StateTableException False True))
             else if c \<in> set throttling_codes then io_raise (StateTableException True False)
             else io_raise (GenericException (exn_str e))
         | _ \<Rightarrow> io_raise e) (\<lambda>_ _. True) (\<lambda>e _. store_exn e)"
  using get_task_raises [OF assms, of k True]
  by (cases e) (auto simp: service_error_def hoare_def io_bind_Some)

lemma finish_raises:
  "ddb_documented db tbl \<Longrightarrow> raises_only store_exn (update_task_status_to_finished db host k a)"
  unfolding update_task_status_to_finished_def Let_def
  by (rule hoare_catch [OF _ reading_handler_raises], rule hoare_bind [OF clock_raises], rule hoare_then [OF update_raises])
    (auto intro: hoare_return)

lemma refresh_raises:
  "ddb_documented db tbl \<Longrightarrow> raises_only store_exn (refresh_ttl_for_ongoing_task db k a x)"
  unfolding refresh_ttl_for_ongoing_task_def Let_def
  by (rule hoare_catch [OF _ reading_handler_raises], rule hoare_then [OF update_raises]) (auto intro: hoare_return)

lemma store_call_returns:
  "returns (update_task_status_to_finished db host k a)" "returns (refresh_ttl_for_ongoing_task db k a x)"
  unfolding update_task_status_to_finished_def refresh_ttl_for_ongoing_task_def Let_def
  by (auto simp del: io_raise_apply io_return_apply intro!: returns_catch returns_bind returns_then get_task_by_id_returns
      split: exn.splits)

lemma returns_on_world: "returns m \<Longrightarrow> returns (on_world m)"
  unfolding on_world_def by (rule returns_zoom)

lemma get_time_now_returns: "returns (get_time_now_ms env)"
  unfolding get_time_now_ms_def by (rule returns_on_world) simp

lemma finish_attempt_returns: "returns (finish_attempt env k)"
  unfolding finish_attempt_def
  by (intro returns_bind returns_catch get_time_now_returns returns_on_world store_call_returns)
    (auto simp del: io_raise_apply io_return_apply intro!: returns_bind get_time_now_returns split: exn.splits)

text \<open>The attempt to mark task \<open>k\<close> finished that starts in \<open>s\<close> is throttled.\<close>

definition finish_throttled :: "'w agent_env \<Rightarrow> string \<Rightarrow> 'w agent_state \<Rightarrow> bool" where
  "finish_throttled env k s \<longleftrightarrow> (\<exists>t s1 c w. get_time_now_ms env s = Some (Inr t, s1) \<and>
     update_task_status_to_finished (ag_db env) (ag_host env) k (SELF_ID env) (ag_world s1) =
       Some (Inl (StateTableException True c), w))"

lemma finish_attempt_again:
  assumes "ddb_documented (ag_db env) tbl"
  shows "(\<exists>t. finish_attempt env k s = Some (Inr None, t)) \<longleftrightarrow> finish_throttled env k s"
proof -
  obtain t0 s1 where now: "get_time_now_ms env s = Some (Inr t0, s1)"
    by (cases "now_ms (ag_host env) (ag_world s)")
      (auto simp: get_time_now_ms_def on_world_Some time_now_ms_def io_read_apply)
  let ?finish = "update_task_status_to_finished (ag_db env) (ag_host env) k (SELF_ID env)"
  obtain r w where f: "?finish (ag_world s1) = Some (r, w)"
    using store_call_returns(1) [of "ag_db env" "ag_host env" k "SELF_ID env"] unfolding returns_def by fastforce
  have again: "\<exists>t u. get_time_now_ms env (s1\<lparr>ag_world := w\<rparr>) = Some (Inr t, u)"
    by (auto simp: get_time_now_ms_def on_world_Some time_now_ms_def io_read_apply)
  show ?thesis
  proof (cases r)
    case (Inr b)
    with f now show ?thesis
      by (auto simp: finish_attempt_def finish_throttled_def io_bind_apply io_catch_apply on_world_def io_zoom_apply)
  next
    case (Inl e)
    with finish_raises [OF assms] f have "store_exn e" unfolding hoare_def by blast
    with f now again Inl show ?thesis
      by (cases e)
        (auto simp: finish_attempt_def finish_throttled_def io_bind_apply io_catch_apply on_world_def io_zoom_apply)
  qed
qed

text \<open>Marking a task finished is retried for as long as the state table throttles the update, and for no
  other reason: the loop does not return exactly when every attempt it makes is throttled.\<close>

theorem finishing_waits_only_for_throttling:
  assumes "ddb_documented (ag_db env) tbl"
  shows "(mark_finished env k s = None) =
     (\<forall>n. \<exists>u. io_rounds (finish_attempt env k) n s = Some u \<and> finish_throttled env k u)"
  unfolding mark_finished_def io_until_None_iff [OF finish_attempt_returns] finish_attempt_again [OF assms, symmetric]
  by blast

section \<open>A task that is cancelled while it runs\<close>

definition giving_up :: "exn \<Rightarrow> bool" where
  "giving_up e \<longleftrightarrow> e = AttributeError \<or> e = ValueError \<or> (\<exists>x. e = GenericException x \<or> e = ServiceFailure x)"

lemma giving_up_simps [simp]:
  "giving_up AttributeError" "giving_up ValueError" "giving_up (GenericException x)" "giving_up (ServiceFailure x)"
  by (auto simp: giving_up_def)

lemma cancelled_status:
  assumes "in_state md5 t k TASK_STATE_CANCELLED"
  obtains row st where "t k = Some row" "row ''task_status'' = Some (PStr st)" "str_startswith st TASK_STATE_CANCELLED"
  using assms by (auto simp: in_state_def status_of_def make_task_state_from_task_id_def
      make_task_state_from_session_id_def make_task_state_from_state_and_partition_def str_startswith_def
      split: option.splits)

lemma is_cancelled_raises:
  assumes "ddb_documented (ag_db env) tbl" and "in_state md5 (tbl (ag_world s)) k TASK_STATE_CANCELLED"
    and "is_task_has_been_cancelled env k s = Some (Inl e, s')"
  shows "giving_up e"
proof -
  from assms(3) consider (get) w where "get_task_by_id (ag_db env) k True (ag_world s) = Some (Inl e, w)"
    | (row) row w where "get_task_by_id (ag_db env) k True (ag_world s) = Some (Inr (Some row), w)"
        "row_text row ''task_status'' = Inl e"
    by (auto simp: is_task_has_been_cancelled_def io_bind_Some on_world_Some split: option.splits)
  then show ?thesis
  proof cases
    case get
    with get_task_by_id_error [OF assms(1)] show ?thesis by (auto simp: giving_up_def)
  next
    case row
    from consistent_read_row [OF assms(1) row(1)] assms(2) obtain st where "row ''task_status'' = Some (PStr st)"
      by (auto elim: cancelled_status)
    with row(2) show ?thesis by (simp add: row_text_def row_get_def)
  qed
qed

lemma refresh_lost_cancelled:
  assumes "ddb_documented (ag_db env) tbl" and "in_state md5 (tbl (ag_world s)) k TASK_STATE_CANCELLED"
    and "task_id_of task = Inr k" and "refresh_lost env task m e c s = Some (r, s')"
  shows "\<exists>e'. r = Inl e' \<and> giving_up e'"
    and "\<And>v. keeps v (get_task_by_id (ag_db env) k True) \<Longrightarrow> v (ag_world s') = v (ag_world s)"
proof -
  let ?check = "if c then io_bind (io_of (task_id_of task)) (is_task_has_been_cancelled env) else io_return False"
  have check: "?check = (if c then is_task_has_been_cancelled env k else io_return False)"
    by (rule ext) (simp add: assms(3) io_bind_apply)
  from assms(4) consider (raised) e' where "c" "is_task_has_been_cancelled env k s = Some (Inl e', s')" "r = Inl e'"
    | (answered) b s1 where "(if c then is_task_has_been_cancelled env k else io_return False) s = Some (Inr b, s1)"
        "r = Inl (if b then AttributeError else GenericException (exn_str e))" "s' = s1"
    unfolding refresh_lost_def check
    by (auto simp: io_bind_Some message_delete_def split: if_splits)
  then have "(\<exists>e'. r = Inl e' \<and> giving_up e') \<and>
      (s' = s \<or> (\<exists>r. is_task_has_been_cancelled env k s = Some (r, s')))"
  proof cases
    case raised
    with is_cancelled_raises [OF assms(1,2)] show ?thesis by auto
  next
    case answered
    then show ?thesis by (auto split: if_splits)
  qed
  then show "\<exists>e'. r = Inl e' \<and> giving_up e'"
    and "\<And>v. keeps v (get_task_by_id (ag_db env) k True) \<Longrightarrow> v (ag_world s') = v (ag_world s)"
    by (auto dest: keepsD [OF is_cancelled_keeps])
qed

lemma refresh_ttl_cancelled:
  assumes doc: "agent_documented env tbl" and v: "agent_frame env v" "ddb_keeps (ag_db env) v"
    and k: "task_id_of task = Inr k" and st: "in_state (md5_int (ag_db env)) (tbl (ag_world s)) k TASK_STATE_CANCELLED"
    and run: "refresh_ttl env task s = Some (r, s')"
  shows "(\<exists>e. r = Inl e \<and> (e = ValueError \<or> store_exn e)) \<and> tbl (ag_world s') = tbl (ag_world s) \<and>
     v (ag_world s') = v (ag_world s)"
proof -
  note d = agent_documentedD [OF doc]
  have same: "tbl (ag_world u') = tbl (ag_world u) \<and> v (ag_world u') = v (ag_world u)"
    if "next_expiration env u = Some (res, u')" for u res u'
    using keepsD [OF next_expiration_keeps [OF d(3)] that] keepsD [OF next_expiration_keeps [OF v(1)] that] by simp
  from k obtain x where px: "py_index task ''task_id'' = Inr x" by (auto simp: task_id_of_def bind_result_Inr)
  let ?refresh = "\<lambda>x. refresh_ttl_for_ongoing_task (ag_db env) k (SELF_ID env) x"
  from run px k consider (raised) e where "next_expiration env s = Some (Inl e, s')" "r = Inl e"
    | (called) x s1 where "next_expiration env s = Some (Inr x, s1)"
        "io_bind (on_world (?refresh x)) (\<lambda>b. io_return (Some b)) s1 = Some (r, s')"
    by (auto simp: refresh_ttl_def io_bind_Some io_then_Some)
  then show ?thesis
  proof cases
    case raised
    with next_expiration_raises [OF raised(1)] same [OF raised(1)] show ?thesis by auto
  next
    case called
    have "in_state (md5_int (ag_db env)) (tbl (ag_world s1)) k TASK_STATE_CANCELLED"
      using st same [OF called(1)] by simp
    then have refused: "\<not> task_step (md5_int (ag_db env)) (tbl (ag_world s1)) (Refresh k a x) t'" for a x t'
      using in_state_unique [of _ _ k TASK_STATE_CANCELLED TASK_STATE_PROCESSING] by (auto simp: task_step_simps)
    note fr = refresh_refines [OF d(1), of k "SELF_ID env" x]
    have "?refresh x (ag_world s1) \<noteq> Some (Inr b, w)" for b w
      using refines_ok [OF fr, of "ag_world s1" b w] refused by auto
    with called(2) obtain e w where
      call: "?refresh x (ag_world s1) = Some (Inl e, w)" and s': "r = Inl e" "s' = s1\<lparr>ag_world := w\<rparr>"
      by (auto simp: io_bind_Some on_world_Some)
    from refines_error [OF fr call] refused have "tbl w = tbl (ag_world s1)" by auto
    moreover have "v w = v (ag_world s1)" by (rule keepsD [OF store_calls_keep_other(2) [OF v(2)] call])
    moreover have "store_exn e" using refresh_raises [OF d(1)] call unfolding hoare_def by blast
    ultimately show ?thesis using same [OF called(1)] s' by simp
  qed
qed

lemma refresh_attempt_cancelled:
  assumes doc: "agent_documented env tbl" and v: "agent_frame env v" "ddb_keeps (ag_db env) v"
    and k: "task_id_of task = Inr k" and st: "in_state (md5_int (ag_db env)) (tbl (ag_world s)) k TASK_STATE_CANCELLED"
    and run: "refresh_attempt env task m s = Some (r, s')"
  shows "(r = Inr None \<or> (\<exists>e. r = Inl e \<and> giving_up e)) \<and> tbl (ag_world s') = tbl (ag_world s) \<and>
     v (ag_world s') = v (ag_world s)"
proof -
  note d = agent_documentedD [OF doc]
  have now: "(\<exists>t. res = Inr t) \<and> tbl (ag_world u') = tbl (ag_world u) \<and> v (ag_world u') = v (ag_world u)"
    if "get_time_now_ms env u = Some (res, u')" for u res u'
    using keepsD [OF get_time_now_keeps [OF d(3)] that] keepsD [OF get_time_now_keeps [OF v(1)] that] that
    by (auto simp: get_time_now_ms_def on_world_Some time_now_ms_def io_read_apply)
  let ?handler = "\<lambda>e. case e of
          StateTableException caused_by_throttling caused_by_condition \<Rightarrow>
            if caused_by_throttling then io_bind (get_time_now_ms env) (\<lambda>t2. io_return None)
            else refresh_lost env task m e caused_by_condition
        | _ \<Rightarrow> io_raise e"
  from run obtain t0 s1 where t0: "get_time_now_ms env s = Some (Inr t0, s1)"
    and c: "io_catch (refresh_ttl env task) ?handler s1 = Some (r, s')"
    unfolding refresh_attempt_def io_bind_Some by (auto dest: now)
  have st1: "in_state (md5_int (ag_db env)) (tbl (ag_world s1)) k TASK_STATE_CANCELLED"
    using st now [OF t0] by simp
  from c refresh_ttl_cancelled [OF doc v k st1] obtain e s2 where
    call: "refresh_ttl env task s1 = Some (Inl e, s2)" and h: "?handler e s2 = Some (r, s')"
    unfolding io_catch_Some by blast
  from refresh_ttl_cancelled [OF doc v k st1 call] now [OF t0] have e: "e = ValueError \<or> store_exn e"
    and s2: "tbl (ag_world s2) = tbl (ag_world s)" "v (ag_world s2) = v (ag_world s)" by auto
  show ?thesis
  proof (cases e)
    case (StateTableException tr cond)
    show ?thesis
    proof (cases tr)
      case True
      with h StateTableException s2 show ?thesis by (auto simp: io_bind_Some dest: now)
    next
      case False
      with h StateTableException have lost: "refresh_lost env task m e cond s2 = Some (r, s')" by simp
      note l = refresh_lost_cancelled [OF d(1) st [folded s2(1)] k lost]
      from l(1) l(2) [OF get_task_by_id_keeps [OF d(1)]] l(2) [OF get_task_keeps_other [OF v(2)]] s2
      show ?thesis by simp
    qed
  qed (use h e s2 in \<open>auto simp: store_exn_def giving_up_def\<close>)
qed

lemma refresh_is_due_keeps:
  assumes "agent_frame env v"
  shows "keeps (v \<circ> ag_world) (refresh_is_due env)"
  unfolding refresh_is_due_def by (intro keeps_bind keeps_get) (auto intro!: keeps_bind get_time_now_keeps assms)

text \<open>C15. A heartbeat that is due for a task that has been cancelled never succeeds: once the state table answers,
  it ends in an exception, which ends the agent, with the table and the queues as they were.  The
  message of the cancelled task is not deleted, as the code means it to be: \<open>sqs_msg\<close> is a dictionary
  without a method \<open>delete\<close>.\<close>

theorem heartbeat_of_cancelled_task:
  assumes "agent_documented env tbl" and "agent_queues env qv" and "task_id_of task = Inr k"
    and "in_state (md5_int (ag_db env)) (tbl (ag_world s)) k TASK_STATE_CANCELLED"
    and "execution_is_completed_flag s = False" and "refresh_is_due env s = Some (Inr True, s1)"
    and "do_ttl_updates_thread env task m s = Some (r, s')"
  shows "\<exists>e. r = Inl e \<and> giving_up e \<and> tbl (ag_world s') = tbl (ag_world s) \<and>
     stored qv (ag_world s') = stored qv (ag_world s)"
proof -
  note e = agent_queuesD [OF assms(2)]
  note att = refresh_attempt_cancelled [OF assms(1) e(2,3) assms(3)]
  let ?I = "\<lambda>u. tbl (ag_world u) = tbl (ag_world s) \<and> queue_state qv (ag_world u) = queue_state qv (ag_world s)"
  have s1: "?I s1"
    using keepsD [OF refresh_is_due_keeps [OF e(2)] assms(6)]
      keepsD [OF refresh_is_due_keeps [OF agent_documentedD(3) [OF assms(1)]] assms(6)] by simp
  from assms(5-7) obtain r' s2 where loop: "io_until (refresh_attempt env task m) s1 = Some (r', s2)"
    and r: "\<And>e. r' = Inl e \<Longrightarrow> r = Inl e \<and> s' = s2"
    by (cases "io_until (refresh_attempt env task m) s1")
      (auto simp: do_ttl_updates_thread_def update_ttl_if_required_def io_bind_apply split: sum.splits prod.splits)
  from loop obtain n u x where u: "io_rounds (refresh_attempt env task m) n s1 = Some u"
    "refresh_attempt env task m u = Some (x, s2)" "last_round x r'" unfolding io_until_iff by blast
  have step: "(r = Inr None \<or> (\<exists>e. r = Inl e \<and> giving_up e)) \<and> ?I w"
    if "?I v" "refresh_attempt env task m v = Some (r, w)" for v w r
    using att [OF _ that(2)] that(1) assms(4) by simp
  have "?I u" by (rule io_rounds_invariant [where I = ?I, OF u(1) s1]) (use step in blast)
  from step [OF this u(2)] u(3) obtain ex where "r' = Inl ex" "giving_up ex" "?I s2" by auto
  with r show ?thesis by (auto simp: queue_state_def)
qed

section \<open>Giving a task up\<close>

text \<open>With the task's input in the message instead of the data plane no task is ever run: \<open>run_task\<close> raises
  before it has done anything, because the text of the definition has no \<open>decode\<close>.\<close>

theorem input_by_value_never_runs:
  assumes "task_input_passed_via_external_storage env \<notin> {PInt 1, PBool True}"
  shows "\<exists>e. run_task env task m s = Some (Inl e, s) \<and>
     (py_index task ''task_definition'' = Inr v \<longrightarrow> e = AttributeError)"
  using assms
  by (cases "py_index task ''task_definition''")
    (simp_all add: run_task_def prepare_arguments_for_execution_def io_bind_apply)

text \<open>When the worker's answer contains the bootstrap error, the execution ends normally and the agent goes
  on with the next task; nothing outside the agent has changed: the output is not stored, the row is
  still being processed under this agent's name, and the message stays in its queue.\<close>

theorem bootstrap_error_leaves_task:
  assumes "utf8_decode payload = Inr ret" and "sublist ''BOOTSTRAP ERROR'' ret"
    and "increment ''bootstrap_failure'' 1 (event_counter_post s) = Inr c"
  shows "do_task_local_lambda_execution_thread env task m t (Inr payload) s =
     Some (Inr ret, s\<lparr>execution_is_completed_flag := True, event_counter_post := c\<rparr>)"
  using assms
  by (simp add: do_task_local_lambda_execution_thread_def io_bind_apply io_then_apply on_post_def io_zoom_apply
      count_event_def)

end
