(* ===== verification/AgentRun.thy ===== *)
theory AgentRun
  imports AgentFaults
begin

text \<open>
  The agent on services in memory: a worker that answers at once, a pod that is stopped when the
  queue is empty, and a queue with one task.  The witnesses of the agent's properties run on it.
\<close>

definition mem_agent_env :: "mem_cloud agent_env" where
  "mem_agent_env = \<lparr>ag_db = mem_ddb, ag_host = mem_host, ag_sqs = mem_sqs, ag_storage = mem_storage,
     ag_metrics = mem_metrics, SELF_ID = ''pod'', work_proc_status_pull_interval_sec = 1,
     agent_task_visibility_timeout_sec = 60, task_input_passed_via_external_storage = PInt 1,
     lambda_start = (\<lambda>p w. w), lambda_poll = (\<lambda>w. (Some (Inr ''done''), w)), lambda_wait = (\<lambda>w. (Inr ''done'', w)),
     process_iter = (\<lambda>w. (Inr [(''aws-lambda-rie'', 7)], w)), process_terminate = (\<lambda>n w. (Inr (), w)),
     kill_now = (\<lambda>w. (mem_msgs w ''tasks'' = [], w)), backoff_sleep = (\<lambda>w. w)\<rparr>"

lemma mem_agent_env_simps [simp]:
  "ag_db mem_agent_env = mem_ddb" "ag_host mem_agent_env = mem_host" "ag_sqs mem_agent_env = mem_sqs"
  "ag_storage mem_agent_env = mem_storage" "ag_metrics mem_agent_env = mem_metrics" "SELF_ID mem_agent_env = ''pod''"
  by (simp_all add: mem_agent_env_def)

definition stamp :: "string \<Rightarrow> string \<times> pyval" where
  "stamp e = (e, PDict [(''label'', PStr e), (''tstmp'', PInt 0)])"

definition agent_task :: pyval where
  "agent_task = PDict [(''task_id'', PStr ''s_0''), (''task_definition'', PStr ''none''), (''stats'', PDict (map stamp
     [''stage2_sbmtlmba_02_before_batch_write_tstmp'', ''stage3_agent_01_task_acquired_sqs_tstmp'',
      ''stage3_agent_02_task_acquired_ddb_tstmp'', ''stage4_agent_01_user_code_finished_tstmp'',
      ''stage4_agent_02_S3_stdout_delivered_tstmp'']))]"

definition agent_cloud :: "string \<Rightarrow> item \<Rightarrow> mem_cloud" where
  "agent_cloud packet row = \<lparr>mem_rows = [(''s_0'', row)], mem_faults = [], mem_clock = 0,
     mem_msgs = (\<lambda>q. if q = ''tasks'' then [packet] else []),
     mem_objects = [(''bucket'', ''s_0-input'') \<mapsto> b64encode ''1''], mem_cache = Map.empty\<rparr>"

definition agent_start :: "string \<Rightarrow> item \<Rightarrow> mem_cloud agent_state" where
  "agent_start packet row = \<lparr>ag_world = agent_cloud packet row,
     stdout_iom = InOutS3 \<lparr>s3_namespace = ''bucket'', s3_subnamespace = None, s3_kms_key_id = None\<rparr>,
     perf_tracker_pre = Tracker (PerformanceTracker None), event_counter_pre = EventsCounter pre_counters,
     perf_tracker_post = Tracker (PerformanceTracker None), event_counter_post = EventsCounter post_counters,
     ttl_gen = \<lparr>refresh_interval_sec = 5, expriation_offset_sec = 10, next_refresh_timestamp = 0,
       next_expiration_timestamp = 0\<rparr>,
     tasks_queue = QueueSQS ''tasks'', AGENT_EXEC_TIMESTAMP_MS = 0, execution_is_completed_flag = False\<rparr>"

definition agent_message :: "string \<Rightarrow> message" where
  "agent_message packet = \<lparr>msg_body = packet, message_handle_id = packet\<rparr>"

definition received_task :: "string \<Rightarrow> pyval" where
  "received_task packet = (case agent_task of PDict d \<Rightarrow> PDict (d @ [(''sqs_handle_id'', PStr packet)]) | v \<Rightarrow> v)"

lemma mem_agent_frame:
  fixes v :: "mem_cloud \<Rightarrow> 'v"
  assumes "storage_keeps mem_storage v"
  shows "agent_frame mem_agent_env v"
  using assms by (simp add: agent_frame_def mem_metrics_keeps mem_host_keeps)
    (simp add: mem_agent_env_def mem_storage_def keeps_def io_read_apply)

lemma mem_agent_documented: "agent_documented mem_agent_env mem_table"
proof -
  have "sqs_keeps mem_sqs (mem_table :: mem_cloud \<Rightarrow> table)" by (auto simp: sqs_keeps_def keeps_def mem_table_def)
  then show ?thesis
    by (simp add: agent_documented_def mem_ddb_documented mem_agent_frame mem_storage_keeps)
qed

lemma mem_agent_queues: "agent_queues mem_agent_env mem_queue_view"
proof -
  have "storage_keeps mem_storage (queue_state (mem_queue_view :: mem_cloud queue_view))"
    by (auto simp: storage_keeps_def keeps_def queue_state_def fun_eq_iff)
  moreover have "ddb_keeps mem_ddb (queue_state (mem_queue_view :: mem_cloud queue_view))"
    by (auto simp: ddb_keeps_def keeps_def queue_state_def fun_eq_iff mem_update_def mem_query_def mem_batch_def Let_def
        split: if_splits list.splits option.splits)
  ultimately show ?thesis by (simp add: agent_queues_def mem_sqs_documented mem_agent_frame)
qed

lemma agent_start_world [simp]:
  "ag_world (agent_start packet row) = agent_cloud packet row" "tasks_queue (agent_start packet row) = QueueSQS ''tasks''"
  "mem_table (agent_cloud packet row) = [''s_0'' \<mapsto> row]"
  "mem_msgs (agent_cloud packet row) = (\<lambda>q. if q = ''tasks'' then [packet] else [])"
  "mem_clock (agent_cloud packet row) = 0"
  by (simp_all add: agent_start_def agent_cloud_def mem_table_def)

text \<open>The agent receives the one message of the queue.\<close>

definition task_message :: string where
  "task_message = json_dumps agent_task"

lemma load_task_message: "load_message (agent_message task_message) = Inr (received_task task_message)"
proof -
  have "json_wf agent_task" by code_simp
  then have "json_loads task_message = Inr agent_task" by (simp add: task_message_def)
  moreover have "py_set agent_task ''sqs_handle_id'' (PStr packet) = Inr (received_task packet)" for packet
    by (simp add: received_task_def agent_task_def py_set_def)
  ultimately show ?thesis by (simp add: load_message_def agent_message_def)
qed

lemma try_to_acquire_task_message:
  "try_to_acquire_a_task mem_agent_env (agent_start task_message row) =
     acquire_task mem_agent_env (agent_message task_message) 0 (received_task task_message) (agent_start task_message row)"
proof -
  have m: "\<lparr>msg_body = task_message, message_handle_id = task_message\<rparr> = agent_message task_message"
    by (simp add: agent_message_def)
  have same: "(agent_start task_message row)\<lparr>ag_world := agent_cloud task_message row\<rparr> = agent_start task_message row"
    "(agent_start task_message row)\<lparr>tasks_queue := QueueSQS ''tasks''\<rparr> = agent_start task_message row"
    "(agent_start task_message row)\<lparr>AGENT_EXEC_TIMESTAMP_MS := 0\<rparr> = agent_start task_message row"
    by (simp_all add: agent_start_def)
  have "tasks_queue_receive mem_agent_env (agent_start task_message row) =
      Some (Inr (Some (agent_message task_message)), agent_start task_message row)"
    by (simp add: tasks_queue_receive_def io_apply on_world_def single_receive_message_def wrap_queue_error_def m same)
  moreover have "get_time_now_ms mem_agent_env (agent_start task_message row) = Some (Inr 0, agent_start task_message row)"
    by (simp add: get_time_now_ms_def on_world_def io_apply time_now_ms_def same)
  ultimately show ?thesis
    by (simp add: try_to_acquire_a_task_def acquire_received_def io_bind_apply io_then_apply load_task_message same)
qed

section \<open>Witnesses\<close>

lemma mem_acquire:
  "case acquire_task mem_agent_env (agent_message packet) 0 (received_task packet) (agent_start packet (pending_row ''s_0'')) of
     Some (Inr (Some (m, task)), s) \<Rightarrow>
       (case run_task mem_agent_env task m s of
          Some (Inr b, s') \<Rightarrow> mem_msgs (ag_world s') ''tasks'' = [] \<and>
            mem_objects (ag_world s') (''bucket'', ''s_0-output'') = Some (b64encode ''done'')
        | _ \<Rightarrow> False)
   | _ \<Rightarrow> False"
  by code_simp

theorem acquired_task_is_held_witness:
  "\<exists>m task s' k. try_to_acquire_a_task mem_agent_env (agent_start task_message (pending_row ''s_0'')) =
       Some (Inr (Some (m, task)), s') \<and> held length (mem_table (ag_world s')) k ''pod''"
proof -
  obtain m task s' where run: "try_to_acquire_a_task mem_agent_env (agent_start task_message (pending_row ''s_0'')) =
      Some (Inr (Some (m, task)), s')"
    using mem_acquire [of task_message]
    by (auto simp: try_to_acquire_task_message split: option.splits prod.splits sum.splits)
  from acquired_task_is_held [OF mem_agent_documented run] run show ?thesis by auto
qed

lemma mem_acquire_cancelled:
  "case acquire_task mem_agent_env (agent_message packet) 0 (received_task packet)
      (agent_start packet (owned_row ''s_0'' TASK_STATE_CANCELLED ''None'')) of
     Some (Inr None, s) \<Rightarrow> mem_msgs (ag_world s) ''tasks'' = [] | _ \<Rightarrow> False"
  by code_simp

theorem failed_acquisition_loses_nothing_witness:
  "\<exists>s'. try_to_acquire_a_task mem_agent_env (agent_start task_message (owned_row ''s_0'' TASK_STATE_CANCELLED ''None'')) =
       Some (Inr None, s') \<and> mem_msgs (ag_world s') ''tasks'' = [] \<and>
       mem_table (ag_world s') = [''s_0'' \<mapsto> owned_row ''s_0'' TASK_STATE_CANCELLED ''None'']"
proof -
  let ?s = "agent_start task_message (owned_row ''s_0'' TASK_STATE_CANCELLED ''None'')"
  obtain s' where run: "try_to_acquire_a_task mem_agent_env ?s = Some (Inr None, s')"
    and msgs: "mem_msgs (ag_world s') ''tasks'' = []"
    using mem_acquire_cancelled [of task_message]
    by (auto simp: try_to_acquire_task_message run_iff split: option.splits) (metis option.exhaust surj_pair)
  have "queue_ok (tasks_queue ?s)" by simp
  from failed_acquisition_loses_nothing [OF mem_agent_documented mem_agent_queues this run] run msgs
  show ?thesis by auto
qed

lemma mem_completion:
  "case process_subprocess_completion mem_agent_env (received_task packet) (agent_message packet) [] (Some ''done'')
      (agent_start packet (owned_row ''s_0'' TASK_STATE_PROCESSING ''pod'')) of
     Some (Inr u, s) \<Rightarrow> True | _ \<Rightarrow> False"
  by code_simp

theorem completion_stores_finishes_deletes_witness:
  "\<exists>s1 s2 s'. store_output mem_agent_env ''s_0'' [] (Some ''done'') s1 = Some (Inr (), s2) \<and>
     process_subprocess_completion mem_agent_env (received_task ''x'') (agent_message ''x'') [] (Some ''done'')
       (agent_start ''x'' (owned_row ''s_0'' TASK_STATE_PROCESSING ''pod'')) = Some (Inr (), s')"
proof -
  let ?s = "agent_start ''x'' (owned_row ''s_0'' TASK_STATE_PROCESSING ''pod'')"
  obtain s' where run: "process_subprocess_completion mem_agent_env (received_task ''x'') (agent_message ''x'') []
      (Some ''done'') ?s = Some (Inr (), s')"
    using mem_completion [of "''x''"] by (auto split: option.splits prod.splits sum.splits)
  have "queue_source (tasks_queue ?s) (message_handle_id (agent_message ''x'')) = Some ''tasks''"
    "live_handle mem_queue_view (ag_world ?s) ''tasks'' (message_handle_id (agent_message ''x'')) = Some ''x''"
    by (simp_all add: agent_message_def)
  from completion_stores_finishes_deletes [OF mem_agent_documented mem_agent_queues run this]
  obtain k s1 s2 where "task_id_of (received_task ''x'') = Inr k"
    "store_output mem_agent_env k [] (Some ''done'') s1 = Some (Inr (), s2)" by blast
  moreover have "task_id_of (received_task ''x'') = Inr ''s_0''" by code_simp
  ultimately show ?thesis using run by auto
qed

text \<open>A table that throttles every update.\<close>

definition throttled_ddb :: "mem_cloud ddb" where
  "throttled_ddb = mem_ddb\<lparr>ddb_update_item := (\<lambda>r w. (Inl (ClientError ''ThrottlingException'' ''slow down''), w))\<rparr>"

lemma throttled_ddb_documented: "ddb_documented throttled_ddb mem_table"
proof -
  have m: "ddb_documented (mem_ddb :: mem_cloud ddb) mem_table" by (rule mem_ddb_documented)
  have "update_documented throttled_ddb mem_table"
    by (simp add: update_documented_def throttled_ddb_def CONDITION_FAILED_def)
  moreover have "query_documented throttled_ddb mem_table" "batch_documented throttled_ddb mem_table"
    using m by (simp_all add: ddb_documented_def throttled_ddb_def query_documented_def batch_documented_def)
  ultimately show ?thesis by (simp add: ddb_documented_def)
qed

definition throttled_env :: "mem_cloud agent_env" where
  "throttled_env = mem_agent_env\<lparr>ag_db := throttled_ddb\<rparr>"

lemma throttled_attempt:
  "update_task_status_to_finished throttled_ddb mem_host k a w = Some (Inl (StateTableException True False), w)"
  "get_time_now_ms throttled_env s = Some (Inr (mem_clock (ag_world s)), s)"
  by (simp_all add: update_task_status_to_finished_def throttled_ddb_def Let_def io_apply time_now_ms_def
      CONDITION_FAILED_def throttling_codes_def get_time_now_ms_def on_world_def throttled_env_def)

theorem finishing_waits_only_for_throttling_witness: "mark_finished throttled_env ''s_0'' (agent_start ''x'' (pending_row ''s_0'')) = None"
proof -
  let ?s = "agent_start ''x'' (pending_row ''s_0'')"
  have env: "ag_db throttled_env = throttled_ddb" "ag_host throttled_env = mem_host" "SELF_ID throttled_env = ''pod''"
    by (simp_all add: throttled_env_def)
  have thr: "finish_throttled throttled_env ''s_0'' ?s"
    by (auto simp: finish_throttled_def env throttled_attempt)
  have "finish_attempt throttled_env ''s_0'' ?s = Some (Inr None, ?s)"
    by (simp add: finish_attempt_def io_apply on_world_def env throttled_attempt)
  then have "io_rounds (finish_attempt throttled_env ''s_0'') n ?s = Some ?s" for n by (induction n) simp_all
  with thr show ?thesis
    unfolding finishing_waits_only_for_throttling [of throttled_env mem_table, unfolded env, OF throttled_ddb_documented]
    by auto
qed

lemma mem_cancelled_heartbeat:
  "(case do_ttl_updates_thread mem_agent_env (received_task packet) (agent_message packet)
       (agent_start packet (owned_row ''s_0'' TASK_STATE_CANCELLED ''None'')) of
      Some (Inl e, s) \<Rightarrow> e = AttributeError | _ \<Rightarrow> False)"
  by code_simp

theorem heartbeat_of_cancelled_task_witness:
  "\<exists>s'. do_ttl_updates_thread mem_agent_env (received_task ''x'') (agent_message ''x'')
       (agent_start ''x'' (owned_row ''s_0'' TASK_STATE_CANCELLED ''None'')) = Some (Inl AttributeError, s') \<and>
     mem_table (ag_world s') = [''s_0'' \<mapsto> owned_row ''s_0'' TASK_STATE_CANCELLED ''None''] \<and>
     mset (mem_msgs (ag_world s') ''tasks'') = {#''x''#}"
proof -
  let ?s = "agent_start ''x'' (owned_row ''s_0'' TASK_STATE_CANCELLED ''None'')"
  obtain s' where run: "do_ttl_updates_thread mem_agent_env (received_task ''x'') (agent_message ''x'') ?s =
      Some (Inl AttributeError, s')"
    using mem_cancelled_heartbeat [of "''x''"] by (auto split: option.splits prod.splits sum.splits)
  have k: "task_id_of (received_task ''x'') = Inr ''s_0''" by code_simp
  have c: "in_state (md5_int (ag_db mem_agent_env)) (mem_table (ag_world ?s)) ''s_0'' TASK_STATE_CANCELLED"
    by (simp add: in_state_def status_of_def owned_row_def)
  have f: "execution_is_completed_flag ?s = False" and due: "refresh_is_due mem_agent_env ?s = Some (Inr True, ?s)"
    by (simp_all add: agent_start_def refresh_is_due_def get_next_refresh_timestamp_def io_bind_apply)
  note end_state = heartbeat_of_cancelled_task [OF mem_agent_documented mem_agent_queues k c f due run]
  then have "stored mem_queue_view (ag_world s') = stored mem_queue_view (ag_world ?s)" by blast
  from fun_cong [OF this, of "''tasks''"] have msg: "mset (mem_msgs (ag_world s') ''tasks'') = {#''x''#}" by simp
  from end_state have "mem_table (ag_world s') = mem_table (ag_world ?s)" by blast
  with run msg show ?thesis by (intro exI [of _ s'] conjI) (simp_all only: agent_start_world)
qed

theorem input_by_value_never_runs_witness:
  "run_task (mem_agent_env\<lparr>task_input_passed_via_external_storage := PInt 0\<rparr>) (received_task ''x'') (agent_message ''x'')
     (agent_start ''x'' (pending_row ''s_0'')) = Some (Inl AttributeError, agent_start ''x'' (pending_row ''s_0''))"
proof -
  have off: "task_input_passed_via_external_storage (mem_agent_env\<lparr>task_input_passed_via_external_storage := PInt 0\<rparr>)
      \<notin> {PInt 1, PBool True}" by simp
  have "py_index (received_task ''x'') ''task_definition'' = Inr (PStr ''none'')" by code_simp
  with input_by_value_never_runs [OF off, of "received_task ''x''" "agent_message ''x''" "agent_start ''x'' (pending_row ''s_0'')" "PStr ''none''"]
  show ?thesis by auto
qed

theorem bootstrap_error_leaves_task_witness:
  "\<exists>s'. do_task_local_lambda_execution_thread mem_agent_env (received_task ''x'') (agent_message ''x'') 0
       (Inr ''BOOTSTRAP ERROR: no worker'') (agent_start ''x'' (pending_row ''s_0'')) = Some (Inr ''BOOTSTRAP ERROR: no worker'', s') \<and>
     ag_world s' = agent_cloud ''x'' (pending_row ''s_0'')"
proof -
  have d: "utf8_decode ''BOOTSTRAP ERROR: no worker'' = Inr ''BOOTSTRAP ERROR: no worker''" by code_simp
  have b: "sublist ''BOOTSTRAP ERROR'' ''BOOTSTRAP ERROR: no worker''"
    by (rule prefix_imp_sublist) simp
  obtain c where c: "increment ''bootstrap_failure'' 1 (event_counter_post (agent_start ''x'' (pending_row ''s_0''))) = Inr c"
  proof -
    have "case increment ''bootstrap_failure'' 1 (EventsCounter post_counters) of Inr c \<Rightarrow> True | _ \<Rightarrow> False" by code_simp
    then show thesis by (intro that [of "projr (increment ''bootstrap_failure'' 1 (EventsCounter post_counters))"])
        (auto simp: agent_start_def split: sum.splits)
  qed
  from bootstrap_error_leaves_task [OF d b c] show ?thesis by (auto simp: agent_start_def)
qed

text \<open>The agent runs its task and stops.\<close>

lemma mem_agent_run:
  obtains s' where "agent_main mem_agent_env (agent_start task_message (pending_row ''s_0'')) = Some (Inr 0, s')"
    and "mem_msgs (ag_world s') ''tasks'' = []"
proof -
  let ?s = "agent_start task_message (pending_row ''s_0'')"
  have kill: "on_world (io_read (kill_now mem_agent_env)) s = Some (Inr (mem_msgs (ag_world s) ''tasks'' = []), s)" for s
    by (simp add: on_world_def io_apply) (simp add: mem_agent_env_def)
  obtain m task s1 b s2 where acq: "try_to_acquire_a_task mem_agent_env ?s = Some (Inr (Some (m, task)), s1)"
    and task: "run_task mem_agent_env task m s1 = Some (Inr b, s2)" and emptied: "mem_msgs (ag_world s2) ''tasks'' = []"
    using mem_acquire [of task_message]
    by (auto simp: try_to_acquire_task_message run_iff split: option.splits)
  have turn1: "event_loop_turn mem_agent_env ?s = Some (Inr None, s2)"
    by (simp add: event_loop_turn_def io_bind_apply kill acq task)
  have turn2: "event_loop_turn mem_agent_env s2 = Some (Inr (Some ()), s2)"
    by (simp add: event_loop_turn_def io_bind_apply kill emptied)
  have "io_until (event_loop_turn mem_agent_env) ?s = Some (Inr (), s2)"
    unfolding io_until_iff by (intro exI [of _ "Suc 0"]) (simp add: turn1 turn2)
  moreover have "terminate_worker_lambda_container mem_agent_env s2 = Some (Inr (), s2)"
    by (simp add: terminate_worker_lambda_container_def on_world_def io_apply mem_agent_env_def)
  ultimately have "agent_main mem_agent_env ?s = Some (Inr 0, s2)"
    by (simp add: agent_main_def event_loop_def io_apply)
  with emptied show thesis by (rule that [rotated])
qed

theorem agent_takes_own_steps_witness:
  "\<exists>s'. agent_main mem_agent_env (agent_start task_message (pending_row ''s_0'')) = Some (Inr 0, s') \<and>
     mem_msgs (ag_world s') ''tasks'' = [] \<and> table_ok length (mem_table (ag_world s'))"
proof -
  let ?s = "agent_start task_message (pending_row ''s_0'')"
  obtain s2 where run: "agent_main mem_agent_env ?s = Some (Inr 0, s2)" and emptied: "mem_msgs (ag_world s2) ''tasks'' = []"
    by (rule mem_agent_run)
  have row: "submitted_row length (pending_row ''s_0'')"
    by (simp add: submitted_row_def pending_row_def item_key_def)
  have "task_step length Map.empty (Submit [pending_row ''s_0'']) (mem_table (ag_world ?s))"
    by (simp add: task_step_simps) (simp add: pending_row_def item_key_def)
  then have "reachable length (mem_table (ag_world ?s))"
    by (rule step_table [OF empty_table]) (simp add: row)
  then have reach: "reachable (md5_int (ag_db mem_agent_env)) (mem_table (ag_world ?s))" by simp
  have ids: "SELF_ID mem_agent_env \<noteq> ''None''" "''other'' \<noteq> SELF_ID mem_agent_env" by simp_all
  from agent_takes_own_steps [OF mem_agent_documented run ids(1) reach ids(2)] run emptied show ?thesis by auto
qed

end
