(* ===== verification/ConnectorProps.thy ===== *)
theory ConnectorProps
  imports Connector AgentRun SubmitProps GetResults CancelTasks
begin

text \<open>
  The client library with the other components: what it submits is what the submission lambda and the agents read, what
  agents store is what it returns, its polling ends, and what goes wrong with its tokens.
\<close>

section \<open>What the data plane holds\<close>

text \<open>
  \<open>plane_agrees iom v K w\<close>: for each task and kind of value that \<open>K\<close> records, a read in \<open>w\<close> can give that value only.
\<close>

definition data_state :: "'w data_view \<Rightarrow> 'w \<Rightarrow> (string \<times> string \<Rightarrow> string option) \<times> (string \<Rightarrow> string option)" where
  "data_state v w = (objects v w, cached v w)"

definition plane_agrees :: "in_out \<Rightarrow> 'w data_view \<Rightarrow> (string \<times> string \<rightharpoonup> string) \<Rightarrow> 'w \<Rightarrow> bool" where
  "plane_agrees iom v K w \<longleftrightarrow> plane_coherent iom v w \<and>
     (\<forall>t p d. K (t, p) = Some d \<longrightarrow> p \<in> set postfixes \<and>
        (\<forall>x. plane_held iom v w (get_full_key (plane_subnamespace iom) t p) = Some x \<longrightarrow> x = d))"

lemma agrees_empty: "plane_coherent iom v w \<Longrightarrow> plane_agrees iom v Map.empty w"
  by (simp add: plane_agrees_def)

lemma agrees_view: "data_state v w' = data_state v w \<Longrightarrow> plane_agrees iom v K w' \<longleftrightarrow> plane_agrees iom v K w"
  by (cases iom) (auto simp: plane_agrees_def plane_held_def data_state_def redis_coherent_def redis_held_def)

lemma agrees_keeps: "keeps (data_state v) m \<Longrightarrow> m w = Some (r, w') \<Longrightarrow> plane_agrees iom v K w' \<longleftrightarrow> plane_agrees iom v K w"
  by (rule agrees_view) (rule keepsD)

lemma put_agrees:
  assumes "storage_documented st v" and a: "plane_agrees iom v K w"
    and "put_from_bytes st iom t d p w = Some (Inr (), w')" and p: "p \<in> set postfixes"
  shows "plane_agrees iom v (K((t, p) \<mapsto> d)) w'"
proof -
  let ?k = "get_full_key (plane_subnamespace iom)"
  have law: "plane_coherent iom v w'" "plane_held iom v w' \<subseteq>\<^sub>m (plane_held iom v w)(?k t p \<mapsto> d)"
    using grid_plane.put_law [OF assms(1) _ assms(3)] a by (simp_all add: plane_agrees_def)
  have "x = d'" if "(K((t, p) \<mapsto> d)) (t', p') = Some d'" "plane_held iom v w' (?k t' p') = Some x" for t' p' d' x
  proof (cases "(t', p') = (t, p)")
    case True
    with that map_le_upd_same [OF law(2)] show ?thesis by auto
  next
    case False
    with that(1) have k: "K (t', p') = Some d'" by (auto split: if_splits)
    with a p False have "?k t p \<noteq> ?k t' p'" by (auto simp: plane_agrees_def get_full_key_inject)
    from map_le_upd_other [OF law(2) this that(2)] a k show ?thesis by (auto simp: plane_agrees_def)
  qed
  moreover have "p' \<in> set postfixes" if "(K((t, p) \<mapsto> d)) (t', p') = Some d'" for t' p' d'
    using that a p by (auto simp: plane_agrees_def split: if_splits)
  ultimately show ?thesis using law(1) unfolding plane_agrees_def by blast
qed

lemma agrees_mono: "plane_agrees iom v K' w \<Longrightarrow> K \<subseteq>\<^sub>m K' \<Longrightarrow> plane_agrees iom v K w"
  unfolding plane_agrees_def by (meson map_le_Some)

lemma others_agree:
  assumes "storage_documented st v" and "plane_agrees iom v [(task, kind) \<mapsto> d] w"
    and "io_foreach ops (\<lambda>(t, d, p). put_from_bytes st iom t d p) w = Some (Inr (), w')"
    and "\<forall>(t, d, p) \<in> set ops. p \<in> set postfixes \<and> (t, p) \<noteq> (task, kind)"
  shows "plane_agrees iom v [(task, kind) \<mapsto> d] w'"
  using assms(2-)
proof (induction ops arbitrary: w)
  case (Cons op ops)
  obtain t e p where op: "op = (t, e, p)" by (cases op)
  from Cons.prems(2) op obtain w1 where w1: "put_from_bytes st iom t e p w = Some (Inr (), w1)"
    "io_foreach ops (\<lambda>(t, d, p). put_from_bytes st iom t d p) w1 = Some (Inr (), w')"
    by (auto simp: io_then_Inr)
  from Cons.prems(3) op have p: "p \<in> set postfixes" "(t, p) \<noteq> (task, kind)" by auto
  have "plane_agrees iom v [(task, kind) \<mapsto> d] w1"
    by (rule agrees_mono [OF put_agrees [OF assms(1) Cons.prems(1) w1(1) p(1)]]) (use p(2) in \<open>auto simp: map_le_def\<close>)
  from Cons.IH [OF this w1(2)] Cons.prems(3) show ?case by simp
qed simp

lemma get_agrees:
  assumes "storage_documented st v" and a: "plane_agrees iom v K w" and k: "K (t, p) = Some d"
    and "get_to_bytes st iom t p w = Some (Inr x, w')"
  shows "x = d"
proof -
  have "plane_held iom v w (get_full_key (plane_subnamespace iom) t p) = Some x"
    by (rule grid_plane.get_law [OF assms(1) _ assms(4)]) (use a in \<open>simp add: plane_agrees_def\<close>)
  with a k show ?thesis unfolding plane_agrees_def by blast
qed

text \<open>Reading a text is reading its bytes.\<close>

lemma get_to_utf8_string_bytes:
  "get_to_utf8_string st iom t p = io_bind (get_to_bytes st iom t p) (\<lambda>b. io_of (utf8_decode b))"
proof (cases iom)
  case (InOutRedis h)
  show ?thesis
    by (rule ext) (auto simp: InOutRedis redis_get_to_utf8_string_def redis_get_to_bytes_def Let_def io_apply
        split: option.splits sum.splits prod.splits)
qed (simp add: s3_get_to_utf8_string_def)

section \<open>Values between client and worker\<close>

lemma on_client_Some:
  "on_client m s = Some (r, t) \<longleftrightarrow> (\<exists>w. m (con_world s) = Some (r, w) \<and> t = s\<lparr>con_world := w\<rparr>)"
  by (auto simp: on_client_def io_zoom_apply split: option.splits)

lemma client_plane_Some: "client_plane s = Some (Inr iom, t) \<longleftrightarrow> con_iom s = Some iom \<and> t = s"
  by (auto simp: client_plane_def io_bind_Some split: option.splits)

lemma put_task_input_Inr:
  "put_task_input env sid (i, data) s = Some (Inr k, s') \<longleftrightarrow>
     k = sid @ ''_'' @ str_of_nat i \<and> (\<exists>iom w. con_iom s = Some iom \<and> s' = s\<lparr>con_world := w\<rparr> \<and>
       put_from_bytes (con_storage env) iom k (b64encode (utf8_encode (json_dumps data))) INPUT_POSTFIX (con_world s) =
         Some (Inr (), w))"
  by (auto simp: put_task_input_def Let_def io_bind_Inr io_then_Inr client_plane_Some on_client_Some put_input_from_bytes_def)

lemma get_output_Inr:
  "get_output env task s = Some (Inr out, s') \<longleftrightarrow>
     (\<exists>iom x w. con_iom s = Some iom \<and> s' = s\<lparr>con_world := w\<rparr> \<and>
       get_to_bytes (con_storage env) iom (py_str task) OUTPUT_POSTFIX (con_world s) = Some (Inr x, w) \<and>
       bind_result (b64decode x) utf8_decode = Inr out)"
  by (auto simp: get_output_def io_bind_Inr client_plane_Some on_client_Some get_output_to_bytes_def)

lemma kinds [simp]: "INPUT_POSTFIX \<in> set postfixes" "OUTPUT_POSTFIX \<in> set postfixes" "PAYLOAD_POSTFIX \<in> set postfixes"
  by (simp_all add: postfixes_def)

text \<open>C11. The input of a task that the client stores is the input with which the worker is invoked: whatever other
  values are stored in between, the agent that prepares the task reads back exactly the value the caller gave.\<close>

theorem input_reaches_worker:
  assumes doc: "storage_documented (con_storage env) v" and "plane_coherent iom v (con_world s)"
    and "con_iom s = Some iom" and "json_wf data"
    and put: "put_task_input env sid (i, data) s = Some (Inr k, s1)"
    and others: "io_foreach others (\<lambda>(t, d, p). put_from_bytes (con_storage env) iom t d p) (con_world s1) =
      Some (Inr (), ag_world a)"
    and "\<forall>(t, d, p) \<in> set others. p \<in> set postfixes \<and> (t, p) \<noteq> (k, INPUT_POSTFIX)"
    and agent: "ag_storage aenv = con_storage env" "stdout_iom a = iom" "task_id_of task = Inr k"
      "by_external_storage (task_input_passed_via_external_storage aenv)"
    and run: "prepare_arguments_for_execution aenv task a = Some (Inr input, a')"
  shows "bind_result (input_decode input) json_loads = Inr data"
proof -
  let ?d = "b64encode (utf8_encode (json_dumps data))"
  have "put_from_bytes (con_storage env) iom k ?d INPUT_POSTFIX (con_world s) = Some (Inr (), con_world s1)"
    using put assms(3) by (auto simp: put_task_input_Inr)
  then have "plane_agrees iom v [(k, INPUT_POSTFIX) \<mapsto> ?d] (con_world s1)"
    by (intro put_agrees [OF doc agrees_empty]) (simp_all add: assms(2))
  then have held: "plane_agrees iom v [(k, INPUT_POSTFIX) \<mapsto> ?d] (ag_world a)"
    by (rule others_agree [OF doc _ others assms(7)])
  from run agent obtain x w b where x: "get_to_bytes (con_storage env) iom k INPUT_POSTFIX (ag_world a) = Some (Inr x, w)"
    and b: "b64decode x = Inr b" "input = InputBytes b"
    by (auto simp: prepare_arguments_for_execution_def by_external_storage_def io_bind_Inr on_world_Some
        get_input_to_bytes_def)
  from get_agrees [OF doc held _ x] have "x = ?d" by simp
  with b have "input = InputBytes (utf8_encode (json_dumps data))" by simp
  then show ?thesis using \<open>json_wf data\<close> by simp
qed

text \<open>C12. The output that an agent stores for a task is the output the client reads for it, whatever other values are
  stored in between.\<close>

theorem output_reaches_client:
  assumes doc: "storage_documented (con_storage env) v" and "plane_coherent iom v (ag_world a)"
    and agent: "ag_storage aenv = con_storage env" "stdout_iom a = iom" and "con_iom s = Some iom"
    and put: "store_output aenv task fname (Some out) a = Some (Inr (), a1)"
    and others: "io_foreach others (\<lambda>(t, d, p). put_from_bytes (con_storage env) iom t d p) (ag_world a1) =
      Some (Inr (), con_world s)"
    and "\<forall>(t, d, p) \<in> set others. p \<in> set postfixes \<and> (t, p) \<noteq> (task, OUTPUT_POSTFIX)"
    and run: "get_output env (PStr task) s = Some (Inr x, s')"
  shows "x = out"
proof -
  let ?d = "b64encode (utf8_encode out)"
  have "put_from_bytes (con_storage env) iom task ?d OUTPUT_POSTFIX (ag_world a) = Some (Inr (), ag_world a1)"
    using put agent by (auto simp: store_output_def io_bind_Inr on_world_Some put_output_from_bytes_def)
  then have "plane_agrees iom v [(task, OUTPUT_POSTFIX) \<mapsto> ?d] (ag_world a1)"
    by (intro put_agrees [OF doc agrees_empty]) (simp_all add: assms(2))
  then have held: "plane_agrees iom v [(task, OUTPUT_POSTFIX) \<mapsto> ?d] (con_world s)"
    by (rule others_agree [OF doc _ others assms(8)])
  from run assms(5) obtain b w where b: "get_to_bytes (con_storage env) iom task OUTPUT_POSTFIX (con_world s) = Some (Inr b, w)"
    and x: "bind_result (b64decode b) utf8_decode = Inr x"
    by (auto simp: get_output_Inr py_str_def)
  from get_agrees [OF doc held _ b] x show ?thesis by simp
qed

section \<open>A submission\<close>

definition stored_input :: "string \<Rightarrow> nat \<Rightarrow> pyval \<Rightarrow> string \<times> string \<rightharpoonup> string" where
  "stored_input sid i data = [(sid @ ''_'' @ str_of_nat i, INPUT_POSTFIX) \<mapsto> b64encode (utf8_encode (json_dumps data))]"

lemma put_one_input:
  assumes doc: "storage_documented (con_storage env) v" and iom: "con_iom s = Some iom"
    and run: "put_task_input env sid (i, data) s = Some (Inr k, s')"
    and a: "plane_agrees iom v K (con_world s)"
  shows "plane_agrees iom v (K ++ stored_input sid i data) (con_world s')"
proof -
  have "put_from_bytes (con_storage env) iom (sid @ ''_'' @ str_of_nat i) (b64encode (utf8_encode (json_dumps data)))
      INPUT_POSTFIX (con_world s) = Some (Inr (), con_world s')"
    using run iom by (auto simp: put_task_input_Inr)
  from put_agrees [OF doc a this] show ?thesis by (simp add: stored_input_def)
qed

lemma put_inputs_Inr:
  assumes doc: "storage_documented (con_storage env) v"
    and "con_iom s = Some iom" and "plane_agrees iom v K (con_world s)"
    and "io_mapM (put_task_input env sid) (List.enumerate n tasks) s = Some (Inr ks, s')"
    and "\<And>j. n \<le> j \<Longrightarrow> K (sid @ ''_'' @ str_of_nat j, INPUT_POSTFIX) = None"
  shows "ks = map (\<lambda>j. sid @ ''_'' @ str_of_nat j) [n..<n + length tasks] \<and> s' = s\<lparr>con_world := con_world s'\<rparr> \<and>
     plane_agrees iom v K (con_world s') \<and>
     (\<forall>i < length tasks. plane_agrees iom v (stored_input sid (n + i) (tasks ! i)) (con_world s'))"
  using assms(2-)
proof (induction tasks arbitrary: K n s ks)
  case (Cons data tasks)
  from Cons.prems(3) obtain k s1 ks' where one: "put_task_input env sid (n, data) s = Some (Inr k, s1)"
    and rest: "io_mapM (put_task_input env sid) (List.enumerate (Suc n) tasks) s1 = Some (Inr ks', s')" and ks: "ks = k # ks'"
    by (auto simp: io_bind_Inr)
  have s1: "k = sid @ ''_'' @ str_of_nat n" "s1 = s\<lparr>con_world := con_world s1\<rparr>" "con_iom s1 = Some iom"
    using one Cons.prems(1) by (auto simp: put_task_input_Inr)
  note held = put_one_input [OF doc Cons.prems(1) one Cons.prems(2)]
  have "(K ++ stored_input sid n data) (sid @ ''_'' @ str_of_nat j, INPUT_POSTFIX) = None" if "Suc n \<le> j" for j
    using Cons.prems(4) [of j] that by (auto simp: stored_input_def map_add_def)
  note ih = Cons.IH [OF s1(3) held rest this]
  have K: "K \<subseteq>\<^sub>m K ++ stored_input sid n data"
    using Cons.prems(4) [of n] by (auto simp: map_le_def map_add_def stored_input_def)
  have all: "plane_agrees iom v (stored_input sid (n + i) ((data # tasks) ! i)) (con_world s')"
    if "i < length (data # tasks)" for i
  proof (cases i)
    case 0
    with ih show ?thesis by (auto intro: agrees_mono)
  next
    case (Suc j)
    with ih that show ?thesis by auto
  qed
  have "s' = s\<lparr>con_world := con_world s'\<rparr>"
    using conjunct1 [OF conjunct2 [OF ih]] s1(2) by (metis connector.update_convs(1) connector.surjective)
  with ih all agrees_mono [OF _ K] show ?case
    by (auto simp: ks s1(1) upt_rec)
qed simp

text \<open>Nothing else that the client uses while it submits touches the data plane.\<close>

definition client_frame :: "'w connector_env \<Rightarrow> ('w \<Rightarrow> 'v) \<Rightarrow> bool" where
  "client_frame env v \<longleftrightarrow> host_keeps (con_host env) v \<and> keeps v (io_read (con_uuid1 env))"

lemma upload_tasks_Inr:
  assumes "by_external_storage (input_via_external_storage s)"
  shows "upload_tasks env (PList tasks) s = Some (Inr (sid, ks), s') \<longleftrightarrow>
    (\<exists>w. io_read (con_uuid1 env) (con_world s) = Some (Inr sid, w) \<and>
      io_mapM (put_task_input env sid) (List.enumerate 0 tasks) (s\<lparr>con_world := w\<rparr>) = Some (Inr ks, s'))"
  using assms by (auto simp: upload_tasks_def new_session_id_def io_bind_Inr on_client_Some py_iter_def)

lemma generate_Inr:
  assumes "by_external_storage (input_via_external_storage s)" and "con_iom s = Some iom"
    and "storage_documented (con_storage env) v" and frame: "client_frame env (data_state v)"
    and "plane_coherent iom v (con_world s)"
    and run: "generate_user_task_json env (PList tasks) s = Some (Inr jobs, s')"
  obtains sid t1 t2 where
    "jobs = user_task_json sid t1 t2 (PList (map (\<lambda>i. PStr (sid @ ''_'' @ str_of_nat i)) [0..<length tasks]))"
    "s' = s\<lparr>con_world := con_world s'\<rparr>" "plane_coherent iom v (con_world s')"
    "\<forall>i < length tasks. plane_agrees iom v (stored_input sid i (tasks ! i)) (con_world s')"
proof -
  from run obtain t1 w1 sid ks s3 t2 w4 ext where
    t1: "time_now_ms (con_host env) (con_world s) = Some (Inr t1, w1)"
    and up: "upload_tasks env (PList tasks) (s\<lparr>con_world := w1\<rparr>) = Some (Inr (sid, ks), s3)"
    and t2: "time_now_ms (con_host env) (con_world s3) = Some (Inr t2, w4)" and s': "s' = s3\<lparr>con_world := w4\<rparr>"
    and jobs: "jobs = user_task_json sid t1 t2
      (if by_external_storage (input_via_external_storage s3) then PList (map PStr ks) else PList tasks)"
    by (auto simp: generate_user_task_json_def io_bind_Inr on_client_Some)
  from up assms(1) obtain w2 where u: "io_read (con_uuid1 env) w1 = Some (Inr sid, w2)"
    and puts: "io_mapM (put_task_input env sid) (List.enumerate 0 tasks) (s\<lparr>con_world := w2\<rparr>) = Some (Inr ks, s3)"
    by (auto simp: upload_tasks_Inr)
  have clock: "keeps (data_state v) (time_now_ms (con_host env))" and uuid: "keeps (data_state v) (io_read (con_uuid1 env))"
    using frame by (auto simp: client_frame_def host_keeps_def time_now_ms_def)
  have "plane_agrees iom v Map.empty w2"
    using agrees_empty [OF assms(5)] agrees_keeps [OF clock t1] agrees_keeps [OF uuid u] by simp
  with put_inputs_Inr [OF assms(3) _ _ puts, of iom Map.empty] assms(2)
  have all: "ks = map (\<lambda>j. sid @ ''_'' @ str_of_nat j) [0..<length tasks]" "s3 = s\<lparr>con_world := con_world s3\<rparr>"
    "plane_agrees iom v Map.empty (con_world s3)"
    "\<forall>i < length tasks. plane_agrees iom v (stored_input sid i (tasks ! i)) (con_world s3)"
    by (auto simp del: io_mapM.simps)
  have same: "plane_agrees iom v K w4 \<longleftrightarrow> plane_agrees iom v K (con_world s3)" for K
    by (rule agrees_keeps [OF clock t2])
  have ext: "input_via_external_storage s3 = input_via_external_storage s"
    by (subst all(2)) simp
  have "s' = s\<lparr>con_world := con_world s'\<rparr>" unfolding s' by (subst all(2)) simp
  moreover have "plane_coherent iom v (con_world s')"
    using all(3) same [of Map.empty] by (simp add: s' plane_agrees_def)
  ultimately show thesis using that [of sid t1 t2] all same assms(1) by (simp add: jobs s' ext comp_def)
qed

lemma user_task_json_session: "py_index (user_task_json sid t1 t2 ts) ''session_id'' = Inr (PStr sid)"
  by (simp add: user_task_json_def dict_get_def)

lemma user_task_json_wf: "json_wf ts \<Longrightarrow> json_wf (user_task_json sid t1 t2 ts)"
  by (simp add: user_task_json_def stage_def)

lemma submit_Inr:
  assumes "by_external_storage (input_via_external_storage s)" and "con_iom s = Some iom"
  shows "submit env (user_task_json sid t1 t2 ts) s = Some (Inr answer, s') \<longleftrightarrow> sid \<noteq> ''None'' \<and>
    (\<exists>w w'. put_from_bytes (con_storage env) iom sid (urlsafe_b64encode (utf8_encode (json_dumps (user_task_json sid t1 t2 ts))))
        PAYLOAD_POSTFIX (con_world s) = Some (Inr (), w) \<and>
      submit_post env (con_configuration s) sid w = (Inr answer, w') \<and> s' = s\<lparr>con_world := w'\<rparr>)"
  using assms
  by (auto simp: submit_def put_payload_def io_bind_Inr io_then_Inr user_task_json_session on_client_Some client_plane_Some
      put_payload_from_bytes_def py_str_def)

text \<open>A request whose content is the text, as the load balancer delivers it.\<close>

definition content_event :: "string \<Rightarrow> pyval" where
  "content_event t = PDict [(''queryStringParameters'', PDict [(''submission_content'', PStr t)])]"

lemma submitted_event_payload:
  assumes "sub_external_storage senv = ''1''"
    and "submitted_event senv (content_event sid) m = Some (Inr j, m')"
  shows "\<exists>x w. get_to_bytes (sub_storage senv) (sub_stdin_iom senv) sid PAYLOAD_POSTFIX (grid m) = Some (Inr x, w) \<and>
    bind_result (utf8_decode x) (\<lambda>t. decode_submission (PStr t)) = Inr j"
  using assms
  by (auto simp: submitted_event_def content_event_def dict_get_def io_bind_Inr on_grid_Some get_payload_to_utf8_string_def
      get_to_utf8_string_bytes py_str_def)

lemma utf8_decode_ascii_text: "\<forall>c \<in> set s. (of_char c :: nat) < 128 \<Longrightarrow> utf8_decode s = Inr s"
  by (induction s) (simp_all add: utf8_decode_ascii)

text \<open>C10. When \<open>send\<close> answers, it has made one request, whose text is the session id, and at that moment the data plane
  holds the session: whoever reads the input of the i-th task gets the i-th element of the caller's list, encoded, and the
  submission lambda that is called with this text reads back exactly the description of the session, which names
  one task per element.\<close>

theorem send_delivers_session:
  assumes doc: "storage_documented (con_storage env) v" and "plane_coherent iom v (con_world s)"
    and "client_frame env (data_state v)" and iom: "con_iom s = Some iom"
    and ext: "by_external_storage (input_via_external_storage s)"
    and run: "send env (PList tasks) s = Some (Inr answer, s')"
  shows "\<exists>sid t1 t2 w. s' = s\<lparr>con_world := con_world s'\<rparr> \<and>
     submit_post env (con_configuration s) sid w = (Inr answer, con_world s') \<and>
     (\<forall>i x w'. i < length tasks \<and>
        get_input_to_bytes (con_storage env) iom (sid @ ''_'' @ str_of_nat i) w = Some (Inr x, w') \<longrightarrow>
        x = b64encode (utf8_encode (json_dumps (tasks ! i)))) \<and>
     (\<forall>senv m j m'. sub_storage senv = con_storage env \<and> sub_stdin_iom senv = iom \<and> sub_external_storage senv = ''1'' \<and>
        grid m = w \<and> submitted_event senv (content_event sid) m = Some (Inr j, m') \<longrightarrow>
        j = user_task_json sid t1 t2 (PList (map (\<lambda>i. PStr (sid @ ''_'' @ str_of_nat i)) [0..<length tasks])))"
proof -
  from run obtain jobs s1 where gen: "generate_user_task_json env (PList tasks) s = Some (Inr jobs, s1)"
    and sub: "submit env jobs s1 = Some (Inr answer, s')"
    by (auto simp: send_def py_len_def io_bind_Inr)
  from generate_Inr [OF ext iom doc assms(3,2) gen] obtain sid t1 t2 where
    jobs: "jobs = user_task_json sid t1 t2 (PList (map (\<lambda>i. PStr (sid @ ''_'' @ str_of_nat i)) [0..<length tasks]))"
    and s1: "s1 = s\<lparr>con_world := con_world s1\<rparr>" and coh: "plane_coherent iom v (con_world s1)"
    and inputs: "\<forall>i < length tasks. plane_agrees iom v (stored_input sid i (tasks ! i)) (con_world s1)" .
  let ?d = "urlsafe_b64encode (utf8_encode (json_dumps jobs))"
  have same: "input_via_external_storage s1 = input_via_external_storage s" "con_iom s1 = Some iom"
    "con_configuration s1 = con_configuration s" by (subst s1, simp add: iom)+
  from sub ext same obtain w where put: "put_from_bytes (con_storage env) iom sid ?d PAYLOAD_POSTFIX (con_world s1) = Some (Inr (), w)"
    and post: "submit_post env (con_configuration s) sid w = (Inr answer, con_world s')" and s': "s' = s1\<lparr>con_world := con_world s'\<rparr>"
    by (auto simp: jobs submit_Inr)
  have "x = b64encode (utf8_encode (json_dumps (tasks ! i)))"
    if "i < length tasks" "get_input_to_bytes (con_storage env) iom (sid @ ''_'' @ str_of_nat i) w = Some (Inr x, w')" for i x w'
  proof -
    have "plane_agrees iom v ((stored_input sid i (tasks ! i))((sid, PAYLOAD_POSTFIX) \<mapsto> ?d)) w"
      by (rule put_agrees [OF doc _ put]) (use inputs that(1) in auto)
    from get_agrees [OF doc this _ that(2) [unfolded get_input_to_bytes_def]] show ?thesis
      by (simp add: stored_input_def postfix_defs)
  qed
  moreover have "j = jobs" if senv: "sub_storage senv = con_storage env" "sub_stdin_iom senv = iom"
      "sub_external_storage senv = ''1''" "grid m = w" and ev: "submitted_event senv (content_event sid) m = Some (Inr j, m')"
    for senv :: "'a submit_env" and m j m'
  proof -
    from submitted_event_payload [OF senv(3) ev] senv obtain x w' where
      x: "get_to_bytes (con_storage env) iom sid PAYLOAD_POSTFIX w = Some (Inr x, w')"
      "bind_result (utf8_decode x) (\<lambda>t. decode_submission (PStr t)) = Inr j" by auto
    have "plane_agrees iom v [(sid, PAYLOAD_POSTFIX) \<mapsto> ?d] w"
      by (rule put_agrees [OF doc agrees_empty [OF coh] put]) simp
    from get_agrees [OF doc this _ x(1)] have "x = ?d" by simp
    moreover have "json_wf jobs" by (simp add: jobs user_task_json_wf list_all_iff)
    ultimately show ?thesis using x(2) by (simp add: utf8_decode_ascii_text urlsafe_encode_ascii)
  qed
  moreover have "s' = s\<lparr>con_world := con_world s'\<rparr>" by (subst s', subst s1) simp
  ultimately show ?thesis using post unfolding jobs by blast
qed

section \<open>Results\<close>

lemma same_world [simp]: "s\<lparr>con_world := w\<rparr> = s\<lparr>con_world := w'\<rparr> \<longleftrightarrow> w = w'"
  by (metis connector.select_convs(1) connector.surjective connector.update_convs(1))

lemma keeps_client_field: "(\<And>s w. f (s\<lparr>con_world := w\<rparr>) = f s) \<Longrightarrow> keeps f (on_client m)"
  by (auto simp: keeps_def on_client_Some)

lemma results_round_keeps:
  assumes "\<And>s w. f (s\<lparr>con_world := w\<rparr>) = f s"
  shows "keeps f (results_round env resp n timeout start)"
  unfolding results_round_def invoke_get_results_lambda_def timed_out_def
  by (intro keeps_bind keeps_then keeps_of keeps_get keeps_return)
    (auto intro!: keeps_bind keeps_then keeps_client_field assms simp del: io_return_apply split: if_splits)

lemma get_agrees_kept:
  assumes "storage_documented st v" and a: "plane_agrees iom v K w" and "get_to_bytes st iom t p w = Some (r, w')"
  shows "plane_agrees iom v K w'"
proof -
  have "plane_coherent iom v w'" "plane_held iom v w' \<subseteq>\<^sub>m plane_held iom v w"
    using grid_plane.get_kept [OF assms(1) _ assms(3)] a by (simp_all add: plane_agrees_def)
  with a show ?thesis unfolding plane_agrees_def by (meson map_le_Some)
qed

text \<open>\<open>outputs_at n outs res res'\<close>: \<open>res'\<close> is \<open>res\<close> with the texts \<open>outs\<close> in its list of outputs, from position \<open>n\<close> on.\<close>

definition outputs_at :: "nat \<Rightarrow> string list \<Rightarrow> pyval \<Rightarrow> pyval \<Rightarrow> bool" where
  "outputs_at n outs res res' \<longleftrightarrow> (\<forall>k. k \<noteq> ''finished_OUTPUT'' \<longrightarrow> py_index res' k = py_index res k) \<and>
     (outs = [] \<and> res' = res \<or> (\<exists>xs. py_index res ''finished_OUTPUT'' = Inr (PList xs) \<and> n + length outs \<le> length xs \<and>
        py_index res' ''finished_OUTPUT'' = Inr (PList (take n xs @ map PStr outs @ drop (n + length outs) xs))))"

lemma set_output_Inr:
  assumes "set_output res n out = Inr res'"
  shows "outputs_at n [out] res res'"
proof -
  from assms obtain ys where ys: "py_index res ''finished_OUTPUT'' = Inr ys" and set: "(case ys of
      PList xs \<Rightarrow> if n < length xs then py_set res (TASK_STATE_FINISHED @ ''_OUTPUT'') (PList (xs[n := PStr out])) else Inl IndexError
    | _ \<Rightarrow> Inl TypeError) = Inr res'"
    by (auto simp: set_output_def bind_result_Inr TASK_STATE_FINISHED_def)
  from set obtain xs where xs: "py_index res ''finished_OUTPUT'' = Inr (PList xs)" "n < length xs"
    and set: "py_set res ''finished_OUTPUT'' (PList (xs[n := PStr out])) = Inr res'"
    using ys by (cases ys) (auto simp: TASK_STATE_FINISHED_def split: if_splits)
  from set obtain d where "res = PDict d" "res' = PDict (AList.update ''finished_OUTPUT'' (PList (xs[n := PStr out])) d)"
    by (auto simp: py_set_def split: pyval.splits)
  with xs show ?thesis by (simp add: outputs_at_def dict_get_def update_conv' upd_conv_take_nth_drop)
qed

lemma outputs_at_Cons:
  assumes "outputs_at n [out] res res1" and "outputs_at (Suc n) outs res1 res'"
  shows "outputs_at n (out # outs) res res'"
proof -
  from assms(1) obtain xs where xs: "py_index res ''finished_OUTPUT'' = Inr (PList xs)" "n < length xs"
    "py_index res1 ''finished_OUTPUT'' = Inr (PList (take n xs @ PStr out # drop (Suc n) xs))"
    by (auto simp: outputs_at_def)
  let ?ys = "take n xs @ PStr out # drop (Suc n) xs"
  have "length ?ys = length xs" "take (Suc n) ?ys = take n xs @ [PStr out]"
    "drop (Suc n + k) ?ys = drop (Suc n + k) xs" for k
    using xs(2) by (simp_all add: min_def take_Suc_conv_app_nth add.commute)
  with assms xs show ?thesis by (auto simp: outputs_at_def)
qed

lemma collect_outputs_Inr:
  assumes doc: "storage_documented (con_storage env) v" and "con_iom s = Some iom"
    and "collect_outputs env (List.enumerate n tasks) res s = Some (Inr res', s')"
  shows "\<exists>outs. length outs = length tasks \<and> outputs_at n outs res res' \<and>
     (\<forall>K i out. plane_agrees iom v K (con_world s) \<and> i < length tasks \<and>
        K (py_str (tasks ! i), OUTPUT_POSTFIX) = Some (b64encode (utf8_encode out)) \<longrightarrow> outs ! i = out)"
  using assms(2-)
proof (induction tasks arbitrary: n res s)
  case Nil
  then show ?case by (simp add: outputs_at_def)
next
  case (Cons task tasks)
  from Cons.prems(2) obtain out s1 res1 where out: "get_output env task s = Some (Inr out, s1)"
    and res1: "set_output res n out = Inr res1"
    and rest: "collect_outputs env (List.enumerate (Suc n) tasks) res1 s1 = Some (Inr res', s')"
    by (auto simp: io_bind_Inr)
  from out Cons.prems(1) obtain x w where x: "get_to_bytes (con_storage env) iom (py_str task) OUTPUT_POSTFIX (con_world s) = Some (Inr x, w)"
    "bind_result (b64decode x) utf8_decode = Inr out" "s1 = s\<lparr>con_world := w\<rparr>"
    by (auto simp: get_output_Inr)
  have "con_iom s1 = Some iom" using Cons.prems(1) x(3) by simp
  from Cons.IH [OF this rest] obtain outs where outs: "length outs = length tasks" "outputs_at (Suc n) outs res1 res'"
    "\<And>K i out. plane_agrees iom v K w \<Longrightarrow> i < length tasks \<Longrightarrow>
       K (py_str (tasks ! i), OUTPUT_POSTFIX) = Some (b64encode (utf8_encode out)) \<Longrightarrow> outs ! i = out"
    using x(3) by auto
  have "(out # outs) ! i = out'" if "plane_agrees iom v K (con_world s)" "i < length (task # tasks)"
      "K (py_str ((task # tasks) ! i), OUTPUT_POSTFIX) = Some (b64encode (utf8_encode out'))" for K i out'
  proof (cases i)
    case 0
    with get_agrees [OF doc that(1) _ x(1)] that(3) x(2) show ?thesis by auto
  next
    case (Suc j)
    with outs(3) [OF get_agrees_kept [OF doc that(1) x(1)], of j out'] that(2,3) show ?thesis by simp
  qed
  with outs(1) outputs_at_Cons [OF set_output_Inr [OF res1] outs(2)] show ?case
    by (intro exI [of _ "out # outs"]) auto
qed

lemma submission_string [simp]: "submission_string v = Inr (urlsafe_b64encode (utf8_encode (json_dumps v)))"
  by (simp add: submission_string_def utf8_decode_ascii_text urlsafe_encode_ascii)

lemma query_content_request:
  "json_wf v \<Longrightarrow> query_content (content_event (urlsafe_b64encode (utf8_encode (json_dumps v)))) = Inr v"
  using query_content_event [of v] by (simp add: query_event_def content_event_def)

text \<open>The last round of the loop.\<close>

definition stops_polling :: "'w connector_env \<Rightarrow> nat \<Rightarrow> int \<Rightarrow> int \<Rightarrow> pyval \<Rightarrow> 'w \<Rightarrow> 'w \<Rightarrow> bool" where
  "stops_polling env n timeout_sec start answer w w' \<longleftrightarrow>
     session_complete answer n = Inr True \<and> w' = w \<or>
     session_complete answer n = Inr False \<and> 0 < timeout_sec \<and>
       (\<exists>now. now_ms (con_host env) w = (now, w') \<and> 1000 * timeout_sec < now - start)"

lemma timed_out_True:
  "timed_out env timeout_sec start s = Some (Inr True, s') \<longleftrightarrow> 0 < timeout_sec \<and>
     (\<exists>now w. now_ms (con_host env) (con_world s) = (now, w) \<and> s' = s\<lparr>con_world := w\<rparr> \<and> 1000 * timeout_sec < now - start)"
  by (auto simp: timed_out_def io_bind_Inr on_client_Some time_now_ms_def io_read_def split: prod.splits)

lemma results_round_Some:
  assumes "results_round env resp n timeout_sec start s = Some (Inr (Some answer), s')"
  shows "\<exists>sid w. py_index resp ''session_id'' = Inr sid \<and>
     result_get env (con_configuration s) (urlsafe_b64encode (utf8_encode (json_dumps (PDict [(''session_id'', sid)]))))
       (con_world s) = (Inr answer, w) \<and>
     stops_polling env n timeout_sec start answer w (con_world s')"
proof -
  from assms obtain sid w c where sid: "py_index resp ''session_id'' = Inr sid"
    and get: "result_get env (con_configuration s) (urlsafe_b64encode (utf8_encode (json_dumps (PDict [(''session_id'', sid)]))))
       (con_world s) = (Inr c, w)"
    and rest: "io_bind (io_of (session_complete c n)) (\<lambda>complete.
       if complete then io_return (Some c)
       else io_bind (timed_out env timeout_sec start) (\<lambda>over.
         if over then io_return (Some c)
         else io_bind (io_get dynamodb_results_pull_intervall) (\<lambda>interval.
           io_then (on_client (io_call (con_sleep env interval))) (io_return None)))) (s\<lparr>con_world := w\<rparr>) =
       Some (Inr (Some answer), s')"
    by (auto simp: results_round_def invoke_get_results_lambda_def io_bind_Inr on_client_Some)
  from rest have "c = answer \<and> stops_polling env n timeout_sec start answer w (con_world s')"
    by (auto simp: io_bind_Inr io_then_Inr timed_out_True stops_polling_def split: if_splits)
  with sid get show ?thesis by blast
qed

text \<open>C13. What \<open>get_results\<close> returns: the last answer of the API to a request that names the submission's session (the
  lambda reads that session id out of it), which was complete or came after the timeout, with its list of outputs filled in.
  Each finished task has at its position the text that was stored for it, if an output was stored before the polling
  stopped; nothing else of the answer is changed.\<close>

theorem get_results_returns_outputs:
  assumes doc: "storage_documented (con_storage env) v" and iom: "con_iom s = Some iom"
    and run: "get_results env resp timeout_sec s = Some (Inr results, s')"
  shows "\<exists>start w0 sid n answer w1 w2 w3 tasks outs.
     now_ms (con_host env) (con_world s) = (start, w0) \<and>
     py_index resp ''session_id'' = Inr sid \<and> bind_result (py_index resp ''task_ids'') py_len = Inr n \<and>
     result_get env (con_configuration s) (urlsafe_b64encode (utf8_encode (json_dumps (PDict [(''session_id'', sid)])))) w1 =
       (Inr answer, w2) \<and>
     (json_wf sid \<longrightarrow> results_session_id (content_event
        (urlsafe_b64encode (utf8_encode (json_dumps (PDict [(''session_id'', sid)]))))) = Inr sid) \<and>
     stops_polling env n timeout_sec start answer w2 w3 \<and>
     io_until (results_round env resp n timeout_sec start) (s\<lparr>con_world := w0\<rparr>) = Some (Inr answer, s\<lparr>con_world := w3\<rparr>) \<and>
     bind_result (py_index answer ''finished'') py_iter = Inr tasks \<and>
     length outs = length tasks \<and> outputs_at 0 outs answer results \<and>
     (\<forall>K i out. plane_agrees iom v K w3 \<and> i < length tasks \<and>
        K (py_str (tasks ! i), OUTPUT_POSTFIX) = Some (b64encode (utf8_encode out)) \<longrightarrow> outs ! i = out)"
proof -
  from run obtain start w0 n answer s1 tasks where
    start: "now_ms (con_host env) (con_world s) = (start, w0)"
    and n: "bind_result (py_index resp ''task_ids'') py_len = Inr n"
    and loop: "io_until (results_round env resp n timeout_sec start) (s\<lparr>con_world := w0\<rparr>) = Some (Inr answer, s1)"
    and tasks: "bind_result (py_index answer ''finished'') py_iter = Inr tasks"
    and outs: "collect_outputs env (List.enumerate 0 tasks) answer s1 = Some (Inr results, s')"
    by (auto simp: get_results_def io_bind_Inr on_client_Some time_now_ms_def io_read_def TASK_STATE_FINISHED_def
        split: prod.splits)
  from loop obtain k u where u: "io_rounds (results_round env resp n timeout_sec start) k (s\<lparr>con_world := w0\<rparr>) = Some u"
    and last: "results_round env resp n timeout_sec start u = Some (Inr (Some answer), s1)"
    by (auto simp: io_until_Inr)
  have rounds: "f u = f s" if "\<And>s w. f (s\<lparr>con_world := w\<rparr>) = f s" for f :: "'a connector \<Rightarrow> 'c"
    by (rule io_rounds_invariant [OF u]) (use that keepsD [OF results_round_keeps [OF that]] in auto)
  have same: "con_configuration u = con_configuration s" "con_iom s1 = Some iom"
    using rounds [of con_configuration] rounds [of con_iom] keepsD [OF results_round_keeps [of con_iom] last] iom by auto
  let ?rest = "\<lambda>t. t\<lparr>con_world := undefined\<rparr>"
  have "?rest s1 = ?rest s"
    using rounds [of ?rest] keepsD [OF results_round_keeps [of ?rest] last] by simp
  then have s1: "s1 = s\<lparr>con_world := con_world s1\<rparr>"
    by (metis connector.surjective connector.update_convs(1))
  from results_round_Some [OF last] same(1) obtain sid w where sid: "py_index resp ''session_id'' = Inr sid"
    "result_get env (con_configuration s) (urlsafe_b64encode (utf8_encode (json_dumps (PDict [(''session_id'', sid)]))))
       (con_world u) = (Inr answer, w)" "stops_polling env n timeout_sec start answer w (con_world s1)" by auto
  have req: "json_wf sid \<Longrightarrow> results_session_id (content_event
      (urlsafe_b64encode (utf8_encode (json_dumps (PDict [(''session_id'', sid)]))))) = Inr sid"
    by (simp add: results_session_id_def query_content_request dict_get_def del: json_dumps.simps)
  from collect_outputs_Inr [OF doc same(2) outs] obtain outs' where "length outs' = length tasks"
    "outputs_at 0 outs' answer results"
    "\<forall>K i out. plane_agrees iom v K (con_world s1) \<and> i < length tasks \<and>
      K (py_str (tasks ! i), OUTPUT_POSTFIX) = Some (b64encode (utf8_encode out)) \<longrightarrow> outs' ! i = out" by blast
  moreover have "io_until (results_round env resp n timeout_sec start) (s\<lparr>con_world := w0\<rparr>) =
      Some (Inr answer, s\<lparr>con_world := con_world s1\<rparr>)" using loop s1 by simp
  ultimately show ?thesis using start n sid req tasks
    by (intro exI conjI) auto
qed

section \<open>The polling ends\<close>

text \<open>A clock that never goes back, and that a sleep moves on.\<close>

definition clock_documented :: "'w connector_env \<Rightarrow> ('w \<Rightarrow> int) \<Rightarrow> bool" where
  "clock_documented env clock \<longleftrightarrow>
     (\<forall>w. fst (now_ms (con_host env) w) = clock w \<and> clock w \<le> clock (snd (now_ms (con_host env) w))) \<and>
     (\<forall>c t w. clock w \<le> clock (snd (result_get env c t w))) \<and>
     (\<forall>d w. clock w < clock (snd (con_sleep env d w)))"

lemma results_round_again:
  assumes clock: "clock_documented env clock"
    and run: "results_round env resp n timeout_sec start s = Some (Inr None, s')"
  shows "clock (con_world s) < clock (con_world s') \<and>
     (0 < timeout_sec \<longrightarrow> clock (con_world s) - start \<le> 1000 * timeout_sec)"
proof -
  from run obtain t c w w1 s2 d where
    get: "result_get env (con_configuration s) t (con_world s) = (Inr c, w)"
    and over: "timed_out env timeout_sec start (s\<lparr>con_world := w\<rparr>) = Some (Inr False, s2)"
    and sleep: "con_sleep env d (con_world s2) = (Inr (), w1)" "s' = s2\<lparr>con_world := w1\<rparr>"
    by (auto simp: results_round_def invoke_get_results_lambda_def io_bind_Inr io_then_Inr on_client_Some split: if_splits)
  have "clock w \<le> clock (con_world s2) \<and> (0 < timeout_sec \<longrightarrow> clock w - start \<le> 1000 * timeout_sec)"
  proof (cases "0 < timeout_sec")
    case True
    with over obtain now w2 where "now_ms (con_host env) w = (now, w2)" "s2 = s\<lparr>con_world := w2\<rparr>"
      "\<not> 1000 * timeout_sec < now - start"
      by (auto simp: timed_out_def io_bind_Inr on_client_Some time_now_ms_def io_read_def split: prod.splits)
    moreover have "fst (now_ms (con_host env) w) = clock w" "clock w \<le> clock (snd (now_ms (con_host env) w))"
      using clock by (auto simp: clock_documented_def)
    ultimately show ?thesis by auto
  next
    case False
    with over have "s2 = s\<lparr>con_world := w\<rparr>" by (simp add: timed_out_def)
    with False show ?thesis by simp
  qed
  moreover have "clock (con_world s) \<le> clock w" "clock (con_world s2) < clock w1"
    using clock get sleep(1) unfolding clock_documented_def by (metis snd_conv)+
  ultimately show ?thesis using sleep(2) by auto
qed

lemma on_client_returns: "returns m \<Longrightarrow> returns (on_client m)"
  unfolding on_client_def by (rule returns_zoom)

lemma client_plane_returns: "returns client_plane"
  unfolding client_plane_def by (intro returns_bind returns_get) (auto simp del: io_raise_apply io_return_apply split: option.splits)

lemma get_output_returns: "returns (get_output env task)"
  unfolding get_output_def get_output_to_bytes_def
  by (intro returns_bind returns_of client_plane_returns on_client_returns grid_plane.get_returns)

lemma collect_outputs_returns: "returns (collect_outputs env es res)"
  by (induction es arbitrary: res) (auto simp del: io_return_apply intro!: returns_bind get_output_returns)

lemma results_round_returns: "returns (results_round env resp n timeout_sec start)"
proof -
  have "returns (timed_out env timeout_sec start)"
    unfolding timed_out_def
    by (auto simp del: io_return_apply intro!: returns_bind on_client_returns)
  moreover have "returns (invoke_get_results_lambda env v)" for v
    unfolding invoke_get_results_lambda_def by (intro returns_bind returns_of returns_get on_client_returns returns_call)
  ultimately show ?thesis
    unfolding results_round_def
    by (intro returns_bind returns_of)
      (auto simp del: io_return_apply intro!: returns_bind returns_then on_client_returns)
qed

text \<open>C14. With a positive timeout \<open>get_results\<close> always returns, whatever the API answers and however long the tasks take,
  provided that time passes while the client sleeps.\<close>

theorem polling_ends_by_timeout:
  assumes clock: "clock_documented env clock" and pos: "0 < timeout_sec"
  shows "get_results env resp timeout_sec s \<noteq> None"
proof -
  have loop: "io_until (results_round env resp n timeout_sec start) s0 \<noteq> None" for n start and s0 :: "'a connector"
  proof
    assume "io_until (results_round env resp n timeout_sec start) s0 = None"
    then have all: "\<exists>u t. io_rounds (results_round env resp n timeout_sec start) k s0 = Some u \<and>
        results_round env resp n timeout_sec start u = Some (Inr None, t)" for k
      using io_until_None_iff [OF results_round_returns] by blast
    have late: "io_rounds (results_round env resp n timeout_sec start) k s0 = Some u \<Longrightarrow>
        clock (con_world s0) + int k \<le> clock (con_world u)" for k u
    proof (induction k arbitrary: u)
      case (Suc k)
      from io_rounds_Suc_end [OF Suc.prems] obtain u0 where
        "io_rounds (results_round env resp n timeout_sec start) k s0 = Some u0"
        "results_round env resp n timeout_sec start u0 = Some (Inr None, u)" by blast
      with Suc.IH [of u0] results_round_again [OF clock] show ?case by fastforce
    qed simp
    define k where "k = nat (1000 * timeout_sec + start - clock (con_world s0) + 1)"
    from all [of k] obtain u t where u: "io_rounds (results_round env resp n timeout_sec start) k s0 = Some u"
      "results_round env resp n timeout_sec start u = Some (Inr None, t)" by blast
    from late [OF u(1)] results_round_again [OF clock u(2)] pos show False by (auto simp: k_def split: if_splits)
  qed
  have "returns (get_results env resp timeout_sec)"
    unfolding get_results_def
    by (intro returns_bind on_client_returns host_returns returns_of collect_outputs_returns)
      (simp add: returns_def loop)
  then show ?thesis by (simp add: returns_def)
qed

section \<open>What goes wrong\<close>

text \<open>If inputs do not pass through external storage, \<open>submit\<close> always raises \<open>UnboundLocalError\<close>, before any request:
  the session id that it would send is never set.  So \<open>send\<close> never submits a list of tasks in this configuration.\<close>

theorem submit_needs_external_storage:
  assumes "\<not> by_external_storage (input_via_external_storage s)"
  shows "submit env jobs s = Some (Inl UnboundLocalError, s) \<and>
     (\<exists>s'. send env (PList tasks) s = Some (Inl UnboundLocalError, s'))"
proof -
  have sub: "submit env jobs t = Some (Inl UnboundLocalError, t)"
    if "\<not> by_external_storage (input_via_external_storage t)" for jobs t
    using that by (simp add: submit_def put_payload_def io_bind_apply)
  have up: "upload_tasks env (PList tasks) t = Some (Inr (''None'', []), t)"
    if "\<not> by_external_storage (input_via_external_storage t)" for t
    using that by (simp add: upload_tasks_def io_bind_apply)
  obtain t1 w1 t2 w2 where c: "now_ms (con_host env) (con_world s) = (t1, w1)" "now_ms (con_host env) w1 = (t2, w2)"
    by fastforce
  have "generate_user_task_json env (PList tasks) s =
      Some (Inr (user_task_json ''None'' t1 t2 (PList tasks)), s\<lparr>con_world := w2\<rparr>)"
    using assms by (simp add: generate_user_task_json_def io_bind_apply on_client_def io_zoom_apply time_now_ms_def
        io_read_def c up)
  with sub [of "s\<lparr>con_world := w2\<rparr>"] sub [OF assms] assms show ?thesis
    by (simp add: send_def py_len_def io_bind_apply)
qed

text \<open>The token of a refresh is never used: after a successful refresh the requests still carry the token of the
  authentication, because the configuration of the HTTP client is set by \<open>authenticate\<close> only.\<close>

theorem refreshed_token_not_used:
  assumes "authenticate env s = Some (Inr (), s1)" and "\<not> intra_vpc s"
    and "connector_refresh env s1 = Some (Inr (), s2)"
    and "invoke_get_results_lambda env request s2 = Some (r, s3)"
  shows "\<exists>c q. dict_get (config_api_key c) ''htc_cognito_authorizer'' = Some (user_token_id s1) \<and>
     result_get env (Some c) q (con_world s2) = (r, con_world s3)"
proof -
  from assms(1,2) obtain c0 where c0: "con_configuration s1 = Some (c0\<lparr>config_api_key :=
      AList.update ''htc_cognito_authorizer'' (user_token_id s1) (config_api_key c0)\<rparr>)"
    by (auto simp: authenticate_def io_bind_Inr io_then_Inr split: option.splits)
  have "keeps con_configuration (connector_refresh env)"
    unfolding connector_refresh_def
    by (intro keeps_catch keeps_bind keeps_get)
      (auto simp del: io_return_apply io_raise_apply io_modify_apply split: exn.splits
        intro!: keeps_bind keeps_client_field keeps_modify)
  from keepsD [OF this assms(3)] have "con_configuration s2 = con_configuration s1" .
  with assms(4) c0 obtain q where "result_get env (Some (c0\<lparr>config_api_key :=
      AList.update ''htc_cognito_authorizer'' (user_token_id s1) (config_api_key c0)\<rparr>)) q (con_world s2) = (r, con_world s3)"
    by (auto simp: invoke_get_results_lambda_def io_bind_Some on_client_Some)
  then show ?thesis by (intro exI conjI) (auto simp: dict_get_def update_conv')
qed

end
