(* ===== verification/ConnectorRun.thy ===== *)
theory ConnectorRun
  imports ConnectorProps
begin

text \<open>
  The client library on services in memory: an API that answers with one finished task, and a clock that each sleep moves
  on by a second.  The witnesses of the properties of ConnectorProps run on it.
\<close>

definition client_bucket :: in_out where
  "client_bucket = InOutS3 \<lparr>s3_namespace = ''bucket'', s3_subnamespace = None, s3_kms_key_id = None\<rparr>"

definition answer_u :: pyval where
  "answer_u = PDict [(''finished'', PList [PStr ''u_0'']), (''finished_OUTPUT'', PList [PStr ''read_from_dataplane'']),
     (''metadata'', PDict [(''tasks_in_response'', PInt 1)])]"

definition mem_tokens :: "string \<Rightarrow> pyval" where
  "mem_tokens t = PDict [(''AuthenticationResult'', PDict [(''IdToken'', PStr t), (''RefreshToken'', PStr ''r'')])]"

definition mem_connector_env :: "mem_cloud connector_env" where
  "mem_connector_env = \<lparr>con_storage = mem_storage, con_host = mem_host,
     con_sleep = (\<lambda>d w. (Inr (), w\<lparr>mem_clock := mem_clock w + 1000\<rparr>)), con_uuid1 = (\<lambda>w. (''u'', w)), INTRA_VPC = False,
     warrant_authenticate = (\<lambda>u p i c w. (Inr (mem_tokens ''first''), w)),
     initiate_auth = (\<lambda>c t w. (Inr (mem_tokens ''second''), w)), scheduler_new = (\<lambda>w. w),
     scheduler_add_refresh = (\<lambda>n w. (Inr (), w)), scheduler_start = (\<lambda>w. (Inr (), w)),
     submit_post = (\<lambda>c t w. (Inr (PStr t), w)), result_get = (\<lambda>c t w. (Inr answer_u, w)),
     cancel_post = (\<lambda>c t w. (Inr PNone, w))\<rparr>"

lemma mem_connector_env_simps [simp]:
  "con_storage mem_connector_env = mem_storage" "con_host mem_connector_env = mem_host"
  by (simp_all add: mem_connector_env_def)

definition client_start :: "mem_cloud \<Rightarrow> mem_cloud connector" where
  "client_start w = (new_connector w)\<lparr>con_iom := Some client_bucket, input_via_external_storage := PInt 1,
     has_cognito_client := True, has_scheduler := True,
     con_configuration := Some \<lparr>config_host = PStr ''host'', config_api_key = []\<rparr>\<rparr>"

lemma client_start_simps [simp]:
  "con_world (client_start w) = w" "con_iom (client_start w) = Some client_bucket"
  "input_via_external_storage (client_start w) = PInt 1" "by_external_storage (PInt 1)" "\<not> intra_vpc (client_start w)"
  by (simp_all add: client_start_def by_external_storage_def new_connector_def)

lemma client_bucket_coherent [simp]: "plane_coherent client_bucket v w"
  by (simp add: client_bucket_def)

lemma mem_client_frame: "client_frame mem_connector_env v"
  by (simp add: client_frame_def mem_host_keeps) (simp add: mem_connector_env_def keeps_def io_read_apply)

lemma mem_clock_documented: "clock_documented mem_connector_env mem_clock"
  by (simp add: clock_documented_def) (simp add: mem_connector_env_def)

definition client_agent :: "mem_cloud \<Rightarrow> mem_cloud agent_state" where
  "client_agent w = (agent_start [] (\<lambda>k. None))\<lparr>ag_world := w, stdout_iom := client_bucket\<rparr>"

lemma client_agent_simps [simp]: "ag_world (client_agent w) = w" "stdout_iom (client_agent w) = client_bucket"
  by (simp_all add: client_agent_def)

definition task_u :: pyval where
  "task_u = PDict [(''task_id'', PStr ''u_0'')]"

lemma task_u_id: "task_id_of task_u = Inr ''u_0''"
  by code_simp

lemma mem_input:
  "case put_task_input mem_connector_env ''u'' (0, PInt 7) (client_start empty_cloud) of
     Some (Inr k, s) \<Rightarrow> k = ''u_0'' \<and> (case prepare_arguments_for_execution mem_agent_env task_u (client_agent (con_world s)) of
       Some (Inr i, a) \<Rightarrow> True | _ \<Rightarrow> False)
   | _ \<Rightarrow> False"
  by code_simp

theorem input_reaches_worker_witness:
  "\<exists>s k i a. put_task_input mem_connector_env ''u'' (0, PInt 7) (client_start empty_cloud) = Some (Inr k, s) \<and>
     prepare_arguments_for_execution mem_agent_env task_u (client_agent (con_world s)) = Some (Inr i, a) \<and>
     bind_result (input_decode i) json_loads = Inr (PInt 7)"
proof -
  from mem_input obtain s k i a where put: "put_task_input mem_connector_env ''u'' (0, PInt 7) (client_start empty_cloud) = Some (Inr k, s)"
    and k: "k = ''u_0''" and prep: "prepare_arguments_for_execution mem_agent_env task_u (client_agent (con_world s)) = Some (Inr i, a)"
    by (auto simp: run_iff)
  have "bind_result (input_decode i) json_loads = Inr (PInt 7)"
    by (rule input_reaches_worker [OF _ _ _ _ put, where others = "[]" and v = mem_data_view and a = "client_agent (con_world s)" and
        aenv = mem_agent_env and task = task_u and iom = client_bucket and a' = a])
      (use prep in \<open>simp_all add: mem_storage_documented task_u_id k, simp add: mem_agent_env_def by_external_storage_def\<close>)
  with put prep show ?thesis by blast
qed

lemma mem_output:
  "case store_output mem_agent_env ''u_0'' [] (Some ''hi'') (client_agent empty_cloud) of
     Some (Inr u, a) \<Rightarrow> (case get_output mem_connector_env (PStr ''u_0'') (client_start (ag_world a)) of
       Some (Inr x, s) \<Rightarrow> True | _ \<Rightarrow> False)
   | _ \<Rightarrow> False"
  by code_simp

theorem output_reaches_client_witness:
  "\<exists>a s. store_output mem_agent_env ''u_0'' [] (Some ''hi'') (client_agent empty_cloud) = Some (Inr (), a) \<and>
     get_output mem_connector_env (PStr ''u_0'') (client_start (ag_world a)) = Some (Inr ''hi'', s)"
proof -
  from mem_output obtain a x s where put: "store_output mem_agent_env ''u_0'' [] (Some ''hi'') (client_agent empty_cloud) = Some (Inr (), a)"
    and get: "get_output mem_connector_env (PStr ''u_0'') (client_start (ag_world a)) = Some (Inr x, s)"
    by (auto simp: run_iff)
  have "x = ''hi''"
    by (rule output_reaches_client [OF _ _ _ _ _ put _ _ get, where others = "[]" and v = mem_data_view and iom = client_bucket])
      (simp_all add: mem_storage_documented)
  with put get show ?thesis by blast
qed

text \<open>The run by the steps of \<open>send\<close>, with the texts that are stored left unevaluated.\<close>

lemma mem_put: "put_from_bytes mem_storage client_bucket t d p w =
    Some (Inr (), w\<lparr>mem_objects := (mem_objects w)((''bucket'', t @ p) \<mapsto> d)\<rparr>)"
  by (simp add: client_bucket_def s3_put_from_bytes_def get_full_key_def)

lemma mem_send: "\<exists>s. send mem_connector_env (PList [PInt 7, PStr ''x'']) (client_start empty_cloud) = Some (Inr (PStr ''u''), s)"
proof -
  have now: "on_client (time_now_ms mem_host) t = Some (Inr (mem_clock (con_world t)), t)" for t :: "mem_cloud connector"
    by (simp add: on_client_def io_zoom_apply time_now_ms_def io_read_apply)
  have sid: "new_session_id mem_connector_env t = Some (Inr ''u'', t)" for t
    by (simp add: new_session_id_def on_client_def io_zoom_apply io_read_apply) (simp add: mem_connector_env_def)
  have put: "put_task_input mem_connector_env ''u'' (i, d) t = Some (Inr (''u_'' @ str_of_nat i), t\<lparr>con_world := (con_world t)\<lparr>
      mem_objects := (mem_objects (con_world t))((''bucket'', ''u_'' @ str_of_nat i @ INPUT_POSTFIX) \<mapsto>
        b64encode (utf8_encode (json_dumps d)))\<rparr>\<rparr>)" if "con_iom t = Some client_bucket" for i d t
    using that by (simp add: put_task_input_def Let_def client_plane_def io_apply on_client_def put_input_from_bytes_def mem_put)
  have up: "\<exists>t ks. upload_tasks mem_connector_env (PList [PInt 7, PStr ''x'']) (client_start empty_cloud) =
      Some (Inr (''u'', ks), t) \<and> input_via_external_storage t = PInt 1 \<and> con_iom t = Some client_bucket"
    by (simp add: upload_tasks_def io_apply sid py_iter_def put)
  have sub: "\<exists>u. submit mem_connector_env (user_task_json ''u'' t1 t2 ts) t = Some (Inr (PStr ''u''), u)"
    if "input_via_external_storage t = PInt 1" "con_iom t = Some client_bucket" for t t1 t2 ts
  proof -
    have "submit_post mem_connector_env c q w = (Inr (PStr q), w)" for c q w by (simp add: mem_connector_env_def)
    with that show ?thesis by (simp add: submit_Inr mem_put)
  qed
  from up sub show ?thesis by (auto simp: send_def py_len_def generate_user_task_json_def io_apply now)
qed

theorem send_delivers_session_witness:
  "\<exists>s' sid w. send mem_connector_env (PList [PInt 7, PStr ''x'']) (client_start empty_cloud) = Some (Inr (PStr ''u''), s') \<and>
     submit_post mem_connector_env (con_configuration (client_start empty_cloud)) sid w = (Inr (PStr ''u''), con_world s')"
proof -
  obtain s' where run: "send mem_connector_env (PList [PInt 7, PStr ''x'']) (client_start empty_cloud) = Some (Inr (PStr ''u''), s')"
    using mem_send by blast
  have doc: "storage_documented (con_storage mem_connector_env) mem_data_view" by (simp add: mem_storage_documented)
  from send_delivers_session [OF doc _ mem_client_frame _ _ run, of client_bucket] run show ?thesis by auto
qed

definition one_submitted :: pyval where
  "one_submitted = PDict [(''session_id'', PStr ''u''), (''task_ids'', PList [PStr ''u_0''])]"

definition with_output :: mem_cloud where
  "with_output = empty_cloud\<lparr>mem_objects := [(''bucket'', ''u_0-output'') \<mapsto> b64encode (utf8_encode ''hi'')]\<rparr>"

lemma mem_round: "results_round mem_connector_env one_submitted 1 60 0 s = Some (Inr (Some answer_u), s)"
proof -
  have "session_complete answer_u 1 = Inr True" by code_simp
  moreover have "py_index one_submitted ''session_id'' = Inr (PStr ''u'')" by (simp add: one_submitted_def dict_get_def)
  moreover have "result_get mem_connector_env c q w = (Inr answer_u, w)" for c q w by (simp add: mem_connector_env_def)
  ultimately show ?thesis
    by (simp add: results_round_def io_apply invoke_get_results_lambda_def on_client_def del: json_dumps.simps)
qed

lemma mem_loop:
  "io_until (results_round mem_connector_env one_submitted 1 60 0) s = Some (Inr answer_u, s)"
  by (subst io_until.simps) (simp add: io_bind_apply mem_round [simplified])

lemma mem_collect:
  "case collect_outputs mem_connector_env [(0, PStr ''u_0'')] answer_u (client_start with_output) of
     Some (Inr r, s) \<Rightarrow> True | _ \<Rightarrow> False"
  by code_simp

lemma mem_get_results:
  "\<exists>r s. get_results mem_connector_env one_submitted 60 (client_start with_output) = Some (Inr r, s)"
proof -
  have now: "on_client (time_now_ms mem_host) (client_start with_output) = Some (Inr 0, client_start with_output)"
    by (simp add: on_client_def io_zoom_apply time_now_ms_def io_read_apply with_output_def empty_cloud_def
        client_start_def new_connector_def)
  have "bind_result (py_index one_submitted ''task_ids'') py_len = Inr 1"
    "bind_result (py_index answer_u TASK_STATE_FINISHED) py_iter = Inr [PStr ''u_0'']" by code_simp+
  then show ?thesis using mem_collect by (auto simp: get_results_def io_bind_apply now mem_loop [simplified] run_iff)
qed

theorem get_results_returns_outputs_witness:
  "\<exists>r s. get_results mem_connector_env one_submitted 60 (client_start with_output) = Some (Inr r, s) \<and>
     py_index r ''finished_OUTPUT'' = Inr (PList [PStr ''hi''])"
proof -
  obtain r s where run: "get_results mem_connector_env one_submitted 60 (client_start with_output) = Some (Inr r, s)"
    using mem_get_results by blast
  let ?K = "[(''u_0'', OUTPUT_POSTFIX) \<mapsto> b64encode (utf8_encode ''hi'')]"
  have doc: "storage_documented (con_storage mem_connector_env) mem_data_view" by (simp add: mem_storage_documented)
  from get_results_returns_outputs [OF doc _ run, of client_bucket] obtain start n answer w3 tasks outs where
    start: "start = 0" "bind_result (py_index one_submitted ''task_ids'') py_len = Inr n"
    and loop: "io_until (results_round mem_connector_env one_submitted n 60 start) (client_start with_output) =
      Some (Inr answer, (client_start with_output)\<lparr>con_world := w3\<rparr>)"
    and tasks: "bind_result (py_index answer ''finished'') py_iter = Inr tasks" "length outs = length tasks"
      "outputs_at 0 outs answer r"
    and outs: "\<And>K i out. plane_agrees client_bucket mem_data_view K w3 \<Longrightarrow> i < length tasks \<Longrightarrow>
      K (py_str (tasks ! i), OUTPUT_POSTFIX) = Some (b64encode (utf8_encode out)) \<Longrightarrow> outs ! i = out"
    by (auto simp: with_output_def empty_cloud_def client_start_def new_connector_def)
  from start have "n = 1" by (simp add: one_submitted_def dict_get_def py_len_def)
  with loop start have "answer = answer_u" "client_start with_output = (client_start with_output)\<lparr>con_world := w3\<rparr>"
    by (simp_all add: mem_loop [simplified])
  then have answer: "answer = answer_u" "w3 = with_output" using client_start_simps(1) connector.select_convs(1)
    by (metis connector.surjective connector.update_convs(1))+
  have "bind_result (py_index answer_u ''finished'') py_iter = Inr [PStr ''u_0'']" by code_simp
  with tasks answer have ids: "tasks = [PStr ''u_0'']" by simp
  have "plane_agrees client_bucket mem_data_view ?K w3"
    by (simp add: plane_agrees_def plane_held_def client_bucket_def get_full_key_def answer with_output_def)
  from outs [OF this, of 0 "''hi''"] have "outs = [''hi'']" using ids tasks(2) by (cases outs) (simp_all add: py_str_def)
  with tasks(3) have "py_index r ''finished_OUTPUT'' = Inr (PList [PStr ''hi''])"
    by (simp add: outputs_at_def answer answer_u_def dict_get_def)
  with run show ?thesis by blast
qed

theorem polling_ends_by_timeout_witness:
  "get_results (mem_connector_env\<lparr>result_get := (\<lambda>c t w. (Inr (PDict []), w))\<rparr>) one_submitted 1 (client_start empty_cloud) \<noteq> None"
proof -
  have "clock_documented (mem_connector_env\<lparr>result_get := (\<lambda>c t w. (Inr (PDict []), w))\<rparr>) mem_clock"
    using mem_clock_documented by (simp add: clock_documented_def)
  from polling_ends_by_timeout [OF this, of 1] show ?thesis by simp
qed

theorem submit_needs_external_storage_witness:
  "submit mem_connector_env PNone ((client_start empty_cloud)\<lparr>input_via_external_storage := PInt 0\<rparr>) =
     Some (Inl UnboundLocalError, (client_start empty_cloud)\<lparr>input_via_external_storage := PInt 0\<rparr>)"
  using submit_needs_external_storage [of "(client_start empty_cloud)\<lparr>input_via_external_storage := PInt 0\<rparr>"]
  by (simp add: by_external_storage_def)

lemma mem_tokens_used:
  "case authenticate mem_connector_env (client_start empty_cloud) of
     Some (Inr u, s1) \<Rightarrow> user_token_id s1 = PStr ''first'' \<and> (case connector_refresh mem_connector_env s1 of
       Some (Inr u, s2) \<Rightarrow> user_token_id s2 = PStr ''second'' \<and>
         (case invoke_get_results_lambda mem_connector_env PNone s2 of Some (Inr r, s3) \<Rightarrow> True | _ \<Rightarrow> False)
     | _ \<Rightarrow> False)
   | _ \<Rightarrow> False"
  by code_simp

theorem refreshed_token_not_used_witness:
  "\<exists>c q s1 s2 w w' r. authenticate mem_connector_env (client_start empty_cloud) = Some (Inr (), s1) \<and>
     connector_refresh mem_connector_env s1 = Some (Inr (), s2) \<and> user_token_id s2 = PStr ''second'' \<and>
     dict_get (config_api_key c) ''htc_cognito_authorizer'' = Some (PStr ''first'') \<and>
     result_get mem_connector_env (Some c) q w = (r, w')"
proof -
  from mem_tokens_used obtain s1 s2 r s3 where
    a: "authenticate mem_connector_env (client_start empty_cloud) = Some (Inr (), s1)" "user_token_id s1 = PStr ''first''"
    and b: "connector_refresh mem_connector_env s1 = Some (Inr (), s2)" "user_token_id s2 = PStr ''second''"
    and c: "invoke_get_results_lambda mem_connector_env PNone s2 = Some (Inr r, s3)"
    by (auto simp: run_iff)
  from refreshed_token_not_used [OF a(1) _ b(1) c] a(2) obtain d q where
    "dict_get (config_api_key d) ''htc_cognito_authorizer'' = Some (PStr ''first'')"
    "result_get mem_connector_env (Some d) q (con_world s2) = (Inr r, con_world s3)" by auto
  with a b show ?thesis by blast
qed

end
