(* ===== verification/Orchestrator.thy ===== *)
theory Orchestrator
  imports Lambdas
begin

text \<open>
  The ORB orchestrator, \<open>source/compute_plane/orb_orchestrator/orb_lambda.py\<close>: a lambda that creates, lists and terminates
  machines through the client of ORB.  The client and the way it is opened and closed are parameters, and so are the
  environment variables and the names of exception classes.  Left out: logging (with \<open>_enable_aws_wire_logs\<close>) and the
  directories made when the module is loaded.
\<close>

record 'w orb_env =
  orb_environ :: "string \<Rightarrow> string option"
  orb_open :: "'w \<Rightarrow> (exn + unit) \<times> 'w" \<comment> \<open>\<open>__aenter__\<close>\<close>
  orb_close :: "exn option \<Rightarrow> 'w \<Rightarrow> (exn + bool) \<times> 'w" \<comment> \<open>\<open>__aexit__\<close>: true swallows the exception\<close>
  list_requests :: "'w \<Rightarrow> (exn + pyval) \<times> 'w"
  get_request_status :: "pyval list \<Rightarrow> 'w \<Rightarrow> (exn + pyval) \<times> 'w"
  list_machines :: "'w \<Rightarrow> (exn + pyval) \<times> 'w"
  request_machines :: "pyval \<Rightarrow> int \<Rightarrow> 'w \<Rightarrow> (exn + pyval) \<times> 'w"
  return_machines :: "pyval \<Rightarrow> 'w \<Rightarrow> (exn + pyval) \<times> 'w"
  exn_class :: "exn \<Rightarrow> string" \<comment> \<open>\<open>type(exc).__name__\<close>\<close>

section \<open>Values\<close>

text \<open>\<open>len(v)\<close>.\<close>

definition py_len :: "pyval \<Rightarrow> exn + int" where
  "py_len v = (case v of
      PStr s \<Rightarrow> Inr (int (length s)) | PList xs \<Rightarrow> Inr (int (length xs)) | PDict d \<Rightarrow> Inr (int (length d))
    | _ \<Rightarrow> Inl TypeError)"

text \<open>\<open>s.lower()\<close> on the code points below 256.\<close>

definition lower_char :: "char \<Rightarrow> char" where
  "lower_char c = (let n = of_char c :: nat in
     if 65 \<le> n \<and> n \<le> 90 \<or> 192 \<le> n \<and> n \<le> 222 \<and> n \<noteq> 215 then char_of (n + 32) else c)"

text \<open>\<open>repr(v)\<close>.\<close>

definition repr_char :: "char \<Rightarrow> char \<Rightarrow> string" where
  "repr_char q c = (let n = of_char c :: nat in
     if c = q \<or> n = 92 then [CHR 0x5C, c]
     else if n = 10 then [CHR 0x5C, CHR ''n''] else if n = 13 then [CHR 0x5C, CHR ''r'']
     else if n = 9 then [CHR 0x5C, CHR ''t'']
     else if n < 32 \<or> 127 \<le> n \<and> n \<le> 160 \<or> n = 173
       then [CHR 0x5C, CHR ''x'', hex_digit (n div 16), hex_digit (n mod 16)]
     else [c])"

definition repr_str :: "string \<Rightarrow> string" where
  "repr_str s = (let q = (if CHR 0x27 \<in> set s \<and> CHR 0x22 \<notin> set s then CHR 0x22 else CHR 0x27) in
     q # concat (map (repr_char q) s) @ [q])"

fun py_repr :: "pyval \<Rightarrow> string"
  and repr_elems :: "pyval list \<Rightarrow> string"
  and repr_members :: "(string \<times> pyval) list \<Rightarrow> string"
where
  "py_repr PNone = ''None''"
| "py_repr (PBool b) = (if b then ''True'' else ''False'')"
| "py_repr (PInt i) = str_of_int i"
| "py_repr (PStr s) = repr_str s"
| "py_repr (PList xs) = ''['' @ repr_elems xs @ '']''"
| "py_repr (PDict d) = ''{'' @ repr_members d @ ''}''"
| "repr_elems [] = []"
| "repr_elems [x] = py_repr x"
| "repr_elems (x # y # xs) = py_repr x @ '', '' @ repr_elems (y # xs)"
| "repr_members [] = []"
| "repr_members [(k, v)] = repr_str k @ '': '' @ py_repr v"
| "repr_members ((k, v) # m # ms) = repr_str k @ '': '' @ py_repr v @ '', '' @ repr_members (m # ms)"

section \<open>Loading the module\<close>

definition assert_grid_config :: "(string \<Rightarrow> string option) \<Rightarrow> exn + unit" where
  "assert_grid_config environ =
     (let given = (\<lambda>k. case environ k of None \<Rightarrow> False | Some v \<Rightarrow> v \<noteq> []) in
      if \<not> given ''ORB_CONFIG_DIR'' then Inr ()
      else if \<not> given ''ORB_AWS_STORAGE__DYNAMODB__TABLE_PREFIX'' then Inl (GenericException
        (''ORB_AWS_STORAGE__DYNAMODB__TABLE_PREFIX is unset; refusing to fall back to orb-py's '' @
         [CHR 0x27] @ ''hostfactory'' @ [CHR 0x27] @ '' default table prefix. Set it (the orb_orchestrator Terraform module does).''))
      else Inr ())"

section \<open>Live machines and open requests\<close>

definition TERMINAL_MACHINE_STATES :: "string set" where
  "TERMINAL_MACHINE_STATES = {''terminated'', ''failed'', ''returned''}"

definition TERMINAL_REQUEST_STATES :: "string set" where
  "TERMINAL_REQUEST_STATES = {''complete'', ''completed'', ''failed'', ''cancelled'', ''canceled''}"

fun live_machines :: "pyval list \<Rightarrow> exn + pyval list" where
  "live_machines [] = Inr []"
| "live_machines (m # ms) =
     bind_result (bind_result (py_get m ''status'') (\<lambda>st. py_in st TERMINAL_MACHINE_STATES)) (\<lambda>terminal.
     bind_result (live_machines ms) (\<lambda>rest. Inr (if terminal then rest else m # rest)))"

text \<open>\<open>_is_terminal\<close>: the state of a request under either name, whatever its case; anything unknown counts as open.\<close>

definition request_is_terminal :: "pyval \<Rightarrow> exn + bool" where
  "request_is_terminal r = bind_result (py_get r ''status'') (\<lambda>status. bind_result (py_get r ''state'') (\<lambda>state.
     let st = (if truthy status then status else if truthy state then state else PStr []) in
     Inr (case st of PStr s \<Rightarrow> map lower_char s \<in> TERMINAL_REQUEST_STATES | _ \<Rightarrow> False)))"

fun requests_with_id :: "pyval list \<Rightarrow> exn + pyval list" where
  "requests_with_id [] = Inr []"
| "requests_with_id (r # rs) = bind_result (py_get r ''request_id'') (\<lambda>i.
     bind_result (requests_with_id rs) (\<lambda>rest. Inr (if truthy i then r # rest else rest)))"

text \<open>The ids of the requests that are synced, in the order of the list.\<close>

fun open_request_ids :: "pyval list \<Rightarrow> exn + pyval list" where
  "open_request_ids [] = Inr []"
| "open_request_ids (r # rs) = bind_result (request_is_terminal r) (\<lambda>terminal.
     bind_result (if terminal then Inr [] else map_result (\<lambda>r. py_index r ''request_id'') [r]) (\<lambda>ids.
     bind_result (open_request_ids rs) (\<lambda>rest. Inr (ids @ rest))))"

definition sync_request :: "'w orb_env \<Rightarrow> pyval \<Rightarrow> ('w, unit) io" where
  "sync_request env rid =
     io_catch (io_bind (io_call (get_request_status env [rid])) (\<lambda>_. io_return ())) (\<lambda>e. io_return ())"

definition reconcile_requests :: "'w orb_env \<Rightarrow> ('w, unit) io" where
  "reconcile_requests env =
     io_bind (io_catch
       (io_bind (io_call (list_requests env)) (\<lambda>listed.
        io_bind (io_of (bind_result (bind_result (py_get_default listed ''requests'' (PList [])) py_iter) requests_with_id))
          (\<lambda>with_id. io_return (Some with_id))))
       (\<lambda>e. io_return None)) (\<lambda>with_id. case with_id of
         None \<Rightarrow> io_return ()
       | Some with_id \<Rightarrow>
           io_bind (io_of (open_request_ids with_id)) (\<lambda>request_ids. io_foreach request_ids (sync_request env)))"

section \<open>Requests\<close>

definition orb_create_machines :: "'w orb_env \<Rightarrow> pyval \<Rightarrow> ('w, pyval) io" where
  "orb_create_machines env event =
     io_bind (io_of (py_get_default event ''template_id'' (PStr ''EC2Fleet-Instant-OnDemand''))) (\<lambda>template_id.
     io_bind (io_of (bind_result (py_get_default event ''count'' (PInt 1)) py_int)) (\<lambda>n.
     io_bind (io_call (request_machines env template_id n)) (\<lambda>result.
       io_return (PDict [(''action'', PStr ''create''), (''result'', result)]))))"

definition orb_status :: "'w orb_env \<Rightarrow> pyval \<Rightarrow> ('w, pyval) io" where
  "orb_status env event =
     io_bind (io_of (py_get event ''request_id'')) (\<lambda>request_id.
     if truthy request_id then
       io_bind (io_call (get_request_status env [request_id])) (\<lambda>result.
         io_return (PDict [(''action'', PStr ''status''), (''result'', result)]))
     else
       io_then (reconcile_requests env)
       (io_bind (io_call (list_machines env)) (\<lambda>result.
        io_bind (io_of (py_get_default result ''machines'' (PList []))) (\<lambda>machines.
        io_bind (io_of (py_get event ''include_terminated'')) (\<lambda>include_terminated.
        io_bind (io_of (if truthy include_terminated then Inr machines
            else bind_result (bind_result (py_iter machines) live_machines) (\<lambda>ms. Inr (PList ms)))) (\<lambda>machines.
        io_bind (io_of (py_len machines)) (\<lambda>n.
          io_return (PDict [(''action'', PStr ''status''),
            (''result'', PDict [(''machines'', machines), (''count'', PInt n)])]))))))))"

text \<open>The ids of all live machines, for the fleet-wide kill switch.\<close>

fun machine_ids_of :: "pyval list \<Rightarrow> exn + pyval list" where
  "machine_ids_of [] = Inr []"
| "machine_ids_of (m # ms) = bind_result (py_get m ''machine_id'') (\<lambda>i.
     bind_result (machine_ids_of ms) (\<lambda>rest. Inr (if truthy i then i # rest else rest)))"

definition terminate_all_ids :: "'w orb_env \<Rightarrow> ('w, pyval) io" where
  "terminate_all_ids env =
     (if orb_environ env ''ORB_ALLOW_TERMINATE_ALL'' \<noteq> Some ''1'' then io_raise (BadRequest
        (''terminate all is disabled (set ORB_ALLOW_TERMINATE_ALL=1 to enable). '' @
         ''It bypasses graceful drain and must not be the scale-down path; '' @ ''pass explicit machine_ids instead.''))
      else
        io_bind (io_call (list_machines env)) (\<lambda>listed.
        io_of (bind_result (bind_result (py_get_default listed ''machines'' (PList [])) py_iter) (\<lambda>ms.
          bind_result (live_machines ms) (\<lambda>live. bind_result (machine_ids_of live) (\<lambda>ids. Inr (PList ids)))))))"

definition orb_terminate_machines :: "'w orb_env \<Rightarrow> pyval \<Rightarrow> ('w, pyval) io" where
  "orb_terminate_machines env event =
     io_bind (io_of (py_get event ''all'')) (\<lambda>all_live.
     io_bind (if truthy all_live then terminate_all_ids env
       else io_of (bind_result (py_get event ''machine_ids'') (\<lambda>ids. Inr (if truthy ids then ids else PList []))))
       (\<lambda>machine_ids.
     if \<not> truthy machine_ids then io_raise (BadRequest ''terminate requires machine_ids[] or all=true'')
     else io_bind (io_call (return_machines env machine_ids)) (\<lambda>result.
       io_return (PDict [(''action'', PStr ''terminate''), (''requested_ids'', machine_ids), (''result'', result)]))))"

text \<open>\<open>async with orb(provider="aws") as client: ...\<close>; \<open>PNone\<close> is what the function returns if the exit swallows an exception.\<close>

definition with_client :: "'w orb_env \<Rightarrow> ('w, pyval) io \<Rightarrow> ('w, pyval) io" where
  "with_client env m =
     io_then (io_call (orb_open env))
     (io_bind (io_catch (io_bind m (\<lambda>v. io_return (Inr v))) (\<lambda>e. io_return (Inl e))) (\<lambda>r. case r of
         Inr v \<Rightarrow> io_bind (io_call (orb_close env None)) (\<lambda>_. io_return v)
       | Inl e \<Rightarrow> io_bind (io_call (orb_close env (Some e))) (\<lambda>swallow. if swallow then io_return PNone else io_raise e)))"

definition event_action :: "pyval \<Rightarrow> exn + pyval" where
  "event_action event = py_get (if truthy event then event else PDict []) ''action''"

definition orb_dispatch :: "'w orb_env \<Rightarrow> pyval \<Rightarrow> ('w, pyval) io" where
  "orb_dispatch env event =
     io_bind (io_of (event_action event)) (\<lambda>action.
     io_bind (io_of (py_in action {''create'', ''status'', ''terminate''})) (\<lambda>known.
     if \<not> known then io_raise (BadRequest (''action must be one of create|status|terminate, got '' @ py_repr action))
     else with_client env
       (if action = PStr ''create'' then orb_create_machines env event
        else if action = PStr ''status'' then orb_status env event
        else orb_terminate_machines env event)))"

definition orb_handler :: "'w orb_env \<Rightarrow> pyval \<Rightarrow> ('w, pyval) io" where
  "orb_handler env event =
     io_bind (io_of (event_action event)) (\<lambda>action.
     io_catch (io_bind (orb_dispatch env event) (\<lambda>b. io_return (PDict [(''statusCode'', PInt 200), (''body'', b)])))
       (\<lambda>exc. case exc of
          BadRequest msg \<Rightarrow> io_return (PDict [(''statusCode'', PInt 400), (''error'', PStr msg)])
        | _ \<Rightarrow> io_return (PDict [(''statusCode'', PInt 500), (''error'', PStr (exn_class env exc @ '': '' @ exn_str exc))])))"

end
