(* ===== verification/CapacityDrain.thy ===== *)
theory CapacityDrain
  imports Lambdas StateTable TaskQueue
begin

text \<open>
  The drain core and the ORB client of the EC2 capacity controller: \<open>drain.py\<close> and \<open>orb_client.py\<close> of
  \<open>source/compute_plane/python/lambda/capacity_controller\<close>.  EC2, SSM and the orchestrator lambda are parameters; machines
  and instance ids are values that came out of JSON.  Left out: logging.
\<close>

record 'w capacity_env =
  cap_host :: "'w host"
  cap_db :: "'w ddb"
  cap_sqs :: "'w sqs"
  cap_queue :: task_queue
  ec2_create_tags :: "pyval list \<Rightarrow> (string \<times> string) list \<Rightarrow> 'w \<Rightarrow> (exn + unit) \<times> 'w"
  ec2_delete_tags :: "pyval list \<Rightarrow> string list \<Rightarrow> 'w \<Rightarrow> (exn + unit) \<times> 'w"
  ec2_describe_instances :: "pyval list \<Rightarrow> 'w \<Rightarrow> (exn + pyval) \<times> 'w"
  ssm_send_command :: "pyval list \<Rightarrow> string \<Rightarrow> 'w \<Rightarrow> (exn + pyval) \<times> 'w"
  lambda_invoke :: "string \<Rightarrow> 'w \<Rightarrow> (exn + string) \<times> 'w" \<comment> \<open>payload of the request and of the response\<close>
  DRAIN_DEADLINE_SEC :: int
  TEMPLATE_ID :: string

section \<open>\<open>drain.py\<close>\<close>

definition TAG_LIFECYCLE :: string where "TAG_LIFECYCLE = ''htc:lifecycle''"
definition TAG_DRAIN_DEADLINE :: string where "TAG_DRAIN_DEADLINE = ''htc:drain_deadline''"
definition LIFECYCLE_DRAINING :: string where "LIFECYCLE_DRAINING = ''draining''"
definition COMPOSE_STOP_CMD :: string where "COMPOSE_STOP_CMD = ''docker compose -p htc-workers stop''"
definition COMPOSE_START_CMD :: string where "COMPOSE_START_CMD = ''docker compose -p htc-workers start''"

definition send_compose_command :: "'w capacity_env \<Rightarrow> pyval list \<Rightarrow> string \<Rightarrow> ('w, pyval) io" where
  "send_compose_command env machine_ids command =
     (let ids = filter truthy machine_ids in
      if ids = [] then io_return (PDict [])
      else io_catch
        (io_bind (io_call (ssm_send_command env ids command)) (\<lambda>resp.
         io_bind (io_of (bind_result (py_get_default resp ''Command'' (PDict [])) (\<lambda>c. py_get c ''CommandId'')))
           (\<lambda>command_id. io_return (PDict [(''command_id'', command_id)]))))
        (\<lambda>exc. io_return (PDict [(''error'', PStr (exn_str exc))])))"

definition cordon :: "'w capacity_env \<Rightarrow> pyval list \<Rightarrow> ('w, pyval) io" where
  "cordon env machine_ids =
     (let ids = filter truthy machine_ids in
      if ids = [] then io_return (PDict [])
      else
        io_bind (time_now_sec (cap_host env)) (\<lambda>now.
        let deadline = now + DRAIN_DEADLINE_SEC env in
        io_then (io_call (ec2_create_tags env ids
          [(TAG_LIFECYCLE, LIFECYCLE_DRAINING), (TAG_DRAIN_DEADLINE, str_of_int deadline)]))
        (io_bind (send_compose_command env ids COMPOSE_STOP_CMD) (\<lambda>ssm.
          io_return (PDict [(''machine_ids'', PList ids), (''drain_deadline'', PInt deadline), (''ssm'', ssm)])))))"

definition resend_stop :: "'w capacity_env \<Rightarrow> pyval list \<Rightarrow> ('w, pyval) io" where
  "resend_stop env machine_ids = send_compose_command env machine_ids COMPOSE_STOP_CMD"

definition uncordon :: "'w capacity_env \<Rightarrow> pyval list \<Rightarrow> ('w, pyval) io" where
  "uncordon env machine_ids =
     (let ids = filter truthy machine_ids in
      if ids = [] then io_return (PDict [])
      else
        io_bind (send_compose_command env ids COMPOSE_START_CMD) (\<lambda>ssm.
        io_then (io_call (ec2_delete_tags env ids [TAG_LIFECYCLE, TAG_DRAIN_DEADLINE]))
          (io_return (PDict [(''machine_ids'', PList ids), (''ssm'', ssm)]))))"

text \<open>The drain state of an instance: its two tags.\<close>

record drain_tags =
  tag_lifecycle :: pyval
  tag_drain_deadline :: pyval

definition tags_of :: "pyval \<Rightarrow> exn + (pyval \<times> pyval) list" where
  "tags_of inst = bind_result (py_get_default inst ''Tags'' (PList [])) (\<lambda>ts. bind_result (py_iter ts) (\<lambda>ts.
     bind_result (map_result (\<lambda>t. bind_result (py_index t ''Key'') (\<lambda>k. bind_result (py_index t ''Value'') (\<lambda>v. Inr (k, v)))) ts)
       (\<lambda>kvs. Inr (fold (\<lambda>(k, v). AList.update k v) kvs []))))"

definition tag_value :: "(pyval \<times> pyval) list \<Rightarrow> string \<Rightarrow> pyval" where
  "tag_value tags k = (case map_of tags (PStr k) of None \<Rightarrow> PNone | Some v \<Rightarrow> v)"

definition add_instance :: "pyval \<Rightarrow> (pyval \<times> drain_tags) list \<Rightarrow> exn + (pyval \<times> drain_tags) list" where
  "add_instance inst out =
     bind_result (py_get inst ''InstanceId'') (\<lambda>iid. bind_result (tags_of inst) (\<lambda>tags.
       Inr (if truthy iid then AList.update iid \<lparr>tag_lifecycle = tag_value tags TAG_LIFECYCLE,
          tag_drain_deadline = tag_value tags TAG_DRAIN_DEADLINE\<rparr> out else out)))"

fun add_instances :: "pyval list \<Rightarrow> (pyval \<times> drain_tags) list \<Rightarrow> exn + (pyval \<times> drain_tags) list" where
  "add_instances [] out = Inr out"
| "add_instances (inst # insts) out = bind_result (add_instance inst out) (add_instances insts)"

fun add_reservations :: "pyval list \<Rightarrow> (pyval \<times> drain_tags) list \<Rightarrow> exn + (pyval \<times> drain_tags) list" where
  "add_reservations [] out = Inr out"
| "add_reservations (r # rs) out =
     bind_result (bind_result (py_get_default r ''Instances'' (PList [])) py_iter) (\<lambda>insts.
     bind_result (add_instances insts out) (add_reservations rs))"

text \<open>Only an error of the call is caught; a malformed response raises.\<close>

definition read_drain_state :: "'w capacity_env \<Rightarrow> pyval list \<Rightarrow> ('w, (pyval \<times> drain_tags) list) io" where
  "read_drain_state env machine_ids =
     (let ids = filter truthy machine_ids in
      if ids = [] then io_return []
      else
        io_bind (io_catch (io_bind (io_call (ec2_describe_instances env ids)) (\<lambda>resp. io_return (Some resp)))
          (\<lambda>e. io_return None)) (\<lambda>resp. case resp of
            None \<Rightarrow> io_return []
          | Some resp \<Rightarrow> io_of (bind_result (bind_result (py_get_default resp ''Reservations'' (PList [])) py_iter)
              (\<lambda>rs. add_reservations rs []))))"

text \<open>The instance of a live task, if its owner names one.\<close>

definition busy_instance :: "item \<Rightarrow> exn + string option" where
  "busy_instance item =
     (let owner = py_or (case item ''task_owner'' of None \<Rightarrow> PNone | Some v \<Rightarrow> v) (PStr []) in
      case owner of
        PStr s \<Rightarrow> (let instance_id = split_first ''-pair-'' s in
          Inr (if instance_id \<noteq> [] \<and> instance_id \<noteq> ''None'' then Some instance_id else None))
      | _ \<Rightarrow> Inl AttributeError)"

text \<open>The generator \<open>query_live_tasks\<close> and the body of the loop take turns, partition by partition.\<close>

definition busy_in_partition :: "'w capacity_env \<Rightarrow> nat \<Rightarrow> ('w, string list) io" where
  "busy_in_partition env p =
     io_bind (get_live_tasks_for_partition (cap_db env) (cap_host env) p) (\<lambda>live_tasks.
     io_bind (io_of (map_result busy_instance live_tasks)) (\<lambda>ids. io_return (List.map_filter id ids)))"

definition busy_instance_ids :: "'w capacity_env \<Rightarrow> ('w, string set option) io" where
  "busy_instance_ids env = io_catch
     (io_bind (random_int (cap_host env) 0 (int MAX_STATE_PARTITIONS - 1)) (\<lambda>starting_state_id.
      io_bind (io_mapM (busy_in_partition env) (partitions_from (nat starting_state_id))) (\<lambda>busy.
        io_return (Some (set (concat busy))))))
     (\<lambda>exc. case exc of
        StateTableException caused_by_throttling caused_by_condition \<Rightarrow>
          if caused_by_throttling then io_return None else io_raise exc
      | _ \<Rightarrow> io_raise exc)"

section \<open>\<open>orb_client.py\<close>\<close>

definition orb_invoke :: "'w capacity_env \<Rightarrow> pyval \<Rightarrow> ('w, pyval) io" where
  "orb_invoke env payload =
     io_bind (io_call (lambda_invoke env (utf8_encode (json_dumps payload)))) (\<lambda>resp.
       io_of (bind_result (utf8_decode (if resp = [] then ''{}'' else resp)) json_loads))"

definition list_live :: "'w capacity_env \<Rightarrow> ('w, pyval) io" where
  "list_live env =
     io_bind (orb_invoke env (PDict [(''action'', PStr ''status'')])) (\<lambda>body.
       io_of (bind_result (py_get_default body ''body'' (PDict [])) (\<lambda>b.
              bind_result (py_get_default b ''result'' (PDict [])) (\<lambda>r. py_get_default r ''machines'' (PList [])))))"

definition orb_create :: "'w capacity_env \<Rightarrow> int \<Rightarrow> ('w, pyval) io" where
  "orb_create env n = orb_invoke env (PDict [(''action'', PStr ''create''), (''template_id'', PStr (TEMPLATE_ID env)),
     (''count'', PInt n)])"

definition orb_terminate :: "'w capacity_env \<Rightarrow> pyval list \<Rightarrow> ('w, pyval) io" where
  "orb_terminate env machine_ids =
     orb_invoke env (PDict [(''action'', PStr ''terminate''), (''machine_ids'', PList machine_ids)])"

end
