(* ===== verification/CapacityController.thy ===== *)
theory CapacityController
  imports CapacityDrain
begin

text \<open>
  The EC2 capacity controller \<open>ec2_capacity_controller.py\<close>, function by function.  One call of the handler is one tick.
  The backlog is a whole number and is divided exactly, which the floating point division of the code is below \<open>2^52\<close>.
  Left out: logging and the construction of the queue and the state table.
\<close>

section \<open>Configuration\<close>

record capacity_config =
  PAIR_CPU :: int
  PAIR_MEMORY :: int
  MIN_VCPUS :: int
  MAX_VCPUS :: int
  TARGET_PER_PAIR :: int

text \<open>From the values of the environment variables.\<close>

definition capacity_config_of :: "int \<Rightarrow> int \<Rightarrow> int \<Rightarrow> int \<Rightarrow> int \<Rightarrow> capacity_config" where
  "capacity_config_of pair_cpu pair_memory min_vcpus max_vcpus target = \<lparr>PAIR_CPU = max 1 pair_cpu,
     PAIR_MEMORY = max 1 pair_memory, MIN_VCPUS = min_vcpus, MAX_VCPUS = max_vcpus, TARGET_PER_PAIR = max 1 target\<rparr>"

definition read_backlog :: "'w capacity_env \<Rightarrow> ('w, int) io" where
  "read_backlog env = get_queue_length (cap_sqs env) (cap_queue env)"

section \<open>Machines\<close>

definition machine_age_key :: "pyval \<Rightarrow> exn + pyval" where
  "machine_age_key m =
     bind_result (py_get m ''created_at'') (\<lambda>created. if truthy created then Inr created else
     bind_result (py_get m ''launch_time'') (\<lambda>launched. if truthy launched then Inr launched else
       py_get_default m ''machine_id'' (PStr [])))"

definition machine_field_int :: "pyval \<Rightarrow> string \<Rightarrow> exn + int option" where
  "machine_field_int m key =
     bind_result (py_get m key) (\<lambda>v.
     bind_result (if v = PNone then bind_result (py_get m ''provider_data'') (\<lambda>d. py_get (py_or d (PDict [])) key) else Inr v)
       (\<lambda>v. Inr (case py_int v of Inr i \<Rightarrow> Some i | Inl e \<Rightarrow> None)))"

definition vcpus_by_memory :: "capacity_config \<Rightarrow> pyval \<Rightarrow> exn + int" where
  "vcpus_by_memory cfg m = bind_result (machine_field_int m ''memory_mib'') (\<lambda>mem_mib. Inr (case mem_mib of
       Some k \<Rightarrow> if 0 < k then max 1 (k div PAIR_MEMORY cfg) * PAIR_CPU cfg else PAIR_CPU cfg
     | None \<Rightarrow> PAIR_CPU cfg))"

definition vcpus_of :: "capacity_config \<Rightarrow> pyval \<Rightarrow> exn + int" where
  "vcpus_of cfg m = bind_result (machine_field_int m ''vcpus'') (\<lambda>vcpus. case vcpus of
       Some n \<Rightarrow> if 0 < n then Inr n else vcpus_by_memory cfg m
     | None \<Rightarrow> vcpus_by_memory cfg m)"

definition pairs_of :: "capacity_config \<Rightarrow> pyval \<Rightarrow> exn + int" where
  "pairs_of cfg m = bind_result (vcpus_of cfg m) (\<lambda>n. Inr (max 1 (n div PAIR_CPU cfg)))"

section \<open>Sorting by age\<close>

text \<open>
  Keys that Python can compare: two numbers or two texts.  The order below puts numbers first, but a list with both kinds is
  refused, because any sort of it compares a number with a text.
\<close>

datatype age_key = AgeNumber int | AgeText string

instantiation age_key :: linorder
begin

fun less_eq_age_key :: "age_key \<Rightarrow> age_key \<Rightarrow> bool" where
  "less_eq_age_key (AgeNumber a) (AgeNumber b) \<longleftrightarrow> a \<le> b"
| "less_eq_age_key (AgeNumber a) (AgeText t) \<longleftrightarrow> True"
| "less_eq_age_key (AgeText s) (AgeNumber b) \<longleftrightarrow> False"
| "less_eq_age_key (AgeText s) (AgeText t) \<longleftrightarrow> s \<le> t"

definition less_age_key :: "age_key \<Rightarrow> age_key \<Rightarrow> bool" where
  "less_age_key a b \<longleftrightarrow> a \<le> b \<and> \<not> b \<le> a"

instance
proof
  fix a b c :: age_key
  show "(a < b) = (a \<le> b \<and> \<not> b \<le> a)" by (rule less_age_key_def)
  show "a \<le> a" by (cases a) auto
  show "a \<le> b \<Longrightarrow> b \<le> c \<Longrightarrow> a \<le> c" by (cases a; cases b; cases c) auto
  show "a \<le> b \<Longrightarrow> b \<le> a \<Longrightarrow> a = b" by (cases a; cases b) auto
  show "a \<le> b \<or> b \<le> a" by (cases a; cases b) auto
qed

end

definition age_key_of :: "pyval \<Rightarrow> exn + age_key" where
  "age_key_of v = (case v of
      PInt i \<Rightarrow> Inr (AgeNumber i) | PBool b \<Rightarrow> Inr (AgeNumber (if b then 1 else 0)) | PStr s \<Rightarrow> Inr (AgeText s)
    | _ \<Rightarrow> Inl TypeError)"

fun same_kind :: "age_key list \<Rightarrow> bool" where
  "same_kind (AgeNumber a # AgeText t # ks) = False"
| "same_kind (AgeText t # AgeNumber a # ks) = False"
| "same_kind (k # ks) = same_kind ks"
| "same_kind [] = True"

text \<open>\<open>sorted(ms, key=_machine_age_key)\<close>, which is stable; a list of one machine compares nothing.\<close>

definition sort_by_age :: "pyval list \<Rightarrow> exn + pyval list" where
  "sort_by_age ms = bind_result (map_result machine_age_key ms) (\<lambda>ages.
     if length ms \<le> 1 then Inr ms
     else bind_result (map_result age_key_of ages) (\<lambda>keys.
       if same_kind keys then Inr (map snd (sort_key fst (zip keys ms))) else Inl TypeError))"

section \<open>Stage 1: machines that are draining\<close>

text \<open>\<open>v in busy\<close>; a list or a dictionary cannot be looked up.\<close>

definition in_busy :: "pyval \<Rightarrow> string set \<Rightarrow> exn + bool" where
  "in_busy v busy = py_in v busy"

datatype sweep_verdict = Reclaim int | Terminate | ResendStop | Leave

definition deadline_passed :: "int \<Rightarrow> pyval \<Rightarrow> exn + bool" where
  "deadline_passed now raw_deadline =
     (if raw_deadline = PNone then Inr False else bind_result (py_int raw_deadline) (\<lambda>d. Inr (d \<le> now)))"

text \<open>What the body of the loop decides for a machine with an id, by the deficit that is left.\<close>

definition sweep_verdict_of ::
  "capacity_config \<Rightarrow> string set option \<Rightarrow> int \<Rightarrow> pyval \<Rightarrow> pyval \<Rightarrow> int \<Rightarrow> exn + sweep_verdict" where
  "sweep_verdict_of cfg busy now m iid deficit_vcpus =
     (if 0 < deficit_vcpus then bind_result (vcpus_of cfg m) (\<lambda>n. Inr (Reclaim n))
      else
        bind_result (py_get m ''drain_deadline'') (\<lambda>raw_deadline.
        bind_result (deadline_passed now raw_deadline) (\<lambda>passed.
        bind_result (case busy of None \<Rightarrow> Inr False | Some b \<Rightarrow> in_busy iid b) (\<lambda>is_busy.
          let drained = busy \<noteq> None \<and> \<not> is_busy in
          Inr (if drained \<or> passed then Terminate else if is_busy then ResendStop else Leave)))))"

record sweep_plan =
  to_uncordon :: "pyval list"
  to_terminate :: "pyval list"
  to_resend_stop :: "pyval list"
  deficit_left :: int

definition add_verdict :: "pyval \<Rightarrow> sweep_verdict \<Rightarrow> sweep_plan \<Rightarrow> sweep_plan" where
  "add_verdict iid verdict plan = (case verdict of
      Reclaim n \<Rightarrow> plan\<lparr>to_uncordon := to_uncordon plan @ [iid], deficit_left := deficit_left plan - n\<rparr>
    | Terminate \<Rightarrow> plan\<lparr>to_terminate := to_terminate plan @ [iid]\<rparr>
    | ResendStop \<Rightarrow> plan\<lparr>to_resend_stop := to_resend_stop plan @ [iid]\<rparr>
    | Leave \<Rightarrow> plan)"

fun sweep_loop ::
  "capacity_config \<Rightarrow> string set option \<Rightarrow> int \<Rightarrow> pyval list \<Rightarrow> sweep_plan \<Rightarrow> exn + sweep_plan" where
  "sweep_loop cfg busy now [] plan = Inr plan"
| "sweep_loop cfg busy now (m # ms) plan =
     bind_result (py_get m ''machine_id'') (\<lambda>iid.
       if \<not> truthy iid then sweep_loop cfg busy now ms plan
       else bind_result (sweep_verdict_of cfg busy now m iid (deficit_left plan)) (\<lambda>verdict.
         sweep_loop cfg busy now ms (add_verdict iid verdict plan)))"

definition action_of :: "string \<Rightarrow> pyval list \<Rightarrow> (string \<times> pyval) list \<Rightarrow> pyval" where
  "action_of name ids extra = PDict ([(''action'', PStr name), (''machine_ids'', PList ids)] @ extra)"

definition carry_out :: "'w capacity_env \<Rightarrow> sweep_plan \<Rightarrow> ('w, pyval list) io" where
  "carry_out env plan =
     io_bind (if to_uncordon plan \<noteq> []
         then io_bind (uncordon env (to_uncordon plan)) (\<lambda>_. io_return [action_of ''uncordon'' (to_uncordon plan) []])
         else io_return []) (\<lambda>a1.
     io_bind (if to_resend_stop plan \<noteq> []
         then io_bind (resend_stop env (to_resend_stop plan)) (\<lambda>_.
           io_return [action_of ''resend_stop'' (to_resend_stop plan) []])
         else io_return []) (\<lambda>a2.
     io_bind (if to_terminate plan \<noteq> []
         then io_bind (orb_terminate env (to_terminate plan)) (\<lambda>res.
           io_return [action_of ''terminate'' (to_terminate plan) [(''orb'', res)]])
         else io_return []) (\<lambda>a3. io_return (a1 @ a2 @ a3))))"

definition sweep_draining ::
  "'w capacity_env \<Rightarrow> capacity_config \<Rightarrow> pyval list \<Rightarrow> int \<Rightarrow> string set option \<Rightarrow> int \<Rightarrow> ('w, int \<times> pyval list) io" where
  "sweep_draining env cfg draining deficit_vcpus busy now =
     io_bind (io_of (bind_result (sort_by_age draining) (\<lambda>ms. sweep_loop cfg busy now ms
         \<lparr>to_uncordon = [], to_terminate = [], to_resend_stop = [], deficit_left = deficit_vcpus\<rparr>))) (\<lambda>plan.
     io_bind (carry_out env plan) (\<lambda>actions. io_return (deficit_left plan, actions)))"

section \<open>Stage 2: scale up\<close>

definition scale_up :: "'w capacity_env \<Rightarrow> int \<Rightarrow> ('w, pyval list) io" where
  "scale_up env deficit_vcpus =
     (if 0 < deficit_vcpus then
        io_bind (orb_create env deficit_vcpus) (\<lambda>res. io_return
          [PDict [(''action'', PStr ''create''), (''vcpus'', PInt deficit_vcpus), (''orb'', res)]])
      else io_return [])"

section \<open>Stage 3: scale down\<close>

text \<open>
  \<open>sorted(active, key=_victim_key)\<close>: machines that are not busy first, each group by age.  The keys are pairs, and equal pairs
  are equal whatever they contain, so machines of the same age are never compared by it.
\<close>

definition sort_group :: "pyval list \<Rightarrow> exn + pyval list" where
  "sort_group ms = bind_result (map_result machine_age_key ms) (\<lambda>ages.
     if list_all (\<lambda>a. a = hd ages) ages then Inr ms else sort_by_age ms)"

definition victim_order :: "string set \<Rightarrow> pyval list \<Rightarrow> exn + pyval list" where
  "victim_order busy active =
     bind_result (map_result (\<lambda>m. bind_result (py_get_default m ''machine_id'' (PStr [])) (\<lambda>iid. in_busy iid busy)) active)
       (\<lambda>flags.
     bind_result (sort_group (map snd (filter (\<lambda>(f, m). \<not> f) (zip flags active)))) (\<lambda>idle.
     bind_result (sort_group (map snd (filter fst (zip flags active)))) (\<lambda>working. Inr (idle @ working))))"

fun choose_victims ::
  "capacity_config \<Rightarrow> int \<Rightarrow> pyval list \<Rightarrow> pyval list \<Rightarrow> int \<Rightarrow> exn + pyval list \<times> int" where
  "choose_victims cfg surplus_vcpus [] victims removed_vcpus = Inr (victims, removed_vcpus)"
| "choose_victims cfg surplus_vcpus (m # ms) victims removed_vcpus =
     (if surplus_vcpus \<le> removed_vcpus then Inr (victims, removed_vcpus)
      else bind_result (py_get m ''machine_id'') (\<lambda>iid.
        if \<not> truthy iid then choose_victims cfg surplus_vcpus ms victims removed_vcpus
        else bind_result (vcpus_of cfg m) (\<lambda>n.
          choose_victims cfg surplus_vcpus ms (victims @ [iid]) (removed_vcpus + n))))"

definition scale_down ::
  "'w capacity_env \<Rightarrow> capacity_config \<Rightarrow> pyval list \<Rightarrow> int \<Rightarrow> int \<Rightarrow> string set option \<Rightarrow> ('w, pyval list) io" where
  "scale_down env cfg active current_vcpus desired_vcpus busy =
     (let surplus_vcpus = current_vcpus - desired_vcpus in
      if surplus_vcpus \<le> 0 then io_return []
      else case busy of
          None \<Rightarrow> io_return []
        | Some busy \<Rightarrow>
            io_bind (io_of (bind_result (victim_order busy active) (\<lambda>ms. choose_victims cfg surplus_vcpus ms [] 0)))
              (\<lambda>(victims, removed_vcpus).
              if victims \<noteq> [] then io_bind (cordon env victims) (\<lambda>_.
                io_return [action_of ''cordon'' victims [(''vcpus'', PInt removed_vcpus)]])
              else io_return []))"

section \<open>The handler\<close>

text \<open>A machine with its drain state, looked up by its id.\<close>

definition with_drain_state :: "(pyval \<times> drain_tags) list \<Rightarrow> pyval \<Rightarrow> exn + pyval" where
  "with_drain_state drain_state m = bind_result (py_get m ''machine_id'') (\<lambda>iid.
     bind_result (case iid of PList xs \<Rightarrow> Inl TypeError | PDict d \<Rightarrow> Inl TypeError | _ \<Rightarrow> Inr (map_of drain_state iid)) (\<lambda>st.
     bind_result (py_set m ''lifecycle'' (case st of None \<Rightarrow> PNone | Some t \<Rightarrow> tag_lifecycle t)) (\<lambda>m.
       py_set m ''drain_deadline'' (case st of None \<Rightarrow> PNone | Some t \<Rightarrow> tag_drain_deadline t))))"

definition is_draining :: "pyval \<Rightarrow> bool" where
  "is_draining m \<longleftrightarrow> py_get m ''lifecycle'' = Inr (PStr LIFECYCLE_DRAINING)"

definition desired_vcpus_of :: "capacity_config \<Rightarrow> int \<Rightarrow> int" where
  "desired_vcpus_of cfg backlog =
     (let desired_pairs = (if 0 < backlog then - ((- backlog) div TARGET_PER_PAIR cfg) else 0) in
      max (MIN_VCPUS cfg) (min (MAX_VCPUS cfg) (desired_pairs * PAIR_CPU cfg)))"

text \<open>What the tick observes: the machines with their drain state, and the time.\<close>

definition observe_machines :: "'w capacity_env \<Rightarrow> ('w, pyval list) io" where
  "observe_machines env =
     io_bind (list_live env) (\<lambda>machines.
     io_bind (io_of (py_iter machines)) (\<lambda>machines.
     io_bind (io_of (map_result (\<lambda>m. py_get m ''machine_id'') machines)) (\<lambda>ids.
     io_bind (read_drain_state env ids) (\<lambda>drain_state.
       io_of (map_result (with_drain_state drain_state) machines)))))"

definition tick_response :: "pyval list \<Rightarrow> nat \<Rightarrow> int \<Rightarrow> int \<Rightarrow> pyval" where
  "tick_response actions live desired_vcpus current_vcpus =
     PDict ([(''statusCode'', PInt 200),
        if actions = [] then (''action'', PStr ''noop'') else (''actions'', PList actions),
        (''live'', PInt (int live)), (''desired_vcpus'', PInt desired_vcpus), (''current_vcpus'', PInt current_vcpus)])"

definition reconcile ::
  "'w capacity_env \<Rightarrow> capacity_config \<Rightarrow> int \<Rightarrow> int \<Rightarrow> pyval list \<Rightarrow> ('w, pyval) io" where
  "reconcile env cfg now backlog machines =
     (let draining = filter is_draining machines; active = filter (\<lambda>m. \<not> is_draining m) machines;
          desired_vcpus = desired_vcpus_of cfg backlog in
      io_bind (io_of (map_result (vcpus_of cfg) active)) (\<lambda>vcpus.
      let current_vcpus = sum_list vcpus in
      io_bind (busy_instance_ids env) (\<lambda>busy.
      io_bind (sweep_draining env cfg draining (desired_vcpus - current_vcpus) busy now) (\<lambda>(deficit_vcpus, a1).
      io_bind (scale_up env deficit_vcpus) (\<lambda>a2.
      io_bind (scale_down env cfg active current_vcpus desired_vcpus busy) (\<lambda>a3.
        io_return (tick_response (a1 @ a2 @ a3) (length machines) desired_vcpus current_vcpus)))))))"

definition capacity_handler :: "'w capacity_env \<Rightarrow> capacity_config \<Rightarrow> ('w, pyval) io" where
  "capacity_handler env cfg =
     io_bind (time_now_sec (cap_host env)) (\<lambda>now.
     io_bind (read_backlog env) (\<lambda>backlog.
     io_bind (observe_machines env) (\<lambda>machines. reconcile env cfg now backlog machines)))"

end
