(* ===== verification/CapacityProps.thy ===== *)
theory CapacityProps
  imports CapacityController "HOL-Library.Multiset"
begin

text \<open>
  What a tick of the capacity controller does: the demand it computes, which machines it terminates, reclaims, adds or
  cordons, with the calls of EC2, SSM and the orchestrator by which it does so, and where the rules of the three stages work against each other.
\<close>

section \<open>Demand\<close>

definition config_ok :: "capacity_config \<Rightarrow> bool" where
  "config_ok cfg \<longleftrightarrow> 0 < PAIR_CPU cfg \<and> 0 < PAIR_MEMORY cfg \<and> 0 < TARGET_PER_PAIR cfg"

lemma config_of_ok: "config_ok (capacity_config_of a b c d e)"
  by (simp add: config_ok_def capacity_config_of_def max_def)

lemma ceiling_division:
  fixes b t :: int
  assumes "0 < t"
  shows "b \<le> - ((- b) div t) * t" and "(- ((- b) div t) - 1) * t < b"
proof -
  have e: "(- b) div t * t + (- b) mod t = - b" by (rule div_mult_mod_eq)
  have "0 \<le> (- b) mod t" "(- b) mod t < t" using assms by auto
  moreover have "- ((- b) div t) * t = - ((- b) div t * t)" by simp
  with e have "- ((- b) div t) * t = b + (- b) mod t" by linarith
  moreover have "(- ((- b) div t) - 1) * t = - ((- b) div t) * t - t" by (simp add: left_diff_distrib)
  ultimately show "b \<le> - ((- b) div t) * t" "(- ((- b) div t) - 1) * t < b" by linarith+
qed

definition pairs_needed :: "capacity_config \<Rightarrow> int \<Rightarrow> int" where
  "pairs_needed cfg backlog = (if 0 < backlog then - ((- backlog) div TARGET_PER_PAIR cfg) else 0)"

lemma desired_pairs: "desired_vcpus_of cfg backlog = max (MIN_VCPUS cfg) (min (MAX_VCPUS cfg) (pairs_needed cfg backlog * PAIR_CPU cfg))"
  by (simp add: desired_vcpus_of_def pairs_needed_def Let_def)

lemma pairs_needed_bounds:
  assumes "config_ok cfg" and "0 \<le> backlog"
  shows "backlog \<le> pairs_needed cfg backlog * TARGET_PER_PAIR cfg"
    and "(pairs_needed cfg backlog - 1) * TARGET_PER_PAIR cfg < backlog"
  using ceiling_division [of "TARGET_PER_PAIR cfg" backlog] assms by (auto simp: pairs_needed_def config_ok_def)

lemma pairs_needed_mono:
  assumes "config_ok cfg" and "0 \<le> b" and "b \<le> b'"
  shows "pairs_needed cfg b \<le> pairs_needed cfg b'"
proof -
  have "(pairs_needed cfg b - 1) * TARGET_PER_PAIR cfg < pairs_needed cfg b' * TARGET_PER_PAIR cfg"
    using pairs_needed_bounds(2) [OF assms(1,2)] pairs_needed_bounds(1) [OF assms(1), of b'] assms by linarith
  moreover have "0 < TARGET_PER_PAIR cfg" using assms(1) by (simp add: config_ok_def)
  ultimately have "pairs_needed cfg b - 1 < pairs_needed cfg b'" by (simp add: mult_less_cancel_right)
  then show ?thesis by simp
qed

text \<open>C18. The demand lies between the bounds and grows with the backlog.  Unless the upper bound cuts it, it gives one pair of
  \<open>PAIR_CPU\<close> virtual CPUs to every \<open>TARGET_PER_PAIR\<close> waiting tasks; unless the lower bound raises it, a pair less would not
  be enough.\<close>

theorem demand_covers_backlog:
  assumes "cfg = capacity_config_of pair_cpu pair_memory min_vcpus max_vcpus target" and "0 \<le> backlog"
  shows "min_vcpus \<le> desired_vcpus_of cfg backlog \<and> desired_vcpus_of cfg backlog \<le> max min_vcpus max_vcpus \<and>
     (\<forall>more. backlog \<le> more \<longrightarrow> desired_vcpus_of cfg backlog \<le> desired_vcpus_of cfg more) \<and>
     (desired_vcpus_of cfg backlog < max_vcpus \<longrightarrow>
        backlog * PAIR_CPU cfg \<le> desired_vcpus_of cfg backlog * TARGET_PER_PAIR cfg) \<and>
     (min_vcpus < desired_vcpus_of cfg backlog \<longrightarrow>
        (desired_vcpus_of cfg backlog - PAIR_CPU cfg) * TARGET_PER_PAIR cfg < backlog * PAIR_CPU cfg)"
proof (intro conjI allI impI)
  have cfg: "config_ok cfg" "MIN_VCPUS cfg = min_vcpus" "MAX_VCPUS cfg = max_vcpus" "0 < PAIR_CPU cfg" "0 < TARGET_PER_PAIR cfg"
    by (simp_all add: assms(1) config_of_ok) (simp_all add: capacity_config_of_def)
  let ?p = "pairs_needed cfg backlog"
  show "min_vcpus \<le> desired_vcpus_of cfg backlog" "desired_vcpus_of cfg backlog \<le> max min_vcpus max_vcpus"
    by (auto simp: desired_pairs cfg(2,3))
  show "desired_vcpus_of cfg backlog \<le> desired_vcpus_of cfg more" if "backlog \<le> more" for more
  proof -
    have "?p * PAIR_CPU cfg \<le> pairs_needed cfg more * PAIR_CPU cfg"
      using pairs_needed_mono [OF cfg(1) assms(2) that] cfg(4) by simp
    then show ?thesis by (auto simp: desired_pairs)
  qed
  show "backlog * PAIR_CPU cfg \<le> desired_vcpus_of cfg backlog * TARGET_PER_PAIR cfg"
    if "desired_vcpus_of cfg backlog < max_vcpus"
  proof -
    have "?p * PAIR_CPU cfg \<le> desired_vcpus_of cfg backlog" using that by (auto simp: desired_pairs cfg(2,3))
    then have "?p * PAIR_CPU cfg * TARGET_PER_PAIR cfg \<le> desired_vcpus_of cfg backlog * TARGET_PER_PAIR cfg"
      using cfg(5) by simp
    moreover have "backlog * PAIR_CPU cfg \<le> ?p * TARGET_PER_PAIR cfg * PAIR_CPU cfg"
      using pairs_needed_bounds(1) [OF cfg(1) assms(2)] cfg(4) by simp
    ultimately show ?thesis by (simp add: mult_ac)
  qed
  show "(desired_vcpus_of cfg backlog - PAIR_CPU cfg) * TARGET_PER_PAIR cfg < backlog * PAIR_CPU cfg"
    if "min_vcpus < desired_vcpus_of cfg backlog"
  proof -
    have "desired_vcpus_of cfg backlog - PAIR_CPU cfg \<le> (?p - 1) * PAIR_CPU cfg"
      using that by (auto simp: desired_pairs cfg(2,3) algebra_simps)
    then have "(desired_vcpus_of cfg backlog - PAIR_CPU cfg) * TARGET_PER_PAIR cfg \<le> (?p - 1) * PAIR_CPU cfg * TARGET_PER_PAIR cfg"
      using cfg(5) by simp
    moreover have "(?p - 1) * TARGET_PER_PAIR cfg * PAIR_CPU cfg < backlog * PAIR_CPU cfg"
      using pairs_needed_bounds(2) [OF cfg(1) assms(2)] cfg(4) by simp
    ultimately show ?thesis by (simp add: mult_ac)
  qed
qed

theorem demand_covers_backlog_witness:
  "desired_vcpus_of (capacity_config_of 2 2048 0 64 4) 9 = 6 \<and> (9 :: int) * 2 \<le> 6 * 4"
proof -
  have d: "desired_vcpus_of (capacity_config_of 2 2048 0 64 4) 9 = 6" by code_simp
  have "0 \<le> (9 :: int)" by simp
  from demand_covers_backlog [OF refl this, of 2 2048 0 64 4] d show ?thesis by (simp add: capacity_config_of_def)
qed

section \<open>Machines and their order\<close>

text \<open>The id and the virtual CPUs of a machine, and the machines that have an id.\<close>

definition machine_id_of :: "pyval \<Rightarrow> pyval" where
  "machine_id_of m = (case py_get m ''machine_id'' of Inr v \<Rightarrow> v | Inl e \<Rightarrow> PNone)"

definition vcpus :: "capacity_config \<Rightarrow> pyval \<Rightarrow> int" where
  "vcpus cfg m = (case vcpus_of cfg m of Inr n \<Rightarrow> n | Inl e \<Rightarrow> 0)"

definition total_vcpus :: "capacity_config \<Rightarrow> pyval list \<Rightarrow> int" where
  "total_vcpus cfg ms = sum_list (map (vcpus cfg) ms)"

definition named :: "pyval list \<Rightarrow> pyval list" where
  "named ms = filter (\<lambda>m. truthy (machine_id_of m)) ms"

lemma total_vcpus_simps [simp]:
  "total_vcpus cfg [] = 0" "total_vcpus cfg (m # ms) = vcpus cfg m + total_vcpus cfg ms"
  "total_vcpus cfg (xs @ ys) = total_vcpus cfg xs + total_vcpus cfg ys"
  by (simp_all add: total_vcpus_def)

lemma named_simps [simp]:
  "named [] = []" "named (m # ms) = (if truthy (machine_id_of m) then m # named ms else named ms)"
  "named (xs @ ys) = named xs @ named ys"
  by (simp_all add: named_def)

lemma vcpus_by_memory_pos: "config_ok cfg \<Longrightarrow> vcpus_by_memory cfg m = Inr n \<Longrightarrow> 0 < n"
  by (auto simp: vcpus_by_memory_def bind_result_Inr config_ok_def max_def split: option.splits if_splits)

lemma vcpus_of_pos: "config_ok cfg \<Longrightarrow> vcpus_of cfg m = Inr n \<Longrightarrow> 0 < n"
  by (auto simp: vcpus_of_def bind_result_Inr split: option.splits if_splits dest: vcpus_by_memory_pos)

lemma vcpus_nonneg: "config_ok cfg \<Longrightarrow> 0 \<le> vcpus cfg m"
  by (auto simp: vcpus_def split: sum.splits dest: vcpus_of_pos)

lemma total_vcpus_nonneg: "config_ok cfg \<Longrightarrow> 0 \<le> total_vcpus cfg ms"
  by (induction ms) (simp_all add: vcpus_nonneg)

lemma total_vcpus_mset: "mset xs = mset ys \<Longrightarrow> total_vcpus cfg xs = total_vcpus cfg ys"
  unfolding total_vcpus_def by (metis mset_map sum_mset_sum_list)

lemma map_result_vcpus: "map_result (vcpus_of cfg) ms = Inr ns \<Longrightarrow> ns = map (vcpus cfg) ms"
  by (induction ms arbitrary: ns) (auto simp: bind_result_Inr vcpus_def)

lemma mset_sort_by_key: "length keys = length ms \<Longrightarrow> mset (map snd (sort_key fst (zip keys ms))) = mset ms"
proof -
  assume l: "length keys = length ms"
  have "mset (map snd (sort_key fst (zip keys ms))) = image_mset snd (mset (zip keys ms))" by simp
  also have "\<dots> = mset (map snd (zip keys ms))" by (simp only: mset_map)
  also have "\<dots> = mset ms" using l by simp
  finally show ?thesis .
qed

lemma sort_by_age_mset: "sort_by_age ms = Inr ys \<Longrightarrow> mset ys = mset ms"
  by (auto simp: sort_by_age_def bind_result_Inr map_result_Inr list_all2_lengthD mset_sort_by_key
      simp del: mset_map split: if_splits)

lemma sort_group_mset: "sort_group ms = Inr ys \<Longrightarrow> mset ys = mset ms"
  by (auto simp: sort_group_def bind_result_Inr sort_by_age_mset split: if_splits)

lemma sort_by_age_set: "sort_by_age ms = Inr ys \<Longrightarrow> set ys = set ms"
  using sort_by_age_mset mset_eq_setD by blast

text \<open>The order is by age: the oldest first.\<close>

definition by_age :: "pyval list \<Rightarrow> bool" where
  "by_age ms \<longleftrightarrow> sorted_wrt (\<lambda>m m'. \<exists>a b. bind_result (machine_age_key m) age_key_of = Inr a \<and>
     bind_result (machine_age_key m') age_key_of = Inr b \<and> a \<le> b) ms"

lemma sort_by_age_sorted:
  assumes "sort_by_age ms = Inr ys"
  shows "by_age ys"
proof (cases "length ms \<le> 1")
  case True
  with assms have "ys = ms" by (auto simp: sort_by_age_def bind_result_Inr)
  with True show ?thesis by (cases ms) (auto simp: by_age_def)
next
  case False
  with assms obtain ages keys where ages: "map_result machine_age_key ms = Inr ages" "map_result age_key_of ages = Inr keys"
    and ys: "ys = map snd (sort_key fst (zip keys ms))"
    by (auto simp: sort_by_age_def bind_result_Inr split: if_splits)
  have l: "length keys = length ms" using ages by (auto simp: map_result_Inr dest!: list_all2_lengthD)
  have key: "bind_result (machine_age_key m) age_key_of = Inr k" if "(k, m) \<in> set (zip keys ms)" for k m
    using that ages by (auto simp: map_result_Inr list_all2_conv_all_nth in_set_zip)
  have "sorted_wrt (\<lambda>p q. fst p \<le> fst q) (sort_key fst (zip keys ms))"
    using sorted_sort_key [of fst "zip keys ms"] by (simp add: sorted_map)
  then have "sorted_wrt (\<lambda>p q. \<exists>a b. bind_result (machine_age_key (snd p)) age_key_of = Inr a \<and>
      bind_result (machine_age_key (snd q)) age_key_of = Inr b \<and> a \<le> b) (sort_key fst (zip keys ms))"
    by (rule sorted_wrt_mono_rel [rotated]) (metis key set_sort prod.collapse)
  then show ?thesis by (simp add: by_age_def ys sorted_wrt_map)
qed

section \<open>The sweep\<close>

text \<open>A machine that may be terminated: it is known not to be busy, or its deadline has passed.\<close>

definition may_terminate :: "string set option \<Rightarrow> int \<Rightarrow> pyval \<Rightarrow> bool" where
  "may_terminate busy now m \<longleftrightarrow>
     (\<exists>b. busy = Some b \<and> in_busy (machine_id_of m) b = Inr False) \<or>
     (\<exists>raw d. py_get m ''drain_deadline'' = Inr raw \<and> raw \<noteq> PNone \<and> py_int raw = Inr d \<and> d \<le> now)"

definition known_busy :: "string set option \<Rightarrow> pyval \<Rightarrow> bool" where
  "known_busy busy m \<longleftrightarrow> (\<exists>b. busy = Some b \<and> in_busy (machine_id_of m) b = Inr True)"

lemma sweep_verdict_cases:
  assumes "sweep_verdict_of cfg busy now m (machine_id_of m) deficit = Inr verdict"
  obtains n where "verdict = Reclaim n" "0 < deficit" "vcpus cfg m = n" "vcpus_of cfg m = Inr n"
    | "verdict = Terminate" "deficit \<le> 0" "may_terminate busy now m"
    | "verdict = ResendStop" "deficit \<le> 0" "known_busy busy m" "\<not> may_terminate busy now m"
    | "verdict = Leave" "deficit \<le> 0" "\<not> known_busy busy m" "\<not> may_terminate busy now m"
proof (cases "0 < deficit")
  case True
  with assms that(1) show thesis by (auto simp: sweep_verdict_of_def bind_result_Inr vcpus_def)
next
  case False
  with assms obtain raw passed is_busy where v: "py_get m ''drain_deadline'' = Inr raw"
    "deadline_passed now raw = Inr passed"
    "(case busy of None \<Rightarrow> Inr False | Some b \<Rightarrow> in_busy (machine_id_of m) b) = Inr is_busy"
    "verdict = (if busy \<noteq> None \<and> \<not> is_busy \<or> passed then Terminate else if is_busy then ResendStop else Leave)"
    by (auto simp: sweep_verdict_of_def bind_result_Inr Let_def)
  have late: "may_terminate busy now m \<longleftrightarrow> passed \<or> busy \<noteq> None \<and> \<not> is_busy"
    using v(1-3) by (auto simp: deadline_passed_def may_terminate_def bind_result_Inr split: if_splits option.splits)
  have known: "known_busy busy m \<longleftrightarrow> is_busy" using v(3) by (auto simp: known_busy_def split: option.splits)
  show thesis
    using that(2-4) v(3,4) False by (cases passed; cases is_busy) (auto simp: late known split: option.splits)
qed

text \<open>What is decided for every machine that was not reclaimed.\<close>

definition decided :: "string set option \<Rightarrow> int \<Rightarrow> pyval list \<Rightarrow> pyval list \<Rightarrow> pyval list \<Rightarrow> pyval list \<Rightarrow> bool" where
  "decided busy now ms R T S \<longleftrightarrow> (\<forall>m \<in> set ms. m \<in> set R \<or>
     (if may_terminate busy now m then m \<in> set T else known_busy busy m \<longrightarrow> m \<in> set S))"

lemma decided_simps [simp]: "decided busy now [] R T S"
  "decided busy now (m # ms) R T S \<longleftrightarrow> (m \<in> set R \<or>
     (if may_terminate busy now m then m \<in> set T else known_busy busy m \<longrightarrow> m \<in> set S)) \<and> decided busy now ms R T S"
  by (simp_all add: decided_def)

lemma decided_more: "decided busy now ms R T S \<Longrightarrow> set R \<subseteq> set R' \<Longrightarrow> set T \<subseteq> set T' \<Longrightarrow> set S \<subseteq> set S' \<Longrightarrow>
   decided busy now ms R' T' S'"
  unfolding decided_def by (metis subsetD)

definition swept ::
  "capacity_config \<Rightarrow> string set option \<Rightarrow> int \<Rightarrow> pyval list \<Rightarrow> int \<Rightarrow> pyval list \<Rightarrow> pyval list \<Rightarrow> pyval list \<Rightarrow> bool" where
  "swept cfg busy now ms deficit R T S \<longleftrightarrow>
     mset R + mset T + mset S \<subseteq># mset (named ms) \<and>
     (\<forall>m \<in> set T. may_terminate busy now m) \<and> (\<forall>m \<in> set S. known_busy busy m \<and> \<not> may_terminate busy now m) \<and>
     decided busy now (named ms) R T S \<and>
     (deficit \<le> 0 \<longrightarrow> R = []) \<and> (R \<noteq> [] \<longrightarrow> 0 < deficit - total_vcpus cfg (butlast R)) \<and>
     (0 < deficit - total_vcpus cfg R \<longrightarrow> R = named ms \<and> T = [] \<and> S = [])"

lemma swept_skip: "\<not> truthy (machine_id_of m) \<Longrightarrow> swept cfg busy now ms d R T S \<Longrightarrow> swept cfg busy now (m # ms) d R T S"
  by (simp add: swept_def)

lemma swept_reclaim:
  assumes "truthy (machine_id_of m)" and "0 < d" and "swept cfg busy now ms (d - vcpus cfg m) R T S"
  shows "swept cfg busy now (m # ms) d (m # R) T S"
  using assms by (cases "R = []") (auto simp: swept_def add.assoc elim!: decided_more)

lemma swept_other:
  assumes "truthy (machine_id_of m)" and "d \<le> 0" and "swept cfg busy now ms d R T S"
  shows "may_terminate busy now m \<Longrightarrow> swept cfg busy now (m # ms) d R (m # T) S"
    and "known_busy busy m \<Longrightarrow> \<not> may_terminate busy now m \<Longrightarrow> swept cfg busy now (m # ms) d R T (m # S)"
    and "\<not> known_busy busy m \<Longrightarrow> \<not> may_terminate busy now m \<Longrightarrow> swept cfg busy now (m # ms) d R T S"
proof -
  have "R = []" using assms(2,3) by (simp add: swept_def)
  moreover have "mset ms1 \<subseteq># mset ms2 \<Longrightarrow> mset ms1 \<subseteq># add_mset x (mset ms2)" for ms1 ms2 and x :: pyval
    by (metis subset_mset.order_trans mset_subset_eq_add_left add_mset_add_single)
  ultimately show "may_terminate busy now m \<Longrightarrow> swept cfg busy now (m # ms) d R (m # T) S"
    "known_busy busy m \<Longrightarrow> \<not> may_terminate busy now m \<Longrightarrow> swept cfg busy now (m # ms) d R T (m # S)"
    "\<not> known_busy busy m \<Longrightarrow> \<not> may_terminate busy now m \<Longrightarrow> swept cfg busy now (m # ms) d R T S"
    using assms by (auto simp: swept_def simp flip: mset_append elim!: decided_more)
qed

lemma sweep_loop_Inr:
  assumes "sweep_loop cfg busy now ms plan = Inr plan'"
  shows "\<exists>R T S. swept cfg busy now ms (deficit_left plan) R T S \<and>
     to_uncordon plan' = to_uncordon plan @ map machine_id_of R \<and>
     to_terminate plan' = to_terminate plan @ map machine_id_of T \<and>
     to_resend_stop plan' = to_resend_stop plan @ map machine_id_of S \<and>
     deficit_left plan' = deficit_left plan - total_vcpus cfg R"
  using assms
proof (induction ms arbitrary: plan)
  case Nil
  then show ?case by (intro exI [of _ "[]"]) (simp add: swept_def)
next
  case (Cons m ms)
  from Cons.prems obtain iid where iid: "py_get m ''machine_id'' = Inr iid" by (auto simp: bind_result_Inr)
  then have id: "machine_id_of m = iid" by (simp add: machine_id_of_def)
  show ?case
  proof (cases "truthy iid")
    case False
    with Cons.IH [of plan] Cons.prems iid id swept_skip show ?thesis by fastforce
  next
    case True
    with Cons.prems iid obtain verdict where v: "sweep_verdict_of cfg busy now m iid (deficit_left plan) = Inr verdict"
      and rest: "sweep_loop cfg busy now ms (add_verdict iid verdict plan) = Inr plan'"
      by (auto simp: bind_result_Inr)
    from Cons.IH [OF rest] obtain R T S where
      s: "swept cfg busy now ms (deficit_left (add_verdict iid verdict plan)) R T S" and
      ids: "to_uncordon plan' = to_uncordon (add_verdict iid verdict plan) @ map machine_id_of R"
        "to_terminate plan' = to_terminate (add_verdict iid verdict plan) @ map machine_id_of T"
        "to_resend_stop plan' = to_resend_stop (add_verdict iid verdict plan) @ map machine_id_of S"
        "deficit_left plan' = deficit_left (add_verdict iid verdict plan) - total_vcpus cfg R" by blast
    have named: "truthy (machine_id_of m)" using True id by simp
    from v [folded id] show ?thesis
    proof (cases rule: sweep_verdict_cases)
      case (1 n)
      with s swept_reclaim [OF named, of "deficit_left plan" cfg busy now ms R T S]
      have "swept cfg busy now (m # ms) (deficit_left plan) (m # R) T S" by (simp add: add_verdict_def)
      then show ?thesis by (intro exI [of _ "m # R"] exI [of _ T] exI [of _ S]) (simp add: ids 1 id add_verdict_def)
    next
      case 2
      with s swept_other(1) [OF named 2(2)] have "swept cfg busy now (m # ms) (deficit_left plan) R (m # T) S"
        by (simp add: add_verdict_def)
      then show ?thesis by (intro exI [of _ R] exI [of _ "m # T"] exI [of _ S]) (simp add: ids 2 id add_verdict_def)
    next
      case 3
      with s swept_other(2) [OF named 3(2) _ 3(3,4)] have "swept cfg busy now (m # ms) (deficit_left plan) R T (m # S)"
        by (simp add: add_verdict_def)
      then show ?thesis by (intro exI [of _ R] exI [of _ T] exI [of _ "m # S"]) (simp add: ids 3 id add_verdict_def)
    next
      case 4
      with s swept_other(3) [OF named 4(2) _ 4(3,4)] have "swept cfg busy now (m # ms) (deficit_left plan) R T S"
        by (simp add: add_verdict_def)
      then show ?thesis by (intro exI [of _ R] exI [of _ T] exI [of _ S]) (simp add: ids 4 id add_verdict_def)
    qed
  qed
qed

section \<open>The victims\<close>

definition oldest_first :: "pyval list \<Rightarrow> bool" where
  "oldest_first ms \<longleftrightarrow> by_age ms \<or> (\<exists>a. \<forall>m \<in> set ms. machine_age_key m = Inr a)"

lemma sort_group_oldest: "sort_group ms = Inr ys \<Longrightarrow> oldest_first ys"
proof -
  assume s: "sort_group ms = Inr ys"
  then obtain ages where ages: "map_result machine_age_key ms = Inr ages" by (auto simp: sort_group_def bind_result_Inr)
  show ?thesis
  proof (cases "list_all (\<lambda>a. a = hd ages) ages")
    case True
    then have "\<forall>m \<in> set ms. machine_age_key m = Inr (hd ages)"
      using ages by (auto simp: map_result_Inr list_all2_conv_all_nth list_all_length in_set_conv_nth)
    moreover have "ys = ms" using s ages True by (simp add: sort_group_def)
    ultimately show ?thesis by (auto simp: oldest_first_def)
  next
    case False
    with s ages have "sort_by_age ms = Inr ys" by (simp add: sort_group_def)
    then show ?thesis by (simp add: oldest_first_def sort_by_age_sorted)
  qed
qed

lemma choose_victims_Inr:
  assumes "choose_victims cfg surplus ms victims removed = Inr (victims', removed')"
  shows "\<exists>pre post. ms = pre @ post \<and> victims' = victims @ map machine_id_of (named pre) \<and>
     removed' = removed + total_vcpus cfg (named pre) \<and> (post = [] \<or> surplus \<le> removed') \<and>
     (pre \<noteq> [] \<longrightarrow> removed + total_vcpus cfg (named (butlast pre)) < surplus)"
  using assms
proof (induction ms arbitrary: victims removed)
  case (Cons m ms)
  show ?case
  proof (cases "surplus \<le> removed")
    case True
    with Cons.prems show ?thesis by (intro exI [of _ "[]"] exI [of _ "m # ms"]) simp
  next
    case False
    with Cons.prems obtain iid where iid: "py_get m ''machine_id'' = Inr iid" by (auto simp: bind_result_Inr)
    then have id: "machine_id_of m = iid" by (simp add: machine_id_of_def)
    obtain victims1 removed1 where one: "choose_victims cfg surplus ms victims1 removed1 = Inr (victims', removed')"
      "victims1 = victims @ map machine_id_of (named [m])" "removed1 = removed + total_vcpus cfg (named [m])"
      using Cons.prems False iid id by (cases "truthy iid") (auto simp: bind_result_Inr vcpus_def)
    from Cons.IH [OF one(1)] obtain pre post where "ms = pre @ post"
      "victims' = victims1 @ map machine_id_of (named pre)" "removed' = removed1 + total_vcpus cfg (named pre)"
      "post = [] \<or> surplus \<le> removed'" "pre \<noteq> [] \<longrightarrow> removed1 + total_vcpus cfg (named (butlast pre)) < surplus" by blast
    with False show ?thesis
      by (intro exI [of _ "m # pre"] exI [of _ post]) (auto simp: one(2,3))
  qed
qed simp

definition victims_of :: "capacity_config \<Rightarrow> string set \<Rightarrow> pyval list \<Rightarrow> int \<Rightarrow> pyval list \<Rightarrow> bool" where
  "victims_of cfg busy active surplus V \<longleftrightarrow> (\<exists>idle working pre post.
     mset (idle @ working) = mset active \<and> oldest_first idle \<and> oldest_first working \<and>
     (\<forall>m \<in> set idle. \<not> known_busy (Some busy) m) \<and>
     (\<forall>m \<in> set working. truthy (machine_id_of m) \<longrightarrow> known_busy (Some busy) m) \<and>
     idle @ working = pre @ post \<and> V = named pre \<and> (post = [] \<or> surplus \<le> total_vcpus cfg V) \<and>
     (pre \<noteq> [] \<longrightarrow> total_vcpus cfg (named (butlast pre)) < surplus))"

lemma default_id:
  "py_get_default m ''machine_id'' (PStr []) = Inr iid \<Longrightarrow>
     iid = machine_id_of m \<or> iid = PStr [] \<and> machine_id_of m = PNone"
  by (cases m) (auto simp: py_get_default_def machine_id_of_def split: option.splits)

lemma flags_split:
  "length flags = length ms \<Longrightarrow> mset (map snd (filter (\<lambda>(f, m). \<not> f) (zip flags ms)) @ map snd (filter fst (zip flags ms))) = mset ms"
proof (induction flags ms rule: list_induct2)
  case (Cons f fs m ms)
  then show ?case by (cases f) auto
qed simp

lemma victim_order_Inr:
  assumes "victim_order busy active = Inr ms"
  obtains idle working where "ms = idle @ working" "mset (idle @ working) = mset active" "oldest_first idle" "oldest_first working"
    "\<forall>m \<in> set idle. \<not> known_busy (Some busy) m"
    "\<forall>m \<in> set working. truthy (machine_id_of m) \<longrightarrow> known_busy (Some busy) m"
proof -
  from assms obtain flags idle working where
    flags: "map_result (\<lambda>m. bind_result (py_get_default m ''machine_id'' (PStr [])) (\<lambda>iid. in_busy iid busy)) active = Inr flags"
    and idle: "sort_group (map snd (filter (\<lambda>(f, m). \<not> f) (zip flags active))) = Inr idle"
    and working: "sort_group (map snd (filter fst (zip flags active))) = Inr working" and ms: "ms = idle @ working"
    by (auto simp: victim_order_def bind_result_Inr)
  have l: "length flags = length active" using flags by (auto simp: map_result_Inr dest: list_all2_lengthD)
  have flag: "bind_result (py_get_default m ''machine_id'' (PStr [])) (\<lambda>iid. in_busy iid busy) = Inr f"
    if "(f, m) \<in> set (zip flags active)" for f m
    using that flags by (auto simp: map_result_Inr list_all2_conv_all_nth in_set_zip)
  have sets: "m \<in> set idle \<Longrightarrow> (False, m) \<in> set (zip flags active)" "m \<in> set working \<Longrightarrow> (True, m) \<in> set (zip flags active)" for m
    unfolding mset_eq_setD [OF sort_group_mset [OF idle]] mset_eq_setD [OF sort_group_mset [OF working]] by auto
  have "mset (idle @ working) = mset active"
    using sort_group_mset [OF idle] sort_group_mset [OF working] flags_split [OF l] by simp
  moreover have "\<not> known_busy (Some busy) m" if "m \<in> set idle" for m
    using flag [OF sets(1) [OF that]] by (auto simp: known_busy_def bind_result_Inr in_busy_def py_in_def dest!: default_id)
  moreover have "known_busy (Some busy) m" if "m \<in> set working" "truthy (machine_id_of m)" for m
    using flag [OF sets(2) [OF that(1)]] that(2) by (auto simp: known_busy_def bind_result_Inr dest!: default_id)
  ultimately show thesis using that [of idle working] ms sort_group_oldest [OF idle] sort_group_oldest [OF working] by blast
qed

section \<open>A tick\<close>

definition draining_of :: "pyval list \<Rightarrow> pyval list" where
  "draining_of machines = filter is_draining machines"

definition active_of :: "pyval list \<Rightarrow> pyval list" where
  "active_of machines = filter (\<lambda>m. \<not> is_draining m) machines"

definition deficit_of :: "capacity_config \<Rightarrow> int \<Rightarrow> pyval list \<Rightarrow> int" where
  "deficit_of cfg backlog machines = desired_vcpus_of cfg backlog - total_vcpus cfg (active_of machines)"

text \<open>The actions a tick reports: machines \<open>R\<close> reclaimed, \<open>S\<close> stopped again, \<open>T\<close> terminated, \<open>n\<close> virtual CPUs asked for, \<open>V\<close>
  cordoned.\<close>

definition tick_actions ::
  "capacity_config \<Rightarrow> pyval list \<Rightarrow> pyval list \<Rightarrow> pyval list \<Rightarrow> pyval \<Rightarrow> int \<Rightarrow> pyval \<Rightarrow> pyval list \<Rightarrow> pyval list" where
  "tick_actions cfg R S T orb n orb' V =
     (if R = [] then [] else [action_of ''uncordon'' (map machine_id_of R) []]) @
     (if S = [] then [] else [action_of ''resend_stop'' (map machine_id_of S) []]) @
     (if T = [] then [] else [action_of ''terminate'' (map machine_id_of T) [(''orb'', orb)]]) @
     (if n \<le> 0 then [] else [PDict [(''action'', PStr ''create''), (''vcpus'', PInt n), (''orb'', orb')]]) @
     (if V = [] then [] else [action_of ''cordon'' (map machine_id_of V) [(''vcpus'', PInt (total_vcpus cfg V))]])"

definition tick_of ::
  "capacity_config \<Rightarrow> int \<Rightarrow> int \<Rightarrow> pyval list \<Rightarrow> string set option \<Rightarrow> pyval list \<Rightarrow> pyval list \<Rightarrow> pyval list \<Rightarrow> int \<Rightarrow> pyval list \<Rightarrow> bool" where
  "tick_of cfg now backlog machines busy R S T n V \<longleftrightarrow>
     (\<exists>ds. mset ds = mset (draining_of machines) \<and> by_age ds \<and>
        swept cfg busy now ds (deficit_of cfg backlog machines) R T S) \<and>
     n = deficit_of cfg backlog machines - total_vcpus cfg R \<and>
     (V = [] \<or> deficit_of cfg backlog machines < 0 \<and> busy \<noteq> None) \<and>
     (\<forall>b. busy = Some b \<and> deficit_of cfg backlog machines < 0 \<longrightarrow>
        victims_of cfg b (active_of machines) (- deficit_of cfg backlog machines) V)"

text \<open>
  The calls of the services behind these actions, with the worlds before and after: a reclaimed machine has its workers
  started and its drain tags deleted, a machine that is stopped again gets the stop command, ORB gets one request for what is to
  be terminated and one for what is missing, and a cordoned machine gets the tags with its deadline and the stop command.  An
  error of SSM is ignored.
\<close>

definition commanded :: "'w capacity_env \<Rightarrow> pyval list \<Rightarrow> string \<Rightarrow> 'w \<Rightarrow> 'w" where
  "commanded env ids command w = (if ids = [] then w else snd (ssm_send_command env ids command w))"

definition reclaimed :: "'w capacity_env \<Rightarrow> pyval list \<Rightarrow> 'w \<Rightarrow> 'w \<Rightarrow> bool" where
  "reclaimed env ids w w' \<longleftrightarrow> (if ids = [] then w' = w else
     ec2_delete_tags env ids [''htc:lifecycle'', ''htc:drain_deadline'']
       (commanded env ids ''docker compose -p htc-workers start'' w) = (Inr (), w'))"

definition requested :: "'w capacity_env \<Rightarrow> pyval \<Rightarrow> 'w \<Rightarrow> 'w \<Rightarrow> bool" where
  "requested env event w w' \<longleftrightarrow> (\<exists>answer. lambda_invoke env (utf8_encode (json_dumps event)) w = (Inr answer, w'))"

definition cordoned :: "'w capacity_env \<Rightarrow> pyval list \<Rightarrow> 'w \<Rightarrow> 'w \<Rightarrow> bool" where
  "cordoned env ids w w' \<longleftrightarrow> (if ids = [] then w' = w else \<exists>now u t. time_now_sec (cap_host env) w = Some (Inr now, u) \<and>
     ec2_create_tags env ids [(''htc:lifecycle'', ''draining''), (''htc:drain_deadline'', str_of_int (now + DRAIN_DEADLINE_SEC env))] u =
       (Inr (), t) \<and>
     w' = commanded env ids ''docker compose -p htc-workers stop'' t)"

definition tick_calls ::
  "'w capacity_env \<Rightarrow> pyval list \<Rightarrow> pyval list \<Rightarrow> pyval list \<Rightarrow> int \<Rightarrow> pyval list \<Rightarrow> 'w \<Rightarrow> 'w \<Rightarrow> bool" where
  "tick_calls env R S T n V w w' \<longleftrightarrow> (\<exists>w1 w2 w3.
     reclaimed env R w w1 \<and>
     (let stopped = commanded env S ''docker compose -p htc-workers stop'' w1 in
      if T = [] then w2 = stopped
      else requested env (PDict [(''action'', PStr ''terminate''), (''machine_ids'', PList T)]) stopped w2) \<and>
     (if n \<le> 0 then w3 = w2
      else requested env (PDict [(''action'', PStr ''create''), (''template_id'', PStr (TEMPLATE_ID env)), (''count'', PInt n)]) w2 w3) \<and>
     cordoned env V w3 w')"

lemma filter_truthy_id: "list_all truthy ids \<Longrightarrow> filter truthy ids = ids"
  by (simp add: filter_id_conv list_all_iff)

lemma send_command_commanded:
  "list_all truthy ids \<Longrightarrow> send_compose_command env ids c w = Some (r, w') \<Longrightarrow> w' = commanded env ids c w"
  by (cases "ssm_send_command env ids c w")
    (auto simp: send_compose_command_def filter_truthy_id commanded_def io_catch_apply io_bind_apply Let_def
      split: sum.splits if_splits)

lemma uncordon_reclaimed:
  "list_all truthy ids \<Longrightarrow> uncordon env ids w = Some (Inr r, w') \<Longrightarrow> reclaimed env ids w w'"
  by (auto simp: uncordon_def filter_truthy_id reclaimed_def io_bind_Inr io_then_Inr TAG_LIFECYCLE_def TAG_DRAIN_DEADLINE_def
      COMPOSE_START_CMD_def Let_def split: if_splits dest!: send_command_commanded)

lemma cordon_cordoned:
  assumes "list_all truthy ids" and "cordon env ids w = Some (Inr r, w')"
  shows "cordoned env ids w w'"
proof (cases "ids = []")
  case False
  with assms obtain now u t x where "time_now_sec (cap_host env) w = Some (Inr now, u)"
    "ec2_create_tags env ids [(TAG_LIFECYCLE, LIFECYCLE_DRAINING), (TAG_DRAIN_DEADLINE, str_of_int (now + DRAIN_DEADLINE_SEC env))] u =
      (Inr (), t)" and sent: "send_compose_command env ids COMPOSE_STOP_CMD t = Some (Inr x, w')"
    by (auto simp: cordon_def filter_truthy_id io_bind_Inr io_then_Inr Let_def)
  with send_command_commanded [OF assms(1) sent] False show ?thesis
    by (auto simp: cordoned_def TAG_LIFECYCLE_def TAG_DRAIN_DEADLINE_def LIFECYCLE_DRAINING_def COMPOSE_STOP_CMD_def)
qed (use assms in \<open>simp add: cordon_def cordoned_def\<close>)

lemma orb_invoke_requested: "orb_invoke env event w = Some (Inr r, w') \<Longrightarrow> requested env event w w'"
  by (auto simp: orb_invoke_def requested_def io_bind_Inr)

lemma carry_out_Inr:
  assumes "carry_out env plan w = Some (Inr actions, w')"
    and "list_all truthy (to_uncordon plan)" and "list_all truthy (to_resend_stop plan)"
  shows "(\<exists>orb. actions =
     (if to_uncordon plan = [] then [] else [action_of ''uncordon'' (to_uncordon plan) []]) @
     (if to_resend_stop plan = [] then [] else [action_of ''resend_stop'' (to_resend_stop plan) []]) @
     (if to_terminate plan = [] then [] else [action_of ''terminate'' (to_terminate plan) [(''orb'', orb)]])) \<and>
    (\<exists>w1. reclaimed env (to_uncordon plan) w w1 \<and>
     (let stopped = commanded env (to_resend_stop plan) ''docker compose -p htc-workers stop'' w1 in
      if to_terminate plan = [] then w' = stopped
      else requested env (PDict [(''action'', PStr ''terminate''), (''machine_ids'', PList (to_terminate plan))]) stopped w'))"
proof -
  from assms(1) obtain a1 w1 a2 w2 a3 where
    up: "(if to_uncordon plan \<noteq> [] then io_bind (uncordon env (to_uncordon plan)) (\<lambda>_. io_return [action_of ''uncordon'' (to_uncordon plan) []])
         else io_return []) w = Some (Inr a1, w1)" and
    again: "(if to_resend_stop plan \<noteq> [] then io_bind (resend_stop env (to_resend_stop plan)) (\<lambda>_.
           io_return [action_of ''resend_stop'' (to_resend_stop plan) []]) else io_return []) w1 = Some (Inr a2, w2)" and
    off: "(if to_terminate plan \<noteq> [] then io_bind (orb_terminate env (to_terminate plan)) (\<lambda>res.
           io_return [action_of ''terminate'' (to_terminate plan) [(''orb'', res)]]) else io_return []) w2 = Some (Inr a3, w')" and
    all: "actions = a1 @ a2 @ a3"
    by (auto simp: carry_out_def io_bind_Inr)
  have "reclaimed env (to_uncordon plan) w w1 \<and> a1 = (if to_uncordon plan = [] then [] else [action_of ''uncordon'' (to_uncordon plan) []])"
    using up by (auto simp: io_bind_Inr reclaimed_def dest!: uncordon_reclaimed [OF assms(2)] split: if_splits)
  moreover have "w2 = commanded env (to_resend_stop plan) ''docker compose -p htc-workers stop'' w1 \<and>
      a2 = (if to_resend_stop plan = [] then [] else [action_of ''resend_stop'' (to_resend_stop plan) []])"
    using again by (auto simp: io_bind_Inr resend_stop_def COMPOSE_STOP_CMD_def commanded_def
        dest!: send_command_commanded [OF assms(3)] split: if_splits)
  moreover have "(if to_terminate plan = [] then w' = w2
      else requested env (PDict [(''action'', PStr ''terminate''), (''machine_ids'', PList (to_terminate plan))]) w2 w') \<and>
      (\<exists>orb. a3 = (if to_terminate plan = [] then [] else [action_of ''terminate'' (to_terminate plan) [(''orb'', orb)]]))"
    using off by (auto simp: io_bind_Inr orb_terminate_def dest!: orb_invoke_requested split: if_splits)
  ultimately show ?thesis unfolding all Let_def by blast
qed

lemma scale_up_Inr:
  "scale_up env n w = Some (Inr actions, w') \<Longrightarrow> (\<exists>orb. actions =
     (if n \<le> 0 then [] else [PDict [(''action'', PStr ''create''), (''vcpus'', PInt n), (''orb'', orb)]])) \<and>
     (if n \<le> 0 then w' = w
      else requested env (PDict [(''action'', PStr ''create''), (''template_id'', PStr (TEMPLATE_ID env)), (''count'', PInt n)]) w w')"
  by (auto simp: scale_up_def orb_create_def io_bind_Inr dest!: orb_invoke_requested split: if_splits)

lemma named_truthy: "list_all truthy (map machine_id_of (named ms))"
  by (simp add: list_all_iff named_def)

lemma swept_truthy:
  assumes "swept cfg busy now ms d R T S"
  shows "list_all truthy (map machine_id_of R)" "list_all truthy (map machine_id_of S)"
proof -
  have "m \<in># mset (named ms)" if "m \<in># mset R + mset T + mset S" for m
    using assms that unfolding swept_def by (meson mset_subset_eqD)
  then show "list_all truthy (map machine_id_of R)" "list_all truthy (map machine_id_of S)"
    by (auto simp: list_all_iff named_def)
qed

lemma scale_down_Inr:
  assumes run: "scale_down env cfg active current desired busy w = Some (Inr actions, w')"
  shows "\<exists>V. (V = [] \<or> desired < current \<and> busy \<noteq> None) \<and>
     (\<forall>b. busy = Some b \<and> desired < current \<longrightarrow> victims_of cfg b active (current - desired) V) \<and>
     actions = (if V = [] then [] else
       [action_of ''cordon'' (map machine_id_of V) [(''vcpus'', PInt (total_vcpus cfg V))]]) \<and>
     cordoned env (map machine_id_of V) w w'"
proof (cases "desired < current \<and> busy \<noteq> None")
  case False
  with run show ?thesis by (intro exI [of _ "[]"]) (auto simp: scale_down_def cordoned_def Let_def split: if_splits option.splits)
next
  case True
  then obtain b where b: "busy = Some b" by auto
  from run True b obtain ms victims removed where ms: "victim_order b active = Inr ms"
    and chosen: "choose_victims cfg (current - desired) ms [] 0 = Inr (victims, removed)"
    and actions: "actions = (if victims = [] then [] else [action_of ''cordon'' victims [(''vcpus'', PInt removed)]])"
    and calls: "if victims = [] then w' = w else \<exists>x. cordon env victims w = Some (Inr x, w')"
    by (auto simp: scale_down_def io_bind_Inr bind_result_Inr split: if_splits)
  from victim_order_Inr [OF ms] obtain idle working where order: "ms = idle @ working" "mset (idle @ working) = mset active"
    "oldest_first idle" "oldest_first working" "\<forall>m \<in> set idle. \<not> known_busy (Some b) m"
    "\<forall>m \<in> set working. truthy (machine_id_of m) \<longrightarrow> known_busy (Some b) m" .
  from choose_victims_Inr [OF chosen] obtain pre post where pre: "ms = pre @ post" "victims = map machine_id_of (named pre)"
    "removed = total_vcpus cfg (named pre)" "post = [] \<or> current - desired \<le> removed"
    "pre \<noteq> [] \<longrightarrow> total_vcpus cfg (named (butlast pre)) < current - desired" by auto
  have "victims_of cfg b active (current - desired) (named pre)"
    unfolding victims_of_def
    by (intro exI [of _ idle] exI [of _ working] exI [of _ pre] exI [of _ post] conjI) (use order pre in simp_all)
  moreover have "cordoned env (map machine_id_of (named pre)) w w'"
    using calls cordon_cordoned [OF named_truthy, of env pre w _ w'] by (auto simp: pre(2) cordoned_def split: if_splits)
  ultimately show ?thesis by (intro exI [of _ "named pre"]) (use True b pre actions in auto)
qed

lemma reconcile_Inr:
  assumes "reconcile env cfg now backlog machines w = Some (Inr r, w')"
  shows "\<exists>busy w1 R S T orb n orb' V. busy_instance_ids env w = Some (Inr busy, w1) \<and>
     tick_of cfg now backlog machines busy R S T n V \<and>
     tick_calls env (map machine_id_of R) (map machine_id_of S) (map machine_id_of T) n (map machine_id_of V) w1 w' \<and>
     r = tick_response (tick_actions cfg R S T orb n orb' V) (length machines) (desired_vcpus_of cfg backlog)
       (total_vcpus cfg (active_of machines))"
proof -
  from assms obtain ns busy w1 deficit a1 w2 a2 w3 a3 where
    ns: "map_result (vcpus_of cfg) (active_of machines) = Inr ns" and busy: "busy_instance_ids env w = Some (Inr busy, w1)"
    and sweep: "sweep_draining env cfg (draining_of machines) (desired_vcpus_of cfg backlog - sum_list ns) busy now w1 =
      Some (Inr (deficit, a1), w2)"
    and up: "scale_up env deficit w2 = Some (Inr a2, w3)"
    and down: "scale_down env cfg (active_of machines) (sum_list ns) (desired_vcpus_of cfg backlog) busy w3 = Some (Inr a3, w')"
    and r: "r = tick_response (a1 @ a2 @ a3) (length machines) (desired_vcpus_of cfg backlog) (sum_list ns)"
    by (auto simp: reconcile_def Let_def io_bind_Inr draining_of_def active_of_def)
  have sum: "sum_list ns = total_vcpus cfg (active_of machines)"
    using map_result_vcpus [OF ns] by (simp add: total_vcpus_def)
  let ?d = "deficit_of cfg backlog machines"
  from sweep obtain ds plan where ds: "sort_by_age (draining_of machines) = Inr ds"
    and loop: "sweep_loop cfg busy now ds \<lparr>to_uncordon = [], to_terminate = [], to_resend_stop = [], deficit_left = ?d\<rparr> = Inr plan"
    and a1: "carry_out env plan w1 = Some (Inr a1, w2)" and left: "deficit = deficit_left plan"
    by (auto simp: sweep_draining_def io_bind_Inr bind_result_Inr sum deficit_of_def)
  from sweep_loop_Inr [OF loop] obtain R T S where s: "swept cfg busy now ds ?d R T S"
    "to_uncordon plan = map machine_id_of R" "to_terminate plan = map machine_id_of T"
    "to_resend_stop plan = map machine_id_of S" "deficit_left plan = ?d - total_vcpus cfg R" by auto
  from carry_out_Inr [OF a1, unfolded s(2-4) map_is_Nil_conv, OF swept_truthy [OF s(1)]] obtain orb w1' where a1: "a1 =
     (if R = [] then [] else [action_of ''uncordon'' (map machine_id_of R) []]) @
     (if S = [] then [] else [action_of ''resend_stop'' (map machine_id_of S) []]) @
     (if T = [] then [] else [action_of ''terminate'' (map machine_id_of T) [(''orb'', orb)]])"
    and c1: "reclaimed env (map machine_id_of R) w1 w1'"
      "let stopped = commanded env (map machine_id_of S) ''docker compose -p htc-workers stop'' w1' in
       if T = [] then w2 = stopped
       else requested env (PDict [(''action'', PStr ''terminate''), (''machine_ids'', PList (map machine_id_of T))]) stopped w2"
    by (elim conjE exE) (rule that)
  from scale_up_Inr [OF up] obtain orb' where a2: "a2 =
     (if deficit \<le> 0 then [] else [PDict [(''action'', PStr ''create''), (''vcpus'', PInt deficit), (''orb'', orb')]])"
    and c2: "if deficit \<le> 0 then w3 = w2
      else requested env (PDict [(''action'', PStr ''create''), (''template_id'', PStr (TEMPLATE_ID env)), (''count'', PInt deficit)]) w2 w3"
    by (elim conjE exE) (rule that)
  from scale_down_Inr [OF down] obtain V where V: "V = [] \<or> ?d < 0 \<and> busy \<noteq> None"
    "\<forall>b. busy = Some b \<and> ?d < 0 \<longrightarrow> victims_of cfg b (active_of machines) (- ?d) V"
    "a3 = (if V = [] then [] else [action_of ''cordon'' (map machine_id_of V) [(''vcpus'', PInt (total_vcpus cfg V))]])"
    and c3: "cordoned env (map machine_id_of V) w3 w'"
    by (auto simp: sum deficit_of_def)
  have "tick_of cfg now backlog machines busy R S T deficit V"
    unfolding tick_of_def using sort_by_age_mset [OF ds] sort_by_age_sorted [OF ds] s V left by auto
  moreover have "a1 @ a2 @ a3 = tick_actions cfg R S T orb deficit orb' V"
    by (simp add: a1 a2 V(3) tick_actions_def)
  moreover have "tick_calls env (map machine_id_of R) (map machine_id_of S) (map machine_id_of T) deficit (map machine_id_of V) w1 w'"
    unfolding tick_calls_def map_is_Nil_conv using c1 c2 c3 by blast
  ultimately show ?thesis using busy r sum by metis
qed

lemma named_set [simp]: "set (named ms) = {m \<in> set ms. truthy (machine_id_of m)}"
  by (simp add: named_def)

lemma named_mset: "mset xs = mset ys \<Longrightarrow> mset (named xs) = mset (named ys)"
  by (simp only: named_def mset_filter)

lemma total_named_butlast:
  assumes "config_ok cfg"
  shows "total_vcpus cfg (butlast (named ms)) \<le> total_vcpus cfg (named (butlast ms))"
proof (cases ms rule: rev_cases)
  case (snoc xs x)
  have "total_vcpus cfg (butlast ys) \<le> total_vcpus cfg ys" for ys
    by (cases ys rule: rev_cases) (simp_all add: vcpus_nonneg [OF assms])
  then show ?thesis by (simp add: snoc)
qed simp

lemma victims_active: "victims_of cfg b active surplus V \<Longrightarrow> m \<in> set V \<Longrightarrow> m \<in> set active"
  unfolding victims_of_def by (metis (no_types, lifting) Un_iff mset_eq_setD set_append named_set mem_Collect_eq)

lemma victims_idle_first:
  assumes "victims_of cfg b active surplus V" and "m \<in> set V" and "known_busy (Some b) m"
    and "m' \<in> set active" and "truthy (machine_id_of m')" and "\<not> known_busy (Some b) m'"
  shows "m' \<in> set V"
proof -
  from assms(1) obtain idle working pre post where v: "mset (idle @ working) = mset active" "idle @ working = pre @ post" "V = named pre"
    "\<forall>m \<in> set idle. \<not> known_busy (Some b) m"
    "\<forall>m \<in> set working. truthy (machine_id_of m) \<longrightarrow> known_busy (Some b) m"
    unfolding victims_of_def by blast
  from assms(4) v(1) have "m' \<in> set idle \<union> set working" by (metis mset_eq_setD set_append)
  with assms(5,6) v(5) have "m' \<in> set idle" by blast
  moreover have "set idle \<subseteq> set pre"
  proof -
    from v(2) consider us where "pre = idle @ us" | us where "idle = pre @ us"
      by (auto simp: append_eq_append_conv2)
    then show ?thesis
    proof cases
      case 2
      with assms(2,3) v(3,4) show ?thesis by auto
    qed auto
  qed
  ultimately show ?thesis using assms(5) by (auto simp: v(3))
qed

lemma victims_cover:
  assumes "victims_of cfg b active surplus V" and "config_ok cfg"
  shows "surplus \<le> total_vcpus cfg V \<or> mset V = mset (named active)"
    and "V \<noteq> [] \<Longrightarrow> total_vcpus cfg (butlast V) < surplus"
proof -
  from assms(1) obtain idle working pre post where v: "mset (idle @ working) = mset active" "idle @ working = pre @ post" "V = named pre"
    "post = [] \<or> surplus \<le> total_vcpus cfg V" "pre \<noteq> [] \<longrightarrow> total_vcpus cfg (named (butlast pre)) < surplus"
    unfolding victims_of_def by blast
  have "mset (named pre) = mset (named active)" if "post = []"
    by (rule named_mset) (use v(1,2) that in simp)
  with v(3,4) show "surplus \<le> total_vcpus cfg V \<or> mset V = mset (named active)" by auto
  show "total_vcpus cfg (butlast V) < surplus" if "V \<noteq> []"
    using v(3,5) that total_named_butlast [OF assms(2), of pre] by (cases pre) auto
qed

text \<open>C16. A tick spares the machines that work.  What it asks ORB to terminate are draining machines that are known not to be busy
  or are past their deadline; of the draining machines that it does not reclaim, all such machines are terminated, and the others that
  are known to be busy only get the stop command again.  What it tags as draining and sends the stop command are machines that are not
  draining, none at all when the state table is throttled, and a busy one only if every machine that is not busy is among them.  No
  machine is reclaimed, terminated and stopped again in one tick, and it reports what it did.\<close>

theorem tick_spares_working_machines:
  assumes "reconcile env cfg now backlog machines w = Some (Inr r, w')"
  shows "\<exists>busy w1 R S T orb n orb' V. busy_instance_ids env w = Some (Inr busy, w1) \<and>
     tick_calls env (map machine_id_of R) (map machine_id_of S) (map machine_id_of T) n (map machine_id_of V) w1 w' \<and>
     r = tick_response (tick_actions cfg R S T orb n orb' V) (length machines) (desired_vcpus_of cfg backlog)
       (total_vcpus cfg (active_of machines)) \<and>
     mset R + mset T + mset S \<subseteq># mset (draining_of machines) \<and>
     (\<forall>m \<in> set T. is_draining m \<and> may_terminate busy now m) \<and>
     (\<forall>m \<in> set S. known_busy busy m \<and> \<not> may_terminate busy now m) \<and>
     (\<forall>m \<in> set machines. is_draining m \<and> truthy (machine_id_of m) \<longrightarrow> m \<in> set R \<or>
        (if may_terminate busy now m then m \<in> set T else known_busy busy m \<longrightarrow> m \<in> set S)) \<and>
     (\<forall>m \<in> set V. m \<in> set machines \<and> \<not> is_draining m) \<and> (busy = None \<longrightarrow> V = []) \<and>
     (\<forall>m \<in> set V. known_busy busy m \<longrightarrow> (\<forall>m' \<in> set machines.
        \<not> is_draining m' \<and> truthy (machine_id_of m') \<and> \<not> known_busy busy m' \<longrightarrow> m' \<in> set V))"
proof -
  from reconcile_Inr [OF assms] obtain busy w1 R S T orb n orb' V where
    busy: "busy_instance_ids env w = Some (Inr busy, w1)" and t: "tick_of cfg now backlog machines busy R S T n V"
    and calls: "tick_calls env (map machine_id_of R) (map machine_id_of S) (map machine_id_of T) n (map machine_id_of V) w1 w'"
    and r: "r = tick_response (tick_actions cfg R S T orb n orb' V) (length machines) (desired_vcpus_of cfg backlog)
       (total_vcpus cfg (active_of machines))" by blast
  from t obtain ds where ds: "mset ds = mset (draining_of machines)"
    and s: "swept cfg busy now ds (deficit_of cfg backlog machines) R T S" unfolding tick_of_def by blast
  have sub: "mset R + mset T + mset S \<subseteq># mset (draining_of machines)"
    using s ds by (metis (no_types, lifting) named_def swept_def mset_filter multiset_filter_subset subset_mset.order_trans)
  have T: "is_draining m \<and> may_terminate busy now m" if "m \<in> set T" for m
  proof -
    have "m \<in># mset R + mset T + mset S" using that by simp
    with sub have "m \<in># mset (draining_of machines)" by (rule mset_subset_eqD)
    with s that show ?thesis by (simp add: draining_of_def swept_def)
  qed
  have V: "V = [] \<or> (\<exists>b. busy = Some b \<and> victims_of cfg b (active_of machines) (- deficit_of cfg backlog machines) V)"
    using t unfolding tick_of_def by blast
  have act: "m \<in> set (active_of machines) \<longleftrightarrow> m \<in> set machines \<and> \<not> is_draining m" for m
    by (auto simp: active_of_def)
  have "\<forall>m \<in> set V. m \<in> set machines \<and> \<not> is_draining m" using V victims_active act by fastforce
  moreover have "busy = None \<longrightarrow> V = []" using V by auto
  moreover have "\<forall>m \<in> set V. known_busy busy m \<longrightarrow> (\<forall>m' \<in> set machines.
      \<not> is_draining m' \<and> truthy (machine_id_of m') \<and> \<not> known_busy busy m' \<longrightarrow> m' \<in> set V)"
    using V victims_idle_first act by fastforce
  moreover have "\<forall>m \<in> set S. known_busy busy m \<and> \<not> may_terminate busy now m" using s by (simp add: swept_def)
  moreover have "\<forall>m \<in> set machines. is_draining m \<and> truthy (machine_id_of m) \<longrightarrow> m \<in> set R \<or>
      (if may_terminate busy now m then m \<in> set T else known_busy busy m \<longrightarrow> m \<in> set S)"
    using s mset_eq_setD [OF ds] by (auto simp: swept_def decided_def draining_of_def)
  ultimately show ?thesis using busy calls r sub T by blast
qed

text \<open>C17. A tick balances the capacity.  With a deficit it starts the workers of draining machines again and deletes their drain
  tags, for no more machines than needed, and asks ORB for exactly the rest of the deficit only if all of them are reclaimed; nothing is
  cordoned.  Without a deficit nothing is reclaimed or asked for.  With a surplus whose busy machines are known it cordons machines
  that cover the surplus, or all of them, and without the last one they would not cover it: the last one is cordoned whole, although
  the comment in the code wants a partial last instance to be left running.\<close>

theorem tick_balances_capacity:
  assumes "reconcile env cfg now backlog machines w = Some (Inr r, w')" and cfg: "config_ok cfg"
  shows "\<exists>busy w1 R S T orb n orb' V d. busy_instance_ids env w = Some (Inr busy, w1) \<and>
     tick_calls env (map machine_id_of R) (map machine_id_of S) (map machine_id_of T) n (map machine_id_of V) w1 w' \<and>
     r = tick_response (tick_actions cfg R S T orb n orb' V) (length machines) (desired_vcpus_of cfg backlog)
       (total_vcpus cfg (active_of machines)) \<and>
     d = desired_vcpus_of cfg backlog - total_vcpus cfg (active_of machines) \<and>
     (0 < d \<longrightarrow> V = [] \<and> d \<le> total_vcpus cfg R + max 0 n \<and> (R \<noteq> [] \<longrightarrow> total_vcpus cfg (butlast R) < d) \<and>
        (0 < n \<longrightarrow> total_vcpus cfg R + n = d \<and> mset R = mset (named (draining_of machines)))) \<and>
     (d \<le> 0 \<longrightarrow> R = [] \<and> n \<le> 0) \<and>
     (d < 0 \<and> busy \<noteq> None \<longrightarrow>
        (- d \<le> total_vcpus cfg V \<or> mset V = mset (named (active_of machines))) \<and>
        (V \<noteq> [] \<longrightarrow> total_vcpus cfg (butlast V) < - d))"
proof -
  from reconcile_Inr [OF assms(1)] obtain busy w1 R S T orb n orb' V where
    busy: "busy_instance_ids env w = Some (Inr busy, w1)" and t: "tick_of cfg now backlog machines busy R S T n V"
    and calls: "tick_calls env (map machine_id_of R) (map machine_id_of S) (map machine_id_of T) n (map machine_id_of V) w1 w'"
    and r: "r = tick_response (tick_actions cfg R S T orb n orb' V) (length machines) (desired_vcpus_of cfg backlog)
       (total_vcpus cfg (active_of machines))" by blast
  let ?d = "deficit_of cfg backlog machines"
  from t obtain ds where ds: "mset ds = mset (draining_of machines)" and s: "swept cfg busy now ds ?d R T S"
    unfolding tick_of_def by blast
  have n: "n = ?d - total_vcpus cfg R" and none: "V = [] \<or> ?d < 0 \<and> busy \<noteq> None" using t by (simp_all add: tick_of_def)
  have "mset (named ds) = mset (named (draining_of machines))" using ds by (rule named_mset)
  then have up: "0 < ?d \<longrightarrow> V = [] \<and> ?d \<le> total_vcpus cfg R + max 0 n \<and> (R \<noteq> [] \<longrightarrow> total_vcpus cfg (butlast R) < ?d) \<and>
      (0 < n \<longrightarrow> total_vcpus cfg R + n = ?d \<and> mset R = mset (named (draining_of machines)))"
    using none n s by (auto simp: swept_def)
  have flat: "?d \<le> 0 \<longrightarrow> R = [] \<and> n \<le> 0" using s n by (auto simp: swept_def)
  have victims: "victims_of cfg b (active_of machines) (- ?d) V" if "busy = Some b" "?d < 0" for b
    using t that by (simp add: tick_of_def)
  have down: "?d < 0 \<and> busy \<noteq> None \<longrightarrow>
      (- ?d \<le> total_vcpus cfg V \<or> mset V = mset (named (active_of machines))) \<and> (V \<noteq> [] \<longrightarrow> total_vcpus cfg (butlast V) < - ?d)"
    using victims_cover [OF victims cfg] by auto
  show ?thesis
    by (intro exI [of _ busy] exI [of _ w1] exI [of _ R] exI [of _ S] exI [of _ T] exI [of _ orb] exI [of _ n]
        exI [of _ orb'] exI [of _ V] exI [of _ ?d] conjI [OF busy] conjI [OF calls] conjI [OF r] conjI [OF deficit_of_def]
        conjI [OF up] conjI [OF flat] down)
qed

section \<open>Where the stages work against each other\<close>

lemma drain_state_kept:
  assumes "with_drain_state st m = Inr m'" and "k \<noteq> ''lifecycle''" and "k \<noteq> ''drain_deadline''"
  shows "py_get m' k = py_get m k"
proof -
  from assms(1) obtain m1 a b where "py_set m ''lifecycle'' a = Inr m1" "py_set m1 ''drain_deadline'' b = Inr m'"
    by (auto simp: with_drain_state_def bind_result_Inr)
  with assms(2,3) show ?thesis
    by (auto simp: py_set_def dict_get_def update_conv' split: pyval.splits)
qed

lemma drain_state_vcpus:
  assumes "with_drain_state st m = Inr m'"
  shows "vcpus_of cfg m' = vcpus_of cfg m" "machine_id_of m' = machine_id_of m"
  using drain_state_kept [OF assms]
  by (simp_all add: vcpus_of_def vcpus_by_memory_def machine_field_int_def machine_id_of_def cong: if_cong option.case_cong)

lemma drain_state_lifecycle:
  assumes "with_drain_state [(iid, t)] m = Inr m'" and "py_get m ''machine_id'' = Inr iid"
  shows "py_get m' ''lifecycle'' = Inr (tag_lifecycle t)"
proof -
  from assms obtain m1 b where "py_set m ''lifecycle'' (tag_lifecycle t) = Inr m1" "py_set m1 ''drain_deadline'' b = Inr m'"
    by (auto simp: with_drain_state_def bind_result_Inr split: pyval.splits)
  then show ?thesis by (auto simp: py_set_def dict_get_def update_conv' split: pyval.splits)
qed

lemma tick_one_active:
  assumes t: "tick_of cfg now backlog [m] (Some b) R S T n V" and "\<not> is_draining m" and "truthy (machine_id_of m)"
    and "desired_vcpus_of cfg backlog < vcpus cfg m"
  shows "R = [] \<and> S = [] \<and> T = [] \<and> n \<le> 0 \<and> V = [m]"
proof -
  let ?d = "deficit_of cfg backlog [m]"
  have d: "?d = desired_vcpus_of cfg backlog - vcpus cfg m" "active_of [m] = [m]" "draining_of [m] = []"
    using assms(2) by (simp_all add: deficit_of_def active_of_def draining_of_def)
  from t d(3) have s: "swept cfg now' busy [] x R T S \<Longrightarrow> R = [] \<and> S = [] \<and> T = []" for now' busy x by (simp add: swept_def)
  from t have "swept cfg (Some b) now [] ?d R T S" by (simp add: tick_of_def d(3))
  then have none: "R = []" "S = []" "T = []" "n \<le> 0" using t d(1) assms(4) by (auto simp: swept_def tick_of_def)
  have "victims_of cfg b [m] (- ?d) V" using t d assms(4) by (simp add: tick_of_def)
  then obtain pre post where v: "pre @ post = [m]" "V = named pre" "post = [] \<or> - ?d \<le> total_vcpus cfg V"
    unfolding victims_of_def by (metis append_Nil2 mset_single_iff mset_single_iff_right)
  have "pre \<noteq> []" using v d(1) assms(4) by auto
  with v(1) have "pre = [m]" by (cases pre) auto
  with v(2) assms(3) none show ?thesis by simp
qed

lemma tick_one_draining:
  assumes t: "tick_of cfg now backlog [m] busy R S T n V" and "is_draining m" and "truthy (machine_id_of m)"
    and "0 < desired_vcpus_of cfg backlog" and "desired_vcpus_of cfg backlog < vcpus cfg m"
  shows "R = [m] \<and> S = [] \<and> T = [] \<and> n \<le> 0 \<and> V = []"
proof -
  let ?d = "deficit_of cfg backlog [m]"
  have d: "?d = desired_vcpus_of cfg backlog" "draining_of [m] = [m]"
    using assms(2) by (simp_all add: deficit_of_def active_of_def draining_of_def)
  from t d obtain ds where "mset ds = mset [m]" and s: "swept cfg busy now ds ?d R T S" by (auto simp: tick_of_def)
  then have ds: "ds = [m]" by simp
  have "R \<noteq> []" using s assms(3,4) d(1) by (auto simp: swept_def ds)
  then obtain x R' where R: "R = x # R'" by (cases R) auto
  from s have sub: "mset R + mset T + mset S \<subseteq># {#m#}" using assms(3) by (simp add: swept_def ds)
  from size_mset_mono [OF this] R have "R' = []" "T = []" "S = []" by auto
  moreover from this sub R have "x = m" by simp
  ultimately show ?thesis using t d assms(4,5) R by (auto simp: tick_of_def)
qed

text \<open>The rules for a surplus and for a deficit undo each other.  If the only machine has more virtual CPUs than are
  demanded, but some are, a tick cordons it; the next tick, with the same backlog, reclaims it, and so on: the grid keeps one
  machine that is stopped and started in turns.\<close>

theorem oversized_machine_flaps:
  assumes m: "vcpus_of cfg m = Inr n" "py_get m ''machine_id'' = Inr (PStr i)" "i \<noteq> []" "\<not> is_draining m"
    and demand: "0 < desired_vcpus_of cfg backlog" "desired_vcpus_of cfg backlog < n"
    and busy: "busy_instance_ids env w = Some (Inr (Some b), w0)"
    and tick: "reconcile env cfg now backlog [m] w = Some (Inr r, w1)"
    and tags: "with_drain_state [(PStr i, \<lparr>tag_lifecycle = PStr LIFECYCLE_DRAINING, tag_drain_deadline = dl\<rparr>)] m = Inr m'"
    and next_tick: "reconcile env cfg later backlog [m'] w2 = Some (Inr r', w3)"
  shows "r = tick_response [action_of ''cordon'' [PStr i] [(''vcpus'', PInt n)]] 1 (desired_vcpus_of cfg backlog) n \<and>
     r' = tick_response [action_of ''uncordon'' [PStr i] []] 1 (desired_vcpus_of cfg backlog) 0"
proof
  have id: "machine_id_of m = PStr i" "vcpus cfg m = n" using m by (simp_all add: machine_id_of_def vcpus_def)
  note kept = drain_state_vcpus [OF tags]
  have id': "machine_id_of m' = PStr i" "vcpus cfg m' = n" "is_draining m'"
    using kept id drain_state_lifecycle [OF tags m(2)] by (simp_all add: vcpus_def is_draining_def)
  from reconcile_Inr [OF tick] busy obtain R S T orb k orb' V where t: "tick_of cfg now backlog [m] (Some b) R S T k V"
    and r: "r = tick_response (tick_actions cfg R S T orb k orb' V) 1 (desired_vcpus_of cfg backlog) (total_vcpus cfg (active_of [m]))"
    by auto
  have "R = [] \<and> S = [] \<and> T = [] \<and> k \<le> 0 \<and> V = [m]"
    by (rule tick_one_active [OF t m(4)]) (use id m(3) demand(2) in simp_all)
  with r id m(4) show "r = tick_response [action_of ''cordon'' [PStr i] [(''vcpus'', PInt n)]] 1 (desired_vcpus_of cfg backlog) n"
    by (simp add: tick_actions_def active_of_def)
  from reconcile_Inr [OF next_tick] obtain busy' R S T orb k orb' V where t: "tick_of cfg later backlog [m'] busy' R S T k V"
    and r: "r' = tick_response (tick_actions cfg R S T orb k orb' V) 1 (desired_vcpus_of cfg backlog) (total_vcpus cfg (active_of [m']))"
    by auto
  have "R = [m'] \<and> S = [] \<and> T = [] \<and> k \<le> 0 \<and> V = []"
    by (rule tick_one_draining [OF t id'(3)]) (use id' m(3) demand in simp_all)
  with r id' show "r' = tick_response [action_of ''uncordon'' [PStr i] []] 1 (desired_vcpus_of cfg backlog) 0"
    by (simp add: tick_actions_def active_of_def)
qed

definition status_payload :: string where
  "status_payload = utf8_encode (json_dumps (PDict [(''action'', PStr ''status'')]))"

lemma failed_status_empty:
  assumes "\<And>u. fst (lambda_invoke env status_payload u) = Inr resp" and "resp \<noteq> []"
    and "bind_result (utf8_decode resp) json_loads = Inr (PDict d)" and "map_of d ''body'' = None"
    and "observe_machines env w = Some (r, w')"
  shows "r = Inr []"
proof -
  have "orb_invoke env (PDict [(''action'', PStr ''status'')]) u = Some (Inr (PDict d), snd (lambda_invoke env status_payload u))" for u
    unfolding orb_invoke_def status_payload_def [symmetric] using assms(1) [of u] assms(2,3)
    by (cases "lambda_invoke env status_payload u") (simp add: io_bind_apply)
  then have "list_live env u = Some (Inr (PList []), snd (lambda_invoke env status_payload u))" for u
    using assms(4) by (simp add: list_live_def io_bind_apply py_get_default_def dict_get_def)
  with assms(5) show ?thesis
    by (simp add: observe_machines_def io_bind_apply py_iter_def read_drain_state_def)
qed

text \<open>If ORB's answer to the status request is an error (its handler answers without a body), the controller takes it for
  an empty fleet: it reports no machine and asks for the whole demand, whatever is running, and so in every tick until the
  status can be read again.\<close>

theorem failed_status_counts_as_empty_fleet:
  assumes status: "\<And>u. fst (lambda_invoke env status_payload u) = Inr resp" "resp \<noteq> []"
    "bind_result (utf8_decode resp) json_loads = Inr (PDict d)" "map_of d ''body'' = None"
    and run: "capacity_handler env cfg w = Some (Inr r, w')" and "0 \<le> MIN_VCPUS cfg"
  shows "\<exists>backlog w1 w2 orb. read_backlog env w1 = Some (Inr backlog, w2) \<and>
     r = tick_response (if desired_vcpus_of cfg backlog = 0 then [] else
         [PDict [(''action'', PStr ''create''), (''vcpus'', PInt (desired_vcpus_of cfg backlog)), (''orb'', orb)]])
       0 (desired_vcpus_of cfg backlog) 0"
proof -
  from run obtain now backlog machines w1 w2 w3 where b: "read_backlog env w1 = Some (Inr backlog, w2)"
    and obs: "observe_machines env w2 = Some (Inr machines, w3)"
    and rec: "reconcile env cfg now backlog machines w3 = Some (Inr r, w')"
    by (auto simp: capacity_handler_def io_bind_Inr)
  from failed_status_empty [OF status obs] have none: "machines = []" by simp
  from reconcile_Inr [OF rec] none obtain busy R S T orb n orb' V where t: "tick_of cfg now backlog [] busy R S T n V"
    and r: "r = tick_response (tick_actions cfg R S T orb n orb' V) 0 (desired_vcpus_of cfg backlog) 0"
    by (auto simp: active_of_def)
  have d: "deficit_of cfg backlog [] = desired_vcpus_of cfg backlog" "0 \<le> desired_vcpus_of cfg backlog"
    using assms(6) by (auto simp: deficit_of_def active_of_def desired_pairs)
  from t d have "R = [] \<and> S = [] \<and> T = [] \<and> V = [] \<and> n = desired_vcpus_of cfg backlog"
    by (auto simp: tick_of_def swept_def draining_of_def)
  with b r d(2) show ?thesis by (auto simp: tick_actions_def)
qed

section \<open>The busy set\<close>

lemma instance_of_owner:
  assumes "CHR ''p'' \<notin> set i"
  shows "split_first ''-pair-'' (i @ ''-pair-'' @ n) = i"
proof (rule split_first_before)
  fix j assume j: "j < length i"
  define owner where "owner = i @ ''-pair-'' @ n"
  show "\<not> str_startswith (drop j (i @ ''-pair-'' @ n)) ''-pair-''"
    unfolding owner_def [symmetric]
  proof
    assume "str_startswith (drop j owner) ''-pair-''"
    then have "take (length ''-pair-'') (drop j owner) ! 1 = CHR ''p''" unfolding str_startswith_def by simp
    moreover have "length i + 6 \<le> length owner" by (simp add: owner_def)
    ultimately have p: "owner ! Suc j = CHR ''p''" using j by simp
    show False
    proof (cases "Suc j < length i")
      case True
      with p have "i ! Suc j = CHR ''p''" by (simp add: owner_def nth_append)
      with assms nth_mem [OF True] show False by simp
    next
      case False
      with j have "Suc j = length i" by simp
      with p show False by (simp add: owner_def nth_append)
    qed
  qed
qed simp

lemma io_mapM_Inr:
  "io_mapM f xs s = Some (Inr ys, t) \<Longrightarrow> length ys = length xs \<and> (\<forall>i < length xs. \<exists>u u'. f (xs ! i) u = Some (Inr (ys ! i), u'))"
proof (induction xs arbitrary: s ys)
  case (Cons x xs)
  then obtain y u ys' where one: "f x s = Some (Inr y, u)" "io_mapM f xs u = Some (Inr ys', t)" "ys = y # ys'"
    by (auto simp: io_bind_Inr)
  from Cons.IH [OF one(2)] one(1,3) show ?case by (auto simp: nth_Cons split: nat.splits)
qed simp

text \<open>The busy set is exact.  It is complete: every partition of the state table is read, and if a live task is owned by an
  agent \<open><instance id>-pair-<n>\<close>, the instance is in it; and every instance in it owns a live task that was read.\<close>

theorem busy_set_exact:
  assumes run: "busy_instance_ids env w = Some (Inr (Some b), w')"
  shows "(\<forall>p < MAX_STATE_PARTITIONS. \<exists>u rows u'.
       get_live_tasks_for_partition (cap_db env) (cap_host env) p u = Some (Inr rows, u') \<and>
       (\<forall>row \<in> set rows. \<forall>i n. row ''task_owner'' = Some (PStr (i @ ''-pair-'' @ n)) \<and> i \<noteq> [] \<and> i \<noteq> ''None'' \<and>
          CHR ''p'' \<notin> set i \<longrightarrow> i \<in> b)) \<and>
     (\<forall>i \<in> b. \<exists>p < MAX_STATE_PARTITIONS. \<exists>u rows u' row.
       get_live_tasks_for_partition (cap_db env) (cap_host env) p u = Some (Inr rows, u') \<and> row \<in> set rows \<and>
       busy_instance row = Inr (Some i))"
proof -
  have handler: "(case e of StateTableException t c \<Rightarrow> if t then io_return None else io_raise e | _ \<Rightarrow> io_raise e) u \<noteq>
      Some (Inr (Some b), w')" for e and u :: 'a
    by (cases e) auto
  from run obtain s u0 u1 idss where all: "io_mapM (busy_in_partition env) (partitions_from s) u0 = Some (Inr idss, u1)"
    and b: "b = set (concat idss)"
    unfolding busy_instance_ids_def io_catch_Some by (auto simp: handler io_bind_Inr)
  have parts: "set (partitions_from s) = {0..<MAX_STATE_PARTITIONS}" using partitions_from_permutation [of s] by simp
  note each = io_mapM_Inr [OF all]
  have part: "\<exists>u rows u' ids. get_live_tasks_for_partition (cap_db env) (cap_host env) (partitions_from s ! k) u = Some (Inr rows, u') \<and>
      map_result busy_instance rows = Inr ids \<and> idss ! k = List.map_filter id ids" if k: "k < length idss" for k
  proof -
    obtain u u' where "busy_in_partition env (partitions_from s ! k) u = Some (Inr (idss ! k), u')" using each k by auto
    then show ?thesis by (fastforce simp: busy_in_partition_def io_bind_Inr)
  qed
  have read_row: "i \<in> set (List.map_filter id ids)"
    if "map_result busy_instance rows = Inr ids" "row \<in> set rows" "busy_instance row = Inr (Some i)" for rows ids row i
  proof -
    from that(2) obtain k where k: "k < length rows" "rows ! k = row" by (auto simp: in_set_conv_nth)
    with that(1) have "busy_instance row = Inr (ids ! k)" "k < length ids"
      by (auto simp: map_result_Inr list_all2_conv_all_nth)
    with that(3) have "Some i \<in> set ids" by (auto simp: in_set_conv_nth)
    then show ?thesis by (force simp: map_filter_def)
  qed
  show ?thesis
  proof (intro conjI allI ballI impI)
    fix p assume "p < MAX_STATE_PARTITIONS"
    with parts obtain k where k: "k < length idss" "partitions_from s ! k = p"
      using each by (metis atLeastLessThan_iff in_set_conv_nth zero_le)
    from part [OF k(1)] k(2) obtain u rows u' ids where rows:
      "get_live_tasks_for_partition (cap_db env) (cap_host env) p u = Some (Inr rows, u')"
      "map_result busy_instance rows = Inr ids" "idss ! k = List.map_filter id ids" by blast
    have "i \<in> b" if row: "row \<in> set rows" "row ''task_owner'' = Some (PStr (i @ ''-pair-'' @ n))" "i \<noteq> []" "i \<noteq> ''None''"
      "CHR ''p'' \<notin> set i" for row i n
    proof -
      have "busy_instance row = Inr (Some i)"
        using row(2-4) instance_of_owner [OF row(5), of n] by (simp add: busy_instance_def py_or_def)
      from read_row [OF rows(2) row(1) this] rows(3) have "i \<in> set (idss ! k)" by simp
      then show ?thesis using nth_mem [OF k(1)] by (auto simp: b)
    qed
    with rows(1) show "\<exists>u rows u'. get_live_tasks_for_partition (cap_db env) (cap_host env) p u = Some (Inr rows, u') \<and>
       (\<forall>row \<in> set rows. \<forall>i n. row ''task_owner'' = Some (PStr (i @ ''-pair-'' @ n)) \<and> i \<noteq> [] \<and> i \<noteq> ''None'' \<and>
          CHR ''p'' \<notin> set i \<longrightarrow> i \<in> b)" by blast
  next
    fix i assume "i \<in> b"
    then obtain k where k: "k < length idss" "i \<in> set (idss ! k)" unfolding b by (metis UN_E in_set_conv_nth set_concat)
    from part [OF k(1)] obtain u rows u' ids where rows:
      "get_live_tasks_for_partition (cap_db env) (cap_host env) (partitions_from s ! k) u = Some (Inr rows, u')"
      "map_result busy_instance rows = Inr ids" "idss ! k = List.map_filter id ids" by blast
    from k(2) rows(3) have "Some i \<in> set ids" by (auto simp: map_filter_def)
    then obtain j where j: "j < length ids" "ids ! j = Some i" by (auto simp: in_set_conv_nth)
    with rows(2) have "j < length rows" "busy_instance (rows ! j) = Inr (Some i)"
      by (auto simp: map_result_Inr list_all2_conv_all_nth)
    then obtain row where "row \<in> set rows" "busy_instance row = Inr (Some i)" using nth_mem by blast
    moreover have "partitions_from s ! k < MAX_STATE_PARTITIONS"
      using parts each k(1) by (metis atLeastLessThan_iff nth_mem)
    ultimately show "\<exists>p < MAX_STATE_PARTITIONS. \<exists>u rows u' row.
       get_live_tasks_for_partition (cap_db env) (cap_host env) p u = Some (Inr rows, u') \<and> row \<in> set rows \<and>
       busy_instance row = Inr (Some i)" using rows(1) by blast
  qed
qed

end
