(* ===== verification/OrchestratorProps.thy ===== *)
theory OrchestratorProps
  imports Orchestrator CapacityProps
begin

text \<open>
  Properties of the ORB orchestrator, and of the capacity controller that talks to it: what a status request syncs and
  lists, which machines can be terminated, and what the controller's requests become on the other side.
\<close>

section \<open>What a status request syncs and lists\<close>

definition field :: "pyval \<Rightarrow> string \<Rightarrow> pyval" where
  "field r k = (case r of PDict d \<Rightarrow> (case map_of d k of None \<Rightarrow> PNone | Some v \<Rightarrow> v) | _ \<Rightarrow> PNone)"

definition is_dict :: "pyval \<Rightarrow> bool" where
  "is_dict v \<longleftrightarrow> (\<exists>d. v = PDict d)"

lemma is_dict_code [simp, code]: "is_dict (PDict d)" "\<not> is_dict PNone" "\<not> is_dict (PBool b)" "\<not> is_dict (PInt i)"
  "\<not> is_dict (PStr s)" "\<not> is_dict (PList xs)"
  by (simp_all add: is_dict_def)

lemma py_get_field: "py_get r k = (if is_dict r then Inr (field r k) else Inl AttributeError)"
  by (cases r) (auto simp: field_def dict_get_def)

definition hashable :: "pyval \<Rightarrow> bool" where
  "hashable v \<longleftrightarrow> \<not> is_dict v \<and> (\<forall>xs. v \<noteq> PList xs)"

text \<open>A machine is live unless its status is one of the three terminal ones.\<close>

definition is_live :: "pyval \<Rightarrow> bool" where
  "is_live m \<longleftrightarrow> (\<forall>s \<in> TERMINAL_MACHINE_STATES. field m ''status'' \<noteq> PStr s)"

definition well_formed_machines :: "pyval list \<Rightarrow> bool" where
  "well_formed_machines ms \<longleftrightarrow> (\<forall>m \<in> set ms. is_dict m \<and> hashable (field m ''status''))"

lemma machine_state_known:
  "bind_result (py_get m ''status'') (\<lambda>st. py_in st TERMINAL_MACHINE_STATES) = Inr b \<longleftrightarrow>
     is_dict m \<and> hashable (field m ''status'') \<and> b = (\<not> is_live m)"
  by (cases "field m ''status''") (auto simp: py_get_field py_in_def hashable_def is_live_def)

lemma live_machines_Inr: "live_machines ms = Inr ls \<longleftrightarrow> well_formed_machines ms \<and> ls = filter is_live ms"
  by (induction ms arbitrary: ls)
    (auto simp: well_formed_machines_def bind_result_Inr machine_state_known [unfolded bind_result_Inr] split: if_splits)

text \<open>
  A request is synced if it has an id and its status, or else its state, is not a final one.  An answer of another shape
  syncs nothing.
\<close>

definition request_state :: "pyval \<Rightarrow> pyval" where
  "request_state r = (if truthy (field r ''status'') then field r ''status''
     else if truthy (field r ''state'') then field r ''state'' else PStr [])"

definition is_final :: "pyval \<Rightarrow> bool" where
  "is_final r \<longleftrightarrow> (case request_state r of PStr s \<Rightarrow> map lower_char s \<in> TERMINAL_REQUEST_STATES | _ \<Rightarrow> False)"

definition requests_to_sync :: "exn + pyval \<Rightarrow> pyval list" where
  "requests_to_sync answer =
     (case bind_result answer (\<lambda>listed. bind_result (py_get_default listed ''requests'' (PList [])) py_iter) of
        Inl e \<Rightarrow> []
      | Inr rs \<Rightarrow> if list_all is_dict rs
          then map (\<lambda>r. field r ''request_id'') (filter (\<lambda>r. truthy (field r ''request_id'') \<and> \<not> is_final r) rs) else [])"

definition synced :: "'w orb_env \<Rightarrow> pyval list \<Rightarrow> 'w \<Rightarrow> 'w" where
  "synced env ids w = fold (\<lambda>i w. snd (get_request_status env [i] w)) ids w"

lemma request_is_terminal_iff: "is_dict r \<Longrightarrow> request_is_terminal r = Inr (is_final r)"
  by (simp add: request_is_terminal_def py_get_field is_final_def request_state_def Let_def)

lemma requests_with_id_iff:
  "requests_with_id rs = (if list_all is_dict rs then Inr (filter (\<lambda>r. truthy (field r ''request_id'')) rs) else Inl AttributeError)"
  by (induction rs) (simp_all add: py_get_field)

lemma open_request_ids_iff:
  "\<forall>r \<in> set rs. is_dict r \<and> truthy (field r ''request_id'') \<Longrightarrow>
     open_request_ids rs = Inr (map (\<lambda>r. field r ''request_id'') (filter (\<lambda>r. \<not> is_final r) rs))"
proof (induction rs)
  case (Cons r rs)
  have "py_index r ''request_id'' = Inr (field r ''request_id'')"
    using Cons.prems by (cases r) (auto simp: field_def dict_get_def split: option.splits)
  with Cons show ?case by (simp add: request_is_terminal_iff)
qed simp

lemma sync_request_apply: "sync_request env i w = Some (Inr (), snd (get_request_status env [i] w))"
  by (cases "get_request_status env [i] w") (simp add: sync_request_def io_catch_apply io_bind_apply split: sum.splits)

lemma sync_all: "io_foreach ids (sync_request env) w = Some (Inr (), synced env ids w)"
  by (induction ids arbitrary: w) (simp_all add: io_then_apply sync_request_apply synced_def)

lemma reconcile_requests_effect:
  "reconcile_requests env w = Some (Inr (), synced env (requests_to_sync (fst (list_requests env w))) (snd (list_requests env w)))"
proof -
  obtain a u where a: "list_requests env w = (a, u)" by fastforce
  define rs where "rs = bind_result a (\<lambda>listed. bind_result (py_get_default listed ''requests'' (PList [])) py_iter)"
  define ids where "ids = (\<lambda>xs. filter (\<lambda>r. truthy (field r ''request_id'')) xs)"
  have ids: "requests_to_sync a = (case rs of Inl e \<Rightarrow> [] | Inr xs \<Rightarrow> if list_all is_dict xs
      then map (\<lambda>r. field r ''request_id'') (filter (\<lambda>r. \<not> is_final r) (ids xs)) else [])"
    unfolding requests_to_sync_def rs_def ids_def by (simp split: sum.split)
  have open_ids: "list_all is_dict xs \<Longrightarrow> open_request_ids (ids xs) =
      Inr (map (\<lambda>r. field r ''request_id'') (filter (\<lambda>r. \<not> is_final r) (ids xs)))" for xs
    by (rule open_request_ids_iff) (auto simp: ids_def list_all_iff)
  have listing: "io_catch
       (io_bind (io_call (list_requests env)) (\<lambda>listed.
        io_bind (io_of (bind_result (bind_result (py_get_default listed ''requests'' (PList [])) py_iter) requests_with_id))
          (\<lambda>with_id. io_return (Some with_id))))
       (\<lambda>e. io_return None) w = Some (Inr (case rs of Inl e \<Rightarrow> None | Inr xs \<Rightarrow> if list_all is_dict xs then Some (ids xs) else None), u)"
    by (auto simp: io_catch_apply io_bind_apply a rs_def ids_def requests_with_id_iff split: sum.splits)
  show ?thesis
    unfolding reconcile_requests_def io_bind_apply [of _ _ w] listing
    by (auto simp: a ids open_ids sync_all synced_def split: sum.splits)
qed

text \<open>Opening and closing the client.\<close>

lemma with_client_apply:
  "with_client env m w = (case orb_open env w of
      (Inl e, u) \<Rightarrow> Some (Inl e, u)
    | (Inr _, u) \<Rightarrow> (case m u of
          None \<Rightarrow> None
        | Some (Inr v, t) \<Rightarrow> (case orb_close env None t of (Inl e, t') \<Rightarrow> Some (Inl e, t') | (Inr _, t') \<Rightarrow> Some (Inr v, t'))
        | Some (Inl e, t) \<Rightarrow> (case orb_close env (Some e) t of
              (Inl e', t') \<Rightarrow> Some (Inl e', t') | (Inr s, t') \<Rightarrow> Some (if s then Inr PNone else Inl e, t'))))"
  unfolding with_client_def
  by (cases "orb_open env w"; cases "fst (orb_open env w)"; cases "m (snd (orb_open env w))")
    (auto simp: io_then_apply io_bind_apply io_catch_apply split: sum.splits prod.splits)

section \<open>The handler\<close>

definition ok_answer :: "pyval \<Rightarrow> pyval" where
  "ok_answer b = PDict [(''statusCode'', PInt 200), (''body'', b)]"

definition error_answer :: "'w orb_env \<Rightarrow> exn \<Rightarrow> pyval" where
  "error_answer env exc = (case exc of
      BadRequest msg \<Rightarrow> PDict [(''statusCode'', PInt 400), (''error'', PStr msg)]
    | _ \<Rightarrow> PDict [(''statusCode'', PInt 500), (''error'', PStr (exn_class env exc @ '': '' @ exn_str exc))])"

lemma error_answer_shape:
  "\<exists>c t. error_answer env exc = PDict [(''statusCode'', PInt c), (''error'', PStr t)] \<and> (c = 400 \<or> c = 500)"
  by (cases exc) (auto simp: error_answer_def)

lemma error_answer_not_ok [simp]: "error_answer env exc \<noteq> ok_answer b"
  using error_answer_shape [of env exc] by (auto simp: ok_answer_def)

lemma event_action_dict [simp]: "event_action (PDict e) = Inr (field (PDict e) ''action'')"
  by (simp add: event_action_def field_def dict_get_def)

lemma orb_handler_apply:
  "orb_handler env (PDict e) w = (case orb_dispatch env (PDict e) w of
      None \<Rightarrow> None
    | Some (Inr b, u) \<Rightarrow> Some (Inr (ok_answer b), u)
    | Some (Inl exc, u) \<Rightarrow> Some (Inr (error_answer env exc), u))"
  by (simp add: orb_handler_def io_catch_apply io_bind_apply ok_answer_def error_answer_def
      split: option.splits sum.splits exn.splits)

lemma orb_dispatch_known:
  "field (PDict e) ''action'' = PStr a \<Longrightarrow> a \<in> {''create'', ''status'', ''terminate''} \<Longrightarrow>
     orb_dispatch env (PDict e) = with_client env
       (if a = ''create'' then orb_create_machines env (PDict e) else if a = ''status'' then orb_status env (PDict e)
        else orb_terminate_machines env (PDict e))"
  by (auto simp: orb_dispatch_def py_in_def)

lemma orb_dispatch_unknown:
  "\<forall>a \<in> {''create'', ''status'', ''terminate''}. field (PDict e) ''action'' \<noteq> PStr a \<Longrightarrow> \<exists>exc. \<forall>w. orb_dispatch env (PDict e) w = Some (Inl exc, w)"
  by (cases "field (PDict e) ''action''") (auto simp: orb_dispatch_def py_in_def io_bind_apply simp del: py_repr.simps)

lemma returns_with_client [intro]: "returns m \<Longrightarrow> returns (with_client env m)"
  unfolding returns_def with_client_apply
  by (auto split: prod.split sum.split option.split) (metis option.distinct(1))

lemma returns_actions [intro!, simp]:
  "returns (orb_create_machines env event)" "returns (orb_status env event)" "returns (orb_terminate_machines env event)"
proof -
  have sync: "returns (reconcile_requests env)" by (simp add: returns_def reconcile_requests_effect)
  have ids: "returns (terminate_all_ids env)" unfolding terminate_all_ids_def by (auto intro!: returns_bind)
  show "returns (orb_create_machines env event)" unfolding orb_create_machines_def by (auto intro!: returns_bind)
  show "returns (orb_status env event)" unfolding orb_status_def by (auto intro!: returns_bind returns_then sync)
  show "returns (orb_terminate_machines env event)"
    unfolding orb_terminate_machines_def by (auto intro!: returns_bind ids)
qed

lemma returns_dispatch: "returns (orb_dispatch env event)"
  unfolding orb_dispatch_def by (auto intro!: returns_bind)

lemma py_get_default_dict [simp]: "py_get_default (PDict d) k v = Inr (case map_of d k of None \<Rightarrow> v | Some x \<Rightarrow> x)"
  by (simp add: py_get_default_def dict_get_def)

declare py_get.simps(1) [simp del]

lemma py_get_dict [simp]: "py_get (PDict d) k = Inr (field (PDict d) k)"
  by (simp add: field_def dict_get_def py_get.simps(1))

text \<open>A status request first syncs the requests of ORB that have an id and are not final, one by one in the order of
  the list, whatever fails on the way; then it lists the machines and answers with exactly those whose status is not
  terminated, failed or returned, and with their number.\<close>

theorem status_lists_live_machines:
  assumes run: "orb_handler env (PDict e) w = Some (Inr (ok_answer b), w')"
    and "field (PDict e) ''action'' = PStr ''status''"
    and "\<not> truthy (field (PDict e) ''request_id'')" "\<not> truthy (field (PDict e) ''include_terminated'')"
    and "\<And>x u. fst (orb_close env x u) \<noteq> Inr True"
  shows "\<exists>w1 w2 d ms. orb_open env w = (Inr (), w1) \<and>
     list_machines env (synced env (requests_to_sync (fst (list_requests env w1))) (snd (list_requests env w1))) = (Inr d, w2) \<and>
     bind_result (py_get_default d ''machines'' (PList [])) py_iter = Inr ms \<and> well_formed_machines ms \<and>
     b = PDict [(''action'', PStr ''status''), (''result'', PDict [(''machines'', PList (filter is_live ms)),
       (''count'', PInt (int (length (filter is_live ms))))])] \<and> w' = snd (orb_close env None w2)"
proof -
  from run have "orb_dispatch env (PDict e) w = Some (Inr b, w')"
    by (auto simp: orb_handler_apply ok_answer_def [symmetric] split: option.splits sum.splits dest: sym)
      (auto simp: ok_answer_def)
  with assms(2) have "with_client env (orb_status env (PDict e)) w = Some (Inr b, w')" by (simp add: orb_dispatch_known)
  then obtain w1 w2 where w1: "orb_open env w = (Inr (), w1)" and st: "orb_status env (PDict e) w1 = Some (Inr b, w2)"
    and w': "w' = snd (orb_close env None w2)"
    using assms(5) by (auto simp: with_client_apply split: prod.splits sum.splits option.splits if_splits) (metis fst_conv)+
  from st assms(3,4) obtain d ms where
    "list_machines env (synced env (requests_to_sync (fst (list_requests env w1))) (snd (list_requests env w1))) = (Inr d, w2)"
    "bind_result (py_get_default d ''machines'' (PList [])) py_iter = Inr ms" "well_formed_machines ms"
    "b = PDict [(''action'', PStr ''status''), (''result'', PDict [(''machines'', PList (filter is_live ms)),
       (''count'', PInt (int (length (filter is_live ms))))])]"
    by (auto simp: orb_status_def io_bind_Inr io_then_Inr reconcile_requests_effect bind_result_Inr live_machines_Inr py_len_def)
  with w1 w' show ?thesis by blast
qed

section \<open>What can be terminated\<close>

text \<open>A view of the world that only \<open>return_machines\<close> changes, such as the machines ORB has terminated.\<close>

definition only_returns_change :: "'w orb_env \<Rightarrow> ('w \<Rightarrow> 'v) \<Rightarrow> bool" where
  "only_returns_change env v \<longleftrightarrow> (\<forall>u. v (snd (orb_open env u)) = v u \<and> (\<forall>x. v (snd (orb_close env x u)) = v u) \<and>
     v (snd (list_requests env u)) = v u \<and> (\<forall>ids. v (snd (get_request_status env ids u)) = v u) \<and>
     v (snd (list_machines env u)) = v u \<and> (\<forall>t n. v (snd (request_machines env t n u)) = v u))"

lemma keeps_call: "(\<And>u. v (snd (f u)) = v u) \<Longrightarrow> keeps v (io_call f)"
  unfolding keeps_def by (metis io_call_apply option.inject snd_conv)

lemma view_calls:
  assumes "only_returns_change env v"
  shows "keeps v (io_call (orb_open env))" "keeps v (io_call (orb_close env x))" "keeps v (io_call (list_machines env))"
    "keeps v (io_call (get_request_status env ids))" "keeps v (io_call (request_machines env t n))" "keeps v (reconcile_requests env)"
proof -
  have synced: "v (synced env ids w) = v w" for ids w
    using assms unfolding only_returns_change_def by (induction ids arbitrary: w) (simp_all add: synced_def)
  show "keeps v (io_call (orb_open env))" "keeps v (io_call (orb_close env x))" "keeps v (io_call (list_machines env))"
    "keeps v (io_call (get_request_status env ids))" "keeps v (io_call (request_machines env t n))"
    by (rule keeps_call, use assms in \<open>simp add: only_returns_change_def\<close>)+
  show "keeps v (reconcile_requests env)"
    using assms by (simp add: keeps_def reconcile_requests_effect synced only_returns_change_def)
qed

lemma view_actions:
  assumes "only_returns_change env v"
  shows "keeps v (orb_create_machines env event)" "keeps v (orb_status env event)" "keeps v (terminate_all_ids env)"
  unfolding orb_create_machines_def orb_status_def terminate_all_ids_def
  by (auto intro!: keeps_bind keeps_then view_calls [OF assms])

lemma with_client_view:
  assumes "only_returns_change env v" and "with_client env m w = Some (r, w')"
  shows "v w' = v w \<or> (\<exists>u x t. v u = v w \<and> m u = Some (x, t) \<and> v w' = v t)"
proof -
  have closed: "orb_close env x t = (y, t') \<Longrightarrow> v t' = v t" "orb_open env t = (z, t') \<Longrightarrow> v t' = v t" for x t y z t'
    using assms(1) unfolding only_returns_change_def by (metis snd_conv)+
  from assms(2) show ?thesis
    by (auto simp: with_client_apply split: prod.splits sum.splits option.splits dest!: closed)
qed

lemma terminate_all_Inr:
  assumes "terminate_all_ids env u = Some (Inr ids, t)"
  shows "orb_environ env ''ORB_ALLOW_TERMINATE_ALL'' = Some ''1'' \<and>
     (\<exists>d ms. list_machines env u = (Inr d, t) \<and> bind_result (py_get_default d ''machines'' (PList [])) py_iter = Inr ms \<and>
        ids = PList (filter truthy (map (\<lambda>m. field m ''machine_id'') (filter is_live ms))))"
proof -
  have machine_ids: "machine_ids_of xs = Inr ys \<Longrightarrow> ys = filter truthy (map (\<lambda>m. field m ''machine_id'') xs)" for xs ys
    by (induction xs arbitrary: ys) (auto simp: bind_result_Inr py_get_field split: if_splits)
  from assms show ?thesis
    by (auto simp: terminate_all_ids_def io_bind_Inr bind_result_Inr live_machines_Inr split: if_splits dest!: machine_ids)
qed

lemma terminations_view:
  assumes "only_returns_change env v" and "orb_handler env (PDict e) w = Some (r, w')"
  shows "v w' = v w \<or> field (PDict e) ''action'' = PStr ''terminate'' \<and>
     (\<exists>ids u. v u = v w \<and> v w' = v (snd (return_machines env ids u)) \<and> truthy ids \<and>
        (if truthy (field (PDict e) ''all'')
         then orb_environ env ''ORB_ALLOW_TERMINATE_ALL'' = Some ''1'' \<and>
           (\<exists>d ms s t. list_machines env s = (Inr d, t) \<and> bind_result (py_get_default d ''machines'' (PList [])) py_iter = Inr ms \<and>
              ids = PList (filter truthy (map (\<lambda>m. field m ''machine_id'') (filter is_live ms))))
         else ids = field (PDict e) ''machine_ids''))"
proof (cases "\<exists>a \<in> {''create'', ''status'', ''terminate''}. field (PDict e) ''action'' = PStr a")
  case False
  with orb_dispatch_unknown obtain exc where "orb_dispatch env (PDict e) w = Some (Inl exc, w)" by metis
  with assms(2) show ?thesis by (simp add: orb_handler_apply)
next
  case True
  then obtain a where a: "field (PDict e) ''action'' = PStr a" "a \<in> {''create'', ''status'', ''terminate''}" by blast
  from assms(2) obtain x where "orb_dispatch env (PDict e) w = Some (x, w')"
    by (auto simp: orb_handler_apply split: option.splits sum.splits)
  from with_client_view [OF assms(1) this [unfolded orb_dispatch_known [OF a]]]
  consider "v w' = v w" | u y t where "v u = v w" "v w' = v t" "(if a = ''create'' then orb_create_machines env (PDict e) else if a = ''status''
      then orb_status env (PDict e) else orb_terminate_machines env (PDict e)) u = Some (y, t)"
    by blast
  then show ?thesis
  proof cases
    case 2
    show ?thesis
    proof (cases "a = ''terminate''")
      case False
      with a(2) 2(3) have "v t = v u"
        by (auto split: if_splits dest: keepsD [OF view_actions(1) [OF assms(1)]] keepsD [OF view_actions(2) [OF assms(1)]])
      with 2 show ?thesis by simp
    next
      case True
      with 2(3) have "orb_terminate_machines env (PDict e) u = Some (y, t)" by simp
      then consider "v t = v u" | ids s where "v s = v u" "truthy ids" "t = snd (return_machines env ids s)"
        "if truthy (field (PDict e) ''all'') then terminate_all_ids env u = Some (Inr ids, s) else ids = field (PDict e) ''machine_ids''"
        by (auto simp: orb_terminate_machines_def io_bind_Some split: if_splits
            dest: keepsD [OF view_actions(3) [OF assms(1)]]) (metis snd_conv keepsD [OF view_actions(3) [OF assms(1)]])+
      then show ?thesis
      proof cases
        case 1
        with 2 show ?thesis by simp
      next
        case r: 2
        then show ?thesis
          using 2(1,2) True a(1) terminate_all_Inr [of env u ids s]
          by (intro disjI2 conjI exI [of _ ids] exI [of _ s]) (auto split: if_splits)
      qed
    qed
  qed simp
qed

text \<open>C21. Machines are terminated only by a request for that: either by one that lists their ids, or by one for the whole
  fleet, which terminates the live machines and works only if the environment allows it; with the kill switch unset, or
  without ids, the client of ORB is closed without a call.  No other request terminates anything.\<close>

theorem only_requested_terminations:
  assumes "only_returns_change env v" and "orb_handler env (PDict e) w = Some (r, w')"
  shows "v w' = v w \<or> field (PDict e) ''action'' = PStr ''terminate'' \<and>
     (\<exists>ids u. v u = v w \<and> v w' = v (snd (return_machines env ids u)) \<and> truthy ids \<and>
        (if truthy (field (PDict e) ''all'')
         then orb_environ env ''ORB_ALLOW_TERMINATE_ALL'' = Some ''1'' \<and>
           (\<exists>d ms s t. list_machines env s = (Inr d, t) \<and> bind_result (py_get_default d ''machines'' (PList [])) py_iter = Inr ms \<and>
              ids = PList (filter truthy (map (\<lambda>m. field m ''machine_id'') (filter is_live ms))))
         else ids = field (PDict e) ''machine_ids''))"
  by (rule terminations_view [OF assms])

end
