(* ===== verification/CapacityOrb.thy ===== *)
theory CapacityOrb
  imports OrchestratorProps StateTableLaws
begin

text \<open>
  The capacity controller and the ORB orchestrator together: what the controller's calls of the lambda become on the other
  side, and which machines a tick can make ORB terminate.
\<close>

section \<open>Calling the lambda\<close>

text \<open>
  The lambda behind the controller runs the orchestrator's handler: the payload is the JSON text of the event, the response
  that of the handler's answer, and the world changes as the handler changes it.
\<close>

definition invokes_orchestrator :: "'w capacity_env \<Rightarrow> 'w orb_env \<Rightarrow> bool" where
  "invokes_orchestrator cenv env \<longleftrightarrow> (\<forall>event w r w'. json_wf event \<longrightarrow> orb_handler env event w = Some (Inr r, w') \<longrightarrow>
     snd (lambda_invoke cenv (utf8_encode (json_dumps event)) w) = w' \<and>
     (json_wf r \<longrightarrow> fst (lambda_invoke cenv (utf8_encode (json_dumps event)) w) = Inr (utf8_encode (json_dumps r))))"

lemma json_dumps_not_empty [simp]: "utf8_encode (json_dumps v) \<noteq> []"
proof
  assume "utf8_encode (json_dumps v) = []"
  then have "utf8_decode [] = Inr (json_dumps v)" by (metis utf8_decode_encode)
  with json_dumps_start [of v] show False by auto
qed

lemma orb_invoke_handler:
  assumes "invokes_orchestrator cenv env" and "json_wf event" and "orb_handler env event w = Some (Inr r, w')"
  shows "\<exists>x. orb_invoke cenv event w = Some (x, w')"
    and "json_wf r \<Longrightarrow> orb_invoke cenv event w = Some (Inr r, w')"
proof -
  obtain a u where a: "lambda_invoke cenv (utf8_encode (json_dumps event)) w = (a, u)" by fastforce
  with assms have u: "u = w'" unfolding invokes_orchestrator_def by fastforce
  with a show "\<exists>x. orb_invoke cenv event w = Some (x, w')" by (auto simp: orb_invoke_def io_bind_apply split: sum.split)
  assume "json_wf r"
  with assms a have "a = Inr (utf8_encode (json_dumps r))" unfolding invokes_orchestrator_def by fastforce
  with a u \<open>json_wf r\<close> show "orb_invoke cenv event w = Some (Inr r, w')" by (simp add: orb_invoke_def io_bind_apply)
qed

text \<open>The handler answers every event that is a dictionary.\<close>

lemma orb_handler_answers: "\<exists>x w'. orb_dispatch env (PDict e) w = Some (x, w') \<and>
   orb_handler env (PDict e) w = Some (Inr (case x of Inr b \<Rightarrow> ok_answer b | Inl exc \<Rightarrow> error_answer env exc), w')"
proof -
  obtain x w' where "orb_dispatch env (PDict e) w = Some (x, w')" using returns_dispatch unfolding returns_def by fastforce
  then show ?thesis by (auto simp: orb_handler_apply split: sum.split)
qed

lemma json_wf_error [simp]: "json_wf (error_answer env exc)"
  using error_answer_shape [of env exc] by auto

lemma json_wf_listed:
  assumes "json_wf d" and "bind_result (py_get_default d k (PList [])) py_iter = Inr ms" and "m \<in> set ms"
  shows "json_wf m"
proof -
  from assms(2) obtain e x where d: "d = PDict e" and x: "x = (case map_of e k of None \<Rightarrow> PList [] | Some v \<Rightarrow> v)" "py_iter x = Inr ms"
    by (cases d) (auto simp: py_get_default_def dict_get_def)
  have "json_wf x" using assms(1) unfolding d x(1) by (auto split: option.split dest!: map_of_SomeD)
  with x(2) assms(3) show ?thesis by (cases x) (auto simp: py_iter_def)
qed

section \<open>The machines the controller sees\<close>

definition status_event :: pyval where
  "status_event = PDict [(''action'', PStr ''status'')]"

lemma status_fields: "field status_event ''action'' = PStr ''status''" "field status_event ''request_id'' = PNone"
  "field status_event ''include_terminated'' = PNone" "json_wf status_event"
  by (simp_all add: status_event_def field_def)

text \<open>C20. What the controller gets as its fleet: if the orchestrator can list the machines, exactly those that are not in a
  terminal state, as ORB reports them after its open requests were synced; and if the orchestrator fails, whatever the
  reason, the empty list.\<close>

theorem controller_sees_live_machines:
  assumes link: "invokes_orchestrator cenv env" and close: "\<And>x u. fst (orb_close env x u) \<noteq> Inr True"
    and wf: "\<And>u d. fst (list_machines env u) = Inr d \<Longrightarrow> json_wf d"
  shows "\<exists>x w'. list_live cenv w = Some (x, w') \<and>
     ((\<exists>w1 w2 d ms. orb_open env w = (Inr (), w1) \<and>
         list_machines env (synced env (requests_to_sync (fst (list_requests env w1))) (snd (list_requests env w1))) = (Inr d, w2) \<and>
         bind_result (py_get_default d ''machines'' (PList [])) py_iter = Inr ms \<and> x = Inr (PList (filter is_live ms))) \<or>
      (\<exists>exc. orb_dispatch env status_event w = Some (Inl exc, w') \<and> x = Inr (PList [])))"
proof -
  from orb_handler_answers [of env "[(''action'', PStr ''status'')]" w, folded status_event_def] obtain y w' where
    d: "orb_dispatch env status_event w = Some (y, w')" and
    h: "orb_handler env status_event w = Some (Inr (case y of Inr b \<Rightarrow> ok_answer b | Inl exc \<Rightarrow> error_answer env exc), w')"
    by blast
  show ?thesis
  proof (cases y)
    case (Inl exc)
    with h have "orb_invoke cenv status_event w = Some (Inr (error_answer env exc), w')"
      by (intro orb_invoke_handler(2) [OF link status_fields(4)]) simp_all
    with error_answer_shape [of env exc] have "list_live cenv w = Some (Inr (PList []), w')"
      by (auto simp: list_live_def status_event_def io_bind_apply)
    with d Inl show ?thesis by blast
  next
    case (Inr b)
    with h have run: "orb_handler env status_event w = Some (Inr (ok_answer b), w')" by simp
    from status_lists_live_machines [OF run [unfolded status_event_def] _ _ _ close, folded status_event_def] status_fields
    obtain w1 w2 d ms where
      o: "orb_open env w = (Inr (), w1)" and
      l: "list_machines env (synced env (requests_to_sync (fst (list_requests env w1))) (snd (list_requests env w1))) = (Inr d, w2)" and
      ms: "bind_result (py_get_default d ''machines'' (PList [])) py_iter = Inr ms" and
      b: "b = PDict [(''action'', PStr ''status''), (''result'', PDict [(''machines'', PList (filter is_live ms)),
         (''count'', PInt (int (length (filter is_live ms))))])]" by auto
    have "json_wf d" using wf l by (metis fst_conv)
    with json_wf_listed [OF _ ms] have "json_wf (ok_answer b)" by (auto simp: b ok_answer_def)
    with run have "orb_invoke cenv status_event w = Some (Inr (ok_answer b), w')"
      by (intro orb_invoke_handler(2) [OF link status_fields(4)])
    then have "list_live cenv w = Some (Inr (PList (filter is_live ms)), w')"
      by (simp add: list_live_def status_event_def io_bind_apply ok_answer_def b)
    with o l ms show ?thesis by blast
  qed
qed

section \<open>What a tick can terminate\<close>

text \<open>A view of the world that the controller's other services do not change.\<close>

definition capacity_keeps :: "'w capacity_env \<Rightarrow> ('w \<Rightarrow> 'v) \<Rightarrow> bool" where
  "capacity_keeps cenv v \<longleftrightarrow> host_keeps (cap_host cenv) v \<and> ddb_keeps (cap_db cenv) v \<and>
     (\<forall>ids tags. keeps v (io_call (ec2_create_tags cenv ids tags))) \<and>
     (\<forall>ids tags. keeps v (io_call (ec2_delete_tags cenv ids tags))) \<and>
     (\<forall>ids c. keeps v (io_call (ssm_send_command cenv ids c)))"

lemma busy_ids_keeps:
  assumes "capacity_keeps cenv v"
  shows "keeps v (busy_instance_ids cenv)"
proof -
  have host: "host_keeps (cap_host cenv) v" and q: "\<forall>q. keeps v (io_call (ddb_query (cap_db cenv) q))"
    using assms by (auto simp: capacity_keeps_def ddb_keeps_def)
  have pages: "keeps v (\<lambda>w. live_pages (cap_db cenv) conds k items w)" for conds k items
    unfolding keeps_def using live_pages_keeps [OF _ q] by fastforce
  have "keeps v (get_live_tasks_for_partition (cap_db cenv) (cap_host cenv) p)" for p
    unfolding get_live_tasks_for_partition_def
    by (intro keeps_catch keeps_bind host_keeps_ops [OF host] pages) (auto split: exn.split)
  then have "keeps v (busy_in_partition cenv p)" for p unfolding busy_in_partition_def by (auto intro!: keeps_bind)
  then have "keeps v (io_mapM (busy_in_partition cenv) ps)" for ps by (induction ps) (auto intro!: keeps_bind)
  then show ?thesis
    unfolding busy_instance_ids_def by (intro keeps_catch keeps_bind host_keeps_ops [OF host]) (auto split: exn.split)
qed

lemma drain_keeps:
  assumes "capacity_keeps cenv v"
  shows "keeps v (cordon cenv ids)" "keeps v (uncordon cenv ids)" "keeps v (resend_stop cenv ids)"
proof -
  have host: "host_keeps (cap_host cenv) v" and calls: "keeps v (io_call (ec2_create_tags cenv a b))"
    "keeps v (io_call (ec2_delete_tags cenv a c))" "keeps v (io_call (ssm_send_command cenv a d))" for a b c d
    using assms by (auto simp: capacity_keeps_def)
  have send: "keeps v (send_compose_command cenv is c)" for "is" c
    unfolding send_compose_command_def Let_def by (auto intro!: keeps_catch keeps_bind calls)
  show "keeps v (cordon cenv ids)" "keeps v (uncordon cenv ids)" "keeps v (resend_stop cenv ids)"
    unfolding cordon_def uncordon_def resend_stop_def Let_def
    by (auto intro!: keeps_bind keeps_then calls send host_keeps_ops [OF host])
qed

lemma create_keeps:
  assumes "invokes_orchestrator cenv env" and "only_returns_change env v"
  shows "keeps v (orb_create cenv n)"
  unfolding keeps_def
proof (intro allI impI)
  fix s r t
  let ?e = "[(''action'', PStr ''create''), (''template_id'', PStr (TEMPLATE_ID cenv)), (''count'', PInt n)]"
  assume run: "orb_create cenv n s = Some (r, t)"
  from orb_handler_answers [of env ?e s] obtain y where h: "orb_handler env (PDict ?e) s = Some (Inr y, t)"
    using run orb_invoke_handler(1) [OF assms(1), of "PDict ?e" s] unfolding orb_create_def by fastforce
  from terminations_view [OF assms(2) h] show "v t = v s" by (simp add: field_def)
qed

lemma terminate_view:
  assumes "invokes_orchestrator cenv env" and "only_returns_change env v" and "\<forall>i \<in> set ids. json_wf i"
    and "orb_terminate cenv ids s = Some (r, t)"
  shows "v t = v s \<or> (\<exists>u. v u = v s \<and> v t = v (snd (return_machines env (PList ids) u)))"
proof -
  let ?e = "[(''action'', PStr ''terminate''), (''machine_ids'', PList ids)]"
  from orb_handler_answers [of env ?e s] obtain y where h: "orb_handler env (PDict ?e) s = Some (Inr y, t)"
    using assms(3,4) orb_invoke_handler(1) [OF assms(1), of "PDict ?e" s] unfolding orb_terminate_def by fastforce
  from terminations_view [OF assms(2) h] show ?thesis by (auto simp: field_def)
qed

lemma carry_out_view:
  assumes "invokes_orchestrator cenv env" and "only_returns_change env v" and "capacity_keeps cenv v"
    and "\<forall>i \<in> set (to_terminate plan). json_wf i" and "carry_out cenv plan s = Some (r, t)"
  shows "v t = v s \<or> to_terminate plan \<noteq> [] \<and> (\<exists>u. v u = v s \<and> v t = v (snd (return_machines env (PList (to_terminate plan)) u)))"
proof -
  define start where "start = io_bind (if to_uncordon plan \<noteq> []
         then io_bind (uncordon cenv (to_uncordon plan)) (\<lambda>_. io_return [action_of ''uncordon'' (to_uncordon plan) []])
         else io_return []) (\<lambda>a1.
     io_bind (if to_resend_stop plan \<noteq> []
         then io_bind (resend_stop cenv (to_resend_stop plan)) (\<lambda>_.
           io_return [action_of ''resend_stop'' (to_resend_stop plan) []])
         else io_return []) (\<lambda>a2. io_return (a1, a2)))"
  have carry: "carry_out cenv plan = io_bind start (\<lambda>(a1, a2).
     io_bind (if to_terminate plan \<noteq> []
         then io_bind (orb_terminate cenv (to_terminate plan)) (\<lambda>res.
           io_return [action_of ''terminate'' (to_terminate plan) [(''orb'', res)]])
         else io_return []) (\<lambda>a3. io_return (a1 @ a2 @ a3)))"
    by (simp add: carry_out_def start_def io_bind_assoc)
  have kept: "keeps v start" unfolding start_def by (auto intro!: keeps_bind drain_keeps [OF assms(3)])
  from assms(5) show ?thesis
    by (auto simp: carry io_bind_Some split: if_splits
        dest!: keepsD [OF kept] terminate_view [OF assms(1,2,4)])
qed

text \<open>C19. However a tick ends, it terminates machines in ORB at most once, and then only machines it observed as draining and
  that the state table showed to be idle, or whose deadline had passed: the request of the controller reaches ORB as it was
  made, and its requests for capacity terminate nothing.\<close>

theorem tick_terminates_only_drained:
  assumes link: "invokes_orchestrator cenv env" "only_returns_change env v" "capacity_keeps cenv v"
    and run: "reconcile cenv cfg now backlog machines w = Some (r, w')" and wf: "\<forall>m \<in> set machines. json_wf (machine_id_of m)"
  shows "v w' = v w \<or> (\<exists>busy w1 T u. busy_instance_ids cenv w = Some (Inr busy, w1) \<and> T \<noteq> [] \<and> v u = v w \<and>
     v w' = v (snd (return_machines env (PList (map machine_id_of T)) u)) \<and>
     (\<forall>m \<in> set T. m \<in> set machines \<and> is_draining m \<and> may_terminate busy now m))"
proof -
  have up: "keeps v (scale_up cenv d)" for d
    unfolding scale_up_def by (auto intro!: keeps_bind create_keeps [OF link(1,2)])
  have down: "keeps v (scale_down cenv cfg active n k busy)" for active n k busy
    unfolding scale_down_def Let_def by (auto intro!: keeps_bind drain_keeps [OF link(3)] split: option.split prod.split)
  define plan0 where "plan0 = (\<lambda>d. \<lparr>to_uncordon = [], to_terminate = [], to_resend_stop = [], deficit_left = d\<rparr>)"
  from run consider "v w' = v w" | busy w1 ds d plan y w2 where "busy_instance_ids cenv w = Some (Inr busy, w1)"
      "sort_by_age (draining_of machines) = Inr ds" "sweep_loop cfg busy now ds (plan0 d) = Inr plan"
      "carry_out cenv plan w1 = Some (y, w2)" "v w' = v w2"
    by (auto simp: reconcile_def Let_def io_bind_Some sweep_draining_def bind_result_Inr draining_of_def plan0_def
        dest!: keepsD [OF up] keepsD [OF down] dest: keepsD [OF busy_ids_keeps [OF link(3)]])
  then show ?thesis
  proof cases
    case 2
    from sweep_loop_Inr [OF 2(3)] obtain R T S where s: "swept cfg busy now ds d R T S" "to_terminate plan = map machine_id_of T"
      by (auto simp: plan0_def)
    have T: "m \<in> set machines \<and> is_draining m \<and> may_terminate busy now m" if "m \<in> set T" for m
    proof -
      have "m \<in># mset R + mset T + mset S" using that by simp
      with s(1) have "m \<in># mset (named ds)" unfolding swept_def by (meson mset_subset_eqD)
      with that s(1) sort_by_age_set [OF 2(2)] show ?thesis by (auto simp: swept_def draining_of_def)
    qed
    have "v w1 = v w" by (rule keepsD [OF busy_ids_keeps [OF link(3)] 2(1)])
    moreover have "\<forall>i \<in> set (to_terminate plan). json_wf i" using T wf by (auto simp: s(2))
    ultimately consider "v w' = v w" | u where "T \<noteq> []" "v u = v w" "v w' = v (snd (return_machines env (PList (map machine_id_of T)) u))"
      using carry_out_view [OF link _ 2(4)] 2(5) by (auto simp: s(2))
    then show ?thesis
    proof cases
      case r: 2
      with 2(1) T show ?thesis by (intro disjI2 exI [of _ busy] exI [of _ w1] exI [of _ T] exI [of _ u]) blast
    qed simp
  qed simp
qed

end
