(* ===== verification/CapacityRun.thy ===== *)
theory CapacityRun
  imports CapacityProps DataPlaneProps
begin

text \<open>
  The capacity controller on services in memory, with an orchestrator that answers with an empty body, and the witnesses of
  the properties of CapacityProps.
\<close>

definition mem_capacity_env :: "string \<Rightarrow> mem_cloud capacity_env" where
  "mem_capacity_env answer = \<lparr>cap_host = mem_host, cap_db = mem_ddb, cap_sqs = mem_sqs, cap_queue = QueueSQS ''tasks'',
     ec2_create_tags = (\<lambda>ids tags w. (Inr (), w)), ec2_delete_tags = (\<lambda>ids tags w. (Inr (), w)),
     ec2_describe_instances = (\<lambda>ids w. (Inr (PDict []), w)), ssm_send_command = (\<lambda>ids c w. (Inr (PDict []), w)),
     lambda_invoke = (\<lambda>payload w. (Inr answer, w)), DRAIN_DEADLINE_SEC = 1500, TEMPLATE_ID = ''t''\<rparr>"

definition small_config :: capacity_config where
  "small_config = capacity_config_of 1 2048 0 64 4"

lemma small_config_ok: "config_ok small_config"
  by (simp add: small_config_def config_of_ok)

text \<open>A world in which an agent of the instance \<open>i-2\<close> works on a task, and three machines.\<close>

definition busy_cloud :: mem_cloud where
  "busy_cloud = empty_cloud\<lparr>mem_rows := [(''s_0'', [''task_id'' \<mapsto> PStr ''s_0'', ''task_owner'' \<mapsto> PStr ''i-2-pair-0'',
     ''task_status'' \<mapsto> PStr (make_task_state_from_task_id length TASK_STATE_PROCESSING ''s_0''),
     ''heartbeat_expiration_timestamp'' \<mapsto> PInt 100])]\<rparr>"

definition machine :: "string \<Rightarrow> int \<Rightarrow> string option \<Rightarrow> pyval" where
  "machine i n lifecycle = PDict [(''machine_id'', PStr i), (''vcpus'', PInt n),
     (''lifecycle'', case lifecycle of None \<Rightarrow> PNone | Some l \<Rightarrow> PStr l),
     (''drain_deadline'', case lifecycle of None \<Rightarrow> PNone | Some l \<Rightarrow> PStr ''900'')]"

declare live_pages.simps [code]

lemma busy_cloud_read:
  "case busy_instance_ids (mem_capacity_env []) busy_cloud of
     Some (Inr (Some b), w) \<Rightarrow> ''i-2'' \<in> b \<and> ''i-1'' \<notin> b | _ \<Rightarrow> False"
  by code_simp

definition three_machines :: "pyval list" where
  "three_machines = [machine ''i-1'' 2 (Some ''draining''), machine ''i-2'' 4 None, machine ''i-3'' 2 None]"

lemma busy_cloud_tick:
  "case reconcile (mem_capacity_env []) small_config 100 0 three_machines busy_cloud of Some (Inr r, w) \<Rightarrow> True | _ \<Rightarrow> False"
  by code_simp

lemma three_machines_demand: "desired_vcpus_of small_config 0 = 0" "total_vcpus small_config (active_of three_machines) = 6"
  by code_simp+

theorem tick_spares_working_machines_witness:
  "\<exists>r w' busy R S T orb n orb' V. reconcile (mem_capacity_env []) small_config 100 0 three_machines busy_cloud = Some (Inr r, w') \<and>
     r = tick_response (tick_actions small_config R S T orb n orb' V) (length three_machines) 0 6 \<and>
     (\<forall>m \<in> set T. is_draining m \<and> may_terminate busy 100 m)"
proof -
  obtain r w' where run: "reconcile (mem_capacity_env []) small_config 100 0 three_machines busy_cloud = Some (Inr r, w')"
    using busy_cloud_tick by (auto simp: run_iff)
  from tick_spares_working_machines [OF run, unfolded three_machines_demand] run show ?thesis by blast
qed

theorem tick_balances_capacity_witness:
  "\<exists>r w' R S T orb n orb' V. reconcile (mem_capacity_env []) small_config 100 0 three_machines busy_cloud = Some (Inr r, w') \<and>
     r = tick_response (tick_actions small_config R S T orb n orb' V) (length three_machines) 0 6 \<and> R = [] \<and> n \<le> 0"
proof -
  obtain r w' where run: "reconcile (mem_capacity_env []) small_config 100 0 three_machines busy_cloud = Some (Inr r, w')"
    using busy_cloud_tick by (auto simp: run_iff)
  from tick_balances_capacity [OF run small_config_ok, unfolded three_machines_demand] obtain R S T orb n orb' V d where
    d: "r = tick_response (tick_actions small_config R S T orb n orb' V) (length three_machines) 0 6"
    "d = 0 - (6 :: int)" "d \<le> 0 \<longrightarrow> R = [] \<and> n \<le> (0 :: int)" by (elim exE conjE) (rule that, assumption+)
  then have "R = [] \<and> n \<le> 0" by simp
  with run d show ?thesis by blast
qed

definition big_machine :: pyval where
  "big_machine = PDict [(''machine_id'', PStr ''i-1''), (''vcpus'', PInt 4)]"

definition big_machine_draining :: pyval where
  "big_machine_draining = PDict [(''machine_id'', PStr ''i-1''), (''vcpus'', PInt 4), (''lifecycle'', PStr ''draining''),
     (''drain_deadline'', PStr ''900'')]"

lemma big_machine_drains:
  "with_drain_state [(PStr ''i-1'', \<lparr>tag_lifecycle = PStr LIFECYCLE_DRAINING, tag_drain_deadline = PStr ''900''\<rparr>)] big_machine =
     Inr big_machine_draining"
  by code_simp

lemma big_machine_ticks:
  "case busy_instance_ids (mem_capacity_env []) empty_cloud of
     Some (Inr (Some b), w) \<Rightarrow> True | _ \<Rightarrow> False"
  "case reconcile (mem_capacity_env []) small_config 100 1 [big_machine] empty_cloud of Some (Inr r, w) \<Rightarrow> True | _ \<Rightarrow> False"
  "case reconcile (mem_capacity_env []) small_config 160 1 [big_machine_draining] empty_cloud of
     Some (Inr r, w) \<Rightarrow> True | _ \<Rightarrow> False"
  by code_simp+

theorem oversized_machine_flaps_witness:
  "\<exists>r w r' w'. reconcile (mem_capacity_env []) small_config 100 1 [big_machine] empty_cloud = Some (Inr r, w) \<and>
     reconcile (mem_capacity_env []) small_config 160 1 [big_machine_draining] empty_cloud = Some (Inr r', w') \<and>
     r = tick_response [action_of ''cordon'' [PStr ''i-1''] [(''vcpus'', PInt 4)]] 1 1 4 \<and>
     r' = tick_response [action_of ''uncordon'' [PStr ''i-1''] []] 1 1 0"
proof -
  obtain b w0 where b: "busy_instance_ids (mem_capacity_env []) empty_cloud = Some (Inr (Some b), w0)"
    using big_machine_ticks(1) by (auto simp: run_iff split: option.splits)
  obtain r w where r: "reconcile (mem_capacity_env []) small_config 100 1 [big_machine] empty_cloud = Some (Inr r, w)"
    using big_machine_ticks(2) by (auto simp: run_iff)
  obtain r' w' where r': "reconcile (mem_capacity_env []) small_config 160 1 [big_machine_draining] empty_cloud = Some (Inr r', w')"
    using big_machine_ticks(3) by (auto simp: run_iff)
  have m: "vcpus_of small_config big_machine = Inr 4" "py_get big_machine ''machine_id'' = Inr (PStr ''i-1'')"
    "\<not> is_draining big_machine" "desired_vcpus_of small_config 1 = 1" by code_simp+
  from oversized_machine_flaps [OF m(1,2) _ m(3) _ _ b r big_machine_drains r'] m(4) r r' show ?thesis by auto
qed

definition orb_error :: string where
  "orb_error = ''{\"statusCode\": 500, \"error\": \"ORB\"}''"

lemma orb_error_body: "bind_result (utf8_decode orb_error) json_loads = Inr (PDict [(''statusCode'', PInt 500), (''error'', PStr ''ORB'')])"
  by code_simp

lemma orb_error_tick:
  "case capacity_handler (mem_capacity_env orb_error) small_config (empty_cloud\<lparr>mem_msgs := (\<lambda>q. [''a''])\<rparr>) of
     Some (Inr r, w) \<Rightarrow> True | _ \<Rightarrow> False"
  by code_simp

theorem failed_status_counts_as_empty_fleet_witness:
  "\<exists>r w d orb. capacity_handler (mem_capacity_env orb_error) small_config (empty_cloud\<lparr>mem_msgs := (\<lambda>q. [''a''])\<rparr>) = Some (Inr r, w) \<and>
     r = tick_response (if d = 0 then [] else
         [PDict [(''action'', PStr ''create''), (''vcpus'', PInt d), (''orb'', orb)]]) 0 d 0"
proof -
  obtain r w where run: "capacity_handler (mem_capacity_env orb_error) small_config (empty_cloud\<lparr>mem_msgs := (\<lambda>q. [''a''])\<rparr>) =
      Some (Inr r, w)"
    using orb_error_tick by (auto simp: run_iff)
  have "0 \<le> MIN_VCPUS small_config" by (simp add: small_config_def capacity_config_of_def)
  from failed_status_counts_as_empty_fleet [OF _ _ orb_error_body _ run this] run show ?thesis
    by (fastforce simp: mem_capacity_env_def orb_error_def)
qed

theorem busy_set_exact_witness:
  "\<exists>b w' p u rows u' row. busy_instance_ids (mem_capacity_env []) busy_cloud = Some (Inr (Some b), w') \<and> ''i-2'' \<in> b \<and>
     p < MAX_STATE_PARTITIONS \<and> get_live_tasks_for_partition (mem_ddb :: mem_cloud ddb) mem_host p u = Some (Inr rows, u') \<and> row \<in> set rows \<and>
     busy_instance row = Inr (Some ''i-2'')"
proof -
  from busy_cloud_read obtain b w' where run: "busy_instance_ids (mem_capacity_env []) busy_cloud = Some (Inr (Some b), w')"
    and b: "''i-2'' \<in> b" by (auto split: option.splits sum.splits)
  have env: "cap_db (mem_capacity_env []) = mem_ddb" "cap_host (mem_capacity_env []) = mem_host"
    by (simp_all add: mem_capacity_env_def)
  from bspec [OF conjunct2 [OF busy_set_exact [OF run]] b, unfolded env] run b show ?thesis by blast
qed

end
