(* ===== verification/OrchestratorRun.thy ===== *)
theory OrchestratorRun
  imports CapacityOrb CapacityRun
begin

text \<open>
  ORB, the orchestrator and the capacity controller in memory: a fleet of machines with their status, and the witnesses of
  the properties of OrchestratorProps and CapacityOrb.
\<close>

record mem_fleet = mem_cloud +
  fleet :: "(string \<times> string) list"
  synced_ids :: "pyval list"

definition fleet_machines :: "(string \<times> string) list \<Rightarrow> pyval list" where
  "fleet_machines ms = map (\<lambda>(i, st). PDict [(''machine_id'', PStr i), (''status'', PStr st), (''vcpus'', PInt 2)]) ms"

definition mem_orb :: "mem_fleet orb_env" where
  "mem_orb = \<lparr>orb_environ = (\<lambda>k. None), orb_open = (\<lambda>w. (Inr (), w)), orb_close = (\<lambda>x w. (Inr False, w)),
     list_requests = (\<lambda>w. (Inr (PDict [(''requests'', PList
       [PDict [(''request_id'', PStr ''r-1''), (''status'', PStr ''pending'')],
        PDict [(''request_id'', PStr ''r-2''), (''status'', PStr ''COMPLETE'')], PDict []])]), w)),
     get_request_status = (\<lambda>ids w. (Inr PNone, w\<lparr>synced_ids := synced_ids w @ ids\<rparr>)),
     list_machines = (\<lambda>w. (Inr (PDict [(''machines'', PList (fleet_machines (fleet w)))]), w)),
     request_machines = (\<lambda>t n w. (Inr PNone, w)),
     return_machines = (\<lambda>ids w. (Inr PNone, w\<lparr>fleet :=
       map (\<lambda>(i, st). (i, if (case ids of PList xs \<Rightarrow> PStr i \<in> set xs | _ \<Rightarrow> False) then ''terminated'' else st)) (fleet w)\<rparr>)),
     exn_class = (\<lambda>e. ''Exception'')\<rparr>"

text \<open>The runtime of the lambda: it reads the payload, runs the handler and prints its answer.\<close>

definition orchestrator_lambda :: "'w orb_env \<Rightarrow> string \<Rightarrow> 'w \<Rightarrow> (exn + string) \<times> 'w" where
  "orchestrator_lambda env payload w = (case bind_result (utf8_decode payload) json_loads of
      Inl e \<Rightarrow> (Inl e, w)
    | Inr event \<Rightarrow> (case orb_handler env event w of
          Some (Inr r, w') \<Rightarrow> (Inr (utf8_encode (json_dumps r)), w')
        | _ \<Rightarrow> (Inr ''{}'', w)))"

definition fleet_env :: "mem_fleet capacity_env" where
  "fleet_env = \<lparr>cap_host = mem_host, cap_db = mem_ddb, cap_sqs = mem_sqs, cap_queue = QueueSQS ''tasks'',
     ec2_create_tags = (\<lambda>ids tags w. (Inr (), w)), ec2_delete_tags = (\<lambda>ids tags w. (Inr (), w)),
     ec2_describe_instances = (\<lambda>ids w. (Inr (PDict []), w)), ssm_send_command = (\<lambda>ids c w. (Inr (PDict []), w)),
     lambda_invoke = orchestrator_lambda mem_orb, DRAIN_DEADLINE_SEC = 1500, TEMPLATE_ID = ''t''\<rparr>"

lemma fleet_link: "invokes_orchestrator fleet_env mem_orb"
  by (simp add: invokes_orchestrator_def fleet_env_def orchestrator_lambda_def)

lemma mem_orb_view: "only_returns_change mem_orb fleet"
  by (simp add: only_returns_change_def mem_orb_def)

lemma fleet_env_keeps: "capacity_keeps fleet_env (fleet :: mem_fleet \<Rightarrow> _)"
  by (auto simp: capacity_keeps_def fleet_env_def host_keeps_def ddb_keeps_def keeps_def io_read_apply mem_update_def
      mem_query_def mem_batch_def Let_def split: option.splits if_splits)

definition small_fleet :: mem_fleet where
  "small_fleet = \<lparr>mem_rows = [], mem_faults = [], mem_clock = 1000000, mem_msgs = (\<lambda>q. []), mem_objects = Map.empty, mem_cache = Map.empty,
     fleet = [(''i-1'', ''running''), (''i-2'', ''terminated'')], synced_ids = []\<rparr>"

section \<open>Witnesses\<close>

lemma mem_orb_no_swallow: "fst (orb_close mem_orb x u) \<noteq> Inr True"
  by (simp add: mem_orb_def)

lemma status_run: "case orb_dispatch mem_orb status_event small_fleet of Some (Inr b, w) \<Rightarrow> True | _ \<Rightarrow> False"
  by code_simp

lemma status_answer:
  obtains b w where "orb_dispatch mem_orb status_event small_fleet = Some (Inr b, w)"
    and "orb_handler mem_orb status_event small_fleet = Some (Inr (ok_answer b), w)"
proof -
  obtain b w where "orb_dispatch mem_orb status_event small_fleet = Some (Inr b, w)" using status_run by (auto simp: run_iff)
  then show thesis by (intro that) (simp_all add: orb_handler_apply status_event_def)
qed

theorem status_lists_live_machines_witness:
  "\<exists>b w' d w1 w2 ms. orb_handler mem_orb status_event small_fleet = Some (Inr (ok_answer b), w') \<and>
     orb_open mem_orb small_fleet = (Inr (), w1) \<and>
     list_machines mem_orb (synced mem_orb (requests_to_sync (fst (list_requests mem_orb w1))) (snd (list_requests mem_orb w1))) = (Inr d, w2) \<and>
     bind_result (py_get_default d ''machines'' (PList [])) py_iter = Inr ms \<and>
     b = PDict [(''action'', PStr ''status''), (''result'', PDict [(''machines'', PList (filter is_live ms)),
       (''count'', PInt (int (length (filter is_live ms))))])]"
proof -
  obtain b w' where run: "orb_handler mem_orb status_event small_fleet = Some (Inr (ok_answer b), w')"
    by (rule status_answer)
  from status_lists_live_machines [OF run [unfolded status_event_def] _ _ _ mem_orb_no_swallow, folded status_event_def] status_fields run
  show ?thesis by fastforce
qed

definition terminate_event :: "(string \<times> pyval) list" where
  "terminate_event = [(''action'', PStr ''terminate''), (''machine_ids'', PList [PStr ''i-1''])]"

lemma terminate_run:
  "case orb_handler mem_orb (PDict terminate_event) small_fleet of Some (r, w) \<Rightarrow> fleet w \<noteq> fleet small_fleet | _ \<Rightarrow> False"
  by code_simp

theorem only_requested_terminations_witness:
  "\<exists>r w' u. orb_handler mem_orb (PDict terminate_event) small_fleet = Some (r, w') \<and> fleet w' \<noteq> fleet small_fleet \<and>
     fleet u = fleet small_fleet \<and> fleet w' = fleet (snd (return_machines mem_orb (PList [PStr ''i-1'']) u))"
proof -
  obtain r w' where run: "orb_handler mem_orb (PDict terminate_event) small_fleet = Some (r, w')" "fleet w' \<noteq> fleet small_fleet"
    using terminate_run by (auto split: option.splits)
  have f: "\<not> truthy (field (PDict terminate_event) ''all'')"
    "field (PDict terminate_event) ''machine_ids'' = PList [PStr ''i-1'']" by (simp_all add: terminate_event_def field_def)
  from only_requested_terminations [OF mem_orb_view run(1)] run f show ?thesis by auto
qed

theorem controller_sees_live_machines_witness:
  "\<exists>w'. list_live fleet_env small_fleet = Some (Inr (PList (fleet_machines [(''i-1'', ''running'')])), w')"
proof -
  have wf: "json_wf d" if "fst (list_machines mem_orb u) = Inr d" for u d
    using that by (auto simp: mem_orb_def fleet_machines_def)
  have orb: "orb_open mem_orb u = (Inr (), u)" "fleet (snd (list_requests mem_orb u)) = fleet u"
    "list_machines mem_orb u = (Inr (PDict [(''machines'', PList (fleet_machines (fleet u)))]), u)" for u
    by (simp_all add: mem_orb_def)
  have synced: "fleet (synced mem_orb ids u) = fleet u" for ids u
    by (induction ids arbitrary: u) (simp_all add: synced_def mem_orb_def)
  have live: "filter is_live (fleet_machines (fleet small_fleet)) = fleet_machines [(''i-1'', ''running'')]" by code_simp
  obtain b w where "orb_dispatch mem_orb status_event small_fleet = Some (Inr b, w)" by (rule status_answer)
  with controller_sees_live_machines [OF fleet_link mem_orb_no_swallow wf, where w = small_fleet]
  show ?thesis by (auto simp: orb synced live py_iter_def)
qed

lemma fleet_tick:
  "case reconcile fleet_env small_config 1000 0 three_machines small_fleet of Some (r, w) \<Rightarrow> fleet w \<noteq> fleet small_fleet | _ \<Rightarrow> False"
  by code_simp

theorem tick_terminates_only_drained_witness:
  "\<exists>r w' busy w1 T. reconcile fleet_env small_config 1000 0 three_machines small_fleet = Some (r, w') \<and>
     fleet w' \<noteq> fleet small_fleet \<and> busy_instance_ids fleet_env small_fleet = Some (Inr busy, w1) \<and> T \<noteq> [] \<and>
     (\<forall>m \<in> set T. m \<in> set three_machines \<and> is_draining m \<and> may_terminate busy 1000 m)"
proof -
  obtain r w' where run: "reconcile fleet_env small_config 1000 0 three_machines small_fleet = Some (r, w')" "fleet w' \<noteq> fleet small_fleet"
    using fleet_tick by (auto split: option.splits)
  have "\<forall>m \<in> set three_machines. json_wf (machine_id_of m)"
    by (simp add: three_machines_def machine_def machine_id_of_def field_def)
  from tick_terminates_only_drained [OF fleet_link mem_orb_view fleet_env_keeps run(1) this] run show ?thesis by blast
qed

end
