(* ===== verification/Drainer.thy ===== *)
theory Drainer
  imports Lambdas
begin

text \<open>
  The Kubernetes drainer, \<open>source/compute_plane/python/lambda/drainer\<close>: the lambda that an Auto Scaling lifecycle hook calls
  before an instance is terminated (\<open>handler.py\<close>), and what it does to the pods of its node (\<open>k8s_utils.py\<close>).  The
  Kubernetes client, EKS, EC2, S3, Auto Scaling and the signer of requests are parameters.  Left out: logging.
\<close>

record owner_reference =
  owner_controller :: "bool option"
  owner_kind :: string

record pod =
  pod_name :: string
  pod_namespace :: string
  pod_annotations :: "(string \<times> string) list option"
  pod_owners :: "owner_reference list option"

record 'w kube_env =
  kube_patch_node :: "string \<Rightarrow> pyval \<Rightarrow> 'w \<Rightarrow> (exn + unit) \<times> 'w"
  kube_list_pods :: "string \<Rightarrow> 'w \<Rightarrow> (exn + pod list) \<times> 'w" \<comment> \<open>of a field selector\<close>
  kube_create_eviction :: "string \<Rightarrow> string \<Rightarrow> pyval \<Rightarrow> 'w \<Rightarrow> (exn + unit) \<times> 'w"
  kube_list_nodes :: "'w \<Rightarrow> (exn + string list) \<times> 'w" \<comment> \<open>the names of the nodes\<close>
  kube_sleep :: "int \<Rightarrow> 'w \<Rightarrow> 'w"

section \<open>\<open>k8s_utils.py\<close>\<close>

definition MIRROR_POD_ANNOTATION_KEY :: string where "MIRROR_POD_ANNOTATION_KEY = ''kubernetes.io/config.mirror''"
definition CONTROLLER_KIND_DAEMON_SET :: string where "CONTROLLER_KIND_DAEMON_SET = ''DaemonSet''"

definition cordon_node :: "'w kube_env \<Rightarrow> string \<Rightarrow> ('w, unit) io" where
  "cordon_node api node_name = io_call (kube_patch_node api node_name (PDict
     [(''apiVersion'', PStr ''v1''), (''kind'', PStr ''Node''), (''metadata'', PDict [(''name'', PStr node_name)]),
      (''spec'', PDict [(''unschedulable'', PBool True)])]))"

fun owned_by_daemon_set :: "owner_reference list \<Rightarrow> bool" where
  "owned_by_daemon_set [] = False"
| "owned_by_daemon_set (ref # refs) =
     (if owner_controller ref = Some True \<and> owner_kind ref = CONTROLLER_KIND_DAEMON_SET then True
      else owned_by_daemon_set refs)"

definition pod_is_evictable :: "pod \<Rightarrow> bool" where
  "pod_is_evictable pod =
     (if (case pod_annotations pod of None \<Rightarrow> False
          | Some a \<Rightarrow> (case map_of a MIRROR_POD_ANNOTATION_KEY of None \<Rightarrow> False | Some v \<Rightarrow> v \<noteq> [])) then False
      else case pod_owners pod of None \<Rightarrow> True | Some refs \<Rightarrow> \<not> owned_by_daemon_set refs)"

definition node_selector :: "string \<Rightarrow> string" where
  "node_selector node_name = ''spec.nodeName='' @ node_name"

definition get_evictable_pods :: "'w kube_env \<Rightarrow> string \<Rightarrow> ('w, pod list) io" where
  "get_evictable_pods api node_name =
     io_bind (io_call (kube_list_pods api (node_selector node_name))) (\<lambda>pods.
       io_return (filter pod_is_evictable pods))"

definition eviction_body :: "pod \<Rightarrow> pyval" where
  "eviction_body pod = PDict
     [(''apiVersion'', PStr ''policy/v1beta1''), (''kind'', PStr ''Eviction''), (''deleteOptions'', PDict []),
      (''metadata'', PDict [(''name'', PStr (pod_name pod)), (''namespace'', PStr (pod_namespace pod))])]"

text \<open>One request of an eviction: true if the pod remains to be evicted.\<close>

definition evict_pod :: "'w kube_env \<Rightarrow> pod \<Rightarrow> ('w, bool) io" where
  "evict_pod api pod = io_catch
     (io_bind (io_call (kube_create_eviction api (pod_name pod) (pod_namespace pod) (eviction_body pod)))
       (\<lambda>_. io_return False))
     (\<lambda>err. case err of
        KubeApiException status \<Rightarrow> if status = 429 then io_return True else io_return False
      | _ \<Rightarrow> io_return False)"

fun evict_pods :: "'w kube_env \<Rightarrow> pod list \<Rightarrow> ('w, pod list) io" where
  "evict_pods api [] = io_return []"
| "evict_pods api (pod # pods) =
     io_bind (evict_pod api pod) (\<lambda>remains.
     io_bind (evict_pods api pods) (\<lambda>remaining. io_return (if remains then pod # remaining else remaining)))"

partial_function (option) evict_until_completed ::
  "'w kube_env \<Rightarrow> pod list \<Rightarrow> int \<Rightarrow> 'w \<Rightarrow> ((exn + unit) \<times> 'w) option"
where
  "evict_until_completed api pods poll w =
     io_bind (evict_pods api pods) (\<lambda>pending w.
       if pending = [] then io_return () w
       else io_then (io_modify (kube_sleep api poll)) (evict_until_completed api pending poll) w) w"

declare evict_until_completed.simps [code]

definition wait_round :: "'w kube_env \<Rightarrow> string \<Rightarrow> int \<Rightarrow> ('w, unit option) io" where
  "wait_round api node_name poll =
     io_bind (get_evictable_pods api node_name) (\<lambda>pods.
       if pods = [] then io_return (Some ())
       else io_then (io_modify (kube_sleep api poll)) (io_return None))"

definition wait_until_empty :: "'w kube_env \<Rightarrow> string \<Rightarrow> int \<Rightarrow> ('w, unit) io" where
  "wait_until_empty api node_name poll = io_until (wait_round api node_name poll)"

definition remove_all_pods :: "'w kube_env \<Rightarrow> string \<Rightarrow> int \<Rightarrow> ('w, unit) io" where
  "remove_all_pods api node_name poll =
     io_bind (get_evictable_pods api node_name) (\<lambda>pods.
     io_then (evict_until_completed api pods poll) (wait_until_empty api node_name poll))"

definition node_exists :: "'w kube_env \<Rightarrow> string \<Rightarrow> ('w, bool) io" where
  "node_exists api node_name =
     io_bind (io_call (kube_list_nodes api)) (\<lambda>nodes. io_return (List.find (\<lambda>n. n = node_name) nodes \<noteq> None))"

section \<open>\<open>handler.py\<close>\<close>

record 'w drainer_env =
  os_environ :: "string \<Rightarrow> string option"
  aws_region :: string
  kubeconfig_exists :: "'w \<Rightarrow> bool \<times> 'w"
  s3_download_kubeconfig :: "string \<Rightarrow> string option \<Rightarrow> 'w \<Rightarrow> (exn + unit) \<times> 'w" \<comment> \<open>bucket and object\<close>
  eks_describe_cluster :: "string option \<Rightarrow> 'w \<Rightarrow> (exn + pyval) \<times> 'w"
  write_kubeconfig :: "pyval \<Rightarrow> 'w \<Rightarrow> (exn + unit) \<times> 'w" \<comment> \<open>\<open>yaml.dump\<close> into \<open>KUBE_FILEPATH\<close>\<close>
  ec2_describe :: "pyval list \<Rightarrow> 'w \<Rightarrow> (exn + pyval) \<times> 'w"
  load_kube_config :: "'w \<Rightarrow> (exn + unit) \<times> 'w"
  presigned_url :: "pyval \<Rightarrow> string \<Rightarrow> int \<Rightarrow> 'w \<Rightarrow> (exn + string) \<times> 'w" \<comment> \<open>parameters, region, expiry\<close>
  kube_client :: "string option \<Rightarrow> 'w kube_env" \<comment> \<open>of the bearer token in its configuration\<close>
  complete_lifecycle_action :: "pyval \<Rightarrow> pyval \<Rightarrow> string \<Rightarrow> string \<Rightarrow> 'w \<Rightarrow> (exn + unit) \<times> 'w"
    \<comment> \<open>hook, group, result, instance\<close>

definition kube_config_of :: "pyval \<Rightarrow> pyval \<Rightarrow> pyval" where
  "kube_config_of certificate endpoint = PDict
     [(''apiVersion'', PStr ''v1''),
      (''clusters'', PList [PDict
         [(''cluster'', PDict [(''server'', endpoint), (''certificate-authority-data'', certificate)]), (''name'', PStr ''k8s'')]]),
      (''contexts'', PList [PDict
         [(''context'', PDict [(''cluster'', PStr ''k8s''), (''user'', PStr ''aws'')]), (''name'', PStr ''aws'')]]),
      (''current-context'', PStr ''aws''), (''Kind'', PStr ''config''),
      (''users'', PList [PDict [(''name'', PStr ''aws''), (''user'', PStr ''lambda'')]])]"

definition create_kube_config :: "'w drainer_env \<Rightarrow> string option \<Rightarrow> ('w, unit) io" where
  "create_kube_config env cluster_name =
     io_bind (io_call (eks_describe_cluster env cluster_name)) (\<lambda>resp.
     io_bind (io_of (py_index resp ''cluster'')) (\<lambda>cluster_info.
     io_bind (io_of (py_path cluster_info [''certificateAuthority'', ''data''])) (\<lambda>certificate.
     io_bind (io_of (py_index cluster_info ''endpoint'')) (\<lambda>endpoint.
       io_call (write_kubeconfig env (kube_config_of certificate endpoint))))))"

definition STS_TOKEN_EXPIRES_IN :: int where "STS_TOKEN_EXPIRES_IN = 60"

definition token_params :: "string option \<Rightarrow> string \<Rightarrow> pyval" where
  "token_params cluster region = PDict
     [(''method'', PStr ''GET''),
      (''url'', PStr (''https://sts.'' @ region @ ''.amazonaws.com/?Action=GetCallerIdentity&Version=2011-06-15'')),
      (''body'', PDict []),
      (''headers'', PDict [(''x-k8s-aws-id'', case cluster of None \<Rightarrow> PNone | Some c \<Rightarrow> PStr c)]),
      (''context'', PDict [])]"

text \<open>The padding of the encoding is removed.\<close>

definition get_bearer_token :: "'w drainer_env \<Rightarrow> string option \<Rightarrow> string \<Rightarrow> ('w, string) io" where
  "get_bearer_token env cluster region =
     io_bind (io_call (presigned_url env (token_params cluster region) region STS_TOKEN_EXPIRES_IN)) (\<lambda>signed_url.
       io_return (''k8s-aws-v1.'' @ filter (\<lambda>c. c \<noteq> CHR ''='') (urlsafe_b64encode (utf8_encode signed_url))))"

definition abandon_lifecycle_action :: "'w drainer_env \<Rightarrow> pyval \<Rightarrow> pyval \<Rightarrow> string \<Rightarrow> ('w, unit) io" where
  "abandon_lifecycle_action env auto_scaling_group_name lifecycle_hook_name instance_id =
     io_call (complete_lifecycle_action env lifecycle_hook_name auto_scaling_group_name ''ABANDON'' instance_id)"

text \<open>\<open>v[0]\<close>.\<close>

definition py_first :: "pyval \<Rightarrow> exn + pyval" where
  "py_first v = (case v of
      PList xs \<Rightarrow> list_index xs 0
    | PStr s \<Rightarrow> (case s of [] \<Rightarrow> Inl IndexError | c # cs \<Rightarrow> Inr (PStr [c]))
    | PDict d \<Rightarrow> Inl KeyError
    | _ \<Rightarrow> Inl TypeError)"

text \<open>A value that is concatenated to a text.\<close>

definition as_text :: "pyval \<Rightarrow> exn + string" where
  "as_text v = (case v of PStr s \<Rightarrow> Inr s | _ \<Rightarrow> Inl TypeError)"

definition node_of_instance :: "'w drainer_env \<Rightarrow> string \<Rightarrow> ('w, string) io" where
  "node_of_instance env instance_id =
     io_bind (io_call (ec2_describe env [PStr instance_id])) (\<lambda>resp.
       io_of (bind_result (py_index resp ''Reservations'') (\<lambda>rs. bind_result (py_first rs) (\<lambda>r.
         bind_result (py_index r ''Instances'') (\<lambda>insts. bind_result (py_first insts) (\<lambda>i.
           bind_result (py_index i ''PrivateDnsName'') as_text))))))"

definition given :: "string option \<Rightarrow> bool" where
  "given v \<longleftrightarrow> v \<noteq> None \<and> v \<noteq> Some []"

text \<open>The body of the \<open>try\<close>: with an \<open>ApiException\<close> of the Kubernetes client the action is abandoned.\<close>

definition drain_node :: "'w drainer_env \<Rightarrow> 'w kube_env \<Rightarrow> pyval \<Rightarrow> pyval \<Rightarrow> string \<Rightarrow> string \<Rightarrow> ('w, unit) io" where
  "drain_node env v1 auto_scaling_group_name lifecycle_hook_name instance_id node_name =
     io_bind (node_exists v1 node_name) (\<lambda>found.
     if \<not> found then abandon_lifecycle_action env auto_scaling_group_name lifecycle_hook_name instance_id
     else
       io_then (cordon_node v1 node_name)
       (io_then (remove_all_pods v1 node_name 5)
         (io_call (complete_lifecycle_action env lifecycle_hook_name auto_scaling_group_name ''CONTINUE'' instance_id))))"

text \<open>What comes before: the configuration of the client, the hook, the group, the instance and its node.\<close>

definition drainer_prepare :: "'w drainer_env \<Rightarrow> pyval \<Rightarrow> ('w, pyval \<times> pyval \<times> string \<times> string \<times> string option) io" where
  "drainer_prepare env event =
     (let kube_config_bucket = os_environ env ''KUBE_CONFIG_BUCKET''; cluster_name = os_environ env ''CLUSTER_NAME'' in
      io_bind (io_read (kubeconfig_exists env)) (\<lambda>there.
      io_then (if there then io_return ()
        else if given kube_config_bucket then
          io_call (s3_download_kubeconfig env (the kube_config_bucket) (os_environ env ''KUBE_CONFIG_OBJECT''))
        else create_kube_config env cluster_name)
      (io_bind (io_of (py_path event [''detail'', ''LifecycleHookName''])) (\<lambda>lifecycle_hook_name.
       io_bind (io_of (py_path event [''detail'', ''AutoScalingGroupName''])) (\<lambda>auto_scaling_group_name.
       io_bind (io_of (bind_result (py_path event [''detail'', ''EC2InstanceId'']) as_text)) (\<lambda>instance_id.
       io_bind (node_of_instance env instance_id) (\<lambda>node_name.
       io_then (io_call (load_kube_config env))
       (io_bind (if given kube_config_bucket then io_return None
          else io_bind (get_bearer_token env cluster_name (aws_region env)) (\<lambda>t. io_return (Some t))) (\<lambda>bearer.
        io_return (lifecycle_hook_name, auto_scaling_group_name, instance_id, node_name, bearer))))))))))"

definition drainer_handler :: "'w drainer_env \<Rightarrow> pyval \<Rightarrow> ('w, unit) io" where
  "drainer_handler env event =
     io_bind (drainer_prepare env event)
       (\<lambda>(lifecycle_hook_name, auto_scaling_group_name, instance_id, node_name, bearer).
     io_catch
       (drain_node env (kube_client env bearer) auto_scaling_group_name lifecycle_hook_name instance_id node_name)
       (\<lambda>e. case e of
          KubeApiException status \<Rightarrow>
            abandon_lifecycle_action env auto_scaling_group_name lifecycle_hook_name instance_id
        | _ \<Rightarrow> io_raise e))"

end
