(* ===== verification/DrainerProps.thy ===== *)
theory DrainerProps
  imports Drainer
begin

text \<open>
  Properties of the Kubernetes drainer: which pods it evicts and how often it asks for it, when it lets the instance go
  or abandons the action, and when it never returns.  DrainerRun has the witnesses.
\<close>

section \<open>Evictions\<close>

text \<open>What the Kubernetes API expects: the field selector of the pods of a node, and the body of a request to evict a pod.\<close>

definition selects_node :: "string \<Rightarrow> string" where
  "selects_node n = ''spec.nodeName='' @ n"

definition eviction_request :: "pod \<Rightarrow> pyval" where
  "eviction_request p = PDict
     [(''apiVersion'', PStr ''policy/v1beta1''), (''kind'', PStr ''Eviction''), (''deleteOptions'', PDict []),
      (''metadata'', PDict [(''name'', PStr (pod_name p)), (''namespace'', PStr (pod_namespace p))])]"

lemma node_selector_selects [simp]: "node_selector n = selects_node n"
  by (simp add: node_selector_def selects_node_def)

lemma eviction_body_request [simp]: "eviction_body p = eviction_request p"
  by (simp add: eviction_body_def eviction_request_def)

abbreviation ask_eviction :: "'w kube_env \<Rightarrow> pod \<Rightarrow> 'w \<Rightarrow> (exn + unit) \<times> 'w" where
  "ask_eviction api p \<equiv> kube_create_eviction api (pod_name p) (pod_namespace p) (eviction_request p)"

definition too_many :: "exn + unit \<Rightarrow> bool" where
  "too_many answer \<longleftrightarrow> answer = Inl (KubeApiException 429)"

lemma evict_pod_apply: "evict_pod api p w = Some (Inr (too_many (fst (ask_eviction api p w))), snd (ask_eviction api p w))"
  by (cases "ask_eviction api p w")
    (auto simp: evict_pod_def io_catch_apply io_bind_apply too_many_def split: sum.split exn.split)

text \<open>The world after one round of requests.\<close>

definition asked :: "'w kube_env \<Rightarrow> pod list \<Rightarrow> 'w \<Rightarrow> 'w" where
  "asked api pods w = fold (\<lambda>p w. snd (ask_eviction api p w)) pods w"

lemma evict_pods_apply: "\<exists>rest. evict_pods api pods w = Some (Inr rest, asked api pods w) \<and> set rest \<subseteq> set pods \<and>
   (\<forall>p \<in> set rest. \<exists>u. too_many (fst (ask_eviction api p u)))"
proof (induction pods arbitrary: w)
  case (Cons p pods)
  from Cons.IH [of "snd (ask_eviction api p w)"] obtain rest where
    "evict_pods api pods (snd (ask_eviction api p w)) = Some (Inr rest, asked api pods (snd (ask_eviction api p w)))"
    "set rest \<subseteq> set pods" "\<forall>p \<in> set rest. \<exists>u. too_many (fst (ask_eviction api p u))" by blast
  then show ?case by (auto simp: io_bind_apply evict_pod_apply asked_def)
qed (simp add: asked_def)

text \<open>What the eviction loop does: requests with their answers, and pauses; and the worlds before and after.\<close>

datatype drain_call = Evict pod "exn + unit" | Pause

primrec performed :: "'w kube_env \<Rightarrow> int \<Rightarrow> drain_call list \<Rightarrow> 'w \<Rightarrow> 'w \<Rightarrow> bool" where
  "performed api poll [] w w' \<longleftrightarrow> w' = w"
| "performed api poll (c # cs) w w' \<longleftrightarrow> (case c of
      Evict p answer \<Rightarrow> answer = fst (ask_eviction api p w) \<and> performed api poll cs (snd (ask_eviction api p w)) w'
    | Pause \<Rightarrow> performed api poll cs (kube_sleep api poll w) w')"

fun answers :: "pod \<Rightarrow> drain_call list \<Rightarrow> (exn + unit) list" where
  "answers p [] = []"
| "answers p (Evict q answer # cs) = (if q = p then answer # answers p cs else answers p cs)"
| "answers p (Pause # cs) = answers p cs"

lemma performed_append:
  "performed api poll (cs @ ds) w w' \<longleftrightarrow> (\<exists>u. performed api poll cs w u \<and> performed api poll ds u w')"
  by (induction cs arbitrary: w) (auto split: drain_call.split)

lemma answers_append [simp]: "answers p (cs @ ds) = answers p cs @ answers p ds"
  by (induction p cs rule: answers.induct) auto

lemma evict_pods_calls:
  assumes "distinct pods"
  shows "\<exists>rest calls. evict_pods api pods w = Some (Inr rest, asked api pods w) \<and> distinct rest \<and> set rest \<subseteq> set pods \<and>
     performed api poll calls w (asked api pods w) \<and> (\<forall>p. p \<notin> set pods \<longrightarrow> answers p calls = []) \<and>
     (\<forall>p \<in> set pods. \<exists>a. answers p calls = [a] \<and> (too_many a \<longleftrightarrow> p \<in> set rest))"
  using assms
proof (induction pods arbitrary: w)
  case Nil
  then show ?case by (intro exI [of _ "[]"]) (simp add: asked_def)
next
  case (Cons p pods)
  obtain a u where a: "ask_eviction api p w = (a, u)" by fastforce
  have "distinct pods" using Cons.prems by simp
  from Cons.IH [OF this, of u] obtain rest calls where r: "evict_pods api pods u = Some (Inr rest, asked api pods u)" "distinct rest"
    "set rest \<subseteq> set pods" "performed api poll calls u (asked api pods u)" "\<forall>q. q \<notin> set pods \<longrightarrow> answers q calls = []"
    "\<forall>q \<in> set pods. \<exists>a. answers q calls = [a] \<and> (too_many a \<longleftrightarrow> q \<in> set rest)" by blast
  have "asked api (p # pods) w = asked api pods u" by (simp add: asked_def a)
  with r a Cons.prems show ?case
    by (intro exI [of _ "if too_many a then p # rest else rest"] exI [of _ "Evict p a # calls"])
      (auto simp: io_bind_apply evict_pod_apply)
qed

lemma evict_until_completed_not_raises:
  "evict_until_completed api pods poll w = Some y \<Longrightarrow> fst y = Inr ()"
proof (induction api pods poll w y rule: evict_until_completed.raw_induct [rotated, consumes 1, case_names step])
  case (step f api pods poll w y)
  obtain rest where "evict_pods api pods w = Some (Inr rest, asked api pods w)"
    using evict_pods_apply [of api pods w] by blast
  with step.hyps show ?case
    by (auto simp: io_bind_apply io_then_apply split: if_splits intro: step.IH)
qed

section \<open>Waiting\<close>

lemma wait_round_apply:
  "wait_round api n poll w = (case kube_list_pods api (selects_node n) w of
      (Inl e, t) \<Rightarrow> Some (Inl e, t)
    | (Inr pods, t) \<Rightarrow> if filter pod_is_evictable pods = [] then Some (Inr (Some ()), t)
        else Some (Inr None, kube_sleep api poll t))"
  by (cases "kube_list_pods api (selects_node n) w")
    (auto simp: wait_round_def get_evictable_pods_def io_bind_apply io_then_apply split: sum.split)

lemma wait_round_end:
  "wait_round api n poll u = Some (Inr (Some ()), t) \<Longrightarrow>
     \<exists>pods. kube_list_pods api (selects_node n) u = (Inr pods, t) \<and> filter pod_is_evictable pods = []"
  by (cases "kube_list_pods api (selects_node n) u") (auto simp: wait_round_apply split: sum.splits if_splits)

lemma wait_until_empty_Inr:
  "wait_until_empty api n poll w = Some (Inr (), t) \<Longrightarrow>
     \<exists>u pods. kube_list_pods api (selects_node n) u = (Inr pods, t) \<and> filter pod_is_evictable pods = []"
  by (auto simp: wait_until_empty_def io_until_Inr dest!: wait_round_end)

lemma remove_all_pods_Inr:
  "remove_all_pods api n poll w = Some (Inr (), t) \<Longrightarrow>
     \<exists>u pods. kube_list_pods api (selects_node n) u = (Inr pods, t) \<and> filter pod_is_evictable pods = []"
  by (auto simp: remove_all_pods_def io_bind_Inr io_then_Inr dest!: wait_until_empty_Inr)

text \<open>C25. The eviction loop asks for exactly the pods it was given.  A pod is asked for again as long as the answer is \<open>429\<close>, a
  disruption budget that does not allow the eviction yet; after any other answer it is never asked for again, be it granted or refused for
  another reason: such a refusal is given up without a retry and is not reported, for the loop never raises.\<close>

theorem refused_eviction_given_up:
  assumes "distinct pods" and "evict_until_completed api pods poll w = Some (r, w')"
  shows "r = Inr () \<and> (\<exists>calls. performed api poll calls w w' \<and>
     (\<forall>p \<in> set pods. \<exists>k a. answers p calls = replicate k (Inl (KubeApiException 429)) @ [a] \<and> a \<noteq> Inl (KubeApiException 429)) \<and>
     (\<forall>p. p \<notin> set pods \<longrightarrow> answers p calls = []))"
proof -
  have "fst y = Inr () \<and> (\<exists>calls. performed api poll calls w (snd y) \<and>
     (\<forall>p \<in> set pods. \<exists>k a. answers p calls = replicate k (Inl (KubeApiException 429)) @ [a] \<and> \<not> too_many a) \<and>
     (\<forall>p. p \<notin> set pods \<longrightarrow> answers p calls = []))"
    if "evict_until_completed api pods poll w = Some y" for y
    using that assms(1)
  proof (induction api pods poll w y rule: evict_until_completed.raw_induct [rotated, consumes 1, case_names step])
    case (step f api pods poll w y)
    from evict_pods_calls [OF step.prems, of api w poll] obtain rest calls where
      r: "evict_pods api pods w = Some (Inr rest, asked api pods w)" "distinct rest" "set rest \<subseteq> set pods"
      and c: "performed api poll calls w (asked api pods w)" "\<forall>p. p \<notin> set pods \<longrightarrow> answers p calls = []"
        "\<forall>p \<in> set pods. \<exists>a. answers p calls = [a] \<and> (too_many a \<longleftrightarrow> p \<in> set rest)" by blast
    show ?case
    proof (cases "rest = []")
      case True
      with step.hyps r have "y = (Inr (), asked api pods w)" by (simp add: io_bind_apply)
      moreover have "\<exists>k a. answers p calls = replicate k (Inl (KubeApiException 429)) @ [a] \<and> \<not> too_many a"
        if "p \<in> set pods" for p
        using c(3) that True by (intro exI [of _ 0]) auto
      ultimately show ?thesis using c by auto
    next
      case False
      with step.hyps r have "f api rest poll (kube_sleep api poll (asked api pods w)) = Some y"
        by (auto simp: io_bind_apply io_then_apply split: option.splits sum.splits)
      from step.IH [OF this r(2)] obtain later where ih: "fst y = Inr ()"
        "performed api poll later (kube_sleep api poll (asked api pods w)) (snd y)"
        "\<forall>p \<in> set rest. \<exists>k a. answers p later = replicate k (Inl (KubeApiException 429)) @ [a] \<and> \<not> too_many a"
        "\<forall>p. p \<notin> set rest \<longrightarrow> answers p later = []" by blast
      have "performed api poll (calls @ Pause # later) w (snd y)" using c(1) ih(2) by (auto simp: performed_append)
      moreover have "\<exists>k a. answers p (calls @ Pause # later) = replicate k (Inl (KubeApiException 429)) @ [a] \<and> \<not> too_many a"
        if p: "p \<in> set pods" for p
      proof -
        from c(3) p obtain a where a: "answers p calls = [a]" "too_many a \<longleftrightarrow> p \<in> set rest" by blast
        show ?thesis
        proof (cases "p \<in> set rest")
          case True
          with ih(3) obtain k b where "answers p later = replicate k (Inl (KubeApiException 429)) @ [b]" "\<not> too_many b" by blast
          with a True show ?thesis by (intro exI [of _ "Suc k"] exI [of _ b]) (simp add: too_many_def)
        next
          case False
          with a ih(4) show ?thesis by (intro exI [of _ 0] exI [of _ a]) simp
        qed
      qed
      moreover have "answers p (calls @ Pause # later) = []" if "p \<notin> set pods" for p
        using that c(2) ih(4) r(3) by auto
      ultimately show ?thesis using ih(1) by blast
    qed
  qed
  from this [OF assms(2)] show ?thesis by (simp add: too_many_def)
qed

text \<open>A pod that is never let go stays among those to be evicted.\<close>

lemma blocked_pod_remains:
  assumes "\<And>u. too_many (fst (ask_eviction api p u))" and "p \<in> set pods"
  shows "\<exists>rest. evict_pods api pods w = Some (Inr rest, asked api pods w) \<and> p \<in> set rest"
  using assms(2)
proof (induction pods arbitrary: w)
  case (Cons q pods)
  obtain rest where "evict_pods api pods (snd (ask_eviction api q w)) = Some (Inr rest, asked api pods (snd (ask_eviction api q w)))"
    using evict_pods_apply [of api pods "snd (ask_eviction api q w)"] by blast
  moreover have "\<exists>rest. evict_pods api pods (snd (ask_eviction api q w)) =
      Some (Inr rest, asked api pods (snd (ask_eviction api q w))) \<and> p \<in> set rest" if "p \<in> set pods"
    using Cons.IH that by blast
  ultimately show ?case using Cons.prems assms(1)
    by (cases "q = p") (auto simp: io_bind_apply evict_pod_apply asked_def)
qed simp

lemma blocked_pod_loops:
  assumes "\<And>u. too_many (fst (ask_eviction api p u))" and "p \<in> set pods"
  shows "evict_until_completed api pods poll w = None"
proof -
  have "p \<notin> set pods'" if "evict_until_completed api' pods' poll' w' = Some y" "api' = api" for api' pods' poll' w' y
    using that
  proof (induction rule: evict_until_completed.raw_induct [rotated, consumes 1, case_names step])
    case (step f api' pods' poll' w' y)
    show ?case
    proof
      assume "p \<in> set pods'"
      from blocked_pod_remains [OF assms(1) this, of w'] obtain rest where
        "evict_pods api pods' w' = Some (Inr rest, asked api pods' w')" and p: "p \<in> set rest" by blast
      with step.hyps step.prems have "f api' rest poll' (kube_sleep api poll' (asked api pods' w')) = Some y"
        by (auto simp: io_bind_apply io_then_apply split: option.splits sum.splits if_splits)
      from step.IH [OF this step.prems] p show False by simp
    qed
  qed
  from this [of api pods poll w] assms(2) show ?thesis by (cases "evict_until_completed api pods poll w") auto
qed

text \<open>A pod that stays on the list is waited for, whatever was said to its eviction.\<close>

lemma waits_while_listed:
  assumes "\<And>u. \<exists>pods t. kube_list_pods api (selects_node n) u = (Inr pods, t) \<and> filter pod_is_evictable pods \<noteq> []"
  shows "wait_until_empty api n poll w = None"
proof -
  have round: "\<exists>t. wait_round api n poll u = Some (Inr None, t)" for u
    using assms [of u] by (auto simp: wait_round_apply)
  have "\<exists>t. io_rounds (wait_round api n poll) k u = Some t" for k u
    by (induction k arbitrary: u) (use round in \<open>fastforce split: option.split\<close>)+
  then show ?thesis unfolding wait_until_empty_def by (intro io_until_forever) (metis option.distinct(1))
qed

text \<open>C24. The drainer has no limit of its own.  If one evictable pod of the node has a disruption budget that never allows its eviction, so
  that each request for it is answered with \<open>429\<close>, the lambda never returns: the life cycle action is neither continued nor
  abandoned, whatever happens to the other pods.\<close>

theorem blocked_pod_never_returns:
  assumes prepared: "drainer_prepare env event w = Some (Inr (hook, asg, i, n, bearer), w1)"
    and found: "node_exists (kube_client env bearer) n w1 = Some (Inr True, w2)"
      "cordon_node (kube_client env bearer) n w2 = Some (Inr (), w3)"
    and listed: "kube_list_pods (kube_client env bearer) (selects_node n) w3 = (Inr pods, w4)" "p \<in> set pods" "pod_is_evictable p"
    and blocked: "\<And>u. fst (kube_create_eviction (kube_client env bearer) (pod_name p) (pod_namespace p) (eviction_request p) u) =
      Inl (KubeApiException 429)"
  shows "drainer_handler env event w = None"
proof -
  let ?api = "kube_client env bearer"
  have "evict_until_completed ?api (filter pod_is_evictable pods) 5 w4 = None"
    by (rule blocked_pod_loops) (use blocked listed in \<open>simp_all add: too_many_def\<close>)
  then have "remove_all_pods ?api n 5 w3 = None"
    using listed(1) by (simp add: remove_all_pods_def get_evictable_pods_def io_bind_apply io_then_apply)
  then have "drain_node env ?api asg hook i n w1 = None"
    using found by (simp add: drain_node_def io_bind_apply io_then_apply)
  then show ?thesis using prepared by (simp add: drainer_handler_def io_bind_apply io_catch_apply)
qed

section \<open>Which pods are evicted, and when the instance may go\<close>

text \<open>
  A pod that the drainer may evict: it is neither a mirror pod nor controlled by a daemon set.  Below, a view of the world that
  the calls of a drainer of the node \<open>n\<close> do not change, the eviction of such pods included, if a list of the pods of this node has them.
\<close>

definition may_evict :: "pod \<Rightarrow> bool" where
  "may_evict p \<longleftrightarrow>
     (\<forall>a v. pod_annotations p = Some a \<and> map_of a ''kubernetes.io/config.mirror'' = Some v \<longrightarrow> v = []) \<and>
     (\<forall>refs ref. pod_owners p = Some refs \<and> ref \<in> set refs \<longrightarrow> \<not> (owner_controller ref = Some True \<and> owner_kind ref = ''DaemonSet''))"

lemma owned_by_daemon_set_iff:
  "owned_by_daemon_set refs \<longleftrightarrow> (\<exists>ref \<in> set refs. owner_controller ref = Some True \<and> owner_kind ref = ''DaemonSet'')"
  by (induction refs) (auto simp: CONTROLLER_KIND_DAEMON_SET_def)

lemma pod_is_evictable_iff: "pod_is_evictable p \<longleftrightarrow> may_evict p"
  by (auto simp: pod_is_evictable_def may_evict_def owned_by_daemon_set_iff MIRROR_POD_ANNOTATION_KEY_def split: option.split)

definition evictable_listed :: "'w kube_env \<Rightarrow> string \<Rightarrow> pod \<Rightarrow> bool" where
  "evictable_listed api n p \<longleftrightarrow> may_evict p \<and>
     (\<exists>u pods t. kube_list_pods api (selects_node n) u = (Inr pods, t) \<and> p \<in> set pods)"

definition kube_keeps :: "'w kube_env \<Rightarrow> string \<Rightarrow> ('w \<Rightarrow> 'v) \<Rightarrow> bool" where
  "kube_keeps api n v \<longleftrightarrow> (\<forall>b. keeps v (io_call (kube_patch_node api n b))) \<and> (\<forall>s. keeps v (io_call (kube_list_pods api s))) \<and>
     keeps v (io_call (kube_list_nodes api)) \<and> (\<forall>k. keeps v (io_modify (kube_sleep api k))) \<and>
     (\<forall>p. evictable_listed api n p \<longrightarrow> keeps v (io_call (ask_eviction api p)))"

definition drainer_keeps :: "'w drainer_env \<Rightarrow> ('w \<Rightarrow> 'v) \<Rightarrow> bool" where
  "drainer_keeps env v \<longleftrightarrow> keeps v (io_read (kubeconfig_exists env)) \<and>
     (\<forall>b k. keeps v (io_call (s3_download_kubeconfig env b k))) \<and> (\<forall>c. keeps v (io_call (eks_describe_cluster env c))) \<and>
     (\<forall>c. keeps v (io_call (write_kubeconfig env c))) \<and> (\<forall>i. keeps v (io_call (ec2_describe env i))) \<and>
     keeps v (io_call (load_kube_config env)) \<and> (\<forall>p r k. keeps v (io_call (presigned_url env p r k)))"

lemma evict_pods_keeps: "kube_keeps api n v \<Longrightarrow> \<forall>p \<in> set pods. evictable_listed api n p \<Longrightarrow> keeps v (evict_pods api pods)"
proof (induction pods)
  case (Cons p pods)
  then have "keeps v (evict_pod api p)"
    unfolding evict_pod_def by (intro keeps_catch keeps_bind) (auto simp: kube_keeps_def split: exn.split)
  with Cons show ?case by (auto intro!: keeps_bind)
qed simp

lemma evict_until_completed_keeps:
  assumes "kube_keeps api n v" and "evict_until_completed api pods poll w = Some y" and "\<forall>p \<in> set pods. evictable_listed api n p"
  shows "v (snd y) = v w"
  using assms(2,1,3)
proof (induction api pods poll w y rule: evict_until_completed.raw_induct [rotated, consumes 1, case_names step])
  case (step f api pods poll w y)
  from evict_pods_apply [of api pods w] obtain rest where
    rest: "evict_pods api pods w = Some (Inr rest, asked api pods w)" "set rest \<subseteq> set pods" by blast
  have asked: "v (asked api pods w) = v w" by (rule keepsD [OF evict_pods_keeps [OF step.prems] rest(1)])
  have slept: "v (kube_sleep api poll u) = v u" for u
    using step.prems(1) keepsD [of v "io_modify (kube_sleep api poll)" u] unfolding kube_keeps_def by simp
  show ?case
  proof (cases "rest = []")
    case True
    with step.hyps rest asked show ?thesis by (auto simp: io_bind_apply)
  next
    case False
    with step.hyps rest have "f api rest poll (kube_sleep api poll (asked api pods w)) = Some y"
      by (auto simp: io_bind_apply io_then_apply split: option.splits sum.splits)
    from step.IH [OF this step.prems(1)] rest(2) step.prems(2) show ?thesis by (auto simp: slept asked)
  qed
qed

lemma get_evictable_pods_listed:
  "get_evictable_pods api n w = Some (Inr pods, t) \<Longrightarrow> \<forall>p \<in> set pods. evictable_listed api n p"
  by (auto simp: get_evictable_pods_def io_bind_Inr evictable_listed_def pod_is_evictable_iff) blast+

lemma remove_all_pods_keeps:
  assumes "kube_keeps api n v"
  shows "keeps v (remove_all_pods api n poll)"
proof -
  have list: "keeps v (get_evictable_pods api n)"
    using assms unfolding get_evictable_pods_def kube_keeps_def by (auto intro!: keeps_bind)
  have wait: "keeps v (wait_until_empty api n poll)"
    using assms list unfolding wait_until_empty_def wait_round_def kube_keeps_def
    by (auto intro!: keeps_bind keeps_then keeps_until)
  show ?thesis
    unfolding keeps_def
  proof (intro allI impI)
    fix s r t
    assume "remove_all_pods api n poll s = Some (r, t)"
    then consider e where "get_evictable_pods api n s = Some (Inl e, t)"
      | pods s1 x s2 where "get_evictable_pods api n s = Some (Inr pods, s1)"
        "evict_until_completed api pods poll s1 = Some (x, s2)" "s2 = t \<or> wait_until_empty api n poll s2 = Some (r, t)"
      by (fastforce simp: remove_all_pods_def io_bind_Some io_then_Some)
    then show "v t = v s"
    proof cases
      case 2
      from evict_until_completed_keeps [OF assms 2(2) get_evictable_pods_listed [OF 2(1)]] keepsD [OF list 2(1)]
      have "v s2 = v s" by simp
      with 2(3) keepsD [OF wait] show ?thesis by auto
    qed (rule keepsD [OF list])
  qed
qed

lemma drainer_start_keeps:
  assumes "drainer_keeps env v"
  shows "keeps v (create_kube_config env c)" "keeps v (get_bearer_token env c region)" "keeps v (node_of_instance env i)"
  using assms unfolding create_kube_config_def get_bearer_token_def node_of_instance_def drainer_keeps_def
  by (auto intro!: keeps_bind)

text \<open>What a run of the body of the \<open>try\<close> does.\<close>

lemma drain_node_outcome:
  assumes "kube_keeps api n v" and "drain_node env api asg hook i n w = Some (r, w')"
  shows "(\<exists>e. r = Inl e \<and> v w' = v w) \<or>
     (\<exists>u. v u = v w \<and> node_exists api n w = Some (Inr False, u) \<and>
        complete_lifecycle_action env hook asg ''ABANDON'' i u = (r, w')) \<or>
     (\<exists>u t pods. v u = v w \<and> kube_list_pods api (selects_node n) t = (Inr pods, u) \<and> filter pod_is_evictable pods = [] \<and>
        complete_lifecycle_action env hook asg ''CONTINUE'' i u = (r, w'))"
proof -
  have nodes: "keeps v (node_exists api n)" "keeps v (cordon_node api n)"
    using assms(1) unfolding node_exists_def cordon_node_def kube_keeps_def by (auto intro!: keeps_bind)
  note keep = keepsD [OF nodes(1)] keepsD [OF nodes(2)] keepsD [OF remove_all_pods_keeps [OF assms(1)]]
  from assms(2) consider e where "node_exists api n w = Some (Inl e, w')" "r = Inl e"
    | w1 where "node_exists api n w = Some (Inr False, w1)" "complete_lifecycle_action env hook asg ''ABANDON'' i w1 = (r, w')"
    | w1 e where "node_exists api n w = Some (Inr True, w1)" "cordon_node api n w1 = Some (Inl e, w')" "r = Inl e"
    | w1 w2 x w3 where "node_exists api n w = Some (Inr True, w1)" "cordon_node api n w1 = Some (Inr (), w2)"
      "remove_all_pods api n 5 w2 = Some (x, w3)" "case x of Inl e \<Rightarrow> r = Inl e \<and> w' = w3
       | Inr _ \<Rightarrow> complete_lifecycle_action env hook asg ''CONTINUE'' i w3 = (r, w')"
    by (fastforce simp: drain_node_def io_bind_Some io_then_Some abandon_lifecycle_action_def split: if_splits)
  then show ?thesis
  proof cases
    case 1
    with keep(1) show ?thesis by blast
  next
    case 2
    with keep(1) show ?thesis by blast
  next
    case 3
    with keep(1,2) show ?thesis by metis
  next
    case 4
    have same: "v w3 = v w" using keep(1) [OF 4(1)] keep(2) [OF 4(2)] keep(3) [OF 4(3)] by simp
    show ?thesis
    proof (cases x)
      case (Inl e)
      with 4(4) same show ?thesis by auto
    next
      case (Inr y)
      with 4(3) remove_all_pods_Inr obtain t pods where "kube_list_pods api (selects_node n) t = (Inr pods, w3)"
        "filter pod_is_evictable pods = []" by fastforce
      with 4(4) Inr same show ?thesis by auto
    qed
  qed
qed

lemma drainer_prepare_keeps:
  assumes "drainer_keeps env v"
  shows "keeps v (drainer_prepare env event)"
proof -
  have calls: "keeps v (io_read (kubeconfig_exists env))" "keeps v (io_call (load_kube_config env))"
    "keeps v (io_call (s3_download_kubeconfig env b k))" for b k
    using assms by (auto simp: drainer_keeps_def)
  show ?thesis
    unfolding drainer_prepare_def Let_def by (auto intro!: keeps_bind keeps_then calls drainer_start_keeps [OF assms])
qed

lemma drainer_prepare_Inr:
  assumes "drainer_prepare env event w = Some (Inr (hook, asg, i, n, bearer), u)"
  shows "py_path event [''detail'', ''LifecycleHookName''] = Inr hook \<and> py_path event [''detail'', ''AutoScalingGroupName''] = Inr asg \<and>
     py_path event [''detail'', ''EC2InstanceId''] = Inr (PStr i) \<and> (\<exists>s s'. node_of_instance env i s = Some (Inr n, s'))"
proof -
  have texts: "as_text x = Inr i \<longleftrightarrow> x = PStr i" for x by (cases x) (auto simp: as_text_def)
  from assms show ?thesis
    by (auto simp: drainer_prepare_def Let_def io_bind_Inr io_then_Inr bind_result_Inr texts simp del: py_path_simps)
qed

text \<open>C22. The drainer lets the instance go only when no pod is left on its node that it would evict, by the list it read last.  It
  abandons the action when the node is not part of the cluster, and whenever the draining fails with an exception of the Kubernetes
  client; only an exception of another kind escapes, and then nothing is completed.  Whichever it does, it does it once, for the hook, the
  group and the instance of the event.\<close>

theorem node_released_only_when_empty:
  assumes view: "drainer_keeps env v"
    and kube: "\<forall>hook asg i n bearer u. drainer_prepare env event w = Some (Inr (hook, asg, i, n, bearer), u) \<longrightarrow>
      kube_keeps (kube_client env bearer) n v"
    and aws: "\<And>h g x i u st. fst (complete_lifecycle_action env h g x i u) \<noteq> Inl (KubeApiException st)"
    and run: "drainer_handler env event w = Some (r, w')"
  shows "(\<exists>e. drainer_prepare env event w = Some (Inl e, w') \<and> r = Inl e \<and> v w' = v w) \<or>
     (\<exists>hook asg i n bearer s w1 u. drainer_prepare env event w = Some (Inr (hook, asg, i, n, bearer), w1) \<and>
        py_path event [''detail'', ''LifecycleHookName''] = Inr hook \<and>
        py_path event [''detail'', ''AutoScalingGroupName''] = Inr asg \<and>
        py_path event [''detail'', ''EC2InstanceId''] = Inr (PStr i) \<and> (\<exists>s'. node_of_instance env i s = Some (Inr n, s')) \<and>
        v u = v w \<and>
        (node_exists (kube_client env bearer) n w1 = Some (Inr False, u) \<and>
           complete_lifecycle_action env hook asg ''ABANDON'' i u = (r, w') \<or>
         (\<exists>st. drain_node env (kube_client env bearer) asg hook i n w1 = Some (Inl (KubeApiException st), u)) \<and>
           complete_lifecycle_action env hook asg ''ABANDON'' i u = (r, w') \<or>
         (\<exists>e. r = Inl e \<and> (\<forall>st. e \<noteq> KubeApiException st)) \<and> w' = u \<or>
         (\<exists>t pods. kube_list_pods (kube_client env bearer) (selects_node n) t = (Inr pods, u) \<and> (\<forall>p \<in> set pods. \<not> may_evict p)) \<and>
           complete_lifecycle_action env hook asg ''CONTINUE'' i u = (r, w')))"
proof (cases "drainer_prepare env event w")
  case None
  with run show ?thesis by (simp add: drainer_handler_def io_bind_apply)
next
  case (Some y)
  then obtain x u where x: "drainer_prepare env event w = Some (x, u)" by (cases y) auto
  from keepsD [OF drainer_prepare_keeps [OF view] x] have u: "v u = v w" .
  show ?thesis
  proof (cases x)
    case (Inl e)
    with run x u show ?thesis by (auto simp: drainer_handler_def io_bind_apply)
  next
    case (Inr d)
    obtain hook asg i n bearer where d: "d = (hook, asg, i, n, bearer)" by (cases d) auto
    let ?api = "kube_client env bearer"
    from run x obtain r' w2 where node: "drain_node env ?api asg hook i n u = Some (r', w2)"
      by (cases "drain_node env ?api asg hook i n u") (auto simp: drainer_handler_def io_bind_apply io_catch_apply Inr d)
    from run x node have out: "case r' of Inr _ \<Rightarrow> r = r' \<and> w' = w2
        | Inl e \<Rightarrow> (case e of KubeApiException st \<Rightarrow> complete_lifecycle_action env hook asg ''ABANDON'' i w2 = (r, w')
            | _ \<Rightarrow> r = r' \<and> w' = w2)"
      by (auto simp: drainer_handler_def io_bind_apply io_catch_apply Inr d abandon_lifecycle_action_def split: sum.split exn.split)
    have keep: "kube_keeps ?api n v" using kube x [unfolded Inr d] by blast
    from drainer_prepare_Inr [OF x [unfolded Inr d]] obtain s s' where event:
      "py_path event [''detail'', ''LifecycleHookName''] = Inr hook" "py_path event [''detail'', ''AutoScalingGroupName''] = Inr asg"
      "py_path event [''detail'', ''EC2InstanceId''] = Inr (PStr i)" "node_of_instance env i s = Some (Inr n, s')" by blast
    have done_once: ?thesis if "v t = v u" "node_exists ?api n u = Some (Inr False, t) \<and>
           complete_lifecycle_action env hook asg ''ABANDON'' i t = (r, w') \<or>
         (\<exists>st. drain_node env ?api asg hook i n u = Some (Inl (KubeApiException st), t)) \<and>
           complete_lifecycle_action env hook asg ''ABANDON'' i t = (r, w') \<or>
         (\<exists>e. r = Inl e \<and> (\<forall>st. e \<noteq> KubeApiException st)) \<and> w' = t \<or>
         (\<exists>t' pods. kube_list_pods ?api (selects_node n) t' = (Inr pods, t) \<and> (\<forall>p \<in> set pods. \<not> may_evict p)) \<and>
           complete_lifecycle_action env hook asg ''CONTINUE'' i t = (r, w')" for t
      by (intro disjI2 exI [of _ hook] exI [of _ asg] exI [of _ i] exI [of _ n] exI [of _ bearer] exI [of _ s] exI [of _ u] exI [of _ t])
        (use that u event x Inr d in \<open>simp del: py_path_simps\<close>)
    from drain_node_outcome [OF keep node]
    consider e where "r' = Inl e" "v w2 = v u"
      | t where "v t = v u" "node_exists ?api n u = Some (Inr False, t)"
          "complete_lifecycle_action env hook asg ''ABANDON'' i t = (r', w2)"
      | t s pods where "v t = v u" "kube_list_pods ?api (selects_node n) s = (Inr pods, t)" "\<forall>p \<in> set pods. \<not> may_evict p"
        "complete_lifecycle_action env hook asg ''CONTINUE'' i t = (r', w2)"
      by (auto simp: filter_empty_conv pod_is_evictable_iff)
    then show ?thesis
    proof cases
      case 1
      show ?thesis
      proof (cases "\<exists>st. e = KubeApiException st")
        case True
        with out 1 have "complete_lifecycle_action env hook asg ''ABANDON'' i w2 = (r, w')" by auto
        with done_once [of w2] 1 True node show ?thesis by blast
      next
        case False
        with out 1 have "r = Inl e" "w' = w2" by (auto split: exn.splits)
        with done_once [of w2] 1(2) False show ?thesis by blast
      qed
    next
      case 2
      have "r = r' \<and> w' = w2" using out aws [of hook asg "''ABANDON''" i t] 2 by (auto split: sum.splits exn.splits)
      with done_once [of t] 2 show ?thesis by blast
    next
      case 3
      have "r = r' \<and> w' = w2" using out aws [of hook asg "''CONTINUE''" i t] 3 by (auto split: sum.splits exn.splits)
      with done_once [of t] 3 show ?thesis by blast
    qed
  qed
qed

text \<open>C23. The pods of other nodes, and on the node of the event's instance mirror pods and the pods of daemon sets, stay: whatever is unaffected by
  reading, by marking this node unschedulable, and by the eviction of those pods that a list of this node's pods has and that are
  neither mirror pods nor controlled by a daemon set, is unaffected by a run of the drainer, however it ends.\<close>

theorem only_evictable_pods_evicted:
  assumes view: "drainer_keeps env v"
    and kube: "\<And>hook asg i n bearer u. drainer_prepare env event w = Some (Inr (hook, asg, i, n, bearer), u) \<Longrightarrow>
      kube_keeps (kube_client env bearer) n v"
    and aws: "\<And>h g x i. keeps v (io_call (complete_lifecycle_action env h g x i))"
    and run: "drainer_handler env event w = Some (r, w')"
  shows "v w' = v w"
proof -
  obtain x u where x: "drainer_prepare env event w = Some (x, u)"
    using run by (cases "drainer_prepare env event w") (auto simp: drainer_handler_def io_bind_apply)
  from keepsD [OF drainer_prepare_keeps [OF view] x] have u: "v u = v w" .
  show ?thesis
  proof (cases x)
    case (Inl e)
    with run x u show ?thesis by (simp add: drainer_handler_def io_bind_apply)
  next
    case (Inr d)
    obtain hook asg i n bearer where d: "d = (hook, asg, i, n, bearer)" by (cases d) auto
    have keep: "kube_keeps (kube_client env bearer) n v" by (rule kube) (use x Inr d in simp)
    then have "keeps v (node_exists (kube_client env bearer) n)" "keeps v (cordon_node (kube_client env bearer) n)"
      unfolding node_exists_def cordon_node_def kube_keeps_def by (auto intro!: keeps_bind)
    with remove_all_pods_keeps [OF keep] aws have "keeps v (drain_node env (kube_client env bearer) asg hook i n)"
      unfolding drain_node_def abandon_lifecycle_action_def by (auto intro!: keeps_bind keeps_then)
    then have "keeps v (io_catch (drain_node env (kube_client env bearer) asg hook i n) (\<lambda>e. case e of
        KubeApiException status \<Rightarrow> abandon_lifecycle_action env asg hook i | _ \<Rightarrow> io_raise e))" (is "keeps v ?m")
      unfolding abandon_lifecycle_action_def by (auto intro!: keeps_catch aws split: exn.split)
    moreover have "?m u = Some (r, w')"
      using run x Inr d by (simp add: drainer_handler_def io_bind_apply)
    ultimately have "v w' = v u" by (rule keepsD)
    with u show ?thesis by simp
  qed
qed

end
