(* ===== verification/DrainerRun.thy ===== *)
theory DrainerRun
  imports DrainerProps
begin

text \<open>The drainer on a cluster in memory, and the witnesses of the properties of DrainerProps.\<close>

record mem_kube =
  gone :: "(string \<times> string) list" \<comment> \<open>the pods that were evicted\<close>
  refusals :: nat \<comment> \<open>evictions that are still refused with \<open>429\<close>\<close>
  waits :: nat \<comment> \<open>polls until the evicted pods have ended\<close>
  outcome :: "string list"

definition web_pod :: pod where
  "web_pod = \<lparr>pod_name = ''web'', pod_namespace = ''default'', pod_annotations = None, pod_owners = None\<rparr>"

definition proxy_pod :: pod where
  "proxy_pod = \<lparr>pod_name = ''proxy'', pod_namespace = ''kube-system'', pod_annotations = Some [],
     pod_owners = Some [\<lparr>owner_controller = Some True, owner_kind = ''DaemonSet''\<rparr>]\<rparr>"

definition static_pod :: pod where
  "static_pod = \<lparr>pod_name = ''static'', pod_namespace = ''kube-system'',
     pod_annotations = Some [(''kubernetes.io/config.mirror'', ''x'')], pod_owners = None\<rparr>"

definition pod_key :: "pod \<Rightarrow> string \<times> string" where
  "pod_key p = (pod_name p, pod_namespace p)"

definition other_pod :: pod where
  "other_pod = \<lparr>pod_name = ''other'', pod_namespace = ''default'', pod_annotations = None, pod_owners = None\<rparr>"

text \<open>The pods of \<open>node-1\<close> and of \<open>node-2\<close>.\<close>

definition node_pods :: "string \<Rightarrow> mem_kube \<Rightarrow> pod list" where
  "node_pods selector w = filter (\<lambda>p. pod_key p \<notin> set (gone w) \<or> 0 < waits w)
     (if selector = ''spec.nodeName=node-1'' then [web_pod, proxy_pod, static_pod]
      else if selector = ''spec.nodeName=node-2'' then [other_pod] else [])"

text \<open>A Kubernetes client.\<close>

definition mem_api :: "mem_kube kube_env" where
  "mem_api = \<lparr>kube_patch_node = (\<lambda>n b w. (Inr (), w)), kube_list_pods = (\<lambda>s w. (Inr (node_pods s w), w)),
     kube_create_eviction = (\<lambda>n ns b w. if 0 < refusals w then (Inl (KubeApiException 429), w\<lparr>refusals := refusals w - 1\<rparr>)
       else (Inr (), w\<lparr>gone := (n, ns) # gone w\<rparr>)),
     kube_list_nodes = (\<lambda>w. (Inr [''node-1'', ''node-2''], w)),
     kube_sleep = (\<lambda>k w. w\<lparr>waits := waits w - 1\<rparr>)\<rparr>"

definition mem_drainer :: "mem_kube drainer_env" where
  "mem_drainer = \<lparr>os_environ = (\<lambda>k. if k = ''KUBE_CONFIG_BUCKET'' then Some ''bucket'' else None), aws_region = ''eu-west-1'',
     kubeconfig_exists = (\<lambda>w. (False, w)), s3_download_kubeconfig = (\<lambda>b k w. (Inr (), w)),
     eks_describe_cluster = (\<lambda>c w. (Inl KeyError, w)), write_kubeconfig = (\<lambda>c w. (Inr (), w)),
     ec2_describe = (\<lambda>ids w. (Inr (PDict [(''Reservations'', PList [PDict [(''Instances'',
       PList [PDict [(''PrivateDnsName'', PStr ''node-1'')]])]])]), w)),
     load_kube_config = (\<lambda>w. (Inr (), w)), presigned_url = (\<lambda>p r k w. (Inr ''u'', w)), kube_client = (\<lambda>b. mem_api),
     complete_lifecycle_action = (\<lambda>h g x i w. (Inr (), w\<lparr>outcome := outcome w @ [x]\<rparr>))\<rparr>"

definition termination_event :: pyval where
  "termination_event = PDict [(''detail'', PDict [(''LifecycleHookName'', PStr ''hook''), (''AutoScalingGroupName'', PStr ''group''),
     (''EC2InstanceId'', PStr ''i-1'')])]"

definition fresh_kube :: mem_kube where
  "fresh_kube = \<lparr>gone = [], refusals = 2, waits = 1, outcome = []\<rparr>"

lemma drainer_run:
  "case drainer_handler mem_drainer termination_event fresh_kube of None \<Rightarrow> False | Some (r, w) \<Rightarrow> (case r of Inl e \<Rightarrow> False |
     Inr x \<Rightarrow> outcome w = [''CONTINUE''] \<and> pod_key web_pod \<in> set (gone w) \<and> refusals w = 0)"
  by code_simp

lemma drainer_returned:
  "\<exists>x w. drainer_handler mem_drainer termination_event fresh_kube = Some (Inr x, w) \<and> outcome w = [''CONTINUE''] \<and>
     pod_key web_pod \<in> set (gone w) \<and> refusals w = 0"
  using drainer_run unfolding run_iff by blast

lemma mem_kube_ops [simp]:
  "kube_list_pods mem_api s w = (Inr (node_pods s w), w)" "kube_sleep mem_api k w = w\<lparr>waits := waits w - 1\<rparr>"
  "kube_create_eviction mem_api n ns b w = (if 0 < refusals w then (Inl (KubeApiException 429), w\<lparr>refusals := refusals w - 1\<rparr>)
     else (Inr (), w\<lparr>gone := (n, ns) # gone w\<rparr>))"
  by (simp_all add: mem_api_def)

lemma evictable_pods: "pod_is_evictable web_pod" "\<not> pod_is_evictable proxy_pod" "\<not> pod_is_evictable static_pod"
  by code_simp+

lemma mem_prepared:
  "drainer_prepare mem_drainer termination_event w = Some (Inr (PStr ''hook'', PStr ''group'', ''i-1'', ''node-1'', None), w)"
  by (simp add: drainer_prepare_def mem_drainer_def given_def io_apply Let_def termination_event_def dict_get_def as_text_def
      node_of_instance_def py_first_def list_index_def)

text \<open>A disruption budget that never allows an eviction.\<close>

definition blocking_drainer :: "mem_kube drainer_env" where
  "blocking_drainer = mem_drainer\<lparr>kube_client := (\<lambda>b. mem_api\<lparr>kube_create_eviction :=
     (\<lambda>n ns b w. (Inl (KubeApiException 429), w))\<rparr>)\<rparr>"

theorem blocked_pod_never_returns_witness: "drainer_handler blocking_drainer termination_event fresh_kube = None"
proof (rule blocked_pod_never_returns)
  show "drainer_prepare blocking_drainer termination_event fresh_kube =
      Some (Inr (PStr ''hook'', PStr ''group'', ''i-1'', ''node-1'', None), fresh_kube)"
    by (simp add: blocking_drainer_def drainer_prepare_def mem_drainer_def given_def io_apply Let_def termination_event_def
        dict_get_def as_text_def node_of_instance_def py_first_def list_index_def)
  show "node_exists (kube_client blocking_drainer None) ''node-1'' fresh_kube = Some (Inr True, fresh_kube)"
    by (simp add: blocking_drainer_def node_exists_def mem_api_def io_bind_apply)
  show "cordon_node (kube_client blocking_drainer None) ''node-1'' fresh_kube = Some (Inr (), fresh_kube)"
    by (simp add: blocking_drainer_def cordon_node_def mem_api_def)
  show "kube_list_pods (kube_client blocking_drainer None) (selects_node ''node-1'') fresh_kube =
      (Inr [web_pod, proxy_pod, static_pod], fresh_kube)"
    by (simp add: blocking_drainer_def mem_api_def node_pods_def fresh_kube_def selects_node_def)
  show "web_pod \<in> set [web_pod, proxy_pod, static_pod]" by simp
  show "pod_is_evictable web_pod" by (rule evictable_pods(1))
  show "fst (kube_create_eviction (kube_client blocking_drainer None) (pod_name web_pod) (pod_namespace web_pod)
      (eviction_request web_pod) u) = Inl (KubeApiException 429)" for u
    by (simp add: blocking_drainer_def)
qed

lemma two_pods_asked:
  "case evict_until_completed mem_api [web_pod, other_pod] 5 fresh_kube of None \<Rightarrow> False | Some (r, w) \<Rightarrow> (case r of Inl e \<Rightarrow> False |
     Inr x \<Rightarrow> gone w = [pod_key other_pod, pod_key web_pod])"
  by code_simp

theorem refused_eviction_given_up_witness:
  "\<exists>w calls. evict_until_completed mem_api [web_pod, other_pod] 5 fresh_kube = Some (Inr (), w) \<and>
     performed mem_api 5 calls fresh_kube w \<and> answers proxy_pod calls = [] \<and> last (answers web_pod calls) \<noteq> Inl (KubeApiException 429)"
proof -
  obtain w where run: "evict_until_completed mem_api [web_pod, other_pod] 5 fresh_kube = Some (Inr (), w)"
    using two_pods_asked unfolding run_iff by auto
  have d: "distinct [web_pod, other_pod]" by (simp add: web_pod_def other_pod_def)
  have "proxy_pod \<notin> set [web_pod, other_pod]" by (simp add: web_pod_def other_pod_def proxy_pod_def)
  with refused_eviction_given_up [OF d run] run show ?thesis by fastforce
qed

lemma mem_drainer_keeps:
  assumes "\<And>w. v (w\<lparr>refusals := refusals w - 1\<rparr>) = v w" "\<And>w. v (w\<lparr>waits := waits w - 1\<rparr>) = v w"
    and "\<And>w. v (w\<lparr>gone := pod_key web_pod # gone w\<rparr>) = v w"
  shows "drainer_keeps mem_drainer v"
    and "drainer_prepare mem_drainer termination_event w = Some (Inr (hook, asg, i, n, bearer), u) \<Longrightarrow>
      kube_keeps (kube_client mem_drainer bearer) n v"
proof -
  have web: "p = web_pod" if "evictable_listed mem_api ''node-1'' p" for p
    using that by (auto simp: evictable_listed_def node_pods_def selects_node_def pod_is_evictable_iff [symmetric] evictable_pods
        split: if_splits)
  then have evict: "keeps v (io_call (ask_eviction mem_api p))" if "evictable_listed mem_api ''node-1'' p" for p
    using that assms(1,3) by (auto simp: keeps_def pod_key_def)
  show "drainer_keeps mem_drainer v" unfolding drainer_keeps_def
    by (auto simp: mem_drainer_def) (auto simp: keeps_def io_read_apply)
  show "kube_keeps (kube_client mem_drainer bearer) n v"
    if "drainer_prepare mem_drainer termination_event w = Some (Inr (hook, asg, i, n, bearer), u)" for hook asg i n bearer w u
    using that evict unfolding kube_keeps_def mem_prepared
    by (auto simp: mem_drainer_def evict) (auto simp: mem_api_def keeps_def io_read_apply assms(2) simp del: One_nat_def)
qed

theorem node_released_only_when_empty_witness:
  "\<exists>w' i n u t pods. drainer_handler mem_drainer termination_event fresh_kube = Some (Inr (), w') \<and> outcome u = [] \<and>
     complete_lifecycle_action mem_drainer (PStr ''hook'') (PStr ''group'') ''CONTINUE'' i u = (Inr (), w') \<and>
     kube_list_pods mem_api (selects_node n) t = (Inr pods, u) \<and> (\<forall>p \<in> set pods. \<not> may_evict p)"
proof -
  obtain w' where run: "drainer_handler mem_drainer termination_event fresh_kube = Some (Inr (), w')" "outcome w' = [''CONTINUE'']"
    using drainer_returned by auto
  have api: "kube_client mem_drainer b = mem_api" for b by (simp add: mem_drainer_def)
  have aws: "fst (complete_lifecycle_action mem_drainer h g x i u) \<noteq> Inl (KubeApiException st)" for h g x i u st
    by (simp add: mem_drainer_def)
  have released: "\<not> complete_lifecycle_action mem_drainer hook asg ''ABANDON'' i u = (Inr (), w')" if "outcome u = []" for hook asg i u
    using that run(2) by (auto simp: mem_drainer_def)
  have keeps: "outcome (w\<lparr>refusals := refusals w - 1\<rparr>) = outcome w" "outcome (w\<lparr>waits := waits w - 1\<rparr>) = outcome w"
    "outcome (w\<lparr>gone := pod_key web_pod # gone w\<rparr>) = outcome w" for w :: mem_kube by simp_all
  have fresh: "outcome fresh_kube = []" by (simp add: fresh_kube_def)
  have no_error: "drainer_prepare mem_drainer termination_event fresh_kube \<noteq> Some (Inl e, w')" for e
    by (simp add: mem_prepared)
  have kube: "\<forall>hook asg i n bearer u. drainer_prepare mem_drainer termination_event fresh_kube = Some (Inr (hook, asg, i, n, bearer), u) \<longrightarrow>
      kube_keeps (kube_client mem_drainer bearer) n outcome"
    using mem_drainer_keeps(2) [of outcome, OF keeps] by blast
  from node_released_only_when_empty [OF mem_drainer_keeps(1) [of outcome, OF keeps] kube aws run(1), unfolded api no_error,
      simplified no_error Inr_not_Inl sum.distinct simp_thms]
  obtain hook asg i n bearer w1 u where
    p: "drainer_prepare mem_drainer termination_event fresh_kube = Some (Inr (hook, asg, i, n, bearer), w1)"
    and u: "outcome u = outcome fresh_kube"
    and c: "complete_lifecycle_action mem_drainer hook asg ''ABANDON'' i u = (Inr (), w') \<or>
       (\<exists>t pods. kube_list_pods mem_api (selects_node n) t = (Inr pods, u) \<and> (\<forall>p \<in> set pods. \<not> may_evict p)) \<and>
        complete_lifecycle_action mem_drainer hook asg ''CONTINUE'' i u = (Inr (), w')"
    by (elim exE conjE) (rule that, assumption, assumption, blast)
  from p have "hook = PStr ''hook''" "asg = PStr ''group''" by (simp_all add: mem_prepared)
  with u c fresh released run(1)
  show ?thesis by metis
qed

theorem only_evictable_pods_evicted_witness:
  "\<exists>w'. drainer_handler mem_drainer termination_event fresh_kube = Some (Inr (), w') \<and> pod_key web_pod \<in> set (gone w') \<and>
     pod_key proxy_pod \<notin> set (gone w') \<and> pod_key static_pod \<notin> set (gone w') \<and> pod_key other_pod \<notin> set (gone w')"
proof -
  define v where "v = (\<lambda>w :: mem_kube. (pod_key proxy_pod \<in> set (gone w), pod_key static_pod \<in> set (gone w),
    pod_key other_pod \<in> set (gone w)))"
  obtain w' where run: "drainer_handler mem_drainer termination_event fresh_kube = Some (Inr (), w')" "pod_key web_pod \<in> set (gone w')"
    using drainer_returned by auto
  have kept: "v (w\<lparr>refusals := refusals w - 1\<rparr>) = v w" "v (w\<lparr>waits := waits w - 1\<rparr>) = v w"
    "v (w\<lparr>gone := pod_key web_pod # gone w\<rparr>) = v w" for w
    by (simp_all add: v_def pod_key_def web_pod_def proxy_pod_def static_pod_def other_pod_def)
  have aws: "keeps v (io_call (complete_lifecycle_action mem_drainer h g x i))" for h g x i
    by (simp add: mem_drainer_def keeps_def v_def)
  have "v w' = v fresh_kube"
    by (rule only_evictable_pods_evicted [OF mem_drainer_keeps(1) [of v, OF kept] mem_drainer_keeps(2) [of v, OF kept] aws run(1)])
  with run show ?thesis by (simp add: v_def fresh_kube_def)
qed

end
