(* ===== verification/ScalingMetrics.thy ===== *)
theory ScalingMetrics
  imports TaskQueue
begin

text \<open>
  The lambda that publishes the backlog, \<open>source/compute_plane/python/lambda/scaling_metrics/scaling_metrics.py\<close>.  CloudWatch
  and the environment variables are parameters, the queue is the one modelled.  Left out: the test stub \<open>main\<close> and logging.
\<close>

record metric =
  metric_name :: string
  metric_timestamp :: int \<comment> \<open>\<open>time.time()\<close>, in milliseconds\<close>
  metric_dimension :: "string \<times> string"
  metric_unit :: string
  storage_resolution :: int
  metric_value :: int

record 'w scaling_env =
  scaling_environ :: "string \<Rightarrow> string option"
  scaling_sqs :: "'w sqs"
  scaling_host :: "'w host"
  put_metric_data :: "metric list \<Rightarrow> string \<Rightarrow> 'w \<Rightarrow> (exn + unit) \<times> 'w" \<comment> \<open>the data and their namespace\<close>

text \<open>\<open>os.environ[k]\<close>.\<close>

definition environ_index :: "(string \<Rightarrow> string option) \<Rightarrow> string \<Rightarrow> exn + string" where
  "environ_index environ k = (case environ k of None \<Rightarrow> Inl KeyError | Some v \<Rightarrow> Inr v)"

definition scaling_handler :: "'w scaling_env \<Rightarrow> ('w, unit) io" where
  "scaling_handler env =
     (let get = (\<lambda>k. io_of (environ_index (scaling_environ env) k)) in
      io_bind (get ''TASK_QUEUE_SERVICE'') (\<lambda>service.
      io_bind (get ''TASK_QUEUE_CONFIG'') (\<lambda>config.
      io_bind (get ''TASKS_QUEUE_NAME'') (\<lambda>name.
      io_bind (queue_manager (scaling_sqs env) service config name) (\<lambda>task_queue.
      io_bind (get_queue_length (scaling_sqs env) task_queue) (\<lambda>task_pending.
      io_bind (io_bind (get ''PERIOD'') (\<lambda>p. io_of (int_of_str p))) (\<lambda>period.
      io_bind (get ''METRICS_NAME'') (\<lambda>metrics_name.
      io_bind (time_now_ms (scaling_host env)) (\<lambda>now.
      io_bind (get ''DIMENSION_NAME'') (\<lambda>dimension_name.
      io_bind (get ''DIMENSION_VALUE'') (\<lambda>dimension_value.
      io_bind (get ''NAMESPACE'') (\<lambda>namespace.
        io_call (put_metric_data env
          [\<lparr>metric_name = metrics_name, metric_timestamp = now, metric_dimension = (dimension_name, dimension_value),
            metric_unit = ''Count'', storage_resolution = period, metric_value = task_pending\<rparr>] namespace)))))))))))))"

text \<open>
  What is published is the length of the task queue, the number that the capacity controller scales by; an environment
  variable that is missing stops the lambda before anything is published.
\<close>

lemma scaling_handler_publishes:
  assumes "scaling_handler env w = Some (Inr (), w')"
  shows "\<exists>q n m u1 u2 u3. get_queue_length (scaling_sqs env) q u1 = Some (Inr n, u2) \<and> metric_value m = n \<and>
     scaling_environ env ''METRICS_NAME'' = Some (metric_name m) \<and>
     put_metric_data env [m] (the (scaling_environ env ''NAMESPACE'')) u3 = (Inr (), w')"
proof -
  from assms obtain q n u1 u2 u3 name space p now d d' where
    run: "get_queue_length (scaling_sqs env) q u1 = Some (Inr n, u2)" "scaling_environ env ''METRICS_NAME'' = Some name"
      "scaling_environ env ''NAMESPACE'' = Some space"
      "put_metric_data env [\<lparr>metric_name = name, metric_timestamp = now, metric_dimension = (d, d'), metric_unit = ''Count'',
         storage_resolution = p, metric_value = n\<rparr>] space u3 = (Inr (), w')"
    by (auto simp: scaling_handler_def Let_def io_bind_Inr environ_index_def split: option.splits)
  show ?thesis
    by (intro exI [of _ q] exI [of _ n] exI [of _ "\<lparr>metric_name = name, metric_timestamp = now, metric_dimension = (d, d'),
      metric_unit = ''Count'', storage_resolution = p, metric_value = n\<rparr>"] exI [of _ u1] exI [of _ u2] exI [of _ u3])
      (simp add: run)
qed

lemma scaling_handler_needs_environ:
  assumes "scaling_handler env w = Some (Inr (), w')"
    and "k \<in> {''TASK_QUEUE_SERVICE'', ''TASK_QUEUE_CONFIG'', ''TASKS_QUEUE_NAME'', ''PERIOD'', ''METRICS_NAME'',
      ''DIMENSION_NAME'', ''DIMENSION_VALUE'', ''NAMESPACE''}"
  shows "scaling_environ env k \<noteq> None"
  using assms by (auto simp: scaling_handler_def Let_def io_bind_Inr environ_index_def split: option.splits)

end
