(* ===== verification/AgentTypes.thy ===== *)
theory AgentTypes
  imports AgentRun
begin

text \<open>
  The types of the agent's event counters: a counter whose name starts with \<open>str\<close> holds a text, every other one an integer,
  and all expected counters are there, whatever the agent does.  The proof follows the agent function by function.
\<close>

section \<open>Well-typed counters\<close>

definition typed_value :: "string \<Rightarrow> pyval \<Rightarrow> bool" where
  "typed_value name v \<longleftrightarrow> (if str_startswith name ''str'' then (case v of PStr s \<Rightarrow> True | _ \<Rightarrow> False)
     else (case v of PInt n \<Rightarrow> True | _ \<Rightarrow> False))"

definition well_typed :: "string list \<Rightarrow> events_counter \<Rightarrow> bool" where
  "well_typed names c \<longleftrightarrow> expected_events c = names \<and> set names \<subseteq> dom (map_of (evcounter c)) \<and>
     (\<forall>k v. map_of (evcounter c) k = Some v \<longrightarrow> typed_value k v)"

lemma typed_initial [simp]: "typed_value e (initial_count e)"
  by (simp add: typed_value_def initial_count_def)

lemma typed_int: "\<not> str_startswith e ''str'' \<Longrightarrow> typed_value e v \<longleftrightarrow> (\<exists>n. v = PInt n)"
  by (cases v) (simp_all add: typed_value_def)

lemma initial_entries:
  "map_of (fold (\<lambda>e c. AList.update e (initial_count e) c) es c) k =
     (if k \<in> set es then Some (initial_count k) else map_of c k)"
  by (induction es arbitrary: c) (auto simp: update_conv')

lemma well_typed_reset: "expected_events c = names \<Longrightarrow> well_typed names (counter_reset c)"
  by (auto simp: well_typed_def counter_reset_def initial_entries split: if_splits)

lemma well_typed_new: "well_typed names (EventsCounter names)"
  unfolding EventsCounter_def by (rule well_typed_reset) simp

lemma well_typed_update:
  "well_typed names c \<Longrightarrow> typed_value k v \<Longrightarrow> well_typed names (c\<lparr>evcounter := AList.update k v (evcounter c)\<rparr>)"
  by (auto simp: well_typed_def update_conv' split: if_splits)

text \<open>On well-typed counters an event that is not a text can be counted, and they stay well typed.\<close>

lemma increment_typed:
  assumes "well_typed names c" and "\<not> str_startswith k ''str''"
  shows "\<exists>c'. increment k n c = Inr c' \<and> well_typed names c'"
proof (cases "map_of (evcounter c) k")
  case None
  with well_typed_update [OF assms(1), of k "PInt 1"] assms(2) show ?thesis by (auto simp: increment_def typed_int)
next
  case (Some v)
  with assms have "typed_value k v" by (auto simp: well_typed_def)
  with assms(2) obtain i where "v = PInt i" by (auto simp: typed_int)
  with Some well_typed_update [OF assms(1), of k "PInt (i + n)"] assms(2) show ?thesis by (auto simp: increment_def typed_int)
qed

section \<open>Invariants of computations\<close>

definition stays :: "('s \<Rightarrow> bool) \<Rightarrow> ('s, 'a) io \<Rightarrow> bool" where
  "stays P m \<longleftrightarrow> hoare P m (\<lambda>_. P) (\<lambda>_. P)"

lemma stays_iff: "stays P m \<longleftrightarrow> (\<forall>s r t. P s \<longrightarrow> m s = Some (r, t) \<longrightarrow> P t)"
  unfolding stays_def hoare_def by (metis sum.exhaust)

lemma stays_basic [intro!, simp]:
  "stays P (io_return a)" "stays P (io_raise e)" "stays P (io_of x)" "stays P (io_get f)" "stays P kill_self"
  by (auto simp: stays_iff kill_self_def)

lemma stays_same [intro!, simp]: "stays P (\<lambda>s. Some (r, s))"
  by (auto simp: stays_iff)

lemma stays_bind [intro!]: "stays P m \<Longrightarrow> (\<And>a. stays P (f a)) \<Longrightarrow> stays P (io_bind m f)"
  unfolding stays_iff io_bind_Some by blast

lemma stays_then [intro!]: "stays P m \<Longrightarrow> stays P k \<Longrightarrow> stays P (io_then m k)"
  unfolding stays_iff io_then_Some by blast

lemma stays_catch [intro!]: "stays P m \<Longrightarrow> (\<And>e. stays P (h e)) \<Longrightarrow> stays P (io_catch m h)"
  unfolding stays_iff io_catch_Some by blast

lemma stays_modify [intro]: "(\<And>s. P s \<Longrightarrow> P (f s)) \<Longrightarrow> stays P (io_modify f)"
  by (auto simp: stays_iff)

lemma stays_foreach [intro!]: "(\<And>x. stays P (f x)) \<Longrightarrow> stays P (io_foreach xs f)"
  unfolding stays_def by (rule hoare_foreach)

lemma stays_until [intro!]:
  assumes "stays P m"
  shows "stays P (io_until m)"
  unfolding stays_iff
proof (intro allI impI)
  fix s r t
  assume p: "P s" and "io_until m s = Some (r, t)"
  then obtain n u x where u: "io_rounds m n s = Some u" "m u = Some (x, t)" by (auto simp: io_until_iff)
  have "P u" by (rule io_rounds_invariant [where I = P, OF u(1) p]) (use assms in \<open>auto simp: stays_iff\<close>)
  with assms u(2) show "P t" by (auto simp: stays_iff)
qed

lemma stays_zoom:
  assumes "stays Q m" and "\<And>s. P s \<Longrightarrow> Q (get s)" and "\<And>w s. P s \<Longrightarrow> Q w \<Longrightarrow> P (put w s)"
  shows "stays P (io_zoom get put m)"
  using assms unfolding stays_iff io_zoom_apply by (fastforce split: option.splits)

section \<open>The agent\<close>

definition agent_typed :: "'w agent_state \<Rightarrow> bool" where
  "agent_typed s \<longleftrightarrow> well_typed pre_counters (event_counter_pre s) \<and> well_typed post_counters (event_counter_post s)"

abbreviation metered_typed :: "string list \<Rightarrow> 'w metered \<Rightarrow> bool" where
  "metered_typed names m \<equiv> well_typed names (events m)"

lemma on_grid_typed: "stays (metered_typed names) (on_grid m)"
  unfolding on_grid_def by (rule stays_zoom [where Q = "\<lambda>_. True"]) (auto simp: stays_iff)

lemma count_event_typed: "\<not> str_startswith k ''str'' \<Longrightarrow> stays (metered_typed names) (count_event k n)"
  unfolding stays_iff count_event_def using increment_typed [of names _ k n] by (fastforce simp: io_bind_apply)

lemma set_event_typed: "typed_value k v \<Longrightarrow> stays (metered_typed names) (set_event k v)"
  unfolding set_event_def counter_set_def by (rule stays_modify) (simp add: well_typed_update)

lemma add_metric_sample_typed: "stays (metered_typed names) (add_metric_sample mt stats a b)"
proof -
  have reset: "stays (metered_typed names) (io_modify (\<lambda>s. s\<lparr>events := counter_reset (events s)\<rparr>))"
    by (rule stays_modify) (simp add: well_typed_def [of names] well_typed_reset [unfolded well_typed_def])
  show ?thesis
    unfolding add_metric_sample_def
    by (auto intro!: stays_bind stays_then stays_modify reset on_grid_typed split: tracker_object.split option.split)
qed

lemma submit_measurements_typed: "stays (metered_typed names) (submit_measurements mt host)"
  unfolding submit_measurements_def
  by (auto intro!: stays_bind stays_then stays_modify on_grid_typed split: tracker_object.split option.split)

lemma world_typed [intro!]: "stays agent_typed (on_world m)"
  unfolding on_world_def by (rule stays_zoom [where Q = "\<lambda>_. True"]) (auto simp: stays_iff agent_typed_def)

lemma on_pre_typed: "stays (metered_typed pre_counters) m \<Longrightarrow> stays agent_typed (on_pre m)"
  unfolding on_pre_def by (rule stays_zoom) (auto simp: agent_typed_def)

lemma on_post_typed: "stays (metered_typed post_counters) m \<Longrightarrow> stays agent_typed (on_post m)"
  unfolding on_post_def by (rule stays_zoom) (auto simp: agent_typed_def)

lemma counted_typed [intro!]:
  "\<not> str_startswith k ''str'' \<Longrightarrow> stays agent_typed (on_pre (count_event k n))"
  "\<not> str_startswith k ''str'' \<Longrightarrow> stays agent_typed (on_post (count_event k n))"
  by (simp_all add: on_pre_typed on_post_typed count_event_typed)

lemma plain_modify_typed [intro!]:
  "stays agent_typed (io_modify (\<lambda>s. s\<lparr>tasks_queue := q\<rparr>))" "stays agent_typed (io_modify (\<lambda>s. s\<lparr>ttl_gen := g\<rparr>))"
  "stays agent_typed (io_modify (\<lambda>s. s\<lparr>AGENT_EXEC_TIMESTAMP_MS := n\<rparr>))"
  "stays agent_typed (io_modify (\<lambda>s. s\<lparr>execution_is_completed_flag := b\<rparr>))"
  by (rule stays_modify; simp add: agent_typed_def)+

lemma measurements_typed [intro!]:
  "stays agent_typed (submit_post_agent_measurements env task)" "stays agent_typed (submit_pre_agent_measurements env task)"
  unfolding submit_post_agent_measurements_def submit_pre_agent_measurements_def
  by (auto intro!: on_pre_typed on_post_typed add_metric_sample_typed submit_measurements_typed)

lemma queue_typed [intro!]:
  "stays agent_typed (tasks_queue_receive env)" "stays agent_typed (tasks_queue_delete env h)"
  "stays agent_typed (tasks_queue_hide env h)" "stays agent_typed (next_expiration env)" "stays agent_typed (get_time_now_ms env)"
  "stays agent_typed (is_task_has_been_cancelled env k)" "stays agent_typed (terminate_worker_lambda_container env)"
  unfolding tasks_queue_receive_def tasks_queue_delete_def tasks_queue_hide_def next_expiration_def get_time_now_ms_def
    is_task_has_been_cancelled_def terminate_worker_lambda_container_def
  by (auto split: option.split prod.split)

lemma acquisition_typed [intro!]: "stays agent_typed (try_to_acquire_a_task env)"
proof -
  have "stays agent_typed (claim_lost env k h)" for k h
    unfolding claim_lost_def by (auto simp: str_startswith_def)
  then have "stays agent_typed (claim_received env task h)" for task h
    unfolding claim_received_def by (auto split: exn.split)
  then have "stays agent_typed (acquire_received env m t)" for m t
    unfolding acquire_received_def acquire_task_def by (auto simp: str_startswith_def)
  then show ?thesis
    unfolding try_to_acquire_a_task_def by (auto simp: str_startswith_def split: option.split)
qed

lemma completion_typed [intro!]: "stays agent_typed (process_subprocess_completion env task m f out)"
proof -
  have attempt: "stays agent_typed (finish_attempt env k)" for k
    unfolding finish_attempt_def by (auto split: exn.split)
  have pod: "stays agent_typed (on_post (set_event ''str_pod_id'' (PStr i)))" for i
    by (rule on_post_typed) (simp add: set_event_typed typed_value_def str_startswith_def)
  have "stays agent_typed (report_completion env task m b)" for task b
    unfolding report_completion_def by (auto intro!: pod simp: str_startswith_def)
  moreover have "stays agent_typed (store_output env k f out)" for k
    unfolding store_output_def by (auto split: option.split)
  ultimately show ?thesis
    unfolding process_subprocess_completion_def mark_finished_def by (auto intro!: attempt)
qed

lemma heartbeat_typed [intro!]: "stays agent_typed (do_ttl_updates_thread env task m)"
proof -
  have "stays agent_typed (refresh_lost env task m e c)" for e c unfolding refresh_lost_def by auto
  then have "stays agent_typed (refresh_attempt env task m)"
    unfolding refresh_attempt_def refresh_ttl_def by (auto split: exn.split)
  moreover have "stays agent_typed (refresh_is_due env)" unfolding refresh_is_due_def by auto
  ultimately show ?thesis
    unfolding do_ttl_updates_thread_def update_ttl_if_required_def by (auto simp: str_startswith_def)
qed

lemma run_task_typed [intro!]: "stays agent_typed (run_task env task m)"
proof -
  have "stays agent_typed (await_worker env task m)" unfolding await_worker_def by auto
  moreover have "stays agent_typed (do_task_local_lambda_execution_thread env task m t r)" for t r
    unfolding do_task_local_lambda_execution_thread_def by (auto simp: str_startswith_def)
  moreover have "stays agent_typed (prepare_arguments_for_execution env task)"
    unfolding prepare_arguments_for_execution_def by auto
  ultimately show ?thesis unfolding run_task_def by auto
qed

lemma agent_main_typed: "stays agent_typed (agent_main env)"
proof -
  have "stays agent_typed (event_loop_turn env)" unfolding event_loop_turn_def by (auto split: option.split prod.split)
  then show ?thesis unfolding agent_main_def event_loop_def by auto
qed

text \<open>C26. The counters of a running agent are well typed: all expected counters are there, those whose name starts with \<open>str\<close>
  hold texts and the others integers.  So it is when the objects are made, and so whenever the process has ended, and
  counting an event never raises.\<close>

theorem agent_counters_well_typed:
  assumes objects: "agent_objects sqs mt cfg w = Some (Inr start, w0)"
    and run: "s = start w0 \<or> agent_main env (start w0) = Some (status, s)"
  shows "agent_typed s \<and> (\<forall>k n. \<not> str_startswith k ''str'' \<longrightarrow>
     (\<exists>c. increment k n (event_counter_pre s) = Inr c) \<and> (\<exists>c. increment k n (event_counter_post s) = Inr c))"
proof -
  from objects have "agent_typed (start w0)"
    by (auto simp: agent_objects_def io_bind_Inr agent_typed_def well_typed_new)
  with run agent_main_typed have "agent_typed s" unfolding stays_iff by blast
  then show ?thesis using increment_typed unfolding agent_typed_def by blast
qed

definition mem_agent_config :: agent_config where
  "mem_agent_config = \<lparr>cfg_task_queue_service = ''SQS'', cfg_task_queue_config = [], cfg_tasks_queue_name = ''tasks'',
     cfg_grid_storage_service = ''S3'', cfg_s3_bucket = ''bucket'', cfg_metrics_are_enabled = ''0'', cfg_metrics_pre_agent = [],
     cfg_metrics_post_agent = [], cfg_metrics_grafana_private_ip = [], cfg_task_ttl_refresh_interval_sec = 5,
     cfg_task_ttl_expiration_offset_sec = 10\<rparr>"

lemma mem_agent_objects:
  "\<exists>start. agent_objects mem_sqs mem_metrics mem_agent_config w = Some (Inr start, w) \<and>
     start (agent_cloud p row) = agent_start p row"
proof -
  have "queue_manager mem_sqs ''SQS'' [] ''tasks'' w = Some (Inr (QueueSQS ''tasks''), w)"
    by (simp add: queue_manager_def single_init_def wrap_queue_error_def mem_sqs_def io_apply)
  moreover have "int_of_str ''0'' = Inr 0" by code_simp
  ultimately show ?thesis
    by (simp add: agent_objects_def mem_agent_config_def io_bind_apply in_out_manager_def performance_tracker_initializer_def
        TTLExpirationGenerator_def agent_start_def)
qed

theorem agent_counters_well_typed_witness:
  "\<exists>s. agent_main mem_agent_env (agent_start task_message (pending_row ''s_0'')) = Some (Inr 0, s) \<and> agent_typed s"
proof -
  let ?w = "agent_cloud task_message (pending_row ''s_0'')"
  obtain start where objects: "agent_objects mem_sqs mem_metrics mem_agent_config ?w = Some (Inr start, ?w)"
    and start: "start ?w = agent_start task_message (pending_row ''s_0'')" using mem_agent_objects by blast
  obtain s where run: "agent_main mem_agent_env (agent_start task_message (pending_row ''s_0'')) = Some (Inr 0, s)"
    by (rule mem_agent_run)
  from agent_counters_well_typed [OF objects disjI2, unfolded start, OF run] run show ?thesis by blast
qed

end
