(* ===== verification/MermaidText.thy ===== *)
theory MermaidText
  imports Prelude
begin

text \<open>
  The text handling of \<open>docs/workshop/static/mermaid/mermaid.js\<close>: \<open>detectType\<close>, which chooses the
  parser of a diagram, \<open>encodeEntities\<close> and \<open>decodeEntities\<close>, which hide the \<open>#name;\<close> references of a
  diagram from its parser, and the clean-up of an element's text in \<open>mermaid.init\<close>.  A JavaScript
  string is the list of its UTF-16 code units, so that the white space and the markers outside
  Latin-1 are the ones of the code.  A regular expression with the flag \<open>g\<close> is a function that gives
  the length of its match at the start of a text; \<open>replace_all\<close> scans with it.
\<close>

type_synonym js_text = "nat list"

definition units :: "string \<Rightarrow> js_text" where
  "units s = map of_char s"

section \<open>Character classes and replacement\<close>

text \<open>\<open>\s\<close>, the characters that \<open>.\<close> does not match, \<open>\d\<close> and \<open>\w\<close>.\<close>

definition js_space :: "nat \<Rightarrow> bool" where
  "js_space n \<longleftrightarrow> 9 \<le> n \<and> n \<le> 13 \<or> 8192 \<le> n \<and> n \<le> 8202 \<or>
     n \<in> {32, 160, 5760, 8232, 8233, 8239, 8287, 12288, 65279}"

definition line_end :: "nat \<Rightarrow> bool" where
  "line_end n \<longleftrightarrow> n \<in> {10, 13, 8232, 8233}"

definition js_digit :: "nat \<Rightarrow> bool" where
  "js_digit n \<longleftrightarrow> 48 \<le> n \<and> n \<le> 57"

definition js_word :: "nat \<Rightarrow> bool" where
  "js_word n \<longleftrightarrow> js_digit n \<or> 65 \<le> n \<and> n \<le> 90 \<or> 97 \<le> n \<and> n \<le> 122 \<or> n = 95"

definition starts :: "js_text \<Rightarrow> js_text \<Rightarrow> bool" where
  "starts p t \<longleftrightarrow> take (length p) t = p"

definition js_trim :: "js_text \<Rightarrow> js_text" where
  "js_trim t = rev (dropWhile js_space (rev (dropWhile js_space t)))"

text \<open>\<open>t.replace(/m/g, f)\<close> for a pattern that does not match the empty text.\<close>

function replace_all :: "(js_text \<Rightarrow> nat option) \<Rightarrow> (js_text \<Rightarrow> js_text) \<Rightarrow> js_text \<Rightarrow> js_text" where
  "replace_all m f [] = []"
| "replace_all m f (x # xs) = (case m (x # xs) of
      None \<Rightarrow> x # replace_all m f xs
    | Some n \<Rightarrow> f (take (Suc (n - 1)) (x # xs)) @ replace_all m f (drop (n - 1) xs))"
  by pat_completeness auto
termination by (relation "measure (\<lambda>(m, f, t). length t)") auto

definition literal :: "js_text \<Rightarrow> js_text \<Rightarrow> nat option" where
  "literal p t = (if starts p t then Some (length p) else None)"

section \<open>Entities\<close>

text \<open>\<open>/kw.*:\S*#.*;/\<close>: on one line, the keyword, a colon, a \<open>#\<close> without space in between, a semicolon.\<close>

fun colon_hash :: "js_text \<Rightarrow> bool" where
  "colon_hash [] = False"
| "colon_hash (x # xs) = (x = 58 \<and> (case dropWhile (\<lambda>c. \<not> js_space c \<and> c \<noteq> 35) xs of
      [] \<Rightarrow> False | c # _ \<Rightarrow> c = 35) \<or> colon_hash xs)"

definition colour_line :: "js_text \<Rightarrow> js_text \<Rightarrow> nat option" where
  "colour_line kw t =
     (let line = takeWhile (\<lambda>c. \<not> line_end c) (drop (length kw) t);
          before = rev (dropWhile (\<lambda>c. c \<noteq> 59) (rev line))
      in if starts kw t \<and> before \<noteq> [] \<and> colon_hash (butlast before)
         then Some (length kw + length before) else None)"

text \<open>\<open>/#\w+;/\<close>.\<close>

definition entity :: "js_text \<Rightarrow> nat option" where
  "entity t = (case t of
      [] \<Rightarrow> None
    | x # xs \<Rightarrow>
        (let name = takeWhile js_word xs in
         if x = 35 \<and> name \<noteq> [] \<and> starts [59] (drop (length name) xs) then Some (length name + 2) else None))"

definition entity_name :: "js_text \<Rightarrow> js_text" where
  "entity_name m = butlast (tl m)"

definition hide_entity :: "js_text \<Rightarrow> js_text" where
  "hide_entity m = (if list_all js_digit (entity_name m) then [64258, 176, 176] else [64258, 176])
     @ entity_name m @ [182, 223]"

definition cut_semicolons :: "js_text \<Rightarrow> js_text" where
  "cut_semicolons t = replace_all (colour_line (units ''classDef'')) butlast
     (replace_all (colour_line (units ''style'')) butlast t)"

definition encodeEntities :: "js_text \<Rightarrow> js_text" where
  "encodeEntities t = replace_all entity hide_entity (cut_semicolons t)"

definition decodeEntities :: "js_text \<Rightarrow> js_text" where
  "decodeEntities t =
     replace_all (literal [182, 223]) (\<lambda>_. units '';'')
       (replace_all (literal [64258, 176]) (\<lambda>_. units ''&'')
         (replace_all (literal [64258, 176, 176]) (\<lambda>_. units ''&#'') t))"

section \<open>The type of a diagram\<close>

text \<open>
  \<open>/^\s*%%.*\n/\<close>: the white space may end with the text's last line break before \<open>%%\<close>; the pattern is
  anchored, so the flag \<open>g\<close> makes no difference.  \<open>.\<close> stops at any line end, and only a line feed
  closes the match.
\<close>

definition strip_comment :: "js_text \<Rightarrow> js_text" where
  "strip_comment t =
     (let body = dropWhile js_space t;
          rest = dropWhile (\<lambda>c. \<not> line_end c) (drop 2 body)
      in if starts (units ''%%'') body \<and> starts [10] rest then 10 # tl rest else t)"

datatype diagram = Sequence | Gantt | ClassDiagram | GitGraph | Flowchart

definition detectType :: "js_text \<Rightarrow> diagram" where
  "detectType t =
     (let body = dropWhile js_space (strip_comment t) in
      if starts (units ''sequenceDiagram'') body then Sequence
      else if starts (units ''gantt'') body then Gantt
      else if starts (units ''classDiagram'') body then ClassDiagram
      else if starts (units ''gitGraph'') body then GitGraph
      else Flowchart)"

section \<open>The text of an element\<close>

text \<open>\<open>/<br>/gi\<close>.\<close>

definition br_tag :: "js_text \<Rightarrow> nat option" where
  "br_tag t = (if map (\<lambda>n. if 65 \<le> n \<and> n \<le> 90 then n + 32 else n) (take 4 t) = units ''<br>''
     then Some 4 else None)"

text \<open>\<open>r.default.decode(o).trim().replace(/<br>/gi,"<br/>")\<close>, with the decoder of the library \<open>he\<close>.\<close>

definition clean_text :: "(js_text \<Rightarrow> js_text) \<Rightarrow> js_text \<Rightarrow> js_text" where
  "clean_text he_decode t = replace_all br_tag (\<lambda>_. units ''<br/>'') (js_trim (he_decode t))"

section \<open>What they do\<close>

lemma starts_append [simp]: "starts p (p @ t)"
  by (simp add: starts_def)

lemma starts_simps [simp]:
  "starts [] t" "\<not> starts (p # ps) []" "starts (p # ps) (x # xs) \<longleftrightarrow> p = x \<and> starts ps xs"
  by (auto simp: starts_def)

lemma drop_spaces:
  "list_all js_space ws \<Longrightarrow> \<not> js_space x \<Longrightarrow> dropWhile js_space (ws @ x # t) = x # t"
  by (induction ws) auto

lemma drop_line:
  "list_all (\<lambda>c. \<not> line_end c) l \<Longrightarrow> line_end x \<Longrightarrow> dropWhile (\<lambda>c. \<not> line_end c) (l @ x # t) = x # t"
  by (induction l) auto

lemma percent: "units ''%%'' = [37, 37]" "\<not> js_space 37"
  by (simp_all add: units_def js_space_def)

lemma strip_comment_line:
  assumes "list_all js_space ws" and "list_all (\<lambda>c. \<not> line_end c) l"
  shows "strip_comment (ws @ units ''%%'' @ l @ 10 # t) = 10 # t"
    and "strip_comment (ws @ units ''%%'' @ l @ 13 # t) = ws @ units ''%%'' @ l @ 13 # t"
proof -
  have "line_end 10" "line_end 13" by (simp_all add: line_end_def)
  then show "strip_comment (ws @ units ''%%'' @ l @ 10 # t) = 10 # t"
    "strip_comment (ws @ units ''%%'' @ l @ 13 # t) = ws @ units ''%%'' @ l @ 13 # t"
    using assms by (simp_all add: strip_comment_def percent drop_spaces drop_line)
qed

definition keyword_type :: "(js_text \<times> diagram) list" where
  "keyword_type = [(units ''sequenceDiagram'', Sequence), (units ''gantt'', Gantt),
     (units ''classDiagram'', ClassDiagram), (units ''gitGraph'', GitGraph)]"

text \<open>
  One comment line in front of a diagram does not hide its keyword.  A second comment line does,
  and so does a comment that ends with a carriage return: the diagram is then taken for a flow chart.
\<close>

theorem detectType_one_comment:
  assumes "list_all js_space ws" and "list_all (\<lambda>c. \<not> line_end c) l"
    and "list_all js_space ws'" and "(kw, d) \<in> set keyword_type"
  shows "detectType (ws @ units ''%%'' @ l @ 10 # ws' @ kw @ t) = d \<and>
    detectType (ws @ units ''%%'' @ l @ 10 # ws' @ units ''%%'' @ t) = Flowchart \<and>
    detectType (ws @ units ''%%'' @ l @ 13 # 10 # ws' @ kw @ t) = Flowchart"
proof -
  have body: "dropWhile js_space (10 # ws' @ x # r) = x # r" if "\<not> js_space x" for x r
    using drop_spaces [OF assms(3) that] by (simp add: js_space_def)
  have kw: "dropWhile js_space (10 # ws' @ kw @ t) = kw @ t"
  proof -
    obtain x r where "kw @ t = x # r" "\<not> js_space x"
      using assms(4) by (auto simp: keyword_type_def units_def js_space_def)
    with body show ?thesis by simp
  qed
  have "detectType (ws @ units ''%%'' @ l @ 10 # ws' @ kw @ t) = d"
    using assms(4) unfolding detectType_def strip_comment_line(1) [OF assms(1,2)] Let_def kw
    by (auto simp: keyword_type_def units_def)
  moreover have "dropWhile js_space (strip_comment (ws @ units ''%%'' @ l @ 10 # ws' @ units ''%%'' @ t))
      = units ''%%'' @ t"
    unfolding strip_comment_line(1) [OF assms(1,2)]
    by (simp only: percent(1) append_Cons append_Nil body [OF percent(2)])
  then have "detectType (ws @ units ''%%'' @ l @ 10 # ws' @ units ''%%'' @ t) = Flowchart"
    by (simp add: detectType_def Let_def) (simp add: units_def)
  moreover have "dropWhile js_space (strip_comment (ws @ units ''%%'' @ l @ 13 # 10 # ws' @ kw @ t))
      = units ''%%'' @ l @ 13 # 10 # ws' @ kw @ t"
    unfolding strip_comment_line(2) [OF assms(1,2)]
    by (simp only: percent(1) append_Cons append_Nil drop_spaces [OF assms(1) percent(2)])
  then have "detectType (ws @ units ''%%'' @ l @ 13 # 10 # ws' @ kw @ t) = Flowchart"
    by (simp add: detectType_def Let_def) (simp add: units_def)
  ultimately show ?thesis by blast
qed

theorem detectType_one_comment_witness:
  "detectType (units '' '' @ units ''%%'' @ units ''plan'' @ 10 # [] @ units ''gantt'' @ []) = Gantt"
  using detectType_one_comment [of "units '' ''" "units ''plan''" "[]" "units ''gantt''" Gantt "[]"]
  by (simp add: units_def js_space_def line_end_def keyword_type_def)

text \<open>
  The references of a text as HTML has them: \<open>&#12;\<close> for a number, \<open>&name;\<close> for a name.
\<close>

definition html_reference :: "js_text \<Rightarrow> js_text" where
  "html_reference m = (if list_all js_digit (entity_name m) then units ''&#'' else units ''&'')
     @ entity_name m @ units '';''"

lemma replace_all_skip:
  assumes "\<forall>x \<in> set u. x \<noteq> c"
  shows "replace_all (literal (c # p)) f (u @ v) = u @ replace_all (literal (c # p)) f v"
  using assms by (induction u) (simp_all add: literal_def)

lemma replace_all_hit:
  "replace_all (literal (c # p)) f (c # p @ v) = f (c # p) @ replace_all (literal (c # p)) f v"
  by (simp add: literal_def)

lemma set_replace_all:
  assumes "\<And>m. set (f m) \<subseteq> set m"
  shows "set (replace_all m f t) \<subseteq> set t"
  using assms
proof (induction m f t rule: replace_all.induct)
  case (2 m f x xs)
  show ?case
  proof (cases "m (x # xs)")
    case None
    with 2 show ?thesis by auto
  next
    case (Some n)
    have "set (f (take (Suc (n - 1)) (x # xs))) \<subseteq> set (x # xs)"
      using 2(3) set_take_subset [of "Suc (n - 1)" "x # xs"] by blast
    moreover have "set (replace_all m f (drop (n - 1) xs)) \<subseteq> set xs"
      using 2(2) [OF Some 2(3)] set_drop_subset [of "n - 1" xs] by blast
    ultimately show ?thesis using Some by auto
  qed
qed simp

lemma entity_match:
  assumes "entity (x # xs) = Some n"
  obtains name rest where "x = 35" "xs = name @ 59 # rest" "name \<noteq> []" "\<forall>c \<in> set name. js_word c"
    "n = length name + 2"
proof -
  let ?name = "takeWhile js_word xs"
  have "x = 35" "?name \<noteq> []" "starts [59] (drop (length ?name) xs)" "n = length ?name + 2"
    using assms by (auto simp: entity_def Let_def split: if_splits)
  moreover from this(3) obtain rest where "drop (length ?name) xs = 59 # rest"
    by (cases "drop (length ?name) xs") auto
  then have "xs = ?name @ 59 # rest"
    by (metis append_take_drop_id takeWhile_eq_take length_takeWhile_le)
  moreover have "\<forall>c \<in> set ?name. js_word c" by (auto dest: set_takeWhileD)
  ultimately show thesis using that by blast
qed

text \<open>The three passes over a hidden entity.\<close>

lemma decode_pieces:
  assumes "\<forall>c \<in> set u. c \<noteq> 64258 \<and> c \<noteq> 182"
  shows "decodeEntities (u @ v) = u @ decodeEntities v"
    and "decodeEntities (64258 # 176 # 176 # u @ 182 # 223 # v) = units ''&#'' @ u @ units '';'' @ decodeEntities v"
    and "u \<noteq> [] \<Longrightarrow> hd u \<noteq> 176 \<Longrightarrow>
      decodeEntities (64258 # 176 # u @ 182 # 223 # v) = units ''&'' @ u @ units '';'' @ decodeEntities v"
proof -
  let ?r1 = "replace_all (literal [64258, 176, 176]) (\<lambda>_. units ''&#'')"
  let ?r2 = "replace_all (literal [64258, 176]) (\<lambda>_. units ''&'')"
  let ?r3 = "replace_all (literal [182, 223]) (\<lambda>_. units '';'')"
  have skip: "?r1 (u @ w) = u @ ?r1 w" "?r2 (u @ w) = u @ ?r2 w" "?r3 (u @ w) = u @ ?r3 w" for w
    using assms by (intro replace_all_skip; simp)+
  have other: "?r1 (182 # 223 # w) = 182 # 223 # ?r1 w" "?r2 (182 # 223 # w) = 182 # 223 # ?r2 w"
    "?r2 (38 # w) = 38 # ?r2 w" "?r2 (35 # w) = 35 # ?r2 w" "?r3 (38 # w) = 38 # ?r3 w"
    "?r3 (35 # w) = 35 # ?r3 w" for w
    by (simp_all add: literal_def)
  have hit: "?r1 (64258 # 176 # 176 # w) = 38 # 35 # ?r1 w" "?r2 (64258 # 176 # w) = 38 # ?r2 w"
    "?r3 (182 # 223 # w) = 59 # ?r3 w" for w
    by (simp_all add: literal_def units_def)
  show "decodeEntities (u @ v) = u @ decodeEntities v"
    by (simp only: decodeEntities_def skip)
  show "decodeEntities (64258 # 176 # 176 # u @ 182 # 223 # v) = units ''&#'' @ u @ units '';'' @ decodeEntities v"
    by (simp only: decodeEntities_def skip other hit) (simp add: units_def)
  assume u: "u \<noteq> []" "hd u \<noteq> 176"
  have pass: "?r1 (64258 # 176 # u @ w) = 64258 # 176 # u @ ?r1 w" for w
    using u skip(1) [of w] by (cases u) (simp_all add: literal_def)
  show "decodeEntities (64258 # 176 # u @ 182 # 223 # v) = units ''&'' @ u @ units '';'' @ decodeEntities v"
    by (simp only: decodeEntities_def pass skip other hit) (simp add: units_def)
qed

lemma decode_hidden:
  assumes "64258 \<notin> set t" and "182 \<notin> set t"
  shows "decodeEntities (replace_all entity hide_entity t) = replace_all entity html_reference t"
  using assms
proof (induction "length t" arbitrary: t rule: less_induct)
  case less
  show ?case
  proof (cases t)
    case (Cons x xs)
    show ?thesis
    proof (cases "entity t")
      case None
      have "decodeEntities ([x] @ v) = [x] @ decodeEntities v" for v
        using less.prems Cons by (intro decode_pieces(1)) auto
      with None Cons less show ?thesis by simp
    next
      case (Some n)
      then obtain name rest where m: "x = 35" "xs = name @ 59 # rest" "name \<noteq> []"
        "\<forall>c \<in> set name. js_word c" "n = length name + 2"
        using entity_match Cons by blast
      have "js_word (hd name)" using m(3,4) by simp
      then have word: "\<forall>c \<in> set name. c \<noteq> 64258 \<and> c \<noteq> 182" "hd name \<noteq> 176"
        using m(4) by (auto simp: js_word_def js_digit_def)
      have match: "take (Suc (n - 1)) (x # xs) = 35 # name @ [59]" "drop (n - 1) xs = rest"
        by (simp_all add: m)
      have name: "entity_name (35 # name @ [59]) = name" by (simp add: entity_name_def)
      have IH: "decodeEntities (replace_all entity hide_entity rest) = replace_all entity html_reference rest"
        using less Cons m by simp
      have "decodeEntities (hide_entity (35 # name @ [59]) @ v)
          = html_reference (35 # name @ [59]) @ decodeEntities v" for v
        using decode_pieces(2) [OF word(1), of v] decode_pieces(3) [OF word(1) m(3) word(2), of v]
        by (simp add: hide_entity_def html_reference_def name)
      moreover have "replace_all entity f t = f (35 # name @ [59]) @ replace_all entity f rest" for f
        unfolding Cons replace_all.simps using Some [unfolded Cons] by (simp only: option.case match)
      ultimately show ?thesis by (simp only: IH)
    qed
  qed (simp add: decodeEntities_def)
qed

text \<open>
  C38. The references of a diagram survive its parser: \<open>decodeEntities\<close> after \<open>encodeEntities\<close> gives every
  \<open>#12;\<close> as \<open>&#12;\<close> and every \<open>#name;\<close> as \<open>&name;\<close> and leaves the rest of the text alone, apart from
  the semicolons that end the style lines with a colour.  The text must not use the two markers.
\<close>

theorem entities_round_trip:
  assumes "64258 \<notin> set t" and "182 \<notin> set t"
  shows "decodeEntities (encodeEntities t) = replace_all entity html_reference (cut_semicolons t)"
proof -
  have "set (cut_semicolons t) \<subseteq> set t"
    unfolding cut_semicolons_def using in_set_butlastD
    by (meson set_replace_all subset_trans subsetI)
  with assms show ?thesis unfolding encodeEntities_def by (intro decode_hidden) auto
qed

theorem entities_round_trip_witness:
  "decodeEntities (encodeEntities (units ''#35; #a;'')) = units ''&#35; &a;''"
proof -
  have "64258 \<notin> set (units ''#35; #a;'')" "182 \<notin> set (units ''#35; #a;'')" by (simp_all add: units_def)
  note entities_round_trip [OF this]
  also have "replace_all entity html_reference (cut_semicolons (units ''#35; #a;'')) = units ''&#35; &a;''"
    by (simp add: cut_semicolons_def colour_line_def entity_def html_reference_def entity_name_def
        units_def line_end_def js_word_def js_digit_def)
  finally show ?thesis .
qed

end
