(* ===== verification/MermaidGit.thy ===== *)
theory MermaidGit
  imports Prelude
begin

text \<open>
  The commit graph of the diagrams on the workshop's pages: the module \<open>gitGraphAst\<close> inside
  \<open>docs/workshop/static/mermaid/mermaid.js\<close>, whose functions the parser of a git diagram calls one
  after the other.  The module's variables \<open>s\<close>, \<open>u\<close>, \<open>c\<close>, \<open>l\<close>, \<open>d\<close> and \<open>f\<close> are the record \<open>git\<close>.
  The seven random digits that name a commit are an argument.  Logging is left out.
\<close>

datatype js_error = JsTypeError | JsURIError | JsThrown string

section \<open>Commits and branches\<close>

datatype parent = NoParent | Parent string | Parents "string option" string

record commit =
  commit_id :: string
  commit_message :: string
  commit_seq :: nat
  commit_parent :: parent

record git =
  commits :: "string \<rightharpoonup> commit"
  head_commit :: "commit option"
  branches :: "string \<rightharpoonup> string option" \<comment> \<open>a branch without commit has the value \<open>null\<close>\<close>
  cur_branch :: string
  direction :: string
  next_seq :: nat

definition git_clear :: "git \<Rightarrow> git" where
  "git_clear g = g\<lparr>commits := Map.empty, head_commit := None, branches := [''master'' \<mapsto> None],
     cur_branch := ''master'', next_seq := 0\<rparr>"

definition git_initial :: git where
  "git_initial = \<lparr>commits = Map.empty, head_commit = None, branches = [''master'' \<mapsto> None],
     cur_branch = ''master'', direction = ''LR'', next_seq = 0\<rparr>"

definition set_direction :: "string \<Rightarrow> git \<Rightarrow> git" where
  "set_direction d g = g\<lparr>direction := d\<rparr>"

text \<open>\<open>h\<close>: seven digits, from seven draws \<open>Math.floor(Math.random() * 16)\<close>.\<close>

definition random_id :: "nat list \<Rightarrow> string" where
  "random_id draws = map (\<lambda>d. ''0123456789abcdef'' ! (d mod 16)) (take 7 draws)"

text \<open>\<open>s[c[b]]\<close>.\<close>

definition branch_commit :: "git \<Rightarrow> string \<Rightarrow> commit option" where
  "branch_commit g b = (case branches g b of Some (Some i) \<Rightarrow> commits g i | _ \<Rightarrow> None)"

text \<open>\<open>s[e.id] = e\<close>, \<open>u = e\<close> and \<open>c[l] = e.id\<close>, with the next number.\<close>

definition add_commit :: "string \<Rightarrow> string \<Rightarrow> parent \<Rightarrow> git \<Rightarrow> git" where
  "add_commit new_id msg p g =
     (let e = \<lparr>commit_id = new_id, commit_message = msg, commit_seq = next_seq g, commit_parent = p\<rparr> in
      g\<lparr>head_commit := Some e, commits := (commits g)(new_id \<mapsto> e),
        branches := (branches g)(cur_branch g \<mapsto> Some new_id), next_seq := Suc (next_seq g)\<rparr>)"

definition git_commit :: "string \<Rightarrow> string \<Rightarrow> git \<Rightarrow> git" where
  "git_commit new_id msg g =
     add_commit new_id msg (case head_commit g of None \<Rightarrow> NoParent | Some u \<Rightarrow> Parent (commit_id u)) g"

definition git_branch :: "string \<Rightarrow> git \<Rightarrow> git" where
  "git_branch name g = g\<lparr>branches := (branches g)(name \<mapsto> map_option commit_id (head_commit g))\<rparr>"

definition git_checkout :: "string \<Rightarrow> git \<Rightarrow> git" where
  "git_checkout name g = g\<lparr>cur_branch := name, head_commit := branch_commit g name\<rparr>"

text \<open>
  \<open>isfastforwardable\<close>: the loop climbs from \<open>e\<close> along the parents until it is below \<open>t\<close>, at \<open>t\<close> or at a
  commit without parent; at a merge commit it tries both parents.  It may not end, for there is
  nothing that keeps a commit from being its own ancestor.
\<close>

partial_function (option) fast_forwardable ::
  "(string \<rightharpoonup> commit) \<Rightarrow> commit \<Rightarrow> commit \<Rightarrow> (js_error + bool) option" where
  "fast_forwardable s t e =
     (if commit_seq t \<le> commit_seq e \<and> t \<noteq> e then
        (case commit_parent e of
           NoParent \<Rightarrow> Some (Inr (commit_id t = commit_id e))
         | Parent p \<Rightarrow> (case s p of None \<Rightarrow> Some (Inl JsTypeError) | Some e' \<Rightarrow> fast_forwardable s t e')
         | Parents p q \<Rightarrow> (case Option.bind p s of
               None \<Rightarrow> Some (Inl JsTypeError)
             | Some e1 \<Rightarrow> Option.bind (fast_forwardable s t e1) (\<lambda>r.
                 if r = Inr False then
                   (case s q of None \<Rightarrow> Some (Inl JsTypeError) | Some e2 \<Rightarrow> fast_forwardable s t e2)
                 else Some r)))
      else Some (Inr (commit_id t = commit_id e)))"

text \<open>
  The operations that can fail give the error that escapes, if one does, and the state; \<open>None\<close> if
  they do not return.
\<close>

type_synonym git_result = "(js_error option \<times> git) option"

definition merge_commit :: "string \<Rightarrow> string \<Rightarrow> git \<Rightarrow> git" where
  "merge_commit new_id other g =
     add_commit new_id (''merged branch '' @ other @ '' into '' @ cur_branch g)
       (Parents (map_option commit_id (head_commit g)) (case branches g other of Some (Some i) \<Rightarrow> i | _ \<Rightarrow> [])) g"

definition git_merge :: "string \<Rightarrow> string \<Rightarrow> git \<Rightarrow> git_result" where
  "git_merge new_id other g =
     (case (branch_commit g (cur_branch g), branch_commit g other) of
        (Some e, Some n) \<Rightarrow>
          Option.bind (if commit_seq e > commit_seq n then fast_forwardable (commits g) n e else Some (Inr False))
            (\<lambda>already. case already of
               Inl x \<Rightarrow> Some (Some x, g)
             | Inr True \<Rightarrow> Some (None, g)
             | Inr False \<Rightarrow> Option.bind (fast_forwardable (commits g) e n) (\<lambda>ff. case ff of
                   Inl x \<Rightarrow> Some (Some x, g)
                 | Inr True \<Rightarrow> Some (None, g\<lparr>branches := (branches g)(cur_branch g := branches g other),
                     head_commit := branch_commit g other\<rparr>)
                 | Inr False \<Rightarrow> Some (None, merge_commit new_id other g)))
      | _ \<Rightarrow> Some (Some JsTypeError, g))"

text \<open>
  \<open>parseInt\<close>, as far as \<open>n > 0\<close> and the count-down use it: white space, a sign and a prefix of
  decimal digits, or of hexadecimal ones after \<open>0x\<close>; no number counts as 0, and so does a
  negative one.
\<close>

definition latin_space :: "char \<Rightarrow> bool" where
  "latin_space c \<longleftrightarrow> is_space c \<or> c = CHR 0xA0"

definition hex_val :: "char \<Rightarrow> nat option" where
  "hex_val c = (let n = of_char c in
     if 48 \<le> n \<and> n \<le> 57 then Some (n - 48)
     else if 65 \<le> n \<and> n \<le> 70 then Some (n - 55)
     else if 97 \<le> n \<and> n \<le> 102 then Some (n - 87) else None)"

definition parse_count :: "string \<Rightarrow> nat" where
  "parse_count str = (let t = dropWhile latin_space str;
      d = (case t of [] \<Rightarrow> [] | c # cs \<Rightarrow> if c = CHR ''+'' then cs else t)
    in if take 2 d = ''0x'' \<or> take 2 d = ''0X''
       then foldl (\<lambda>n c. 16 * n + the (hex_val c)) 0 (takeWhile (\<lambda>c. hex_val c \<noteq> None) (drop 2 d))
       else nat_of_str (takeWhile is_digit d))"

definition no_unique_parent :: js_error where
  "no_unique_parent = JsThrown ''Critical error - unique parent commit not found during reset''"

fun climb :: "(string \<rightharpoonup> commit) \<Rightarrow> nat \<Rightarrow> commit \<Rightarrow> js_error + commit" where
  "climb s 0 r = Inr r"
| "climb s (Suc n) r = (case commit_parent r of
      Parent p \<Rightarrow> (case s p of None \<Rightarrow> Inl no_unique_parent | Some r' \<Rightarrow> climb s n r')
    | _ \<Rightarrow> Inl no_unique_parent)"

definition git_reset :: "string \<Rightarrow> git \<Rightarrow> git_result" where
  "git_reset target g =
     (let parts = split_on (CHR '':'') target;
          name = hd parts;
          n = (if 1 < length parts then parse_count (parts ! 1) else 0)
      in case (if name = ''HEAD'' then head_commit g else branch_commit g name) of
           None \<Rightarrow> Some (Some JsTypeError, if n = 0 then g\<lparr>head_commit := None\<rparr> else g)
         | Some r \<Rightarrow> (case climb (commits g) n r of
               Inl x \<Rightarrow> Some (Some x, g)
             | Inr r' \<Rightarrow> Some (None, g\<lparr>head_commit := Some r',
                 branches := (branches g)(cur_branch g \<mapsto> Some (commit_id r'))\<rparr>)))"

section \<open>A diagram is a sequence of operations\<close>

datatype git_op =
    Commit string string \<comment> \<open>drawn id, message\<close>
  | Branch string
  | Checkout string
  | Merge string string \<comment> \<open>drawn id, branch\<close>
  | Reset string
  | Direction string

fun git_step :: "git_op \<Rightarrow> git \<Rightarrow> git_result" where
  "git_step (Commit new_id msg) g = Some (None, git_commit new_id msg g)"
| "git_step (Branch b) g = Some (None, git_branch b g)"
| "git_step (Checkout b) g = Some (None, git_checkout b g)"
| "git_step (Merge new_id b) g = git_merge new_id b g"
| "git_step (Reset t) g = git_reset t g"
| "git_step (Direction d) g = Some (None, set_direction d g)"

text \<open>The first error ends the diagram.\<close>

fun git_run :: "git_op list \<Rightarrow> git \<Rightarrow> git_result" where
  "git_run [] g = Some (None, g)"
| "git_run (op # ops) g = Option.bind (git_step op g) (\<lambda>(err, g').
     case err of None \<Rightarrow> git_run ops g' | Some x \<Rightarrow> Some (Some x, g'))"

text \<open>\<open>getBranchesAsObjArray\<close>, given the names that \<open>map\<close> visits.\<close>

definition branches_array :: "string list \<Rightarrow> git \<Rightarrow> (string \<times> commit option) list" where
  "branches_array names g = map (\<lambda>b. (b, branch_commit g b)) names"

text \<open>\<open>getCommitsArray\<close>: the commits, the newest first, given the ids that \<open>Object.keys\<close> lists.\<close>

definition commits_array :: "string list \<Rightarrow> git \<Rightarrow> commit list" where
  "commits_array ids g = rev (sort_key commit_seq (List.map_filter (commits g) ids))"

section \<open>What a diagram keeps\<close>

primrec parent_ids :: "parent \<Rightarrow> string list" where
  "parent_ids NoParent = []"
| "parent_ids (Parent p) = [p]"
| "parent_ids (Parents p q) = (case p of None \<Rightarrow> [q] | Some p' \<Rightarrow> [p', q])"

primrec parent_full :: "parent \<Rightarrow> bool" where
  "parent_full NoParent = True"
| "parent_full (Parent p) = True"
| "parent_full (Parents p q) = (p \<noteq> None)"

text \<open>
  A store is in order when a commit has its own id, its parents are older commits of the store
  and no two commits have one number.
\<close>

definition store_ok :: "(string \<rightharpoonup> commit) \<Rightarrow> bool" where
  "store_ok s \<longleftrightarrow>
     (\<forall>i c. s i = Some c \<longrightarrow> commit_id c = i \<and> parent_full (commit_parent c) \<and>
        (\<forall>p \<in> set (parent_ids (commit_parent c)). \<exists>d. s p = Some d \<and> commit_seq d < commit_seq c)) \<and>
     (\<forall>i j c d. s i = Some c \<and> s j = Some d \<and> commit_seq c = commit_seq d \<longrightarrow> c = d)"

definition git_ok :: "git \<Rightarrow> bool" where
  "git_ok g \<longleftrightarrow> store_ok (commits g) \<and>
     (\<forall>i c. commits g i = Some c \<longrightarrow> commit_seq c < next_seq g) \<and>
     (\<forall>b i. branches g b = Some (Some i) \<longrightarrow> i \<in> dom (commits g)) \<and>
     head_commit g = branch_commit g (cur_branch g)"

primrec drawn :: "git_op \<Rightarrow> string list" where
  "drawn (Commit new_id msg) = [new_id]"
| "drawn (Branch b) = []"
| "drawn (Checkout b) = []"
| "drawn (Merge new_id b) = [new_id]"
| "drawn (Reset t) = []"
| "drawn (Direction d) = []"

inductive ancestor :: "(string \<rightharpoonup> commit) \<Rightarrow> string \<Rightarrow> string \<Rightarrow> bool" for s where
  ancestor_self: "s i = Some c \<Longrightarrow> ancestor s i i"
| ancestor_parent: "s j = Some c \<Longrightarrow> p \<in> set (parent_ids (commit_parent c)) \<Longrightarrow> ancestor s i p
    \<Longrightarrow> ancestor s i j"

lemma store_okD:
  assumes "store_ok s" and "s i = Some c"
  shows "commit_id c = i" and "parent_full (commit_parent c)"
    and "p \<in> set (parent_ids (commit_parent c)) \<Longrightarrow> \<exists>d. s p = Some d \<and> commit_seq d < commit_seq c"
  using assms by (auto simp: store_ok_def)

lemma store_ok_unique:
  assumes "store_ok s" and "s i = Some c" and "s j = Some d"
  shows "commit_seq c = commit_seq d \<longleftrightarrow> c = d" and "i = j \<longleftrightarrow> c = d"
  using assms unfolding store_ok_def by (metis option.inject)+

lemma ancestor_seq:
  assumes "ancestor s i j" and "store_ok s"
  shows "\<exists>c d. s i = Some c \<and> s j = Some d \<and> commit_seq c \<le> commit_seq d"
  using assms
proof (induction rule: ancestor.induct)
  case (ancestor_parent j c p i)
  then show ?case using store_okD(3) [OF ancestor_parent.prems ancestor_parent.hyps(1,2)] by fastforce
qed auto

lemma ancestor_unfold:
  "s j = Some d \<Longrightarrow> ancestor s i j \<longleftrightarrow> i = j \<or> (\<exists>p \<in> set (parent_ids (commit_parent d)). ancestor s i p)"
  by (subst ancestor.simps) auto

lemma ancestor_mono:
  assumes "ancestor s i j" and "s \<subseteq>\<^sub>m s'"
  shows "ancestor s' i j"
  using assms
proof (induction rule: ancestor.induct)
  case (ancestor_self i c)
  then have "s' i = Some c" by (force simp: map_le_def)
  then show ?case by (rule ancestor.ancestor_self)
next
  case (ancestor_parent j c p i)
  then have "s' j = Some c" by (force simp: map_le_def)
  with ancestor_parent show ?case by (blast intro: ancestor.ancestor_parent)
qed

text \<open>On a store in order the test returns, and it decides ancestry.\<close>

lemma fast_forwardable_decides:
  assumes "store_ok s" and "s i = Some t" and "s j = Some e"
  shows "fast_forwardable s t e = Some (Inr (ancestor s i j))"
  using assms(3)
proof (induction "commit_seq e" arbitrary: j e rule: less_induct)
  case less
  note ok = store_okD [OF assms(1) less.prems]
  have ids: "commit_id t = i" "commit_id e = j"
    using store_okD(1) [OF assms(1)] assms(2) less.prems by auto
  have same: "t = e \<longleftrightarrow> i = j" using store_ok_unique(2) [OF assms(1,2) less.prems] by simp
  have IH: "fast_forwardable s t d = Some (Inr (ancestor s i p))"
    if "p \<in> set (parent_ids (commit_parent e))" and "s p = Some d" for p d
    using ok(3) [OF that(1)] that(2) less.hyps by auto
  show ?case
  proof (cases "commit_seq t \<le> commit_seq e \<and> t \<noteq> e")
    case False
    then have "\<not> ancestor s i j \<or> i = j"
      using ancestor_seq [OF _ assms(1), of i j] assms(2) less.prems same by auto
    with False same ids show ?thesis
      by (subst fast_forwardable.simps) (auto simp: ancestor_unfold [of s j e] less.prems)
  next
    case True
    then have ij: "i \<noteq> j" using same by simp
    have run: "fast_forwardable s t e = (case commit_parent e of
        NoParent \<Rightarrow> Some (Inr (commit_id t = commit_id e))
      | Parent p \<Rightarrow> (case s p of None \<Rightarrow> Some (Inl JsTypeError) | Some e' \<Rightarrow> fast_forwardable s t e')
      | Parents p q \<Rightarrow> (case Option.bind p s of
            None \<Rightarrow> Some (Inl JsTypeError)
          | Some e1 \<Rightarrow> Option.bind (fast_forwardable s t e1) (\<lambda>r.
              if r = Inr False then
                (case s q of None \<Rightarrow> Some (Inl JsTypeError) | Some e2 \<Rightarrow> fast_forwardable s t e2)
              else Some r)))"
      using True by (subst fast_forwardable.simps) simp
    have anc: "ancestor s i j \<longleftrightarrow> (\<exists>p \<in> set (parent_ids (commit_parent e)). ancestor s i p)"
      using ancestor_unfold [of s j e i] less.prems ij by simp
    show ?thesis
    proof (cases "commit_parent e")
      case NoParent
      then show ?thesis by (simp add: run anc ids ij)
    next
      case (Parent p)
      with ok(3) [of p] obtain d where "s p = Some d" by auto
      with Parent IH [of p d] show ?thesis by (simp add: run anc)
    next
      case (Parents p q)
      with ok(2) obtain p' where p: "p = Some p'" by auto
      with Parents ok(3) [of p'] ok(3) [of q] obtain d d' where "s p' = Some d" "s q = Some d'" by auto
      with Parents p IH [of p' d] IH [of q d'] show ?thesis by (simp add: run anc)
    qed
  qed
qed

lemma add_commit_ok:
  assumes ok: "git_ok g" and fresh: "new_id \<notin> dom (commits g)"
    and full: "parent_full p" and parents: "set (parent_ids p) \<subseteq> dom (commits g)"
  shows "git_ok (add_commit new_id msg p g)"
    and "commits g \<subseteq>\<^sub>m commits (add_commit new_id msg p g)"
    and "dom (commits (add_commit new_id msg p g)) = insert new_id (dom (commits g))"
proof -
  have s: "store_ok (commits g)" and lt: "\<And>i c. commits g i = Some c \<Longrightarrow> commit_seq c < next_seq g"
    and b: "\<And>b i. branches g b = Some (Some i) \<Longrightarrow> i \<in> dom (commits g)"
    using ok by (auto simp: git_ok_def)
  show "commits g \<subseteq>\<^sub>m commits (add_commit new_id msg p g)"
    using fresh by (auto simp: map_le_def add_commit_def Let_def)
  have "store_ok (commits (add_commit new_id msg p g))"
    unfolding store_ok_def
  proof (intro conjI allI impI)
    fix i c assume i: "commits (add_commit new_id msg p g) i = Some c"
    then show "commit_id c = i" "parent_full (commit_parent c)"
      using store_okD(1,2) [OF s] full by (auto simp: add_commit_def Let_def split: if_splits)
    show "\<forall>q \<in> set (parent_ids (commit_parent c)). \<exists>d. commits (add_commit new_id msg p g) q = Some d
        \<and> commit_seq d < commit_seq c"
    proof
      fix q assume q: "q \<in> set (parent_ids (commit_parent c))"
      have "\<exists>d. commits g q = Some d \<and> commit_seq d < commit_seq c"
        using i q parents lt store_okD(3) [OF s, of i c q]
        by (auto simp: add_commit_def Let_def dom_def split: if_splits)
      then show "\<exists>d. commits (add_commit new_id msg p g) q = Some d \<and> commit_seq d < commit_seq c"
        using fresh by (auto simp: add_commit_def Let_def)
    qed
  next
    fix i j c d
    assume "commits (add_commit new_id msg p g) i = Some c
      \<and> commits (add_commit new_id msg p g) j = Some d \<and> commit_seq c = commit_seq d"
    then show "c = d" using lt [of i c] lt [of j d] store_ok_unique(1) [OF s, of i c j d]
      by (auto simp: add_commit_def Let_def split: if_splits)
  qed
  then show "git_ok (add_commit new_id msg p g)"
    using lt b unfolding git_ok_def
    by (auto simp: add_commit_def Let_def branch_commit_def less_Suc_eq split: if_splits)
  show "dom (commits (add_commit new_id msg p g)) = insert new_id (dom (commits g))"
    by (auto simp: add_commit_def Let_def)
qed

lemma branch_commit_stored:
  assumes "git_ok g" and "branch_commit g b = Some c"
  shows "commits g (commit_id c) = Some c" and "branches g b = Some (Some (commit_id c))"
proof -
  obtain i where i: "branches g b = Some (Some i)" "commits g i = Some c"
    using assms(2) by (auto simp: branch_commit_def split: option.splits)
  then have "commit_id c = i" using assms(1) by (auto simp: git_ok_def dest: store_okD(1))
  with i show "commits g (commit_id c) = Some c" "branches g b = Some (Some (commit_id c))" by auto
qed

lemma head_stored:
  "git_ok g \<Longrightarrow> head_commit g = Some c \<Longrightarrow> commits g (commit_id c) = Some c"
  by (rule branch_commit_stored(1) [where b = "cur_branch g"]) (auto simp: git_ok_def)

lemma climb_stored:
  assumes "s i = Some r" and "climb s n r = Inr r'"
  shows "\<exists>j. s j = Some r'"
  using assms
proof (induction s n r arbitrary: i rule: climb.induct)
  case (2 s n r)
  then show ?case by (auto split: parent.splits option.splits)
qed auto

text \<open>What a merge does, from a graph in order.\<close>

lemma git_merge_cases:
  assumes ok: "git_ok g"
  shows "git_merge new_id b g =
    (case (head_commit g, branch_commit g b) of
       (Some e, Some n) \<Rightarrow> Some (None,
         if commit_seq n < commit_seq e \<and> ancestor (commits g) (commit_id n) (commit_id e) then g
         else if ancestor (commits g) (commit_id e) (commit_id n)
         then g\<lparr>branches := (branches g)(cur_branch g \<mapsto> Some (commit_id n)), head_commit := Some n\<rparr>
         else merge_commit new_id b g)
     | _ \<Rightarrow> Some (Some JsTypeError, g))"
proof -
  have head: "branch_commit g (cur_branch g) = head_commit g" and s: "store_ok (commits g)"
    using ok by (auto simp: git_ok_def)
  show ?thesis
  proof (cases "head_commit g")
    case (Some e)
    show ?thesis
    proof (cases "branch_commit g b")
      case None
      with Some show ?thesis by (simp add: git_merge_def head)
    next
      case (Some n)
      note stored = branch_commit_stored [OF ok Some] head_stored [OF ok \<open>head_commit g = Some e\<close>]
      note ff = fast_forwardable_decides [OF s stored(3,1)] fast_forwardable_decides [OF s stored(1,3)]
      show ?thesis using Some \<open>head_commit g = Some e\<close> stored(2)
        by (simp add: git_merge_def head ff)
    qed
  qed (simp add: git_merge_def head)
qed

text \<open>
  One operation: it returns, stores at most the drawn id and, unless it fails, leaves a graph in
  order that has every commit it had.
\<close>

lemma git_keep_commits:
  assumes "git_ok g" and "commits g' = commits g" and "next_seq g' = next_seq g"
    and "\<And>b i. branches g' b = Some (Some i) \<Longrightarrow> i \<in> dom (commits g)"
    and "head_commit g' = branch_commit g' (cur_branch g')"
  shows "git_ok g'"
  using assms by (auto simp: git_ok_def)

lemma git_commit_ok:
  assumes "git_ok g" and "new_id \<notin> dom (commits g)"
  shows "git_ok (git_commit new_id msg g)" and "commits g \<subseteq>\<^sub>m commits (git_commit new_id msg g)"
    and "dom (commits (git_commit new_id msg g)) = insert new_id (dom (commits g))"
  unfolding git_commit_def
  by (auto intro!: add_commit_ok [OF assms] dest: head_stored [OF assms(1)] split: option.splits)

lemma branch_commit_update [simp]:
  "branch_commit (g\<lparr>branches := (branches g)(x \<mapsto> v)\<rparr>) y =
     (if y = x then Option.bind v (commits g) else branch_commit g y)"
  "branch_commit (g\<lparr>head_commit := h\<rparr>) y = branch_commit g y"
  "branch_commit (g\<lparr>cur_branch := d\<rparr>) y = branch_commit g y"
  "branch_commit (g\<lparr>direction := d\<rparr>) y = branch_commit g y"
  "branch_commit (g\<lparr>head_commit := h, branches := (branches g)(x \<mapsto> v)\<rparr>) y =
     (if y = x then Option.bind v (commits g) else branch_commit g y)"
  by (auto simp: branch_commit_def split: option.splits)

lemma git_branch_ok:
  assumes ok: "git_ok g"
  shows "git_ok (git_branch b g)"
proof (rule git_keep_commits [OF ok])
  show "i \<in> dom (commits g)" if "branches (git_branch b g) x = Some (Some i)" for x i
    using that ok head_stored [OF ok] by (auto simp: git_branch_def git_ok_def split: if_splits)
  have "Option.bind (map_option commit_id (head_commit g)) (commits g) = head_commit g"
    using head_stored [OF ok] by (cases "head_commit g") auto
  moreover have "head_commit g = branch_commit g (cur_branch g)"
    using ok by (simp only: git_ok_def)
  ultimately show "head_commit (git_branch b g) = branch_commit (git_branch b g) (cur_branch (git_branch b g))"
    unfolding git_branch_def by (cases "cur_branch g = b") auto
qed (simp_all add: git_branch_def)

lemma git_checkout_ok: "git_ok g \<Longrightarrow> git_ok (git_checkout b g)"
  by (rule git_keep_commits) (auto simp: git_checkout_def git_ok_def)

lemma merge_commit_ok:
  assumes ok: "git_ok g" and fresh: "new_id \<notin> dom (commits g)"
    and head: "head_commit g = Some e" and other: "branch_commit g b = Some n"
  shows "git_ok (merge_commit new_id b g)" and "commits g \<subseteq>\<^sub>m commits (merge_commit new_id b g)"
    and "dom (commits (merge_commit new_id b g)) = insert new_id (dom (commits g))"
    and "\<exists>h. head_commit (merge_commit new_id b g) = Some h \<and>
      commit_parent h = Parents (Some (commit_id e)) (commit_id n) \<and> commit_id h = new_id"
proof -
  note n = branch_commit_stored [OF ok other]
  have eq: "merge_commit new_id b g =
      add_commit new_id (''merged branch '' @ b @ '' into '' @ cur_branch g)
        (Parents (Some (commit_id e)) (commit_id n)) g"
    by (simp add: merge_commit_def head n(2))
  have ids: "set (parent_ids (Parents (Some (commit_id e)) (commit_id n))) \<subseteq> dom (commits g)"
    using head_stored [OF ok head] n(1) by auto
  have full: "parent_full (Parents (Some (commit_id e)) (commit_id n))" by simp
  show "git_ok (merge_commit new_id b g)" "commits g \<subseteq>\<^sub>m commits (merge_commit new_id b g)"
    "dom (commits (merge_commit new_id b g)) = insert new_id (dom (commits g))"
    unfolding eq by (rule add_commit_ok [OF ok fresh full ids])+
  show "\<exists>h. head_commit (merge_commit new_id b g) = Some h \<and>
      commit_parent h = Parents (Some (commit_id e)) (commit_id n) \<and> commit_id h = new_id"
    unfolding eq by (simp add: add_commit_def Let_def)
qed

lemma point_to_ok:
  assumes ok: "git_ok g" and stored: "commits g (commit_id n) = Some n"
  shows "git_ok (g\<lparr>branches := (branches g)(cur_branch g \<mapsto> Some (commit_id n)), head_commit := Some n\<rparr>)"
    and "git_ok (g\<lparr>head_commit := Some n, branches := (branches g)(cur_branch g \<mapsto> Some (commit_id n))\<rparr>)"
  using ok stored by (intro git_keep_commits [OF ok]; auto simp: git_ok_def split: if_splits)+

definition git_errors :: "js_error option set" where
  "git_errors = {None, Some JsTypeError, Some no_unique_parent}"

lemma climb_error: "climb s n r = Inl x \<Longrightarrow> x = no_unique_parent"
  by (induction s n r rule: climb.induct) (auto split: parent.splits option.splits)

lemma git_reset_returns:
  assumes ok: "git_ok g"
  shows "\<exists>err g'. git_reset t g = Some (err, g') \<and> err \<in> git_errors \<and> commits g' = commits g \<and>
    (err = None \<longrightarrow> git_ok g')"
proof -
  define name where "name = hd (split_on (CHR '':'') t)"
  define n where "n = (if 1 < length (split_on (CHR '':'') t) then parse_count (split_on (CHR '':'') t ! 1) else 0)"
  define start where "start = (if name = ''HEAD'' then head_commit g else branch_commit g name)"
  have run: "git_reset t g = (case start of
      None \<Rightarrow> Some (Some JsTypeError, if n = 0 then g\<lparr>head_commit := None\<rparr> else g)
    | Some r \<Rightarrow> (case climb (commits g) n r of
        Inl x \<Rightarrow> Some (Some x, g)
      | Inr r' \<Rightarrow> Some (None, g\<lparr>head_commit := Some r',
          branches := (branches g)(cur_branch g \<mapsto> Some (commit_id r'))\<rparr>)))"
    unfolding git_reset_def name_def n_def start_def Let_def ..
  show ?thesis
  proof (cases start)
    case (Some r)
    then have r: "commits g (commit_id r) = Some r"
      using branch_commit_stored(1) [OF ok] head_stored [OF ok] by (auto simp: start_def split: if_splits)
    show ?thesis
    proof (cases "climb (commits g) n r")
      case (Inr r')
      then obtain j where j: "commits g j = Some r'" using climb_stored [of "commits g", OF r] by blast
      then have "commit_id r' = j" using ok by (auto simp: git_ok_def dest: store_okD(1))
      with j point_to_ok [OF ok, of r'] show ?thesis by (simp add: run Some Inr git_errors_def)
    qed (simp add: run Some git_errors_def climb_error)
  qed (simp add: run git_errors_def)
qed

lemma git_step_returns:
  assumes ok: "git_ok g" and fresh: "set (drawn op) \<inter> dom (commits g) = {}"
  shows "\<exists>err g'. git_step op g = Some (err, g') \<and> err \<in> git_errors \<and>
    dom (commits g') \<subseteq> set (drawn op) \<union> dom (commits g) \<and>
    (err = None \<longrightarrow> git_ok g' \<and> commits g \<subseteq>\<^sub>m commits g')"
proof (cases op)
  case (Commit i msg)
  with git_commit_ok [OF ok, of i msg] fresh show ?thesis by (simp add: git_errors_def)
next
  case (Branch b)
  with git_branch_ok [OF ok, of b] show ?thesis by (simp add: git_branch_def git_errors_def)
next
  case (Checkout b)
  with git_checkout_ok [OF ok, of b] show ?thesis by (simp add: git_checkout_def git_errors_def)
next
  case (Merge i b)
  show ?thesis
  proof (cases "head_commit g = None \<or> branch_commit g b = None")
    case True
    with Merge show ?thesis by (auto simp: git_merge_cases [OF ok] git_errors_def split: option.splits)
  next
    case False
    then obtain e n where en: "head_commit g = Some e" "branch_commit g b = Some n" by auto
    note point_to_ok [OF ok branch_commit_stored(1) [OF ok en(2)]]
    with merge_commit_ok(1-3) [OF ok _ en, of i] fresh ok Merge en show ?thesis
      by (auto simp: git_merge_cases [OF ok] git_errors_def)
  qed
next
  case (Reset t)
  with git_reset_returns [OF ok, of t] show ?thesis by fastforce
next
  case (Direction d)
  with ok show ?thesis by (auto simp: set_direction_def git_ok_def git_errors_def)
qed

lemma git_run_returns:
  assumes "git_ok g" and "distinct (concat (map drawn ops))"
    and "set (concat (map drawn ops)) \<inter> dom (commits g) = {}"
  shows "\<exists>err g'. git_run ops g = Some (err, g') \<and> err \<in> git_errors \<and>
    dom (commits g') \<subseteq> set (concat (map drawn ops)) \<union> dom (commits g) \<and>
    (err = None \<longrightarrow> git_ok g' \<and> commits g \<subseteq>\<^sub>m commits g')"
  using assms
proof (induction ops arbitrary: g)
  case (Cons op ops)
  have fresh: "set (drawn op) \<inter> dom (commits g) = {}" using Cons.prems(3) by auto
  from git_step_returns [OF Cons.prems(1) fresh]
  obtain err g1 where step: "git_step op g = Some (err, g1)" and kind: "err \<in> git_errors"
      and dom: "dom (commits g1) \<subseteq> set (drawn op) \<union> dom (commits g)"
      and ok: "err = None \<longrightarrow> git_ok g1 \<and> commits g \<subseteq>\<^sub>m commits g1"
    by blast
  show ?case
  proof (cases err)
    case None
    have "set (concat (map drawn ops)) \<inter> dom (commits g1) = {}"
      using dom Cons.prems(2,3) by (fastforce simp: disjoint_iff)
    then obtain err' g2 where run: "git_run ops g1 = Some (err', g2)" and kind2: "err' \<in> git_errors"
        and dom2: "dom (commits g2) \<subseteq> set (concat (map drawn ops)) \<union> dom (commits g1)"
        and ok2: "err' = None \<longrightarrow> git_ok g2 \<and> commits g1 \<subseteq>\<^sub>m commits g2"
      using Cons.IH [of g1] ok None Cons.prems(2) by auto
    have "git_run (op # ops) g = Some (err', g2)" using step run None by simp
    moreover have "dom (commits g2) \<subseteq> set (concat (map drawn (op # ops))) \<union> dom (commits g)"
      using dom dom2 by (simp, blast)
    moreover have "err' = None \<longrightarrow> git_ok g2 \<and> commits g \<subseteq>\<^sub>m commits g2"
      using ok ok2 None map_le_trans [of "commits g" "commits g1" "commits g2"] by simp
    ultimately show ?thesis using kind2 by blast
  qed (use step dom kind in auto)
qed (simp add: git_errors_def)

lemma git_initial_ok: "git_ok git_initial" "dom (commits git_initial) = {}"
  by (simp_all add: git_initial_def git_ok_def store_ok_def branch_commit_def)

text \<open>From the empty graph.\<close>

lemma git_graph_ok:
  assumes "distinct (concat (map drawn ops))" and "git_run ops git_initial = Some (None, g)"
  shows "git_ok g" and "dom (commits g) \<subseteq> set (concat (map drawn ops))"
  using git_run_returns [OF git_initial_ok(1) assms(1)] assms(2) git_initial_ok(2) by auto

section \<open>Properties of the graph\<close>

text \<open>
  C32. A diagram whose drawn ids are distinct returns: no merge test loops.  If it fails, it is with
  the \<open>TypeError\<close> of a branch without commit or the error of a reset that finds no single parent;
  if it succeeds, every commit has its own id, its parents are older commits of the graph, numbers
  do not repeat, branches point to commits and the head is the tip of the current branch.
\<close>

theorem git_diagram_returns:
  assumes "distinct (concat (map drawn ops))"
  shows "\<exists>err g. git_run ops git_initial = Some (err, g) \<and>
    (err = Some JsTypeError \<or> err = Some no_unique_parent \<or> err = None \<and> git_ok g)"
  using git_run_returns [OF git_initial_ok(1) assms] git_initial_ok(2) by (auto simp: git_errors_def)

definition sample_diagram :: "git_op list" where
  "sample_diagram = [Commit ''a1'' ''first'', Branch ''dev'', Checkout ''dev'', Commit ''b2'' ''second'',
     Checkout ''master'', Commit ''c3'' ''third'']"

theorem git_diagram_returns_witness:
  "\<exists>err g. git_run (sample_diagram @ [Merge ''d4'' ''dev'', Reset ''HEAD:1'']) git_initial = Some (err, g) \<and>
    (err = Some JsTypeError \<or> err = Some no_unique_parent \<or> err = None \<and> git_ok g)"
  by (rule git_diagram_returns) (simp add: sample_diagram_def)

text \<open>
  C33. The merge test \<open>isfastforwardable\<close> is ancestry: on two commits of a graph that a diagram
  builds, it returns, and with true exactly if the first is the second or one of its ancestors, along
  any parent of the merge commits in between.
\<close>

theorem fast_forward_is_ancestry:
  assumes "distinct (concat (map drawn ops))" and "git_run ops git_initial = Some (None, g)"
    and "commits g i = Some t" and "commits g j = Some e"
  shows "fast_forwardable (commits g) t e = Some (Inr (ancestor (commits g) i j))"
proof -
  have "store_ok (commits g)" using git_graph_ok(1) [OF assms(1,2)] by (simp add: git_ok_def)
  then show ?thesis using assms(3,4) by (rule fast_forwardable_decides)
qed

theorem fast_forward_is_ancestry_witness:
  "\<exists>g t e. git_run [Commit ''a1'' ''first'', Commit ''b2'' ''second''] git_initial = Some (None, g) \<and>
    commits g ''a1'' = Some t \<and> commits g ''b2'' = Some e \<and>
    fast_forwardable (commits g) t e = Some (Inr True)"
proof -
  define ops where "ops = [Commit ''a1'' ''first'', Commit ''b2'' ''second'']"
  have d: "distinct (concat (map drawn ops))" by (simp add: ops_def)
  obtain g where g: "git_run ops git_initial = Some (None, g)" by (simp add: ops_def)
  then have "g = git_commit ''b2'' ''second'' (git_commit ''a1'' ''first'' git_initial)" by (simp add: ops_def)
  then obtain t e where te: "commits g ''a1'' = Some t" "commits g ''b2'' = Some e"
      and up: "commit_parent e = Parent ''a1''"
    by (auto simp: git_commit_def git_initial_def add_commit_def Let_def)
  have "ancestor (commits g) ''a1'' ''b2''"
    by (rule ancestor_parent [of "commits g", OF te(2), of "''a1''"]) (simp_all add: up ancestor_self [of "commits g", OF te(1)])
  with fast_forward_is_ancestry [OF d g te] g te show ?thesis unfolding ops_def by auto
qed

text \<open>
  C34. A merge that succeeds loses nothing: every commit stays, the current branch's tip is the head,
  and both the old head and the tip of the merged branch are the new head or its ancestors.  The new
  head is one of the two, or the merge commit with the drawn id.
\<close>

theorem merge_joins_both_sides:
  assumes "distinct (concat (map drawn ops))" and "git_run ops git_initial = Some (None, g)"
    and "new_id \<notin> set (concat (map drawn ops))" and "git_merge new_id b g = Some (None, g')"
  shows "\<exists>e n h. head_commit g = Some e \<and> branch_commit g b = Some n \<and> head_commit g' = Some h \<and>
    branch_commit g' (cur_branch g) = Some h \<and> commits g \<subseteq>\<^sub>m commits g' \<and>
    ancestor (commits g') (commit_id e) (commit_id h) \<and>
    ancestor (commits g') (commit_id n) (commit_id h) \<and> (h = e \<or> h = n \<or> commit_id h = new_id)"
proof -
  have ok: "git_ok g" and fresh: "new_id \<notin> dom (commits g)"
    using git_graph_ok [OF assms(1,2)] assms(3) by auto
  obtain e n where en: "head_commit g = Some e" "branch_commit g b = Some n"
    using assms(4) by (auto simp: git_merge_cases [OF ok] split: option.splits)
  have stored: "commits g (commit_id e) = Some e" "commits g (commit_id n) = Some n"
    using head_stored [OF ok en(1)] branch_commit_stored(1) [OF ok en(2)] by auto
  have g': "g' = (if commit_seq n < commit_seq e \<and> ancestor (commits g) (commit_id n) (commit_id e) then g
      else if ancestor (commits g) (commit_id e) (commit_id n)
      then g\<lparr>branches := (branches g)(cur_branch g \<mapsto> Some (commit_id n)), head_commit := Some n\<rparr>
      else merge_commit new_id b g)"
    using assms(4) by (simp add: git_merge_cases [OF ok] en)
  have head: "branch_commit g (cur_branch g) = Some e" using ok en(1) by (simp only: git_ok_def)
  note self = ancestor_self [of "commits g", OF stored(1)] ancestor_self [of "commits g", OF stored(2)]
  note merged = merge_commit_ok [OF ok fresh en]
  show ?thesis
  proof (cases "g' = merge_commit new_id b g")
    case True
    from merged(4) obtain h where h: "head_commit g' = Some h"
      "commit_parent h = Parents (Some (commit_id e)) (commit_id n)" "commit_id h = new_id"
      unfolding True by blast
    have s': "commits g' (commit_id h) = Some h" using head_stored merged(1) h(1) unfolding True by blast
    have tip: "branch_commit g' (cur_branch g) = Some h"
      using merged(1) h(1) unfolding True
      by (simp add: git_ok_def merge_commit_def add_commit_def Let_def)
    have "ancestor (commits g') x (commit_id h)" if "x = commit_id e \<or> x = commit_id n" for x
      using that self ancestor_mono [OF _ merged(2)] h(2)
      unfolding True [symmetric]
      by (auto intro!: ancestor_parent [of "commits g'", OF s'])
    with h tip en merged(2) True show ?thesis by blast
  next
    case False
    with g' self head en stored show ?thesis by (auto split: if_splits)
  qed
qed

theorem merge_joins_both_sides_witness:
  "\<exists>g g' e n h. git_run sample_diagram git_initial = Some (None, g) \<and>
    git_merge ''d4'' ''dev'' g = Some (None, g') \<and> head_commit g = Some e \<and>
    branch_commit g ''dev'' = Some n \<and> head_commit g' = Some h \<and>
    ancestor (commits g') (commit_id n) (commit_id h)"
proof -
  obtain g where g: "git_run sample_diagram git_initial = Some (None, g)"
    by (simp add: sample_diagram_def)
  have d: "distinct (concat (map drawn sample_diagram))" "''d4'' \<notin> set (concat (map drawn sample_diagram))"
    by (simp_all add: sample_diagram_def)
  have ok: "git_ok g" using git_graph_ok(1) [OF d(1) g] .
  have "head_commit g \<noteq> None \<and> branch_commit g ''dev'' \<noteq> None" using g
    by (auto simp: sample_diagram_def git_commit_def git_branch_def git_checkout_def git_initial_def
        add_commit_def branch_commit_def Let_def)
  then obtain g' where g': "git_merge ''d4'' ''dev'' g = Some (None, g')"
    by (auto simp: git_merge_cases [OF ok])
  from merge_joins_both_sides [OF d(1) g d(2) g'] g g' show ?thesis by blast
qed

text \<open>
  The list that the renderer draws from has every commit of the graph once, from the newest to
  the oldest, in whatever order \<open>Object.keys\<close> lists the ids.
\<close>

theorem commits_newest_first:
  assumes "distinct (concat (map drawn ops))" and "git_run ops git_initial = Some (None, g)"
    and "distinct ids" and "set ids = dom (commits g)"
  shows "sorted_wrt (\<lambda>c d. commit_seq c > commit_seq d) (commits_array ids g) \<and>
    set (commits_array ids g) = ran (commits g) \<and> length (commits_array ids g) = card (dom (commits g))"
proof -
  have s: "store_ok (commits g)" using git_graph_ok(1) [OF assms(1,2)] by (simp add: git_ok_def)
  define cs where "cs = List.map_filter (commits g) ids"
  have cs: "cs = map (the \<circ> commits g) ids"
    unfolding cs_def List.map_filter_def using assms(4) by (subst filter_True) auto
  have "inj_on (the \<circ> commits g) (set ids)"
  proof (rule inj_onI)
    fix i j assume "i \<in> set ids" "j \<in> set ids" "(the \<circ> commits g) i = (the \<circ> commits g) j"
    then obtain c where "commits g i = Some c" "commits g j = Some c" using assms(4) by (force simp: dom_def)
    then show "i = j" using store_okD(1) [OF s, of i c] store_okD(1) [OF s, of j c] by simp
  qed
  then have dist: "distinct cs" using assms(3) by (simp add: cs distinct_map)
  have in_cs: "c \<in> set cs \<longleftrightarrow> (\<exists>i. commits g i = Some c)" for c
    using assms(4) by (force simp: cs)
  then have "inj_on commit_seq (set cs)"
    using store_ok_unique(1) [OF s] by (auto intro!: inj_onI)
  then have "distinct (map commit_seq (sort_key commit_seq cs))" using dist by (simp add: distinct_map)
  then have "sorted_wrt (<) (map commit_seq (sort_key commit_seq cs))"
    by (simp add: strict_sorted_iff del: distinct_map)
  then have "sorted_wrt (\<lambda>c d. commit_seq c > commit_seq d) (commits_array ids g)"
    unfolding commits_array_def cs_def [symmetric] sorted_wrt_rev by (simp add: sorted_wrt_map)
  moreover have "set (commits_array ids g) = ran (commits g)"
    unfolding commits_array_def cs_def [symmetric] using in_cs by (auto simp: ran_def)
  moreover have "length (commits_array ids g) = card (dom (commits g))"
    unfolding commits_array_def cs_def [symmetric]
    using assms(3) by (simp add: cs assms(4) [symmetric] distinct_card)
  ultimately show ?thesis by blast
qed

theorem commits_newest_first_witness:
  "\<exists>g. git_run [Commit ''a1'' ''first'', Commit ''b2'' ''second''] git_initial = Some (None, g) \<and>
    sorted_wrt (\<lambda>c d. commit_seq c > commit_seq d) (commits_array [''a1'', ''b2''] g)"
proof -
  define ops where "ops = [Commit ''a1'' ''first'', Commit ''b2'' ''second'']"
  have d: "distinct (concat (map drawn ops))" by (simp add: ops_def)
  obtain g where g: "git_run ops git_initial = Some (None, g)" by (simp add: ops_def)
  have "set [''a1'', ''b2''] = dom (commits g)"
    using g by (auto simp: ops_def git_commit_def git_initial_def add_commit_def Let_def split: if_splits)
  with commits_newest_first [OF d g, of "[''a1'', ''b2'']"] g show ?thesis unfolding ops_def by auto
qed










end
