(* ===== verification/MermaidPage.thy ===== *)
theory MermaidPage
  imports MermaidText MermaidGit "HOL-Library.AList"
begin

text \<open>
  The page side of \<open>docs/workshop/static/mermaid/mermaid.js\<close>: the configuration object \<open>D\<close> of
  \<open>mermaidAPI\<close> with \<open>initialize\<close>, the frame of \<open>mermaidAPI.render\<close>, and the object \<open>mermaid\<close> with \<open>init\<close>,
  \<open>initialize\<close> and \<open>contentLoaded\<close>.  The document is a map from numbered elements to what the code
  reads and writes of them.  The parsers and renderers, the library \<open>he\<close>, the clock, the selector
  engine and the client's callbacks are the record \<open>browser\<close>; renderers and callbacks may change every
  element of the document, but not the configuration.  Objects have their own keys only (none of \<open>Object.prototype\<close>).  Logging is left
  out.
\<close>

section \<open>Values\<close>

datatype jsval =
    JUndef
  | JNull
  | JBool bool
  | JNum int
  | JStr js_text
  | JFun nat nat \<comment> \<open>a function's name and its \<open>length\<close>\<close>
  | JObj "(string \<times> jsval) list"

type_synonym config = "(string \<times> jsval) list"

fun js_truthy :: "jsval \<Rightarrow> bool" where
  "js_truthy JUndef = False"
| "js_truthy JNull = False"
| "js_truthy (JBool b) = b"
| "js_truthy (JNum n) = (n \<noteq> 0)"
| "js_truthy (JStr s) = (s \<noteq> [])"
| "js_truthy (JFun f n) = True"
| "js_truthy (JObj d) = True"

definition obj_get :: "config \<Rightarrow> string \<Rightarrow> jsval" where
  "obj_get d k = (case map_of d k of None \<Rightarrow> JUndef | Some v \<Rightarrow> v)"

text \<open>\<open>x.k\<close> and, in strict mode, \<open>x.k = v\<close>.  What is stored on a function is not kept.\<close>

fun js_get :: "jsval \<Rightarrow> string \<Rightarrow> js_error + jsval" where
  "js_get JUndef k = Inl JsTypeError"
| "js_get JNull k = Inl JsTypeError"
| "js_get (JObj d) k = Inr (obj_get d k)"
| "js_get _ k = Inr JUndef"

fun set_prop :: "jsval \<Rightarrow> string \<Rightarrow> jsval \<Rightarrow> js_error + jsval" where
  "set_prop (JObj d) k v = Inr (JObj (AList.update k v d))"
| "set_prop (JFun f n) k v = Inr (JFun f n)"
| "set_prop _ k v = Inl JsTypeError"

section \<open>The configuration\<close>

text \<open>The function \<open>A\<close>: the members of an object are copied one by one into \<open>D[k]\<close>.\<close>

fun set_members :: "string \<Rightarrow> config \<Rightarrow> config \<Rightarrow> js_error option \<times> config" where
  "set_members k [] D = (None, D)"
| "set_members k ((i, x) # es) D =
     (let D1 = (if obj_get D k = JUndef then AList.update k (JObj []) D else D) in
      case set_prop (obj_get D1 k) i x of
        Inl err \<Rightarrow> (Some err, D1)
      | Inr v \<Rightarrow> set_members k es (AList.update k v D1))"

fun set_config :: "config \<Rightarrow> config \<Rightarrow> js_error option \<times> config" where
  "set_config [] D = (None, D)"
| "set_config ((k, v) # t) D = (case v of
      JObj es \<Rightarrow> (case set_members k es D of
          (None, D') \<Rightarrow> set_config t D'
        | (Some err, D') \<Rightarrow> (Some err, D'))
    | _ \<Rightarrow> set_config t (AList.update k v D))"

definition api_initialize :: "jsval \<Rightarrow> config \<Rightarrow> js_error option \<times> config" where
  "api_initialize t D = (case t of
      JObj d \<Rightarrow> set_config d D
    | JNull \<Rightarrow> (Some JsTypeError, D)
    | _ \<Rightarrow> (None, D))"

definition initial_config :: config where
  "initial_config =
    [(''theme'', JStr (units ''default'')), (''themeCSS'', JUndef), (''logLevel'', JNum 5),
     (''startOnLoad'', JBool True), (''arrowMarkerAbsolute'', JBool False),
     (''flowchart'', JObj [(''htmlLabels'', JBool True), (''curve'', JStr (units ''linear''))]),
     (''sequence'', JObj [(''diagramMarginX'', JNum 50), (''diagramMarginY'', JNum 10),
       (''actorMargin'', JNum 50), (''width'', JNum 150), (''height'', JNum 65), (''boxMargin'', JNum 10),
       (''boxTextMargin'', JNum 5), (''noteMargin'', JNum 10), (''messageMargin'', JNum 35),
       (''mirrorActors'', JBool True), (''bottomMarginAdj'', JNum 1), (''useMaxWidth'', JBool True)]),
     (''gantt'', JObj [(''titleTopMargin'', JNum 25), (''barHeight'', JNum 20), (''barGap'', JNum 4),
       (''topPadding'', JNum 50), (''leftPadding'', JNum 75), (''gridLineStartPadding'', JNum 35),
       (''fontSize'', JNum 11), (''fontFamily'', JStr (units [CHR 0x22] @ units ''Open-Sans'' @
         units [CHR 0x22] @ units '', '' @
         units [CHR 0x22] @ units ''sans-serif'' @ units [CHR 0x22])), (''numberSectionStyles'', JNum 4),
       (''axisFormat'', JStr (units ''%Y-%m-%d''))]),
     (''class'', JObj []), (''git'', JObj [])]"

section \<open>The page\<close>

record element =
  inner_html :: js_text
  data_processed :: "js_text option"

text \<open>What \<open>init\<close> is called with: a value, a node or a list of nodes.\<close>

datatype init_arg = ArgVal jsval | ArgNode nat | ArgNodes "nat list"

record 'w page =
  conf :: config
  start_on_load :: jsval
  html_labels :: jsval
  sequence_config :: init_arg
  gantt_config :: jsval
  elements :: "nat \<Rightarrow> element"
  outside :: 'w

text \<open>
  \<open>style_diagram\<close> is the first half of a drawing, up to the style elements, \<open>draw_diagram\<close> the
  renderer, which gives the code of the picture, and \<open>remove_drawing\<close> the removal of a container that is left.  They select
  elements of the whole document by the picture's id, and the client's functions are the client's: each may change
  every element, and gives an error if one escapes.
\<close>

type_synonym 'w document = "(nat \<Rightarrow> element) \<times> 'w"

record 'w browser =
  query_selector :: "js_text \<Rightarrow> (nat \<Rightarrow> element) \<Rightarrow> js_error + nat list"
  he_decode :: "js_text \<Rightarrow> js_text"
  date_now :: "'w \<Rightarrow> nat \<times> 'w"
  style_diagram :: "diagram \<Rightarrow> js_text \<Rightarrow> js_text \<Rightarrow> nat \<Rightarrow> config \<Rightarrow> 'w document \<Rightarrow> js_error option \<times> 'w document"
  draw_diagram :: "diagram \<Rightarrow> js_text \<Rightarrow> js_text \<Rightarrow> nat \<Rightarrow> config \<Rightarrow> 'w document \<Rightarrow> (js_error + js_text) \<times> 'w document"
  run_callback :: "nat \<Rightarrow> js_text \<Rightarrow> 'w document \<Rightarrow> js_error option \<times> 'w document"
  bind_functions :: "nat \<Rightarrow> 'w document \<Rightarrow> js_error option \<times> 'w document"
  remove_drawing :: "js_text \<Rightarrow> 'w document \<Rightarrow> 'w document"

type_synonym 'w page_op = "'w page \<Rightarrow> js_error option \<times> 'w page"

definition page_then :: "'w page_op \<Rightarrow> 'w page_op \<Rightarrow> 'w page_op" where
  "page_then f h p = (case f p of (None, p') \<Rightarrow> h p' | (Some err, p') \<Rightarrow> (Some err, p'))"

definition page_config :: "(config \<Rightarrow> js_error option \<times> config) \<Rightarrow> 'w page_op" where
  "page_config f p = (case f (conf p) of (err, D) \<Rightarrow> (err, p\<lparr>conf := D\<rparr>))"

definition on_document :: "('w document \<Rightarrow> 'a \<times> 'w document) \<Rightarrow> 'w page \<Rightarrow> 'a \<times> 'w page" where
  "on_document f p = (case f (elements p, outside p) of (r, es, w) \<Rightarrow> (r, p\<lparr>elements := es, outside := w\<rparr>))"

definition set_element :: "nat \<Rightarrow> (element \<Rightarrow> element) \<Rightarrow> 'w page \<Rightarrow> 'w page" where
  "set_element a f p = p\<lparr>elements := (elements p)(a := f (elements p a))\<rparr>"

definition set_html :: "nat \<Rightarrow> js_text \<Rightarrow> 'w page \<Rightarrow> 'w page" where
  "set_html a t = set_element a (\<lambda>e. e\<lparr>inner_html := t\<rparr>)"

section \<open>Drawing one diagram\<close>

fun section_name :: "diagram \<Rightarrow> string" where
  "section_name Sequence = ''sequence''"
| "section_name Gantt = ''gantt''"
| "section_name ClassDiagram = ''class''"
| "section_name GitGraph = ''flowchart''"
| "section_name Flowchart = ''flowchart''"

text \<open>
  The configuration before a renderer runs: \<open>D.x.arrowMarkerAbsolute = D.arrowMarkerAbsolute\<close> (a git diagram
  sets it in the section of flow charts) and, for a
  sequence diagram, \<open>Object.assign(D.sequence, D.sequenceDiagram)\<close>.
\<close>

definition section_config :: "diagram \<Rightarrow> config \<Rightarrow> js_error option \<times> config" where
  "section_config d D =
     (case set_prop (obj_get D (section_name d)) ''arrowMarkerAbsolute'' (obj_get D ''arrowMarkerAbsolute'') of
        Inl err \<Rightarrow> (Some err, D)
      | Inr v \<Rightarrow>
          (let D1 = AList.update (section_name d) v D in
           case (d, obj_get D1 ''sequenceDiagram'') of
             (Sequence, JObj es) \<Rightarrow> set_members ''sequence'' es D1
           | _ \<Rightarrow> (None, D1)))"

text \<open>
  \<open>render(id, text, callback, container)\<close>, with the callback that \<open>init\<close> passes: it puts the picture into
  the element, calls the client's callback and binds the functions.
\<close>

definition show_picture :: "'w browser \<Rightarrow> nat option \<Rightarrow> js_text \<Rightarrow> nat \<Rightarrow> js_text \<Rightarrow> 'w page_op" where
  "show_picture env callback diagram_id a svg p =
     page_then (\<lambda>p. case callback of None \<Rightarrow> (None, p) | Some f \<Rightarrow> on_document (run_callback env f diagram_id) p)
       (on_document (bind_functions env a)) (set_html a svg p)"

definition draw_and_show :: "'w browser \<Rightarrow> nat option \<Rightarrow> diagram \<Rightarrow> js_text \<Rightarrow> js_text \<Rightarrow> nat \<Rightarrow> 'w page_op" where
  "draw_and_show env callback d code diagram_id a p =
     (case on_document (draw_diagram env d code diagram_id a (conf p)) p of
        (Inl x, p1) \<Rightarrow> (Some x, p1)
      | (Inr svg, p1) \<Rightarrow>
          page_then (show_picture env callback diagram_id a (decodeEntities svg))
            (on_document (\<lambda>x. (None, remove_drawing env diagram_id x))) p1)"

definition render :: "'w browser \<Rightarrow> nat option \<Rightarrow> js_text \<Rightarrow> js_text \<Rightarrow> nat \<Rightarrow> 'w page_op" where
  "render env callback diagram_id txt a =
     (let code = encodeEntities txt;
          d = detectType code
      in page_then (\<lambda>p. on_document (style_diagram env d code diagram_id a (conf p)) p)
           (page_then (page_config (section_config d)) (draw_and_show env callback d code diagram_id a)))"

section \<open>mermaid.init\<close>

definition is_processed :: "element \<Rightarrow> bool" where
  "is_processed e = (case data_processed e of None \<Rightarrow> False | Some v \<Rightarrow> v \<noteq> [])"

text \<open>The body of the loop; an entry that is not a node has no \<open>getAttribute\<close>.\<close>

definition process_element :: "'w browser \<Rightarrow> nat option \<Rightarrow> nat option \<Rightarrow> 'w page_op" where
  "process_element env callback node p = (case node of
      None \<Rightarrow> (Some JsTypeError, p)
    | Some a \<Rightarrow>
        if is_processed (elements p a) then (None, p)
        else (let p1 = set_element a (\<lambda>e. e\<lparr>data_processed := Some (units ''true'')\<rparr>) p;
                  (now, w) = date_now env (outside p1);
                  diagram_id = units ''mermaid-'' @ units (str_of_nat now);
                  txt = clean_text (he_decode env) (inner_html (elements p1 a))
              in render env callback diagram_id txt a (p1\<lparr>outside := w\<rparr>)))"

fun process_all :: "'w browser \<Rightarrow> nat option \<Rightarrow> nat option list \<Rightarrow> 'w page_op" where
  "process_all env callback [] = (\<lambda>p. (None, p))"
| "process_all env callback (x # xs) =
     page_then (process_element env callback x) (process_all env callback xs)"

text \<open>\<open>e\<close>, with the length of a value that is not a list of nodes.\<close>

fun js_length :: "jsval \<Rightarrow> nat" where
  "js_length (JNum n) = nat n"
| "js_length (JBool b) = (if b then 1 else 0)"
| "js_length _ = 0"

definition init_nodes :: "'w browser \<Rightarrow> init_arg \<Rightarrow> 'w page \<Rightarrow> js_error + nat option list" where
  "init_nodes env e p = (case e of
      ArgNode a \<Rightarrow> Inr [Some a]
    | ArgNodes ns \<Rightarrow> Inr (map Some ns)
    | ArgVal v \<Rightarrow> (case v of
          JUndef \<Rightarrow> map_sum id (map Some) (query_selector env (units ''.mermaid'') (elements p))
        | JStr s \<Rightarrow> map_sum id (map Some) (query_selector env s (elements p))
        | JNull \<Rightarrow> Inr [None] \<comment> \<open>the \<open>TypeError\<close> of \<open>null.length\<close> comes when the loop starts\<close>
        | JFun f n \<Rightarrow> Inr (replicate n None)
        | JObj d \<Rightarrow> Inr (replicate (js_length (obj_get d ''length'')) None)
        | _ \<Rightarrow> Inr []))"

definition config_callback :: "config \<Rightarrow> js_error + nat option" where
  "config_callback t =
     (if obj_get t ''mermaid'' = JUndef then Inr None
      else bind_result (js_get (obj_get t ''mermaid'') ''callback'')
        (\<lambda>v. case v of JFun f n \<Rightarrow> Inr (Some f) | _ \<Rightarrow> Inr None))"

definition init_callback :: "init_arg list \<Rightarrow> config \<Rightarrow> js_error + nat option" where
  "init_callback args t = (if args = [] then config_callback t else
     (case last args of
        ArgVal v \<Rightarrow> (case v of JFun f n \<Rightarrow> Inr (Some f) | _ \<Rightarrow> config_callback t)
      | _ \<Rightarrow> config_callback t))"

definition nodes_arg :: "init_arg list \<Rightarrow> init_arg" where
  "nodes_arg args = (case args of [] \<Rightarrow> ArgVal JUndef | [e] \<Rightarrow> e | c # e # _ \<Rightarrow> e)"

definition keep_sequence_config :: "init_arg list \<Rightarrow> 'w page \<Rightarrow> 'w page" where
  "keep_sequence_config args p = (case args of
      c # e # _ \<Rightarrow> if c = ArgVal JUndef then p else p\<lparr>sequence_config := c\<rparr>
    | _ \<Rightarrow> p)"

definition pass_config :: "string \<Rightarrow> jsval \<Rightarrow> 'w page_op" where
  "pass_config k v p =
     (if v = JUndef then (None, p) else page_config (api_initialize (JObj [(k, v)])) p)"

definition init :: "'w browser \<Rightarrow> init_arg list \<Rightarrow> 'w page_op" where
  "init env args p =
     (let p1 = keep_sequence_config args p in
      case init_callback args (conf p1) of
        Inl err \<Rightarrow> (Some err, p1)
      | Inr callback \<Rightarrow> (case init_nodes env (nodes_arg args) p1 of
            Inl err \<Rightarrow> (Some err, p1)
          | Inr nodes \<Rightarrow>
              page_then (\<lambda>p. pass_config ''startOnLoad'' (start_on_load p) p)
                (page_then (\<lambda>p. pass_config ''gantt'' (gantt_config p) p)
                  (process_all env callback nodes)) p1))"

section \<open>mermaid.initialize and the load event\<close>

definition initialize :: "jsval \<Rightarrow> 'w page_op" where
  "initialize t p = (case js_get t ''mermaid'' of
      Inl err \<Rightarrow> (Some err, p)
    | Inr m \<Rightarrow>
        if m = JUndef then page_config (api_initialize t) p
        else (case bind_result (js_get m ''startOnLoad'') (\<lambda>v. bind_result (js_get m ''htmlLabels'') (\<lambda>h. Inr (v, h))) of
            Inl err \<Rightarrow> (Some err, p)
          | Inr (v, h) \<Rightarrow>
              page_config (api_initialize t)
                (p\<lparr>start_on_load := (if v = JUndef then start_on_load p else v),
                   html_labels := (if h = JUndef then html_labels p else h)\<rparr>)))"

text \<open>The function \<open>s\<close>, which the window's \<open>load\<close> event calls.\<close>

definition contentLoaded :: "'w browser \<Rightarrow> 'w page_op" where
  "contentLoaded env p =
     (if (js_truthy (start_on_load p) \<or> start_on_load p = JUndef) \<and> js_truthy (obj_get (conf p) ''startOnLoad'')
      then init env [] p else (None, p))"

definition fresh_page :: "(nat \<Rightarrow> element) \<Rightarrow> 'w \<Rightarrow> 'w page" where
  "fresh_page es w = \<lparr>conf = initial_config, start_on_load = JBool True, html_labels = JBool True,
     sequence_config = ArgVal JUndef, gantt_config = JUndef, elements = es, outside = w\<rparr>"

section \<open>Elements that are done\<close>

text \<open>
  Only \<open>init\<close> reads or writes the attribute \<open>data-processed\<close>: the name occurs nowhere else in the script, and the client's
  functions are taken to leave it alone.
\<close>

definition keeps_marks :: "('w document \<Rightarrow> 'a \<times> 'w document) \<Rightarrow> bool" where
  "keeps_marks f \<longleftrightarrow> (\<forall>x b. data_processed (fst (snd (f x)) b) = data_processed (fst x b))"

definition marks_documented :: "'w browser \<Rightarrow> bool" where
  "marks_documented env \<longleftrightarrow> (\<forall>d code i a D. keeps_marks (style_diagram env d code i a D)) \<and>
     (\<forall>d code i a D. keeps_marks (draw_diagram env d code i a D)) \<and>
     (\<forall>f i. keeps_marks (run_callback env f i)) \<and> (\<forall>a. keeps_marks (bind_functions env a)) \<and>
     (\<forall>i. keeps_marks (\<lambda>x. (None :: js_error option, remove_drawing env i x)))"

definition same_marks :: "'w page \<Rightarrow> 'w page \<Rightarrow> bool" where
  "same_marks p p' \<longleftrightarrow> (\<forall>b. data_processed (elements p' b) = data_processed (elements p b))"

lemma same_marks_trans: "same_marks p q \<Longrightarrow> same_marks q r \<Longrightarrow> same_marks p r"
  by (simp add: same_marks_def)

lemma same_marks_document: "keeps_marks f \<Longrightarrow> same_marks p (snd (on_document f p))"
  by (auto simp: keeps_marks_def same_marks_def on_document_def split: prod.split)
    (metis fst_conv snd_conv)

lemma same_marks_then:
  assumes "\<And>q. same_marks q (snd (f q))" and "\<And>q. same_marks q (snd (g q))"
  shows "same_marks p (snd (page_then f g p))"
proof (cases "f p")
  case (Pair err q)
  then have "same_marks p q" using assms(1) [of p] by simp
  then show ?thesis using assms(2) [of q] Pair
    by (cases err) (auto simp: page_then_def intro: same_marks_trans)
qed

lemma same_marks_config: "same_marks p (snd (page_config f p))"
  by (cases "f (conf p)") (simp add: page_config_def same_marks_def)

lemma same_marks_html: "same_marks p (set_html a t p)"
  by (simp add: same_marks_def set_html_def set_element_def)

lemma same_marks_show:
  assumes "marks_documented env"
  shows "same_marks p (snd (show_picture env callback i a svg p))"
  unfolding show_picture_def
  by (rule same_marks_trans [OF same_marks_html same_marks_then])
    (use assms in \<open>auto simp: marks_documented_def same_marks_document same_marks_def [of p p for p] split: option.split\<close>)

lemma same_marks_draw:
  assumes "marks_documented env"
  shows "same_marks p (snd (draw_and_show env callback d code i a p))"
proof (cases "on_document (draw_diagram env d code i a (conf p)) p")
  case (Pair r p1)
  have "same_marks p p1"
    using same_marks_document [of "draw_diagram env d code i a (conf p)" p] assms Pair by (simp add: marks_documented_def)
  moreover have "same_marks p1 (snd (page_then (show_picture env callback i a t)
      (on_document (\<lambda>x. (None, remove_drawing env i x))) p1))" for t
    using assms by (intro same_marks_then same_marks_show same_marks_document) (simp_all add: marks_documented_def)
  ultimately show ?thesis using Pair by (auto simp: draw_and_show_def split: sum.split intro: same_marks_trans)
qed

lemma same_marks_render:
  assumes "marks_documented env"
  shows "same_marks p (snd (render env callback i t a p))"
  using assms unfolding render_def Let_def
  by (intro same_marks_then same_marks_config same_marks_draw same_marks_document) (simp_all add: marks_documented_def)

text \<open>A round of the loop that draws, and the drawings of a list of elements, each of which is not marked before.\<close>

definition draw_element :: "'w browser \<Rightarrow> nat option \<Rightarrow> nat \<Rightarrow> 'w page_op" where
  "draw_element env callback a p =
     (let (now, w) = date_now env (outside p)
      in render env callback (units ''mermaid-'' @ units (str_of_nat now))
           (clean_text (he_decode env) (inner_html (elements p a))) a
           (set_element a (\<lambda>e. e\<lparr>data_processed := Some (units ''true'')\<rparr>) p\<lparr>outside := w\<rparr>))"

primrec drawn_in_turn :: "'w browser \<Rightarrow> nat option \<Rightarrow> nat list \<Rightarrow> 'w page \<Rightarrow> 'w page \<Rightarrow> bool" where
  "drawn_in_turn env callback [] p p' \<longleftrightarrow> p' = p"
| "drawn_in_turn env callback (a # ds) p p' \<longleftrightarrow> \<not> is_processed (elements p a) \<and>
     (\<exists>q. draw_element env callback a p = (None, q) \<and> drawn_in_turn env callback ds q p')"

primrec keep_first :: "'a list \<Rightarrow> 'a list" where
  "keep_first [] = []"
| "keep_first (x # xs) = x # removeAll x (keep_first xs)"

lemma set_keep_first [simp]: "set (keep_first xs) = set xs"
  by (induction xs) auto

lemma distinct_keep_first [simp]: "distinct (keep_first xs)"
  by (induction xs) (auto simp: distinct_removeAll)

lemma keep_first_removeAll: "keep_first (removeAll x xs) = removeAll x (keep_first xs)"
  by (induction xs) (auto simp: removeAll_filter_not_eq conj_commute intro!: filter_cong)

lemma process_element_draws:
  "process_element env callback (Some a) p =
     (if is_processed (elements p a) then (None, p) else draw_element env callback a p)"
  by (simp add: process_element_def draw_element_def Let_def set_element_def)

lemma draw_element_marks:
  assumes "marks_documented env" and "draw_element env callback a p = (err, q)"
  shows "is_processed (elements q b) \<longleftrightarrow> b = a \<or> is_processed (elements p b)"
    and "b \<noteq> a \<Longrightarrow> data_processed (elements q b) = data_processed (elements p b)"
proof -
  define p1 where "p1 = set_element a (\<lambda>e. e\<lparr>data_processed := Some (units ''true'')\<rparr>) p"
  obtain now w where now: "date_now env (outside p) = (now, w)" by (metis prod.exhaust)
  have "same_marks (p1\<lparr>outside := w\<rparr>) q"
    using same_marks_render [OF assms(1), of "p1\<lparr>outside := w\<rparr>"] assms(2)
    by (auto simp: draw_element_def Let_def now p1_def) (metis snd_conv)
  then have m: "data_processed (elements q b) = data_processed (elements p1 b)" by (simp add: same_marks_def)
  then show "is_processed (elements q b) \<longleftrightarrow> b = a \<or> is_processed (elements p b)"
    "b \<noteq> a \<Longrightarrow> data_processed (elements q b) = data_processed (elements p b)"
    by (auto simp: is_processed_def p1_def set_element_def units_def)
qed

lemma process_all_marks:
  assumes "marks_documented env" and "process_all env callback nodes p = (err, p')"
  shows "is_processed (elements p b) \<Longrightarrow> is_processed (elements p' b)"
    and "Some b \<notin> set nodes \<Longrightarrow> data_processed (elements p' b) = data_processed (elements p b)"
    and "err = None \<Longrightarrow> Some b \<in> set nodes \<Longrightarrow> is_processed (elements p' b)"
proof -
  have "(is_processed (elements p b) \<longrightarrow> is_processed (elements p' b)) \<and>
      (Some b \<notin> set nodes \<longrightarrow> data_processed (elements p' b) = data_processed (elements p b)) \<and>
      (err = None \<and> Some b \<in> set nodes \<longrightarrow> is_processed (elements p' b))"
    using assms(2)
  proof (induction nodes arbitrary: p)
    case (Cons x xs)
    show ?case
    proof (cases x)
      case None
      with Cons.prems show ?thesis by (auto simp: page_then_def process_element_def)
    next
      case (Some a)
      obtain e q where q: "process_element env callback x p = (e, q)" by (metis prod.exhaust)
      have m: "is_processed (elements q b) \<longleftrightarrow> b = a \<or> is_processed (elements p b)"
        "b \<noteq> a \<Longrightarrow> data_processed (elements q b) = data_processed (elements p b)"
        using q Some draw_element_marks [OF assms(1), of callback a p e q b]
        by (auto simp: process_element_draws split: if_splits)
      show ?thesis
      proof (cases e)
        case None
        with Cons.prems q have "process_all env callback xs q = (err, p')" by (simp add: page_then_def)
        from Cons.IH [OF this] m Some show ?thesis by auto
      next
        case e: (Some y)
        with Cons.prems q have "err = Some y" "p' = q" by (simp_all add: page_then_def)
        with m Some show ?thesis by auto
      qed
    qed
  qed simp
  then show "is_processed (elements p b) \<Longrightarrow> is_processed (elements p' b)"
    "Some b \<notin> set nodes \<Longrightarrow> data_processed (elements p' b) = data_processed (elements p b)"
    "err = None \<Longrightarrow> Some b \<in> set nodes \<Longrightarrow> is_processed (elements p' b)" by auto
qed

lemma process_all_drawn:
  assumes "marks_documented env" and "process_all env callback nodes p = (None, p')"
  shows "drawn_in_turn env callback (keep_first [a\<leftarrow>map the nodes. \<not> is_processed (elements p a)]) p p'"
  using assms(2)
proof (induction nodes arbitrary: p)
  case (Cons x xs)
  then obtain a q where x: "x = Some a" and q: "process_element env callback (Some a) p = (None, q)"
    and rest: "process_all env callback xs q = (None, p')"
    by (cases x) (auto simp: page_then_def process_element_def [of _ _ None] split: prod.splits option.splits)
  show ?case
  proof (cases "is_processed (elements p a)")
    case True
    with q have "q = p" by (simp add: process_element_draws)
    with Cons.IH [OF rest] True x show ?thesis by simp
  next
    case False
    with q have d: "draw_element env callback a p = (None, q)" by (simp add: process_element_draws)
    have "[b\<leftarrow>map the xs. \<not> is_processed (elements q b)] = removeAll a [b\<leftarrow>map the xs. \<not> is_processed (elements p b)]"
      by (auto simp: removeAll_filter_not_eq draw_element_marks [OF assms(1) d] intro!: filter_cong)
    with Cons.IH [OF rest] d False x show ?thesis by (simp add: keep_first_removeAll)
  qed
qed simp

lemma process_all_done:
  "(\<And>x. x \<in> set nodes \<Longrightarrow> \<exists>a. x = Some a \<and> is_processed (elements p a)) \<Longrightarrow>
    process_all env callback nodes p = (None, p)"
proof (induction nodes)
  case (Cons x xs)
  obtain a where "x = Some a" "is_processed (elements p a)" using Cons.prems [of x] by auto
  with Cons show ?case by (simp add: page_then_def process_element_def)
qed simp

text \<open>\<open>init\<close> either fails before its loop or runs it from a page with the same elements.\<close>

lemma pass_config_frame:
  "elements (snd (pass_config k v p)) = elements p" "outside (snd (pass_config k v p)) = outside p"
  by (simp_all add: pass_config_def page_config_def split: prod.split)

lemma keep_sequence_config_frame [simp]:
  "elements (keep_sequence_config args p) = elements p" "outside (keep_sequence_config args p) = outside p"
  "conf (keep_sequence_config args p) = conf p" "start_on_load (keep_sequence_config args p) = start_on_load p"
  "gantt_config (keep_sequence_config args p) = gantt_config p"
  by (simp_all add: keep_sequence_config_def split: list.split)

lemma init_nodes_cong: "elements p = elements q \<Longrightarrow> init_nodes env e p = init_nodes env e q"
  by (simp add: init_nodes_def split: init_arg.split jsval.split)

lemma init_cases:
  obtains (early) "fst (init env args p) \<noteq> None" "elements (snd (init env args p)) = elements p"
      "outside (snd (init env args p)) = outside p"
  | (loop) q nodes callback where "init env args p = process_all env callback nodes q" "init_callback args (conf p) = Inr callback"
      "elements q = elements p" "outside q = outside p" "init_nodes env (nodes_arg args) p = Inr nodes"
proof -
  define p1 where "p1 = keep_sequence_config args p"
  have p1: "elements p1 = elements p" "outside p1 = outside p" by (simp_all add: p1_def)
  have p1_conf: "conf p1 = conf p" by (simp add: p1_def)
  have nodes: "init_nodes env (nodes_arg args) p1 = init_nodes env (nodes_arg args) p"
    using p1(1) by (rule init_nodes_cong)
  show thesis
  proof (cases "init_callback args (conf p1)")
    case (Inl e)
    then show thesis by (intro early) (simp_all add: init_def Let_def p1_def [symmetric] p1)
  next
    case cb: (Inr callback)
    show thesis
    proof (cases "init_nodes env (nodes_arg args) p1")
      case (Inl e)
      with cb show thesis by (intro early) (simp_all add: init_def Let_def p1_def [symmetric] p1)
    next
      case (Inr nodes)
      obtain e2 p2 where 2: "pass_config ''startOnLoad'' (start_on_load p1) p1 = (e2, p2)" by (metis prod.exhaust)
      obtain e3 p3 where 3: "pass_config ''gantt'' (gantt_config p2) p2 = (e3, p3)" by (metis prod.exhaust)
      have frame: "elements p2 = elements p" "outside p2 = outside p" "elements p3 = elements p" "outside p3 = outside p"
        using pass_config_frame [of "''startOnLoad''" "start_on_load p1" p1]
          pass_config_frame [of "''gantt''" "gantt_config p2" p2] 2 3 p1 by auto
      have run: "init env args p = (case e2 of Some x \<Rightarrow> (Some x, p2) | None \<Rightarrow>
          (case e3 of Some x \<Rightarrow> (Some x, p3) | None \<Rightarrow> process_all env callback nodes p3))"
        by (simp add: init_def Let_def p1_def [symmetric] cb Inr page_then_def 2 3 split: option.split)
      show thesis
      proof (cases "e2 = None \<and> e3 = None")
        case True
        with run frame Inr nodes cb p1_conf show thesis by (intro loop [of callback nodes p3]) simp_all
      next
        case False
        with run frame show thesis by (intro early) (auto split: option.splits)
      qed
    qed
  qed
qed

section \<open>Properties of the page\<close>

text \<open>
  C35. \<open>init\<close> draws an element at most once, whatever it is called with and whatever renderers and client functions do to the
  document, as long as they leave the marks alone.  When it does not fail, it has drawn exactly those of its nodes that were
  not marked \<open>data-processed\<close>, one after the other in the order in which they first occur, each only once even if the list names it again,
  and each marked before it is drawn; all of its nodes are marked then.  Marks are never taken away, and elements that are not among
  its nodes are not marked, even when it fails.
\<close>

theorem init_marks_its_elements:
  assumes "marks_documented env" and "init env args p = (err, p')"
    and "init_nodes env (nodes_arg args) p = Inr nodes"
  shows "(\<forall>b. is_processed (elements p b) \<longrightarrow> is_processed (elements p' b)) \<and>
    (\<forall>b. Some b \<notin> set nodes \<longrightarrow> data_processed (elements p' b) = data_processed (elements p b)) \<and>
    (err = None \<longrightarrow> (\<forall>b. Some b \<in> set nodes \<longrightarrow> is_processed (elements p' b)) \<and>
      (\<exists>callback q. init_callback args (conf p) = Inr callback \<and> elements q = elements p \<and> outside q = outside p \<and>
         drawn_in_turn env callback (keep_first [a\<leftarrow>map the nodes. \<not> is_processed (elements p a)]) q p'))"
proof (cases rule: init_cases [of env args p])
  case early
  with assms show ?thesis by auto
next
  case (loop q ns callback)
  with assms(3) have ns: "ns = nodes" by simp
  have run: "process_all env callback nodes q = (err, p')" using loop(1) assms(2) ns by simp
  have "\<exists>callback q. init_callback args (conf p) = Inr callback \<and> elements q = elements p \<and> outside q = outside p \<and>
      drawn_in_turn env callback (keep_first [a\<leftarrow>map the nodes. \<not> is_processed (elements p a)]) q p'" if "err = None"
    using process_all_drawn [OF assms(1) run [unfolded that]] loop(2-4)
    by (intro exI [of _ callback] exI [of _ q]) simp
  with process_all_marks [OF assms(1) run] loop(3) show ?thesis by auto
qed

text \<open>A browser for examples: the clock stands still, and the world lists the ids that were drawn.\<close>

definition sample_browser :: "js_text list browser" where
  "sample_browser = \<lparr>query_selector = (\<lambda>sel es. Inr []), he_decode = id, date_now = (\<lambda>w. (7, w)),
     style_diagram = (\<lambda>d code i a D x. (if code = [] then Some JsTypeError else None, x)),
     draw_diagram = (\<lambda>d code i a D x. (Inr i, fst x, snd x @ [i])),
     run_callback = (\<lambda>f i x. (None, x)), bind_functions = (\<lambda>a x. (None, x)), remove_drawing = (\<lambda>i x. x)\<rparr>"

lemma sample_marks: "marks_documented sample_browser"
  by (simp add: marks_documented_def keeps_marks_def sample_browser_def)

definition sample_page :: "js_text list page" where
  "sample_page = fresh_page (\<lambda>a. \<lparr>inner_html = units (if a = 2 then [] else ''gantt''), data_processed = None\<rparr>) []"

lemma sample_code:
  "encodeEntities (clean_text id (units ''gantt'')) = units ''gantt''"
  "detectType (units ''gantt'') = Gantt" "units ''gantt'' \<noteq> []"
  by (simp_all add: clean_text_def encodeEntities_def cut_semicolons_def colour_line_def entity_def
      br_tag_def js_trim_def units_def js_space_def line_end_def detectType_def strip_comment_def)

lemma sample_init:
  "fst (init sample_browser [ArgNodes [0, 1]] sample_page) = None"
  "outside (snd (init sample_browser [ArgNodes [0, 1]] sample_page)) =
     [units ''mermaid-7'', units ''mermaid-7'']"
  by (simp_all add: sample_page_def fresh_page_def initial_config_def sample_browser_def init_def Let_def
      keep_sequence_config_def init_callback_def config_callback_def obj_get_def init_nodes_def
      nodes_arg_def page_then_def pass_config_def page_config_def api_initialize_def
      process_element_def is_processed_def set_element_def set_html_def render_def draw_and_show_def
      show_picture_def on_document_def section_config_def sample_code str_of_nat.simps [of 7] digit_char_def)
    (simp_all add: units_def)

theorem init_marks_its_elements_witness:
  "is_processed (elements (snd (init sample_browser [ArgNodes [0, 1]] sample_page)) 1)"
proof -
  obtain p' where run: "init sample_browser [ArgNodes [0, 1]] sample_page = (None, p')"
    using sample_init(1) by (metis fst_conv prod.exhaust)
  have "init_nodes sample_browser (nodes_arg [ArgNodes [0, 1]]) sample_page = Inr [Some 0, Some 1]"
    by (simp add: init_nodes_def nodes_arg_def)
  with init_marks_its_elements [OF sample_marks run] run show ?thesis by simp
qed

text \<open>
  Calling \<open>init\<close> again on nodes that it drew changes no element and calls neither the renderer, the
  clock nor the client's callback.
\<close>

theorem init_again_changes_nothing:
  assumes "marks_documented env" and "init env [ArgNodes ns] p = (None, p')" and "init env [ArgNodes ns] p' = (err, p'')"
  shows "elements p'' = elements p' \<and> outside p'' = outside p'"
proof (cases rule: init_cases [of env "[ArgNodes ns]" p'])
  case early
  with assms(3) show ?thesis by simp
next
  case (loop q nodes callback)
  have ns: "init_nodes env (nodes_arg [ArgNodes ns]) r = Inr (map Some ns)" for r :: "'a page"
    by (simp add: init_nodes_def nodes_arg_def)
  then have nodes: "nodes = map Some ns" using loop(5) by simp
  have "is_processed (elements p' a)" if "a \<in> set ns" for a
  proof (cases rule: init_cases [of env "[ArgNodes ns]" p])
    case early
    with assms(2) show ?thesis by simp
  next
    case first: (loop q1 nodes1 callback1)
    then have run: "process_all env callback1 (map Some ns) q1 = (None, p')" using assms(2) ns by simp
    from process_all_marks(3) [OF assms(1) run, of a] that show ?thesis by simp
  qed
  then have "process_all env callback nodes q = (None, q)"
    using loop(3) by (intro process_all_done) (auto simp: nodes)
  with loop assms(3) show ?thesis by simp
qed

theorem init_again_changes_nothing_witness:
  "\<exists>p' err p''. init sample_browser [ArgNodes [0, 1]] sample_page = (None, p') \<and>
    init sample_browser [ArgNodes [0, 1]] p' = (err, p'') \<and> elements p'' = elements p' \<and>
    outside p'' = [units ''mermaid-7'', units ''mermaid-7'']"
proof -
  obtain p' where run: "init sample_browser [ArgNodes [0, 1]] sample_page = (None, p')"
    using sample_init(1) by (metis fst_conv prod.exhaust)
  obtain err p'' where again: "init sample_browser [ArgNodes [0, 1]] p' = (err, p'')" by (metis prod.exhaust)
  from init_again_changes_nothing [OF sample_marks run again] sample_init(2) run again show ?thesis by auto
qed

text \<open>
  A diagram with an error stops \<open>init\<close>: the error of its parser escapes, the nodes behind it are not
  looked at, and yet the element is marked, so that no later \<open>init\<close> tries it again.
\<close>

theorem init_stops_at_failing_diagram:
  assumes plain: "start_on_load p = JBool b" "gantt_config p = JUndef" "obj_get (conf p) ''mermaid'' = JUndef"
    and marks: "marks_documented env" and new: "\<not> is_processed (elements p a)"
    and code: "code = encodeEntities (clean_text (he_decode env) (inner_html (elements p a)))"
    and bad: "\<And>i D x. fst (style_diagram env (detectType code) code i a D x) = Some y"
    and run: "init env [ArgNodes (a # ns)] p = (err, p')"
  shows "err = Some y \<and> is_processed (elements p' a) \<and>
    (\<forall>b. b \<noteq> a \<longrightarrow> data_processed (elements p' b) = data_processed (elements p b)) \<and>
    process_element env None (Some a) p' = (None, p')"
proof -
  define q where "q = snd (pass_config ''startOnLoad'' (JBool b) p)"
  have q: "pass_config ''startOnLoad'' (JBool b) p = (None, q)" "elements q = elements p" "gantt_config q = JUndef"
    using plain(2) by (auto simp: q_def pass_config_def page_config_def api_initialize_def)
  have cb: "init_callback [ArgNodes (a # ns)] (conf p) = Inr None"
    using plain(3) by (simp add: init_callback_def config_callback_def)
  have "init env [ArgNodes (a # ns)] p = process_all env None (Some a # map Some ns) q"
    by (simp add: init_def Let_def keep_sequence_config_def cb init_nodes_def nodes_arg_def page_then_def plain(1) q)
      (simp add: pass_config_def page_then_def)
  moreover obtain err' r where one: "draw_element env None a q = (err', r)" by (metis prod.exhaust)
  moreover have "err' = Some y"
  proof -
    obtain now w where now: "date_now env (outside q) = (now, w)" by (metis prod.exhaust)
    have step: "fst (page_then (\<lambda>p. on_document (style_diagram env (detectType code) code i a (conf p)) p) f p) = Some y"
      for i f p using bad [of i "conf p" "(elements p, outside p)"]
      by (cases "style_diagram env (detectType code) code i a (conf p) (elements p, outside p)")
        (auto simp: page_then_def on_document_def)
    have "fst (draw_element env None a q) = Some y"
      using step by (simp add: draw_element_def now Let_def q(2) render_def code [symmetric])
    then show ?thesis using one by simp
  qed
  ultimately have res: "err = Some y" "p' = r"
    using run new q(2) by (simp_all add: page_then_def process_element_draws)
  with draw_element_marks [OF marks one] q show ?thesis by (simp add: process_element_draws)
qed

theorem init_stops_at_failing_diagram_witness:
  "fst (init sample_browser [ArgNodes (2 # [0])] sample_page) = Some JsTypeError"
proof -
  obtain err p' where run: "init sample_browser [ArgNodes (2 # [0])] sample_page = (err, p')"
    by (metis prod.exhaust)
  have "err = Some JsTypeError \<and> is_processed (elements p' 2) \<and>
      (\<forall>b. b \<noteq> 2 \<longrightarrow> data_processed (elements p' b) = data_processed (elements sample_page b)) \<and>
      process_element sample_browser None (Some 2) p' = (None, p')"
    by (rule init_stops_at_failing_diagram [where b = True and code = "[]", OF _ _ _ sample_marks _ _ _ run])
      (simp_all add: sample_page_def fresh_page_def initial_config_def obj_get_def is_processed_def
        sample_browser_def clean_text_def js_trim_def units_def encodeEntities_def cut_semicolons_def)
  with run show ?thesis by simp
qed

text \<open>
  Switching the automatic start off in the configuration holds for the load event only: the event
  then does nothing, but any call of \<open>mermaid.init\<close> puts the flag of \<open>mermaid\<close> itself, still on, back
  into the configuration.
\<close>

theorem init_restores_start_on_load:
  fixes env :: "'w browser"
  defines "p \<equiv> \<lambda>es w. snd (initialize (JObj [(''startOnLoad'', JBool False)]) (fresh_page es w))"
  shows "contentLoaded env (p es w) = (None, p es w) \<and>
    obj_get (conf (snd (init env [ArgNodes []] (p es w)))) ''startOnLoad'' = JBool True"
  by (simp add: p_def initialize_def fresh_page_def initial_config_def page_config_def
      api_initialize_def obj_get_def contentLoaded_def init_def Let_def keep_sequence_config_def init_callback_def
      config_callback_def init_nodes_def nodes_arg_def page_then_def pass_config_def)

text \<open>
  The ids of the pictures are the clock's milliseconds, so two diagrams drawn within one of them get
  the same id.
\<close>

theorem same_millisecond_same_id:
  "\<exists>p'. init sample_browser [ArgNodes [0, 1]] sample_page = (None, p') \<and>
    inner_html (elements p' 0) = units ''mermaid-7'' \<and> inner_html (elements p' 1) = units ''mermaid-7'' \<and>
    outside p' = [units ''mermaid-7'', units ''mermaid-7'']"
  by (simp add: sample_page_def fresh_page_def initial_config_def sample_browser_def init_def Let_def
      keep_sequence_config_def init_callback_def config_callback_def obj_get_def init_nodes_def
      nodes_arg_def page_then_def pass_config_def page_config_def api_initialize_def
      process_element_def is_processed_def set_element_def set_html_def render_def draw_and_show_def
      show_picture_def on_document_def section_config_def sample_code str_of_nat.simps [of 7] digit_char_def)
    (simp add: units_def decodeEntities_def literal_def)

section \<open>The merged configuration\<close>

definition member :: "config \<Rightarrow> string \<Rightarrow> string \<Rightarrow> jsval" where
  "member D k i = (case obj_get D k of JObj d \<Rightarrow> obj_get d i | _ \<Rightarrow> JUndef)"

definition open_section :: "config \<Rightarrow> string \<Rightarrow> bool" where
  "open_section D k \<longleftrightarrow> (case obj_get D k of JUndef \<Rightarrow> True | JObj d \<Rightarrow> True | _ \<Rightarrow> False)"

lemma obj_get_update [simp]: "obj_get (AList.update k v d) j = (if j = k then v else obj_get d j)"
  by (simp add: obj_get_def update_conv)

lemma obj_get_Nil [simp]: "obj_get [] k = JUndef"
  by (simp add: obj_get_def)

lemma set_members_result:
  assumes "open_section D k" and "distinct (map fst es)"
  shows "\<exists>D'. set_members k es D = (None, D') \<and> (\<forall>j. j \<noteq> k \<longrightarrow> obj_get D' j = obj_get D j) \<and>
    open_section D' k \<and> (\<forall>i. member D' k i = (case map_of es i of None \<Rightarrow> member D k i | Some x \<Rightarrow> x))"
  using assms
proof (induction es arbitrary: D)
  case (Cons e es)
  obtain i x where e: "e = (i, x)" by fastforce
  define D1 where "D1 = (if obj_get D k = JUndef then AList.update k (JObj []) D else D)"
  obtain d where d: "obj_get D1 k = JObj d" "\<And>i. member D k i = obj_get d i"
    using Cons.prems(1)
    by (auto simp: D1_def open_section_def member_def split: jsval.splits if_splits)
  define D2 where "D2 = AList.update k (JObj (AList.update i x d)) D1"
  have d2: "obj_get D2 k = JObj (AList.update i x d)" "\<And>j. j \<noteq> k \<Longrightarrow> obj_get D2 j = obj_get D j"
    by (auto simp: D2_def D1_def)
  then have "open_section D2 k" by (simp add: open_section_def)
  from Cons.IH [OF this] Cons.prems(2) obtain D' where
    D': "set_members k es D2 = (None, D')" "\<And>j. j \<noteq> k \<Longrightarrow> obj_get D' j = obj_get D2 j" "open_section D' k"
      "\<And>i. member D' k i = (case map_of es i of None \<Rightarrow> member D2 k i | Some x \<Rightarrow> x)" by auto
  have "i \<notin> fst ` set es" using Cons.prems(2) e by simp
  then have "map_of es i = None" by (simp add: map_of_eq_None_iff)
  then have "member D' k j = (case map_of (e # es) j of None \<Rightarrow> member D k j | Some x \<Rightarrow> x)" for j
    using D'(4) [of j] d d2 by (cases "j = i") (auto simp: member_def e split: option.split)
  moreover have "set_members k (e # es) D = (None, D')"
    using d D'(1) by (simp add: e D1_def [symmetric] D2_def)
  ultimately show ?case using D'(2,3) d2(2) by auto
qed simp

definition merged :: "config \<Rightarrow> config \<Rightarrow> string \<Rightarrow> jsval \<Rightarrow> bool" where
  "merged D D' k v \<longleftrightarrow> (case v of
      JObj es \<Rightarrow> (\<forall>i. member D' k i = (case map_of es i of None \<Rightarrow> member D k i | Some x \<Rightarrow> x))
    | _ \<Rightarrow> obj_get D' k = v)"

lemma merged_cong:
  assumes "merged D D' k v" and "obj_get D k = obj_get E k" and "obj_get D' k = obj_get E' k"
  shows "merged E E' k v"
proof -
  have eq: "member D k = member E k" "member D' k = member E' k"
    by (simp_all add: member_def assms(2,3) fun_eq_iff)
  show ?thesis using assms(1) unfolding merged_def eq assms(3) .
qed

lemma set_config_result:
  assumes "distinct (map fst t)"
    and "\<And>k es. (k, JObj es) \<in> set t \<Longrightarrow> distinct (map fst es) \<and> open_section D k"
  shows "\<exists>D'. set_config t D = (None, D') \<and> (\<forall>k. k \<notin> fst ` set t \<longrightarrow> obj_get D' k = obj_get D k) \<and>
    (\<forall>(k, v) \<in> set t. merged D D' k v)"
  using assms
proof (induction t arbitrary: D)
  case (Cons e t)
  obtain k v where e: "e = (k, v)" by fastforce
  have new: "k \<notin> fst ` set t" using Cons.prems(1) e by simp
  obtain D1 where D1: "set_config (e # t) D = set_config t D1" "\<And>j. j \<noteq> k \<Longrightarrow> obj_get D1 j = obj_get D j"
      "merged D D1 k v"
  proof (cases "\<exists>es. v = JObj es")
    case True
    then obtain es where v: "v = JObj es" by blast
    obtain D1 where "set_members k es D = (None, D1)" "\<forall>j. j \<noteq> k \<longrightarrow> obj_get D1 j = obj_get D j"
        "\<forall>i. member D1 k i = (case map_of es i of None \<Rightarrow> member D k i | Some x \<Rightarrow> x)"
      using set_members_result [of D k es] Cons.prems(2) [of k es] e v by auto
    then show thesis by (intro that [of D1]) (simp_all add: e v merged_def)
  next
    case False
    then show thesis by (intro that [of "AList.update k v D"]) (auto simp: e merged_def split: jsval.split)
  qed
  have "distinct (map fst es) \<and> open_section D1 j" if "(j, JObj es) \<in> set t" for j es
    using Cons.prems(2) [of j es] that D1(2) [of j] new by (force simp: e open_section_def)
  with Cons.IH [of D1] Cons.prems(1) obtain D' where
    D': "set_config t D1 = (None, D')" "\<forall>j. j \<notin> fst ` set t \<longrightarrow> obj_get D' j = obj_get D1 j"
      "\<forall>(j, w) \<in> set t. merged D1 D' j w" by auto
  have "merged D D' k v" using merged_cong [OF D1(3) refl] D'(2) new by simp
  moreover have "merged D D' j w" if "(j, w) \<in> set t" for j w
  proof (rule merged_cong [OF _ _ refl])
    show "merged D1 D' j w" using D'(3) that by blast
    show "obj_get D1 j = obj_get D j" using D1(2) [of j] new that by force
  qed
  ultimately have "\<forall>(j, w) \<in> set (e # t). merged D D' j w" by (auto simp: e)
  with D'(1,2) D1(1,2) show ?case by (auto simp: e)
qed simp

text \<open>
  \<open>initialize\<close> merges a configuration two levels deep: a member of a section that is given is set,
  the other members of the section and the keys that are not given are kept, and a value that is no
  object replaces the old one.
\<close>

theorem set_config_merges:
  assumes "distinct (map fst t)"
    and "\<And>k es. (k, JObj es) \<in> set t \<Longrightarrow> distinct (map fst es) \<and> open_section D k"
  shows "\<exists>D'. api_initialize (JObj t) D = (None, D') \<and>
    (\<forall>k. k \<notin> fst ` set t \<longrightarrow> obj_get D' k = obj_get D k) \<and> (\<forall>(k, v) \<in> set t. merged D D' k v)"
  unfolding api_initialize_def jsval.case using assms by (rule set_config_result)

theorem set_config_merges_witness:
  "\<exists>D'. api_initialize (JObj [(''gantt'', JObj [(''barGap'', JNum 9)])]) initial_config = (None, D') \<and>
    obj_get D' ''theme'' = JStr (units ''default'') \<and>
    member D' ''gantt'' ''barGap'' = JNum 9 \<and> member D' ''gantt'' ''barHeight'' = JNum 20"
proof -
  have "open_section initial_config ''gantt''"
    by (simp add: open_section_def initial_config_def obj_get_def)
  then obtain D' where D': "api_initialize (JObj [(''gantt'', JObj [(''barGap'', JNum 9)])]) initial_config = (None, D')"
      "\<forall>k. k \<notin> fst ` set [(''gantt'', JObj [(''barGap'', JNum 9)])] \<longrightarrow> obj_get D' k = obj_get initial_config k"
      "\<forall>(k, v) \<in> set [(''gantt'', JObj [(''barGap'', JNum 9)])]. merged initial_config D' k v"
    using set_config_merges [of "[(''gantt'', JObj [(''barGap'', JNum 9)])]" initial_config] by auto
  have "member initial_config ''gantt'' ''barHeight'' = JNum 20"
      "obj_get initial_config ''theme'' = JStr (units ''default'')"
    by (simp_all add: member_def initial_config_def obj_get_def)
  with D' show ?thesis by (simp add: merged_def)
qed

text \<open>A section that was set to \<open>null\<close> or to a primitive value refuses members from then on.\<close>

lemma closed_section_refuses:
  "\<not> open_section D k \<Longrightarrow> (\<forall>f n. obj_get D k \<noteq> JFun f n) \<Longrightarrow>
    set_config [(k, JObj ((i, x) # es))] D = (Some JsTypeError, D)"
  by (cases "obj_get D k") (auto simp: open_section_def)

end
