(* ===== verification/UriComponent.thy ===== *)
theory UriComponent
  imports MermaidText MermaidGit
begin

text \<open>
  \<open>encodeURIComponent\<close> and \<open>decodeURIComponent\<close> of JavaScript, which the script
  \<open>docs/workshop/static/js/buttons.js\<close> calls: between texts of UTF-16 code units and \<open>%XX\<close> escapes of
  their UTF-8 bytes, as the language defines them.
\<close>

section \<open>Encoding\<close>

definition unescaped :: "nat \<Rightarrow> bool" where
  "unescaped c \<longleftrightarrow> js_word c \<or> c \<in> {45, 46, 33, 126, 42, 39, 40, 41}"

definition hex_unit :: "nat \<Rightarrow> nat" where
  "hex_unit d = (if d < 10 then 48 + d else 55 + d)"

definition percent_escape :: "nat \<Rightarrow> js_text" where
  "percent_escape b = [37, hex_unit (b div 16), hex_unit (b mod 16)]"

definition utf8_bytes :: "nat \<Rightarrow> nat list" where
  "utf8_bytes v =
     (if v < 128 then [v]
      else if v < 2048 then [192 + v div 64, 128 + v mod 64]
      else if v < 65536 then [224 + v div 4096, 128 + v div 64 mod 64, 128 + v mod 64]
      else [240 + v div 262144, 128 + v div 4096 mod 64, 128 + v div 64 mod 64, 128 + v mod 64])"

definition escape_point :: "nat \<Rightarrow> js_text" where
  "escape_point v = concat (map percent_escape (utf8_bytes v))"

definition high_surrogate :: "nat \<Rightarrow> bool" where
  "high_surrogate c \<longleftrightarrow> 55296 \<le> c \<and> c < 56320"

definition low_surrogate :: "nat \<Rightarrow> bool" where
  "low_surrogate c \<longleftrightarrow> 56320 \<le> c \<and> c < 57344"

fun encodeURIComponent :: "js_text \<Rightarrow> js_error + js_text" where
  "encodeURIComponent [] = Inr []"
| "encodeURIComponent (c # cs) =
     (if unescaped c then bind_result (encodeURIComponent cs) (\<lambda>r. Inr (c # r))
      else if low_surrogate c then Inl JsURIError
      else if high_surrogate c then (case cs of
          [] \<Rightarrow> Inl JsURIError
        | d # ds \<Rightarrow>
            if low_surrogate d
            then bind_result (encodeURIComponent ds)
              (\<lambda>r. Inr (escape_point ((c - 55296) * 1024 + (d - 56320) + 65536) @ r))
            else Inl JsURIError)
      else bind_result (encodeURIComponent cs) (\<lambda>r. Inr (escape_point c @ r)))"

section \<open>Decoding\<close>

definition unit_hex :: "nat \<Rightarrow> nat option" where
  "unit_hex n =
     (if 48 \<le> n \<and> n \<le> 57 then Some (n - 48)
      else if 65 \<le> n \<and> n \<le> 70 then Some (n - 55)
      else if 97 \<le> n \<and> n \<le> 102 then Some (n - 87) else None)"

fun percent_byte :: "js_text \<Rightarrow> (nat \<times> js_text) option" where
  "percent_byte (p # x # y # r) =
     (if p = 37 then Option.bind (unit_hex x) (\<lambda>h. Option.bind (unit_hex y) (\<lambda>l. Some (16 * h + l, r))) else None)"
| "percent_byte _ = None"

text \<open>The continuation bytes of a code point.\<close>

fun continuation :: "nat \<Rightarrow> nat \<Rightarrow> js_text \<Rightarrow> (nat \<times> js_text) option" where
  "continuation 0 v r = Some (v, r)"
| "continuation (Suc k) v r = Option.bind (percent_byte r) (\<lambda>(b, r').
     if 128 \<le> b \<and> b < 192 then continuation k (64 * v + (b - 128)) r' else None)"

text \<open>A first byte: how many more, its bits, and the least code point of this length.\<close>

definition lead_byte :: "nat \<Rightarrow> (nat \<times> nat \<times> nat) option" where
  "lead_byte b =
     (if b < 128 then Some (0, b, 0)
      else if 192 \<le> b \<and> b < 224 then Some (1, b - 192, 128)
      else if 224 \<le> b \<and> b < 240 then Some (2, b - 224, 2048)
      else if 240 \<le> b \<and> b < 248 then Some (3, b - 240, 65536) else None)"

definition code_units :: "nat \<Rightarrow> js_text" where
  "code_units v = (if v < 65536 then [v] else [55296 + (v - 65536) div 1024, 56320 + (v - 65536) mod 1024])"

definition decode_escape :: "js_text \<Rightarrow> (js_text \<times> js_text) option" where
  "decode_escape t = Option.bind (percent_byte t) (\<lambda>(b, r). Option.bind (lead_byte b) (\<lambda>(k, bits, least).
     Option.bind (continuation k bits r) (\<lambda>(v, r').
       if least \<le> v \<and> v \<le> 1114111 \<and> \<not> (55296 \<le> v \<and> v \<le> 57343) then Some (code_units v, r') else None)))"

lemma percent_byte_length: "percent_byte t = Some (b, r) \<Longrightarrow> length r < length t"
  by (induction t rule: percent_byte.induct) (auto split: if_splits bind_splits)

lemma continuation_length: "continuation k v r = Some (v', r') \<Longrightarrow> length r' \<le> length r"
proof (induction k v r rule: continuation.induct)
  case (2 k v r)
  then show ?case by (fastforce dest: percent_byte_length split: bind_splits if_splits prod.splits)
qed simp

lemma decode_escape_length: "decode_escape t = Some (u, r) \<Longrightarrow> length r < length t"
  by (auto simp: decode_escape_def bind_eq_Some_conv split: if_splits prod.splits
      dest!: percent_byte_length continuation_length)

function decodeURIComponent :: "js_text \<Rightarrow> js_error + js_text" where
  "decodeURIComponent [] = Inr []"
| "decodeURIComponent (c # cs) =
     (if c = 37 then (case decode_escape (c # cs) of
          None \<Rightarrow> Inl JsURIError
        | Some (u, r) \<Rightarrow> bind_result (decodeURIComponent r) (\<lambda>x. Inr (u @ x)))
      else bind_result (decodeURIComponent cs) (\<lambda>x. Inr (c # x)))"
  by pat_completeness auto
termination
  by (relation "measure length") (auto dest: decode_escape_length)

section \<open>Round trip\<close>

lemma unit_hex_unit: "d < 16 \<Longrightarrow> unit_hex (hex_unit d) = Some d"
  by (auto simp: unit_hex_def hex_unit_def)

lemma percent_byte_escape: "b < 256 \<Longrightarrow> percent_byte (percent_escape b @ r) = Some (b, r)"
  by (simp add: percent_escape_def unit_hex_unit less_mult_imp_div_less)

lemma decode_escape_point:
  assumes "v \<le> 1114111" and "\<not> (55296 \<le> v \<and> v \<le> 57343)"
  shows "decode_escape (escape_point v @ r) = Some (code_units v, r)"
proof -
  consider "v < 128" | "128 \<le> v" "v < 2048" | "2048 \<le> v" "v < 65536" | "65536 \<le> v" by linarith
  then show ?thesis
  proof cases
    case 1
    with assms show ?thesis
      by (simp add: escape_point_def utf8_bytes_def percent_byte_escape decode_escape_def lead_byte_def)
  next
    case 2
    then have q: "v div 64 < 32" by (simp add: less_mult_imp_div_less)
    have v: "v div 64 * 64 + v mod 64 = v" by simp
    from 2 q assms v show ?thesis
      by (simp add: escape_point_def utf8_bytes_def percent_byte_escape decode_escape_def lead_byte_def)
  next
    case 3
    have q: "v div 4096 < 16" "v div 64 mod 64 < 64" "v mod 64 < 64" using 3 by (auto simp: less_mult_imp_div_less)
    have "64 * (v div 4096) + v div 64 mod 64 = v div 64"
      using div_mult_mod_eq [of "v div 64" 64] by (simp add: div_mult2_eq [symmetric])
    then have v: "64 * (64 * (v div 4096) + v div 64 mod 64) + v mod 64 = v" by simp
    have run: "continuation 2 (v div 4096) (percent_escape (128 + v div 64 mod 64) @ percent_escape (128 + v mod 64) @ r)
        = Some (v, r)"
      using q v by (simp add: numeral_2_eq_2 percent_byte_escape)
    from 3 q assms run show ?thesis
      by (simp add: escape_point_def utf8_bytes_def percent_byte_escape decode_escape_def lead_byte_def)
  next
    case 4
    have q: "v div 262144 < 8" "v div 4096 mod 64 < 64" "v div 64 mod 64 < 64" "v mod 64 < 64"
      using assms(1) by (auto simp: less_mult_imp_div_less)
    have "64 * (v div 262144) + v div 4096 mod 64 = v div 4096"
      using div_mult_mod_eq [of "v div 4096" 64] by (simp add: div_mult2_eq [symmetric])
    moreover have "64 * (v div 4096) + v div 64 mod 64 = v div 64"
      using div_mult_mod_eq [of "v div 64" 64] by (simp add: div_mult2_eq [symmetric])
    ultimately have v: "64 * (64 * (64 * (v div 262144) + v div 4096 mod 64) + v div 64 mod 64) + v mod 64 = v"
      by simp
    have run: "continuation 3 (v div 262144) (percent_escape (128 + v div 4096 mod 64) @
        percent_escape (128 + v div 64 mod 64) @ percent_escape (128 + v mod 64) @ r) = Some (v, r)"
      using q v by (simp add: numeral_3_eq_3 percent_byte_escape)
    from 4 q assms run show ?thesis
      by (simp add: escape_point_def utf8_bytes_def percent_byte_escape decode_escape_def lead_byte_def)
  qed
qed

lemma escape_point_head: "escape_point v \<noteq> [] \<and> hd (escape_point v) = 37"
  by (simp add: escape_point_def utf8_bytes_def percent_escape_def)

lemma decode_escape_append:
  assumes "v \<le> 1114111" and "\<not> (55296 \<le> v \<and> v \<le> 57343)"
  shows "decodeURIComponent (escape_point v @ r) = bind_result (decodeURIComponent r) (\<lambda>x. Inr (code_units v @ x))"
proof -
  obtain t where t: "escape_point v = 37 # t" using escape_point_head [of v] by (cases "escape_point v") auto
  show ?thesis using decode_escape_point [OF assms, of r] by (simp add: t)
qed

text \<open>What is encoded decodes to the text; a text of 16-bit units with a lone surrogate is refused.\<close>

lemma decode_encode:
  assumes "encodeURIComponent t = Inr u" and "\<forall>c \<in> set t. c < 65536"
  shows "decodeURIComponent (u @ v) = bind_result (decodeURIComponent v) (\<lambda>x. Inr (t @ x))"
  using assms
proof (induction t arbitrary: u rule: encodeURIComponent.induct)
  case 1
  then show ?case by (cases "decodeURIComponent v") auto
next
  case (2 c cs)
  have eq: "bind_result (bind_result (decodeURIComponent v) (\<lambda>x. Inr (a @ x))) (\<lambda>x. Inr (b @ x))
      = bind_result (decodeURIComponent v) (\<lambda>x. Inr ((b @ a) @ x))" for a b
    by (cases "decodeURIComponent v") auto
  consider (plain) "unescaped c" | (low) "\<not> unescaped c" "low_surrogate c"
    | (high) "\<not> unescaped c" "\<not> low_surrogate c" "high_surrogate c"
    | (other) "\<not> unescaped c" "\<not> low_surrogate c" "\<not> high_surrogate c" by blast
  then show ?case
  proof cases
    case plain
    then obtain w where w: "encodeURIComponent cs = Inr w" "u = c # w"
      using "2.prems"(1) by (auto simp: bind_result_Inr)
    have "c \<noteq> 37" using plain by (auto simp: unescaped_def js_word_def js_digit_def)
    with w "2.IH"(1) [OF plain w(1)] "2.prems"(2) eq [of cs "[c]"] show ?thesis by simp
  next
    case low
    with "2.prems"(1) show ?thesis by simp
  next
    case high
    then obtain d ds where cs: "cs = d # ds" "low_surrogate d" using "2.prems"(1) by (auto split: list.splits if_splits)
    then obtain w where w: "encodeURIComponent ds = Inr w"
        "u = escape_point ((c - 55296) * 1024 + (d - 56320) + 65536) @ w"
      using "2.prems"(1) high by (auto simp: bind_result_Inr)
    obtain x y where cd: "c = 55296 + x" "x < 1024" "d = 56320 + y" "y < 1024"
      using high(3) cs(2) by (auto simp: high_surrogate_def low_surrogate_def le_iff_add)
    then have "code_units ((c - 55296) * 1024 + (d - 56320) + 65536) = [c, d]"
      by (simp add: code_units_def)
    with w "2.IH"(2) [OF high cs w(1)] "2.prems"(2) cs cd eq [of ds "[c, d]"] show ?thesis
      by (subst w(2)) (simp add: decode_escape_append)
  next
    case other
    then obtain w where w: "encodeURIComponent cs = Inr w" "u = escape_point c @ w"
      using "2.prems"(1) by (auto simp: bind_result_Inr)
    have c: "c < 65536" "\<not> (55296 \<le> c \<and> c \<le> 57343)"
      using other "2.prems"(2) by (auto simp: high_surrogate_def low_surrogate_def)
    then have "code_units c = [c]" by (simp add: code_units_def)
    with w "2.IH"(3) [OF other w(1)] "2.prems"(2) c eq [of cs "[c]"] show ?thesis
      by (subst w(2)) (simp add: decode_escape_append)
  qed
qed

lemma decodeURIComponent_encode:
  "encodeURIComponent t = Inr u \<Longrightarrow> \<forall>c \<in> set t. c < 65536 \<Longrightarrow> decodeURIComponent u = Inr t"
  using decode_encode [of t u "[]"] by simp

text \<open>The encoded text has word characters, the marks and percent signs only.\<close>

lemma utf8_bytes_bound: "v \<le> 1114111 \<Longrightarrow> b \<in> set (utf8_bytes v) \<Longrightarrow> b < 256"
  using mod_less_divisor [of 64 v] mod_less_divisor [of 64 "v div 64"] mod_less_divisor [of 64 "v div 4096"]
  by (auto simp: utf8_bytes_def less_mult_imp_div_less split: if_splits)

lemma hex_unit_word: "d < 16 \<Longrightarrow> js_word (hex_unit d)"
  by (auto simp: hex_unit_def js_word_def js_digit_def)

lemma escape_point_chars:
  assumes "v \<le> 1114111" and "c \<in> set (escape_point v)"
  shows "c = 37 \<or> js_word c"
proof -
  obtain b where b: "b \<in> set (utf8_bytes v)" "c \<in> set (percent_escape b)"
    using assms(2) by (auto simp: escape_point_def)
  with utf8_bytes_bound [OF assms(1) b(1)] show ?thesis
    by (auto simp: percent_escape_def hex_unit_word less_mult_imp_div_less)
qed

lemma encoded_chars:
  assumes "encodeURIComponent t = Inr u" and "\<forall>c \<in> set t. c < 65536" and "c \<in> set u"
  shows "c = 37 \<or> unescaped c"
  using assms
proof (induction t arbitrary: u rule: encodeURIComponent.induct)
  case (2 d ds)
  have point: "c = 37 \<or> unescaped c" if "c \<in> set (escape_point v)" "v \<le> 1114111" for v
    using escape_point_chars [OF that(2,1)] by (auto simp: unescaped_def)
  from "2.prems" show ?case
    using "2.IH" point by (fastforce simp: bind_result_Inr high_surrogate_def low_surrogate_def split: if_splits list.splits)
qed simp

end
