(* ===== verification/GithubButtons.thy ===== *)
theory GithubButtons
  imports UriComponent "HOL-Library.AList" "HOL-Library.Multiset"
begin

text \<open>
  The script \<open>docs/workshop/static/js/buttons.js\<close>, which turns the anchors \<open>a.github-button\<close> of the
  workshop's pages into buttons: the option parser and printer (\<open>s\<close> and the function that names the
  frame), the colour schemes, the icons, the cache of API requests (\<open>M\<close>), what a button shows (\<open>F\<close>) and
  the options of an anchor (\<open>G\<close>).  A text is a list of UTF-16 code units; an option that is \<open>null\<close> or
  \<open>undefined\<close> is \<open>None\<close>.  The texts of the style sheets and of the icons are named by constructors and
  not spelled out; laying out the frame (\<open>L\<close>, \<open>E\<close>) and the branches for browsers without
  \<open>addEventListener\<close> and cross-origin requests are left out.
\<close>

type_synonym options = "(js_text \<times> js_text option) list"

definition option_of :: "options \<Rightarrow> string \<Rightarrow> js_text option" where
  "option_of t k = (case map_of t (units k) of None \<Rightarrow> None | Some v \<Rightarrow> v)"

section \<open>Options as text\<close>

fun split_units :: "nat \<Rightarrow> js_text \<Rightarrow> js_text list" where
  "split_units c [] = [[]]"
| "split_units c (x # xs) =
     (if x = c then [] # split_units c xs
      else (case split_units c xs of [] \<Rightarrow> [[x]] | y # ys \<Rightarrow> (x # y) # ys))"

text \<open>One piece: the key, and what follows the first separator, if there is one.\<close>

definition parse_piece :: "nat \<Rightarrow> (js_text \<Rightarrow> js_error + js_text) \<Rightarrow> js_text \<Rightarrow> js_error + (js_text \<times> js_text option)" where
  "parse_piece eq dec c =
     (let key = takeWhile (\<lambda>x. x \<noteq> eq) c; rest = dropWhile (\<lambda>x. x \<noteq> eq) c in
      case rest of
        [] \<Rightarrow> bind_result (dec key) (\<lambda>k. Inr (k, None))
      | _ # v \<Rightarrow> bind_result (dec key) (\<lambda>k. bind_result (dec v) (\<lambda>v'. Inr (k, Some v'))))"

fun parse_pieces :: "nat \<Rightarrow> (js_text \<Rightarrow> js_error + js_text) \<Rightarrow> js_text list \<Rightarrow> options \<Rightarrow> js_error + options" where
  "parse_pieces eq dec [] a = Inr a"
| "parse_pieces eq dec (c # cs) a =
     (if c = [] then parse_pieces eq dec cs a
      else bind_result (parse_piece eq dec c) (\<lambda>(k, v). parse_pieces eq dec cs (AList.update k v a)))"

text \<open>\<open>s(e, t, o, r)\<close>.\<close>

definition parse_options :: "nat \<Rightarrow> nat \<Rightarrow> (js_text \<Rightarrow> js_error + js_text) \<Rightarrow> js_text \<Rightarrow> js_error + options" where
  "parse_options sep eq dec e = parse_pieces eq dec (split_units sep e) []"

definition frame_options :: "js_text \<Rightarrow> js_error + options" where
  "frame_options e = parse_options 38 61 decodeURIComponent e"

text \<open>The function that names the frame: options without a value are left out.\<close>

fun print_pieces :: "options \<Rightarrow> js_error + js_text list" where
  "print_pieces [] = Inr []"
| "print_pieces ((k, v) # t) = (case v of
      None \<Rightarrow> print_pieces t
    | Some i \<Rightarrow> bind_result (encodeURIComponent k) (\<lambda>k'. bind_result (encodeURIComponent i) (\<lambda>i'.
        bind_result (print_pieces t) (\<lambda>ps. Inr ((k' @ [61] @ i') # ps)))))"

fun join_units :: "nat \<Rightarrow> js_text list \<Rightarrow> js_text" where
  "join_units c [] = []"
| "join_units c [x] = x"
| "join_units c (x # y # ys) = x @ c # join_units c (y # ys)"

definition frame_name :: "options \<Rightarrow> js_error + js_text" where
  "frame_name t = bind_result (print_pieces t) (\<lambda>ps. Inr (join_units 38 ps))"

section \<open>Icons and colours\<close>

text \<open>
  \<open>(""+e).toLowerCase()\<close>, as far as the script compares the result with ASCII words: of the other
  letters, only the Kelvin sign becomes ASCII.
\<close>

definition lower_unit :: "nat \<Rightarrow> nat" where
  "lower_unit n = (if 65 \<le> n \<and> n \<le> 90 then n + 32 else if n = 8490 then 107 else n)"

definition lower :: "js_text option \<Rightarrow> js_text" where
  "lower e = (case e of None \<Rightarrow> units ''null'' | Some t \<Rightarrow> map lower_unit t)"

definition icon_names :: "js_text list" where
  "icon_names = map units [''comment-discussion'', ''download'', ''eye'', ''heart'', ''issue-opened'', ''mark-github'',
     ''package'', ''play'', ''repo-forked'', ''repo-template'', ''star'']"

text \<open>\<open>y(e, t)\<close>: the icon's name; every icon has the one drawing of size 16, so its width is \<open>t\<close>.\<close>

definition octicon :: "js_text option \<Rightarrow> js_text" where
  "octicon e =
     (let n = lower e; name = (if starts (units ''octicon-'') n then drop 8 n else n)
      in if name \<in> set icon_names then name else units ''mark-github'')"

datatype scheme = Light | Dark | DarkDimmed

definition scheme_named :: "js_text option \<Rightarrow> scheme option" where
  "scheme_named e =
     (if e = Some (units ''light'') then Some Light else if e = Some (units ''dark'') then Some Dark
      else if e = Some (units ''dark_dimmed'') then Some DarkDimmed else None)"

datatype css_part = Plain scheme | PrefersLight scheme | PrefersDark scheme

definition css_trim :: "js_text \<Rightarrow> js_error + js_text" where
  "css_trim e = (let sp = (\<lambda>c. c \<in> {32, 9, 10, 12, 13}) in Inr (rev (dropWhile sp (rev (dropWhile sp e)))))"

definition or_else :: "scheme option \<Rightarrow> scheme \<Rightarrow> scheme" where
  "or_else s d = (case s of None \<Rightarrow> d | Some x \<Rightarrow> x)"

definition colour_scheme :: "js_text option \<Rightarrow> css_part list" where
  "colour_scheme e = (case e of
      None \<Rightarrow> [Plain Light]
    | Some t \<Rightarrow> (case scheme_named e of
          Some s \<Rightarrow> [Plain s]
        | None \<Rightarrow> (case parse_options 59 58 css_trim t of
              Inl _ \<Rightarrow> [] \<comment> \<open>\<open>css_trim\<close> does not fail\<close>
            | Inr opts \<Rightarrow> [Plain (or_else (scheme_named (option_of opts ''no-preference'')) Light),
                PrefersLight (or_else (scheme_named (option_of opts ''light'')) Light),
                PrefersDark (or_else (scheme_named (option_of opts ''dark'')) Dark)])))"

section \<open>What a button shows\<close>

text \<open>\<open>h.replace(/\.$/,"")\<close> and the test of the host with \<open>substring\<close>, whose negative start counts as 0.\<close>

definition strip_dot :: "js_text \<Rightarrow> js_text" where
  "strip_dot h = (if h \<noteq> [] \<and> last h = 46 then butlast h else h)"

definition js_substring :: "int \<Rightarrow> js_text \<Rightarrow> js_text" where
  "js_substring i t = drop (nat i) t"

definition github :: js_text where
  "github = units ''github.com''"

definition github_host :: "js_text \<Rightarrow> bool" where
  "github_host h \<longleftrightarrow> js_substring (int (length h) - int (length github)) (46 # h) = 46 # github"

text \<open>\<open>split(/\/+/)\<close>: a run of slashes separates; the parts of a path that are missing are \<open>None\<close>.\<close>

fun split_slashes :: "js_text \<Rightarrow> js_text list" where
  "split_slashes [] = [[]]"
| "split_slashes (x # xs) =
     (if x = 47 then (if starts [47] xs then split_slashes xs else [] # split_slashes xs)
      else (case split_slashes xs of [] \<Rightarrow> [[x]] | y # ys \<Rightarrow> (x # y) # ys))"

definition path_parts :: "js_text \<Rightarrow> js_text list" where
  "path_parts pathname = split_slashes (32 # 47 # pathname)"

definition part :: "js_text list \<Rightarrow> nat \<Rightarrow> js_text option" where
  "part u i = (if i < length u then Some (u ! i) else None)"

definition given :: "js_text option \<Rightarrow> bool" where
  "given v \<longleftrightarrow> v \<noteq> None \<and> v \<noteq> Some []"

definition opens_in_place :: "js_text \<Rightarrow> js_text list \<Rightarrow> bool" where
  "opens_in_place h u \<longleftrightarrow>
     (h = github \<or> h = units ''gist.'' @ github) \<and> part u 3 = Some (units ''archive'') \<or>
     h = github \<and> part u 3 = Some (units ''releases'') \<and>
       (part u 4 = Some (units ''download'') \<or>
        part u 4 = Some (units ''latest'') \<and> part u 5 = Some (units ''download'')) \<or>
     h = units ''codeload.'' @ github"

text \<open>The field of the API's answer and the suffix of the link, for the path of a user or a repository.\<close>

datatype count_field = Followers | Stargazers | Subscribers | Forks | OpenIssues

definition count_kind :: "js_text list \<Rightarrow> (count_field \<times> js_text) option" where
  "count_kind u =
     (if \<not> given (part u 2) \<and> given (part u 1) then Some (Followers, units ''?tab=followers'')
      else if \<not> given (part u 3) \<and> given (part u 2) then Some (Stargazers, units ''/stargazers'')
      else if given (part u 4) \<or> part u 3 \<noteq> Some (units ''subscription'') then
        (if given (part u 4) \<or> part u 3 \<noteq> Some (units ''fork'') then
           (if part u 3 \<noteq> Some (units ''issues'') then None
            else Some (OpenIssues, units ''/issues''))
         else Some (Forks, units ''/network/members''))
      else Some (Subscribers, units ''/watchers''))"

definition no_count_names :: "js_text list" where
  "no_count_names = map units [''marketplace'', ''sponsors'', ''orgs'', ''users'', ''-'']"

definition part_text :: "js_text list \<Rightarrow> nat \<Rightarrow> js_text" where
  "part_text u i = (case part u i of None \<Rightarrow> units ''undefined'' | Some t \<Rightarrow> t)"

definition api_path :: "js_text list \<Rightarrow> js_text" where
  "api_path u = units ''https://api.github.com'' @
     (if given (part u 2) then units ''/repos/'' @ part_text u 1 @ 47 # part_text u 2
      else units ''/users/'' @ part_text u 1)"

definition count_request :: "js_text option \<Rightarrow> js_text \<Rightarrow> js_text list \<Rightarrow> (js_text \<times> count_field \<times> js_text) option" where
  "count_request show_count h u =
     (if lower show_count = units ''true'' \<and> h = github \<and>
         (case part u 1 of None \<Rightarrow> True | Some n \<Rightarrow> n \<notin> set no_count_names)
      then (case count_kind u of None \<Rightarrow> None | Some (f, g) \<Rightarrow> Some (api_path u, f, g)) else None)"

text \<open>The button that \<open>F\<close> builds, given how the browser reads the link's host and path.\<close>

record button =
  css :: "css_part list"
  large :: bool
  icon :: js_text
  label_text :: js_text
  title_text :: "js_text option"
  aria_label :: "js_text option"
  href :: "js_text option"
  in_place :: bool
  counts :: "(js_text \<times> count_field \<times> js_text) option"

definition non_empty :: "js_text option \<Rightarrow> js_text option" where
  "non_empty v = (if given v then v else None)"

definition make_button :: "(js_text option \<Rightarrow> js_text \<times> js_text) \<Rightarrow> options \<Rightarrow> button" where
  "make_button url t =
     (let (hostname, pathname) = url (option_of t ''href'');
          h = strip_dot hostname;
          u = path_parts pathname;
          ok = github_host h
      in \<lparr>css = colour_scheme (option_of t ''data-color-scheme''),
          large = (lower (option_of t ''data-size'') = units ''large''),
          icon = octicon (option_of t ''data-icon''),
          label_text = (case option_of t ''data-text'' of None \<Rightarrow> [] | Some x \<Rightarrow> x),
          title_text = non_empty (option_of t ''title''),
          aria_label = non_empty (option_of t ''aria-label''),
          href = (if ok then option_of t ''href'' else None),
          in_place = (ok \<and> opens_in_place h u),
          counts = (if ok then count_request (option_of t ''data-show-count'') h u else None)\<rparr>)"

text \<open>The count beside the button: \<open>(""+a).replace(/\B(?=(\d{3})+(?!\d))/g, ",")\<close> and its label.\<close>

fun group_digits :: "string \<Rightarrow> string" where
  "group_digits [] = []"
| "group_digits [d] = [d]"
| "group_digits (d # e # ds) =
     (if 3 dvd Suc (length ds) then d # CHR '','' # group_digits (e # ds) else d # group_digits (e # ds))"

definition count_text :: "nat \<Rightarrow> string" where
  "count_text a = group_digits (str_of_nat a)"

fun field_noun :: "count_field \<Rightarrow> string" where
  "field_noun Followers = ''followers''"
| "field_noun Stargazers = ''stargazers''"
| "field_noun Subscribers = ''subscribers''"
| "field_noun Forks = ''forks''"
| "field_noun OpenIssues = ''open issues''"

definition count_label :: "count_field \<Rightarrow> nat \<Rightarrow> string" where
  "count_label f a = str_of_nat a @ '' '' @ (if a < 2 then butlast (field_noun f) else field_noun f) @ '' on GitHub''"

text \<open>The options of an anchor: \<open>G\<close> takes the text of the anchor where \<open>data-text\<close> is missing.\<close>

record anchor =
  anchor_href :: js_text
  anchor_title :: js_text
  attribute :: "js_text \<Rightarrow> js_text option"
  text_content :: js_text

definition anchor_options :: "anchor \<Rightarrow> options" where
  "anchor_options e =
     (let attr = (\<lambda>n. (units n, attribute e (units n))) in
      [(units ''href'', Some (anchor_href e)), (units ''title'', Some (anchor_title e)), attr ''aria-label'',
       attr ''data-icon'', attr ''data-color-scheme'',
       (units ''data-text'', case attribute e (units ''data-text'') of None \<Rightarrow> Some (text_content e) | Some x \<Rightarrow> Some x),
       attr ''data-size'', attr ''data-show-count''])"

section \<open>Properties\<close>

lemma split_units_piece:
  "c \<notin> set x \<Longrightarrow> split_units c x = [x]" "c \<notin> set x \<Longrightarrow> split_units c (x @ c # y) = x # split_units c y"
  by (induction x) auto

lemma split_join:
  assumes "xs \<noteq> []" and "\<forall>x \<in> set xs. c \<notin> set x"
  shows "split_units c (join_units c xs) = xs"
  using assms by (induction c xs rule: join_units.induct) (simp_all add: split_units_piece)

lemma parse_piece_pair:
  "eq \<notin> set k \<Longrightarrow> parse_piece eq dec (k @ eq # v) =
    bind_result (dec k) (\<lambda>k'. bind_result (dec v) (\<lambda>v'. Inr (k', Some v')))"
proof -
  assume "eq \<notin> set k"
  then have "takeWhile (\<lambda>x. x \<noteq> eq) (k @ eq # v) = k" "dropWhile (\<lambda>x. x \<noteq> eq) (k @ eq # v) = eq # v"
    by (induction k) auto
  then show ?thesis by (simp add: parse_piece_def Let_def)
qed

definition texts_ok :: "options \<Rightarrow> bool" where
  "texts_ok t \<longleftrightarrow> (\<forall>(k, v) \<in> set t. (\<forall>c \<in> set k. c < 65536) \<and> (\<forall>i. v = Some i \<longrightarrow> (\<forall>c \<in> set i. c < 65536)))"

lemma print_pieces_ok:
  assumes "print_pieces t = Inr ps" and "texts_ok t"
  shows "\<forall>p \<in> set ps. 38 \<notin> set p \<and> p \<noteq> []"
    and "parse_pieces 61 decodeURIComponent ps a
      = Inr (fold (\<lambda>(k, v). AList.update k v) (filter (\<lambda>(k, v). v \<noteq> None) t) a)"
proof -
  have "(\<forall>p \<in> set ps. 38 \<notin> set p \<and> p \<noteq> []) \<and> (\<forall>a. parse_pieces 61 decodeURIComponent ps a
      = Inr (fold (\<lambda>(k, v). AList.update k v) (filter (\<lambda>(k, v). v \<noteq> None) t) a))"
    using assms
  proof (induction t arbitrary: ps)
    case (Cons e t)
    obtain k v where e: "e = (k, v)" by fastforce
    have t: "texts_ok t" "\<forall>c \<in> set k. c < 65536" "\<And>i. v = Some i \<Longrightarrow> \<forall>c \<in> set i. c < 65536"
      using Cons.prems(2) by (auto simp: texts_ok_def e)
    show ?case
    proof (cases v)
      case None
      with Cons t(1) e show ?thesis by simp
    next
      case (Some i)
      then obtain k' i' qs where enc: "encodeURIComponent k = Inr k'" "encodeURIComponent i = Inr i'"
          "print_pieces t = Inr qs" and ps: "ps = (k' @ [61] @ i') # qs"
        using Cons.prems(1) by (auto simp: e bind_result_Inr)
      have marks: "\<not> unescaped 38 \<and> \<not> unescaped 61"
        by (simp add: unescaped_def js_word_def js_digit_def)
      have k': "38 \<notin> set k'" "61 \<notin> set k'" using encoded_chars [OF enc(1) t(2)] marks by fastforce+
      have i': "38 \<notin> set i'" using encoded_chars [OF enc(2) t(3) [OF Some]] marks by fastforce
      have "parse_piece 61 decodeURIComponent (k' @ 61 # i') = Inr (k, Some i)"
        using decodeURIComponent_encode [OF enc(1) t(2)] decodeURIComponent_encode [OF enc(2) t(3) [OF Some]]
        by (simp add: parse_piece_pair [OF k'(2)])
      with Cons.IH [OF enc(3) t(1)] k'(1) i' show ?thesis by (simp add: ps e Some)
    qed
  qed simp
  then show "\<forall>p \<in> set ps. 38 \<notin> set p \<and> p \<noteq> []"
    "parse_pieces 61 decodeURIComponent ps a
      = Inr (fold (\<lambda>(k, v). AList.update k v) (filter (\<lambda>(k, v). v \<noteq> None) t) a)" by auto
qed

lemma update_new: "k \<notin> fst ` set d \<Longrightarrow> AList.update k v d = d @ [(k, v)]"
  by (induction d) auto

lemma fold_update_new:
  "distinct (map fst d @ map fst t) \<Longrightarrow> fold (\<lambda>(k, v). AList.update k v) t d = d @ t"
proof (induction t arbitrary: d)
  case (Cons e t)
  obtain k v where "e = (k, v)" by fastforce
  with Cons show ?case by (simp add: update_new)
qed simp

text \<open>
  C36. The options survive the way into the frame: what the page prints into the frame's name, the script
  in the frame reads back, in the same order, but for the options without a value, which are left out.
  Keys and values may have any character, the separators included.
\<close>

theorem frame_options_round_trip:
  assumes "frame_name t = Inr e" and "distinct (map fst t)" and "texts_ok t"
  shows "frame_options e = Inr (filter (\<lambda>(k, v). v \<noteq> None) t)"
proof -
  obtain ps where ps: "print_pieces t = Inr ps" "e = join_units 38 ps"
    using assms(1) by (auto simp: frame_name_def bind_result_Inr)
  note ok = print_pieces_ok [OF ps(1) assms(3)]
  have "split_units 38 e = (if ps = [] then [[]] else ps)"
    using ok(1) by (auto simp: ps(2) split_join)
  then have "frame_options e = parse_pieces 61 decodeURIComponent ps []"
    by (simp add: frame_options_def parse_options_def)
  also have "\<dots> = Inr (filter (\<lambda>(k, v). v \<noteq> None) t)"
    unfolding ok(2) using fold_update_new [of "[]" "filter (\<lambda>(k, v). v \<noteq> None) t"]
      distinct_map_filter [OF assms(2)] by simp
  finally show ?thesis .
qed

theorem frame_options_round_trip_witness:
  "frame_options (units ''a%26=%3D8'') = Inr [(units ''a&'', Some (units ''=8''))]"
proof -
  have "frame_name [(units ''a&'', Some (units ''=8'')), (units ''b'', None)] = Inr (units ''a%26=%3D8'')"
    by (simp add: frame_name_def units_def unescaped_def js_word_def js_digit_def escape_point_def
        utf8_bytes_def percent_escape_def hex_unit_def low_surrogate_def high_surrogate_def)
  from frame_options_round_trip [OF this] show ?thesis by (simp add: texts_ok_def units_def)
qed

lemma nat_diff: "nat (int a - int b) = a - b"
  by arith

text \<open>
  The host test admits \<open>github.com\<close> and the names below it, and no other host: a host that only
  ends with the same letters, as \<open>notgithub.com\<close>, is refused, and so is any shorter one.
\<close>

theorem github_host_exact: "github_host h \<longleftrightarrow> h = github \<or> (\<exists>p. h = p @ 46 # github)"
proof
  assume "github_host h"
  then have eq: "drop (length h - length github) (46 # h) = 46 # github"
    by (simp add: github_host_def js_substring_def nat_diff)
  show "h = github \<or> (\<exists>p. h = p @ 46 # github)"
  proof (cases "length h - length github")
    case 0
    with eq show ?thesis by simp
  next
    case (Suc n)
    with eq have "drop n h = 46 # github" by simp
    then have "h = take n h @ 46 # github" by (metis append_take_drop_id)
    then show ?thesis by blast
  qed
next
  assume "h = github \<or> (\<exists>p. h = p @ 46 # github)"
  then show "github_host h"
    by (auto simp: github_host_def js_substring_def nat_diff)
qed

lemma group_digits_parts:
  assumes "ds \<noteq> []" and "CHR '','' \<notin> set ds"
  shows "\<exists>g gs. split_on (CHR '','') (group_digits ds) = g # gs \<and> length g = (length ds - 1) mod 3 + 1 \<and>
    (\<forall>x \<in> set gs. length x = 3) \<and> g @ concat gs = ds"
  using assms
proof (induction ds rule: group_digits.induct)
  case (3 d e ds)
  show ?case
  proof (cases "3 dvd Suc (length ds)")
    case True
    with 3 obtain g gs where g: "split_on (CHR '','') (group_digits (e # ds)) = g # gs"
        "length g = length ds mod 3 + 1" "\<forall>x \<in> set gs. length x = 3" "g @ concat gs = e # ds" by auto
    have "length g = 3" using g(2) True by presburger
    moreover have "Suc (length ds) mod 3 = 0" using True by presburger
    ultimately show ?thesis using True g 3(4) by auto
  next
    case False
    with 3 obtain g gs where g: "split_on (CHR '','') (group_digits (e # ds)) = g # gs"
        "length g = length ds mod 3 + 1" "\<forall>x \<in> set gs. length x = 3" "g @ concat gs = e # ds" by auto
    have "Suc (length ds) mod 3 = length ds mod 3 + 1" using False by presburger
    with False g 3(4) show ?thesis by auto
  qed
qed simp_all

text \<open>
  The count is shown with its digits in groups of three, counted from the right: the first group has
  one to three digits, every other one three, and together they are the number.
\<close>

theorem count_text_groups:
  "\<exists>g gs. split_on (CHR '','') (count_text a) = g # gs \<and> 0 < length g \<and> length g \<le> 3 \<and>
    list_all (\<lambda>x. length x = 3) gs \<and> nat_of_str (g @ concat gs) = a"
proof -
  have "CHR '','' \<notin> set (str_of_nat a)"
    using str_of_nat_digits [of a] by (auto simp: is_digit_def)
  from group_digits_parts [OF str_of_nat_nonempty this] obtain g gs where
    g: "split_on (CHR '','') (count_text a) = g # gs" "length g = (length (str_of_nat a) - 1) mod 3 + 1"
      "\<forall>x \<in> set gs. length x = 3" "g @ concat gs = str_of_nat a"
    unfolding count_text_def by blast
  have "length g \<le> 3" "0 < length g"
    using g(2) mod_less_divisor [of 3 "length (str_of_nat a) - 1"] by linarith+
  moreover have "nat_of_str (g @ concat gs) = a" unfolding g(4) by simp
  ultimately show ?thesis using g(1,3) by (auto simp: list_all_iff)
qed

lemma split_slashes_part:
  "47 \<notin> set x \<Longrightarrow> split_slashes x = [x]"
  "47 \<notin> set x \<Longrightarrow> \<not> starts [47] y \<Longrightarrow> split_slashes (x @ 47 # y) = x # split_slashes y"
  by (induction x) auto

lemma not_slash: "47 \<notin> set x \<Longrightarrow> x \<noteq> [] \<Longrightarrow> \<not> starts [47] x" "47 \<notin> set x \<Longrightarrow> x \<noteq> [] \<Longrightarrow> \<not> starts [47] (x @ y)"
  by (cases x; simp)+

text \<open>
  The count that a button asks for follows the path of its link on \<open>github.com\<close>: the followers of a
  user, the stars of a repository, and on a page of a repository its watchers, forks or open issues; no
  other page of a repository has a count, and the pages of \<open>github.com\<close> itself have none either.
\<close>

theorem count_request_by_path:
  assumes "47 \<notin> set user" and "user \<noteq> []" and "47 \<notin> set repo" and "repo \<noteq> []" and "47 \<notin> set page"
    and "page \<noteq> []" and on: "lower show = units ''true''"
  shows "count_request show github (path_parts (47 # user)) =
      (if user \<in> set no_count_names then None
       else Some (units ''https://api.github.com/users/'' @ user, Followers, units ''?tab=followers'')) \<and>
    count_request show github (path_parts (47 # user @ 47 # repo)) =
      (if user \<in> set no_count_names then None
       else Some (units ''https://api.github.com/repos/'' @ user @ 47 # repo, Stargazers, units ''/stargazers'')) \<and>
    count_request show github (path_parts (47 # user @ 47 # repo @ 47 # page)) =
      (if user \<in> set no_count_names then None
       else map_option (\<lambda>(f, g). (units ''https://api.github.com/repos/'' @ user @ 47 # repo, f, g))
        (if page = units ''subscription'' then Some (Subscribers, units ''/watchers'')
         else if page = units ''fork'' then Some (Forks, units ''/network/members'')
         else if page = units ''issues'' then Some (OpenIssues, units ''/issues'') else None)) \<and>
    (h \<noteq> github \<longrightarrow> count_request show h u = None)"
proof -
  have first: "path_parts (47 # user @ y) = [32] # split_slashes (user @ y)" for y
    using split_slashes_part(2) [of "[32]" "47 # user @ y"] not_slash(2) [OF assms(1,2), of y]
    by (simp add: path_parts_def)
  note parts = first [of "[]"] first [of "47 # repo"] first [of "47 # repo @ 47 # page"]
  have split: "split_slashes user = [user]" "split_slashes (user @ 47 # repo) = [user, repo]"
    "split_slashes (user @ 47 # repo @ 47 # page) = [user, repo, page]"
    using assms by (simp_all add: split_slashes_part not_slash)
  have prefix: "units ''https://api.github.com'' @ units ''/users/'' @ x = units ''https://api.github.com/users/'' @ x"
    "units ''https://api.github.com'' @ units ''/repos/'' @ x = units ''https://api.github.com/repos/'' @ x" for x
    by (simp_all add: units_def)
  have "units ''subscription'' \<noteq> units ''fork''" "units ''issues'' \<noteq> units ''fork''"
    "units ''subscription'' \<noteq> units ''issues''" by (simp_all add: units_def)
  then show ?thesis using parts split assms
    by (auto simp: count_request_def count_kind_def part_def given_def api_path_def part_text_def prefix
        numeral_2_eq_2 numeral_3_eq_3)
qed

theorem count_request_by_path_witness:
  "count_request (Some (units ''TRUE'')) github (path_parts (units ''/ntkme/github-buttons'')) =
    Some (units ''https://api.github.com/repos/ntkme/github-buttons'', Stargazers, units ''/stargazers'')"
  using count_request_by_path [of "units ''ntkme''" "units ''github-buttons''" "units ''x''" "Some (units ''TRUE'')"]
  by (simp add: units_def lower_def lower_unit_def no_count_names_def)

end
