(* ===== verification/ButtonRequests.thy ===== *)
theory ButtonRequests
  imports GithubButtons
begin

text \<open>
  The requests for counts of \<open>docs/workshop/static/js/buttons.js\<close> (the function \<open>M\<close> and the cache \<open>C\<close>, with
  the wrapper \<open>v\<close> that lets a function run once): buttons that ask for one address share a request, and
  its end calls them all.  The arrays of callbacks are objects that the cache and the request share, so
  they are numbered.  The script's events, in any order, are the relation \<open>fetcher_run\<close>; callbacks do
  not ask again themselves.
\<close>

section \<open>The cache and its requests\<close>

datatype reply = Reply bool "js_text option" \<comment> \<open>the error flag and the data\<close>

record request =
  req_url :: js_text
  req_array :: nat
  fired :: bool

record fetcher =
  cache :: "js_text \<rightharpoonup> nat"
  arrays :: "nat list list"
  requests :: "request list"
  calls :: "(js_text \<times> nat \<times> reply) list"

definition no_fetcher :: fetcher where
  "no_fetcher = \<lparr>cache = Map.empty, arrays = [], requests = [], calls = []\<rparr>"

text \<open>\<open>C[e]||(C[e]=[])\<close>.\<close>

definition cached_array :: "js_text \<Rightarrow> fetcher \<Rightarrow> nat \<times> fetcher" where
  "cached_array url s = (case cache s url of
      Some i \<Rightarrow> (i, s)
    | None \<Rightarrow> (length (arrays s),
        s\<lparr>cache := (cache s)(url \<mapsto> length (arrays s)), arrays := arrays s @ [[]]\<rparr>))"

definition fetch :: "js_text \<Rightarrow> nat \<Rightarrow> fetcher \<Rightarrow> fetcher" where
  "fetch url callback s =
     (let (i, s1) = cached_array url s;
          q = arrays s1 ! i @ [callback];
          s2 = s1\<lparr>arrays := (arrays s1)[i := q]\<rparr>
      in if length q > 1 then s2
         else s2\<lparr>requests := requests s2 @ [\<lparr>req_url = url, req_array = i, fired = False\<rparr>]\<rparr>)"

text \<open>The function \<open>r\<close> of a request, which runs at its first event only.\<close>

definition settle :: "nat \<Rightarrow> reply \<Rightarrow> fetcher \<Rightarrow> fetcher" where
  "settle r reply s =
     (let q = requests s ! r in
      if r < length (requests s) \<and> \<not> fired q
      then s\<lparr>cache := (cache s)(req_url q := None), arrays := (arrays s)[req_array q := []],
             requests := (requests s)[r := q\<lparr>fired := True\<rparr>],
             calls := calls s @ map (\<lambda>c. (req_url q, c, reply)) (arrays s ! req_array q)\<rparr>
      else s)"

text \<open>The events of a request: \<open>abort\<close> and \<open>error\<close>, and \<open>load\<close> with a body that \<open>JSON.parse\<close> may refuse.\<close>

datatype event = Aborted | Loaded nat "js_text"

definition reply_of :: "(js_text \<Rightarrow> js_text option) \<Rightarrow> event \<Rightarrow> reply" where
  "reply_of parse ev = (case ev of
      Aborted \<Rightarrow> Reply True None
    | Loaded status body \<Rightarrow> (case parse body of
          None \<Rightarrow> Reply True None
        | Some d \<Rightarrow> Reply (status \<noteq> 200) (Some d)))"

section \<open>Runs\<close>

inductive fetcher_run :: "(js_text \<Rightarrow> js_text option) \<Rightarrow> (js_text \<times> nat) list \<Rightarrow> fetcher \<Rightarrow> bool"
  for parse where
  run_start: "fetcher_run parse [] no_fetcher"
| run_fetch: "fetcher_run parse fs s \<Longrightarrow> fetcher_run parse (fs @ [(url, callback)]) (fetch url callback s)"
| run_event: "fetcher_run parse fs s \<Longrightarrow> fetcher_run parse fs (settle r (reply_of parse ev) s)"

text \<open>Each request has an array of its own; an open one is in the cache and has callbacks.\<close>

definition fetcher_ok :: "fetcher \<Rightarrow> bool" where
  "fetcher_ok s \<longleftrightarrow> length (arrays s) = length (requests s) \<and>
     (\<forall>r < length (requests s). let q = requests s ! r in req_array q = r \<and>
        (if fired q then arrays s ! r = [] else arrays s ! r \<noteq> [] \<and> cache s (req_url q) = Some r)) \<and>
     (\<forall>url i. cache s url = Some i \<longrightarrow>
        i < length (requests s) \<and> req_url (requests s ! i) = url \<and> \<not> fired (requests s ! i))"

lemma fetcher_okD:
  assumes "fetcher_ok s"
  shows "length (arrays s) = length (requests s)"
    and "r < length (requests s) \<Longrightarrow> req_array (requests s ! r) = r"
    and "r < length (requests s) \<Longrightarrow> fired (requests s ! r) \<Longrightarrow> arrays s ! r = []"
    and "r < length (requests s) \<Longrightarrow> \<not> fired (requests s ! r) \<Longrightarrow>
      arrays s ! r \<noteq> [] \<and> cache s (req_url (requests s ! r)) = Some r"
    and "cache s url = Some i \<Longrightarrow>
      i < length (requests s) \<and> req_url (requests s ! i) = url \<and> \<not> fired (requests s ! i)"
  using assms by (auto simp: fetcher_ok_def Let_def)

lemma fetcher_okI:
  assumes "length (arrays s) = length (requests s)"
    and "\<And>r. r < length (requests s) \<Longrightarrow> req_array (requests s ! r) = r"
    and "\<And>r. r < length (requests s) \<Longrightarrow> fired (requests s ! r) \<Longrightarrow> arrays s ! r = []"
    and "\<And>r. r < length (requests s) \<Longrightarrow> \<not> fired (requests s ! r) \<Longrightarrow>
      arrays s ! r \<noteq> [] \<and> cache s (req_url (requests s ! r)) = Some r"
    and "\<And>url i. cache s url = Some i \<Longrightarrow>
      i < length (requests s) \<and> req_url (requests s ! i) = url \<and> \<not> fired (requests s ! i)"
  shows "fetcher_ok s"
  using assms by (simp add: fetcher_ok_def Let_def)

definition waiting :: "fetcher \<Rightarrow> (js_text \<times> nat) multiset" where
  "waiting s = (\<Sum>r \<in> {..< length (requests s)}. mset (map (Pair (req_url (requests s ! r))) (arrays s ! r)))"

definition called :: "fetcher \<Rightarrow> (js_text \<times> nat) multiset" where
  "called s = mset (map (\<lambda>(u, c, _). (u, c)) (calls s))"

lemma fetch_cached:
  assumes "fetcher_ok s" and "cache s url = Some i"
  shows "fetch url callback s = s\<lparr>arrays := (arrays s)[i := arrays s ! i @ [callback]]\<rparr>"
  using assms by (auto simp: fetch_def cached_array_def fetcher_ok_def Let_def Suc_le_eq)

lemma fetch_new:
  assumes "cache s url = None"
  shows "fetch url callback s = s\<lparr>cache := (cache s)(url \<mapsto> length (arrays s)),
    arrays := arrays s @ [[callback]],
    requests := requests s @ [\<lparr>req_url = url, req_array = length (arrays s), fired = False\<rparr>]\<rparr>"
  using assms by (simp add: fetch_def cached_array_def Let_def)

lemma fetch_ok:
  assumes ok: "fetcher_ok s"
  shows "fetcher_ok (fetch url callback s)"
    and "called (fetch url callback s) + waiting (fetch url callback s)
      = called s + waiting s + {#(url, callback)#}"
proof -
  have both: "fetcher_ok (fetch url callback s) \<and>
      called (fetch url callback s) + waiting (fetch url callback s) = called s + waiting s + {#(url, callback)#}"
  proof (cases "cache s url")
    case (Some i)
    have i: "i < length (requests s)" "req_url (requests s ! i) = url" "length (arrays s) = length (requests s)"
      using ok Some by (auto simp: fetcher_ok_def)
    have "fetcher_ok (fetch url callback s)"
      using ok Some unfolding fetch_cached [OF ok Some]
      by (auto simp: fetcher_ok_def Let_def nth_list_update)
    moreover have "waiting (fetch url callback s) = waiting s + {#(url, callback)#}"
      using i unfolding fetch_cached [OF ok Some] waiting_def
      by (simp add: sum.remove [of _ i] add.assoc nth_list_update)
    ultimately show ?thesis by (simp add: fetch_cached [OF ok Some] called_def)
  next
    case None
    have len: "length (arrays s) = length (requests s)" using ok by (simp add: fetcher_ok_def)
    have "fetcher_ok (fetch url callback s)"
      using ok None unfolding fetch_new [OF None]
      by (auto simp: fetcher_ok_def Let_def nth_append less_Suc_eq)
    moreover have "waiting (fetch url callback s) = waiting s + {#(url, callback)#}"
      using len unfolding fetch_new [OF None] waiting_def
      by (simp add: nth_append)
    ultimately show ?thesis by (simp add: fetch_new [OF None] called_def)
  qed
  then show "fetcher_ok (fetch url callback s)"
    "called (fetch url callback s) + waiting (fetch url callback s) = called s + waiting s + {#(url, callback)#}"
    by auto
qed

lemma settle_ok:
  assumes ok: "fetcher_ok s"
  shows "fetcher_ok (settle r reply s)"
    and "called (settle r reply s) + waiting (settle r reply s) = called s + waiting s"
proof -
  have both: "fetcher_ok (settle r reply s) \<and>
      called (settle r reply s) + waiting (settle r reply s) = called s + waiting s"
  proof (cases "r < length (requests s) \<and> \<not> fired (requests s ! r)")
    case True
    define q where "q = requests s ! r"
    have q: "r < length (requests s)" "\<not> fired q" "req_array q = r" "cache s (req_url q) = Some r"
        "length (arrays s) = length (requests s)"
      using ok True by (auto simp: fetcher_ok_def q_def Let_def)
    have set: "settle r reply s = s\<lparr>cache := (cache s)(req_url q := None), arrays := (arrays s)[r := []],
             requests := (requests s)[r := q\<lparr>fired := True\<rparr>],
             calls := calls s @ map (\<lambda>c. (req_url q, c, reply)) (arrays s ! r)\<rparr>"
      using q by (simp add: settle_def Let_def q_def)
    have "fetcher_ok (settle r reply s)"
    proof (rule fetcher_okI)
      fix i assume i: "i < length (requests (settle r reply s))" "\<not> fired (requests (settle r reply s) ! i)"
      then have "i \<noteq> r" "i < length (requests s)" "\<not> fired (requests s ! i)"
        using q(1) by (auto simp: set nth_list_update split: if_splits)
      moreover from this have "req_url (requests s ! i) \<noteq> req_url q"
        using fetcher_okD(4) [OF ok, of i] q(4) by auto
      ultimately show "arrays (settle r reply s) ! i \<noteq> [] \<and>
          cache (settle r reply s) (req_url (requests (settle r reply s) ! i)) = Some i"
        using fetcher_okD(4) [OF ok, of i] by (simp add: set)
    next
      fix url i assume "cache (settle r reply s) url = Some i"
      then have "url \<noteq> req_url q" "cache s url = Some i" by (auto simp: set split: if_splits)
      moreover from this fetcher_okD(5) [OF ok this(2)] have "i \<noteq> r" by (auto simp: q_def)
      ultimately show "i < length (requests (settle r reply s)) \<and>
          req_url (requests (settle r reply s) ! i) = url \<and> \<not> fired (requests (settle r reply s) ! i)"
        using fetcher_okD(5) [OF ok, of url i] by (simp add: set)
    qed (use q fetcher_okD(2,3) [OF ok] in \<open>auto simp: set nth_list_update\<close>)
    moreover have "waiting s = waiting (settle r reply s) + mset (map (Pair (req_url q)) (arrays s ! r))"
      using q unfolding set waiting_def
      by (simp add: sum.remove [of _ r] nth_list_update q_def [symmetric])
    moreover have "called (settle r reply s) = called s + mset (map (Pair (req_url q)) (arrays s ! r))"
      unfolding set called_def by (simp add: comp_def)
    ultimately show ?thesis by (simp add: ac_simps)
  next
    case False
    then show ?thesis using ok by (auto simp: settle_def Let_def)
  qed
  then show "fetcher_ok (settle r reply s)"
    "called (settle r reply s) + waiting (settle r reply s) = called s + waiting s" by auto
qed

lemma fetcher_run_ok:
  assumes "fetcher_run parse fs s"
  shows "fetcher_ok s" and "called s + waiting s = mset fs"
proof -
  have "fetcher_ok s \<and> called s + waiting s = mset fs"
    using assms
  proof (induction rule: fetcher_run.induct)
    case run_start
    show ?case by (simp add: fetcher_ok_def no_fetcher_def called_def waiting_def)
  qed (simp_all add: fetch_ok settle_ok)
  then show "fetcher_ok s" "called s + waiting s = mset fs" by auto
qed

section \<open>Properties\<close>

text \<open>
  Buttons share requests: whatever the order of buttons and network events, there is at most one
  open request for an address, and every button that waits for it is in its array.
\<close>

theorem one_open_request:
  assumes "fetcher_run parse fs s" and "r < length (requests s)" and "r' < length (requests s)"
    and "\<not> fired (requests s ! r)" and "\<not> fired (requests s ! r')"
    and "req_url (requests s ! r) = req_url (requests s ! r')"
  shows "r = r'"
  using fetcher_okD(4) [OF fetcher_run_ok(1) [OF assms(1)] assms(2,4)]
    fetcher_okD(4) [OF fetcher_run_ok(1) [OF assms(1)] assms(3,5)] assms(6) by (metis option.inject)

text \<open>
  C37. No callback is lost and none is called twice: at any time, the callbacks that were called, each for
  the address it asked for, and those that still wait in the array of an open request are exactly those that were
  handed in; when every request has had an event, all of them have been called.
\<close>

theorem every_callback_once:
  assumes "fetcher_run parse fs s"
  shows "called s + waiting s = mset fs \<and> ((\<forall>q \<in> set (requests s). fired q) \<longrightarrow> called s = mset fs)"
proof -
  note ok = fetcher_run_ok [OF assms]
  have "waiting s = {#}" if "\<forall>q \<in> set (requests s). fired q"
    using ok(1) that by (auto simp: waiting_def fetcher_ok_def Let_def)
  with ok(2) show ?thesis by auto
qed

definition sample_fetcher :: fetcher where
  "sample_fetcher = fetch (units ''/users/a'') 2 (fetch (units ''/users/a'') 1 no_fetcher)"

lemma sample_fetcher_run:
  "fetcher_run (\<lambda>t. None) [(units ''/users/a'', 1), (units ''/users/a'', 2)] sample_fetcher"
  unfolding sample_fetcher_def
  using run_fetch [OF run_fetch [OF run_start]] by (metis append_Cons append_Nil)

lemma sample_fetcher_requests:
  "requests sample_fetcher = [\<lparr>req_url = units ''/users/a'', req_array = 0, fired = False\<rparr>]"
  by (simp add: sample_fetcher_def fetch_def cached_array_def no_fetcher_def)

theorem one_open_request_witness:
  "{r. r < length (requests sample_fetcher) \<and> \<not> fired (requests sample_fetcher ! r)} = {0}"
proof -
  have "r = 0" if "r < length (requests sample_fetcher)" "\<not> fired (requests sample_fetcher ! r)" for r
  proof (rule one_open_request [OF sample_fetcher_run that(1) _ that(2)])
    show "req_url (requests sample_fetcher ! r) = req_url (requests sample_fetcher ! 0)"
      using that(1) by (simp add: sample_fetcher_requests)
  qed (simp_all add: sample_fetcher_requests)
  then show ?thesis by (auto simp: sample_fetcher_requests)
qed

theorem every_callback_once_witness:
  "called (settle 0 (reply_of (\<lambda>t. None) Aborted) sample_fetcher)
    = {#(units ''/users/a'', 1), (units ''/users/a'', 2)#}"
proof -
  have "\<forall>q \<in> set (requests (settle 0 (reply_of (\<lambda>t. None) Aborted) sample_fetcher)). fired q"
    by (simp add: settle_def sample_fetcher_requests)
  with every_callback_once [OF run_event [OF sample_fetcher_run, of 0 Aborted]] show ?thesis
    by (simp add: add_mset_commute)
qed

end
