(* ===== verification/ButtonPage.thy ===== *)
theory ButtonPage
  imports ButtonRequests
begin

text \<open>
  A page with GitHub buttons, \<open>docs/workshop/static/js/buttons.js\<close>: when the script starts to look for links, and how each
  link is replaced by its button (\<open>v\<close>, \<open>g\<close>, \<open>G\<close>, the end of \<open>F\<close> and the last expression of the script), in browsers with
  \<open>addEventListener\<close> and a shadow DOM.  The browser's reading of links and the numbers in an answer are parameters; the links
  are those of the document when the script looks for them, and an answer of status 200 is an object.
\<close>

section \<open>The page\<close>

datatype ready_state = StillLoading | Interactive | LoadComplete

text \<open>The count beside a button, with its label; and a link that was replaced, by its position.\<close>

record placed =
  place :: nat
  placed_button :: button
  social_count :: "(string \<times> string) option"

record button_page =
  page_anchors :: "anchor list" \<comment> \<open>the links of class \<open>github-button\<close>\<close>
  timer :: bool
  dom_listener :: bool
  load_listener :: bool
  once_done :: bool \<comment> \<open>the variable of \<open>v\<close>\<close>
  fetching :: fetcher
  replaced :: "placed list"

definition new_page :: "anchor list \<Rightarrow> button_page" where
  "new_page anchors = \<lparr>page_anchors = anchors, timer = False, dom_listener = False, load_listener = False, once_done = False,
     fetching = no_fetcher, replaced = []\<rparr>"

text \<open>Where the script starts: at once in a timer, or at the first of two events.\<close>

definition schedule :: "ready_state \<Rightarrow> bool \<Rightarrow> button_page \<Rightarrow> button_page" where
  "schedule readyState doScroll p =
     (if readyState = LoadComplete \<or> readyState \<noteq> StillLoading \<and> \<not> doScroll then p\<lparr>timer := True\<rparr>
      else p\<lparr>dom_listener := True, load_listener := True\<rparr>)"

definition button_of :: "(js_text option \<Rightarrow> js_text \<times> js_text) \<Rightarrow> button_page \<Rightarrow> nat \<Rightarrow> button" where
  "button_of url p i = make_button url (anchor_options (page_anchors p ! i))"

text \<open>What the callback of a request adds to its button.\<close>

definition count_beside :: "(js_text \<Rightarrow> count_field \<Rightarrow> nat) \<Rightarrow> button \<Rightarrow> reply \<Rightarrow> (string \<times> string) option" where
  "count_beside number b reply = (case (counts b, reply) of
      (Some (path, f, g), Reply False (Some d)) \<Rightarrow> Some (count_text (number d f), count_label f (number d f))
    | _ \<Rightarrow> None)"

definition render_anchor :: "(js_text option \<Rightarrow> js_text \<times> js_text) \<Rightarrow> nat \<Rightarrow> button_page \<Rightarrow> button_page" where
  "render_anchor url i p = (case counts (button_of url p i) of
      None \<Rightarrow> p\<lparr>replaced := replaced p @ [\<lparr>place = i, placed_button = button_of url p i, social_count = None\<rparr>]\<rparr>
    | Some (path, f, g) \<Rightarrow> p\<lparr>fetching := fetch path i (fetching p)\<rparr>)"

definition render_anchors :: "(js_text option \<Rightarrow> js_text \<times> js_text) \<Rightarrow> button_page \<Rightarrow> button_page" where
  "render_anchors url p = fold (render_anchor url) [0..<length (page_anchors p)] p"

text \<open>A function that runs once, and listeners that remove themselves.\<close>

definition run_once :: "(js_text option \<Rightarrow> js_text \<times> js_text) \<Rightarrow> button_page \<Rightarrow> button_page" where
  "run_once url p = (if once_done p then p else render_anchors url (p\<lparr>once_done := True\<rparr>))"

definition on_dom_content_loaded :: "(js_text option \<Rightarrow> js_text \<times> js_text) \<Rightarrow> button_page \<Rightarrow> button_page" where
  "on_dom_content_loaded url p = (if dom_listener p then run_once url (p\<lparr>dom_listener := False\<rparr>) else p)"

definition on_load :: "(js_text option \<Rightarrow> js_text \<times> js_text) \<Rightarrow> button_page \<Rightarrow> button_page" where
  "on_load url p = (if load_listener p then run_once url (p\<lparr>load_listener := False\<rparr>) else p)"

definition on_timer :: "(js_text option \<Rightarrow> js_text \<times> js_text) \<Rightarrow> button_page \<Rightarrow> button_page" where
  "on_timer url p = (if timer p then render_anchors url (p\<lparr>timer := False\<rparr>) else p)"

text \<open>An event of a request: the callbacks it calls replace their links.\<close>

definition on_answer ::
  "(js_text option \<Rightarrow> js_text \<times> js_text) \<Rightarrow> (js_text \<Rightarrow> count_field \<Rightarrow> nat) \<Rightarrow> nat \<Rightarrow> reply \<Rightarrow> button_page \<Rightarrow> button_page" where
  "on_answer url number r reply p =
     (let s = settle r reply (fetching p) in
      p\<lparr>fetching := s, replaced := replaced p @ map (\<lambda>(path, i, a). \<lparr>place = i, placed_button = button_of url p i,
          social_count = count_beside number (button_of url p i) a\<rparr>) (drop (length (calls (fetching p))) (calls s))\<rparr>)"

text \<open>The runs of a page: events in any order.\<close>

inductive page_run ::
  "(js_text option \<Rightarrow> js_text \<times> js_text) \<Rightarrow> (js_text \<Rightarrow> js_text option) \<Rightarrow> (js_text \<Rightarrow> count_field \<Rightarrow> nat) \<Rightarrow> anchor list \<Rightarrow>
     button_page \<Rightarrow> bool"
  for url parse number anchors where
  page_start: "page_run url parse number anchors (schedule state doScroll (new_page anchors))"
| page_dom: "page_run url parse number anchors p \<Longrightarrow> page_run url parse number anchors (on_dom_content_loaded url p)"
| page_load: "page_run url parse number anchors p \<Longrightarrow> page_run url parse number anchors (on_load url p)"
| page_timer: "page_run url parse number anchors p \<Longrightarrow> page_run url parse number anchors (on_timer url p)"
| page_answer: "page_run url parse number anchors p \<Longrightarrow>
    page_run url parse number anchors (on_answer url number r (reply_of parse ev) p)"

section \<open>Every link is replaced once\<close>

definition begun :: "button_page \<Rightarrow> bool" where
  "begun p \<longleftrightarrow> once_done p \<or> \<not> (timer p \<or> dom_listener p \<or> load_listener p)"

definition places :: "button_page \<Rightarrow> nat multiset" where
  "places p = mset (map place (replaced p))"

definition pending :: "button_page \<Rightarrow> nat multiset" where
  "pending p = image_mset snd (waiting (fetching p))"

definition page_ok :: "(js_text option \<Rightarrow> js_text \<times> js_text) \<Rightarrow> anchor list \<Rightarrow> button_page \<Rightarrow> bool" where
  "page_ok url anchors p \<longleftrightarrow> page_anchors p = anchors \<and> fetcher_ok (fetching p) \<and>
     (timer p \<longrightarrow> \<not> once_done p \<and> \<not> dom_listener p) \<and> (\<not> once_done p \<longrightarrow> dom_listener p = load_listener p) \<and>
     places p + pending p = (if begun p then mset [0..<length anchors] else {#}) \<and>
     (\<forall>b \<in> set (replaced p). placed_button b = make_button url (anchor_options (anchors ! place b)))"

lemma fetch_waiting:
  assumes "fetcher_ok s"
  shows "waiting (fetch path i s) = add_mset (path, i) (waiting s)"
proof -
  have "called (fetch path i s) = called s" by (simp add: called_def fetch_def cached_array_def Let_def split: option.split)
  with fetch_ok(2) [OF assms, of path i] show ?thesis by simp
qed

lemma settle_calls:
  assumes "fetcher_ok s"
  shows "\<exists>new. calls (settle r reply s) = calls s @ new \<and> waiting s = waiting (settle r reply s) + mset (map (\<lambda>(u, c, _). (u, c)) new)"
proof -
  have "\<exists>new. calls (settle r reply s) = calls s @ new"
    by (cases "r < length (requests s) \<and> \<not> fired (requests s ! r)") (auto simp: settle_def Let_def)
  then obtain new where new: "calls (settle r reply s) = calls s @ new" by blast
  with settle_ok(2) [OF assms, of r reply] show ?thesis by (auto simp: called_def ac_simps)
qed

lemma render_ok:
  assumes "fetcher_ok (fetching p)"
  shows "fetcher_ok (fetching (render_anchor url i p))"
    and "places (render_anchor url i p) + pending (render_anchor url i p) = add_mset i (places p + pending p)"
    and "page_anchors (render_anchor url i p) = page_anchors p" "once_done (render_anchor url i p) = once_done p"
    "timer (render_anchor url i p) = timer p" "dom_listener (render_anchor url i p) = dom_listener p"
    "load_listener (render_anchor url i p) = load_listener p"
    and "set (replaced (render_anchor url i p)) \<subseteq>
      insert \<lparr>place = i, placed_button = button_of url p i, social_count = None\<rparr> (set (replaced p))"
  using assms fetch_ok(1) [OF assms]
  by (auto simp: render_anchor_def places_def pending_def fetch_waiting split: option.split)

lemma render_all:
  assumes "fetcher_ok (fetching p)"
  shows "fetcher_ok (fetching (fold (render_anchor url) is p)) \<and>
     places (fold (render_anchor url) is p) + pending (fold (render_anchor url) is p) = mset is + (places p + pending p) \<and>
     page_anchors (fold (render_anchor url) is p) = page_anchors p \<and> once_done (fold (render_anchor url) is p) = once_done p \<and>
     timer (fold (render_anchor url) is p) = timer p \<and> dom_listener (fold (render_anchor url) is p) = dom_listener p \<and>
     load_listener (fold (render_anchor url) is p) = load_listener p \<and>
     set (replaced (fold (render_anchor url) is p)) \<subseteq> set (replaced p) \<union>
       {b. placed_button b = make_button url (anchor_options (page_anchors p ! place b))}"
  using assms
proof (induction "is" arbitrary: p)
  case (Cons i js)
  note r = render_ok [OF Cons.prems, of url i]
  have "set (replaced (render_anchor url i p)) \<subseteq> set (replaced p) \<union>
      {b. placed_button b = make_button url (anchor_options (page_anchors p ! place b))}"
    using r(8) by (auto simp: button_of_def)
  with Cons.IH [OF r(1)] r show ?case by auto
qed auto

lemma begin_ok:
  assumes ok: "page_ok url anchors p" and "\<not> begun p" and "begun p'" and "timer p' \<longrightarrow> \<not> once_done p' \<and> \<not> dom_listener p'"
    and "\<not> once_done p' \<longrightarrow> dom_listener p' = load_listener p'"
    and "page_anchors p' = page_anchors p" "fetching p' = fetching p" "replaced p' = replaced p"
  shows "page_ok url anchors (render_anchors url p')"
proof -
  have p: "page_anchors p' = anchors" "fetcher_ok (fetching p')" "places p' + pending p' = {#}"
    "\<forall>b \<in> set (replaced p'). placed_button b = make_button url (anchor_options (anchors ! place b))"
    using assms by (auto simp: page_ok_def places_def pending_def)
  from render_all [OF p(2), of url "[0..<length anchors]"] assms(3-5) p
  show ?thesis unfolding render_anchors_def page_ok_def begun_def by auto
qed

lemma page_run_ok: "page_run url parse number anchors p \<Longrightarrow> page_ok url anchors p"
proof (induction rule: page_run.induct)
  case (page_start state doScroll)
  show ?case
    by (auto simp: page_ok_def schedule_def new_page_def begun_def places_def pending_def waiting_def fetcher_ok_def no_fetcher_def)
next
  case (page_dom p)
  then show ?case
    by (cases "dom_listener p"; cases "once_done p")
      (auto simp: on_dom_content_loaded_def run_once_def intro!: begin_ok [OF page_dom(2)],
        auto simp: page_ok_def begun_def places_def pending_def)
next
  case (page_load p)
  then show ?case
    by (cases "load_listener p"; cases "once_done p")
      (auto simp: on_load_def run_once_def intro!: begin_ok [OF page_load(2)],
        auto simp: page_ok_def begun_def places_def pending_def)
next
  case (page_timer p)
  then show ?case
    by (cases "timer p") (auto simp: on_timer_def intro!: begin_ok [OF page_timer(2)],
        auto simp: page_ok_def begun_def places_def pending_def)
next
  case (page_answer p r ev)
  then have ok: "fetcher_ok (fetching p)" by (simp add: page_ok_def)
  obtain new where new: "calls (settle r (reply_of parse ev) (fetching p)) = calls (fetching p) @ new"
    "waiting (fetching p) = waiting (settle r (reply_of parse ev) (fetching p)) + mset (map (\<lambda>(u, c, _). (u, c)) new)"
    using settle_calls [OF ok] by blast
  let ?p = "on_answer url number r (reply_of parse ev) p"
  have same: "page_anchors ?p = page_anchors p" "begun ?p = begun p" "timer ?p = timer p" "dom_listener ?p = dom_listener p"
    "load_listener ?p = load_listener p" "once_done ?p = once_done p" "fetcher_ok (fetching ?p)"
    using settle_ok(1) [OF ok] by (simp_all add: on_answer_def Let_def begun_def)
  have "places ?p = places p + image_mset (\<lambda>(u, c, _). c) (mset new)"
    by (simp add: on_answer_def Let_def places_def new(1) comp_def case_prod_unfold)
  moreover have "pending p = pending ?p + image_mset (\<lambda>(u, c, _). c) (mset new)"
    by (simp add: on_answer_def Let_def pending_def new(2) multiset.map_comp comp_def case_prod_unfold)
  ultimately have "places ?p + pending ?p = places p + pending p" by simp
  moreover have "\<forall>b \<in> set (replaced ?p). placed_button b = make_button url (anchor_options (anchors ! place b))"
    using page_answer(2) by (auto simp: on_answer_def Let_def new(1) page_ok_def button_of_def)
  ultimately show ?case using page_answer(2) same unfolding page_ok_def by auto
qed

lemma distinct_of_mset_subset:
  assumes "mset xs \<subseteq># mset ys" and "distinct ys"
  shows "distinct xs"
  unfolding distinct_count_atmost_1
proof
  fix x
  have "count (mset xs) x \<le> count (mset ys) x" using assms(1) by (rule mset_subset_eq_count)
  with assms(2) show "count (mset xs) x = (if x \<in> set xs then 1 else 0)"
    by (auto simp: distinct_count_atmost_1 split: if_splits intro!: antisym)
qed

text \<open>C39. Whatever the order of events, every link to a button is replaced at most once, by the button made from its own
  options; before the script has begun none is, and when it has begun and every request has had an event, all of them have
  been.\<close>

theorem links_replaced_once:
  assumes run: "page_run url parse number anchors p"
  shows "distinct (map place (replaced p)) \<and>
     (\<forall>b \<in> set (replaced p). place b < length anchors \<and>
        placed_button b = make_button url (anchor_options (anchors ! place b))) \<and>
     (\<not> begun p \<longrightarrow> replaced p = []) \<and>
     (begun p \<and> (\<forall>q \<in> set (requests (fetching p)). fired q) \<longrightarrow> set (map place (replaced p)) = {..<length anchors})"
proof -
  note ok = page_run_ok [OF run, unfolded page_ok_def]
  have "places p \<subseteq># places p + pending p" by simp
  also have "\<dots> \<subseteq># mset [0..<length anchors]" using ok by (cases "begun p") auto
  finally have sub: "mset (map place (replaced p)) \<subseteq># mset [0..<length anchors]" by (simp add: places_def)
  then have "distinct (map place (replaced p))" by (rule distinct_of_mset_subset) simp
  moreover have "place b < length anchors" if "b \<in> set (replaced p)" for b
  proof -
    have "place b \<in># mset (map place (replaced p))" using that by simp
    with sub have "place b \<in># mset [0..<length anchors]" by (rule mset_subset_eqD)
    then show ?thesis by simp
  qed
  moreover have "\<not> begun p \<longrightarrow> replaced p = []" using ok by (auto simp: places_def)
  moreover have "set (map place (replaced p)) = {..<length anchors}" if "begun p" "\<forall>q \<in> set (requests (fetching p)). fired q"
  proof -
    have "waiting (fetching p) = {#}"
      using ok that(2) by (auto simp: waiting_def fetcher_ok_def Let_def)
    then have "mset (map place (replaced p)) = mset [0..<length anchors]" using ok that(1) by (simp add: places_def pending_def)
    then have "set (map place (replaced p)) = set [0..<length anchors]" by (rule mset_eq_setD)
    then show ?thesis by auto
  qed
  ultimately show ?thesis using ok by blast
qed

text \<open>A page of two links to repositories, the first with its count.\<close>

definition sample_url :: "js_text option \<Rightarrow> js_text \<times> js_text" where
  "sample_url link = (units ''github.com'', units ''/finos/htc-grid'')"

definition sample_link :: "bool \<Rightarrow> anchor" where
  "sample_link counted = \<lparr>anchor_href = units ''https://github.com/finos/htc-grid'', anchor_title = [],
     attribute = (\<lambda>n. if counted \<and> n = units ''data-show-count'' then Some (units ''true'') else None), text_content = units ''Star''\<rparr>"

definition sample_button_page :: button_page where
  "sample_button_page = on_timer sample_url (schedule LoadComplete False (new_page [sample_link True, sample_link False]))"

definition sample_answered_page :: button_page where
  "sample_answered_page = on_answer sample_url (\<lambda>d f. 1234) 0 (reply_of Some (Loaded 200 [])) sample_button_page"

lemma sample_answered_page_run: "page_run sample_url Some (\<lambda>d f. 1234) [sample_link True, sample_link False] sample_answered_page"
  unfolding sample_answered_page_def sample_button_page_def by (intro page_run.intros)

definition sample_path :: js_text where
  "sample_path = units ''https://api.github.com/repos/finos/htc-grid''"

lemma sample_option:
  "option_of (anchor_options (sample_link counted)) ''data-show-count'' = (if counted then Some (units ''true'') else None)"
  by (simp add: option_of_def anchor_options_def sample_link_def Let_def units_def)

lemma sample_request:
  "count_request (Some (units ''true'')) (strip_dot (units ''github.com'')) (path_parts (units ''/finos/htc-grid'')) =
     Some (sample_path, Stargazers, units ''/stargazers'')"
  "count_request None (strip_dot (units ''github.com'')) (path_parts (units ''/finos/htc-grid'')) = None"
  "github_host (strip_dot (units ''github.com''))"
  by code_simp+

lemma sample_counts:
  "counts (make_button sample_url (anchor_options (sample_link counted))) =
     (if counted then Some (sample_path, Stargazers, units ''/stargazers'') else None)"
  by (simp add: make_button_def sample_url_def Let_def sample_option sample_request)

lemmas sample_page_simps =
  sample_button_page_def sample_answered_page_def on_timer_def schedule_def new_page_def render_anchors_def render_anchor_def
  button_of_def sample_counts fetch_def cached_array_def no_fetcher_def on_answer_def settle_def reply_of_def upt_conv_Cons

lemma sample_button_page_order:
  "map place (replaced sample_button_page) = [1]"
  by (simp add: sample_page_simps)

lemma sample_answered_page_order:
  "map (\<lambda>b. (place b, social_count b)) (replaced sample_answered_page) =
    [(1, None), (0, Some (''1,234'', ''1234 stargazers on GitHub''))]"
proof -
  have "count_text 1234 = ''1,234''" "count_label Stargazers 1234 = ''1234 stargazers on GitHub''" by code_simp+
  then show ?thesis by (simp add: sample_page_simps count_beside_def)
qed

theorem links_replaced_once_witness: "set (map place (replaced sample_answered_page)) = {0, 1}"
proof -
  have "begun sample_answered_page" "\<forall>q \<in> set (requests (fetching sample_answered_page)). fired q"
    by (simp_all add: sample_page_simps begun_def)
  with links_replaced_once [OF sample_answered_page_run] show ?thesis by auto
qed

end
