(* ===== verification/Spec2Isabelle.thy ===== *)
theory Spec2Isabelle
  imports StateTableProps MemoryQueue TtlGenerator SubmitProps CancelTasks GetResults TtlChecker ConnectorRun OrchestratorRun DrainerRun ScalingMetrics AgentTypes MermaidPage ButtonPage
begin

text \<open>
  \<^bold>\<open>HTC-Grid\<close>: a verification library for the scheduler under \<open>src/source\<close> and for the scripts of its
  documentation site under \<open>src/docs/workshop/static\<close>.

  \<^bold>\<open>The program.\<close>  Clients submit sessions of tasks to lambda functions, which write one row per task into a
  DynamoDB table, the state table, and one message per task into SQS.  Agents take messages, claim
  the tasks by conditional updates, run them and finish them; a periodic lambda retries or fails the tasks whose
  heartbeat stopped; other lambdas cancel tasks and report results.  Inputs and outputs travel through
  a data plane of S3 and Redis.  The pages of the documentation draw diagrams with \<open>mermaid.js\<close> and show
  GitHub buttons with \<open>buttons.js\<close>.

  \<^bold>\<open>How code is modelled.\<close>  A Python function that calls a service is an \<open>io\<close> computation (Prelude): it takes
  the state of the world and returns the state with an exception or a value, or \<open>None\<close> if it
  never returns (\<open>io_until\<close> is the loop that may not end).  Exceptions are a datatype, dictionaries are lists of entries or maps, and each
  \<open>except\<close> clause is a case on the exception.  Loops that may not end are \<open>partial_function (option)\<close>.
  Services are records of functions over an opaque world; what their documentation promises is a
  predicate (\<open>ddb_documented\<close>, \<open>sqs_documented\<close>, \<open>storage_documented\<close>, \<open>host_keeps\<close>), a hypothesis of the theorems that
  need it, and the services in memory (MemoryTable, MemoryQueue) satisfy it, which the witnesses use.  The
  JavaScript modules are functions on explicit state with their own errors (\<open>js_error\<close>); texts whose
  characters matter beyond Latin-1 are lists of UTF-16 code units (\<open>js_text\<close>).

  \<^bold>\<open>Theories and sources.\<close>
  \<^item> Prelude: Python values, exceptions, effects, loops, strings; Hoare triples, frames (\<open>keeps\<close>), termination
    (\<open>returns\<close>).
  \<^item> TaskStates, DynamoTable, StateTable: \<open>utils/state_table_common.py\<close>, the conditional updates and queries of
    DynamoDB, and \<open>StateTableDDB\<close> of \<open>api/state_table_dynamodb.py\<close>, method by method.
  \<^item> Lifecycle: the abstract task life cycle, a step relation on tables with its invariant \<open>table_ok\<close>;
    StateTableLaws proves that every method refines it (locale \<open>task_store\<close>, interpreted on the client), and
    lifts it to compositions of calls (\<open>evolves\<close>); StateTableProps has its properties; MemoryTable the
    table in memory.
  \<^item> TtlGenerator: \<open>utils/ttl_experation_generator.py\<close>.
  \<^item> TaskQueue, TaskQueueLaws, MemoryQueue: \<open>api/task_queue_sqs.py\<close>, \<open>task_queue_priority_sqs.py\<close> and \<open>queue_manager.py\<close>;
    the locale \<open>task_queue_contract\<close> with an interpretation for each class and the factory.
  \<^item> Base64, Json: the codecs of the standard library with their round trips.
  \<^item> DataPlane, DataPlaneLaws, DataPlaneProps: \<open>api/in_out_s3.py\<close>, \<open>in_out_redis.py\<close>, \<open>in_out_manager.py\<close>; the locale
    \<open>data_plane\<close>.
  \<^item> PerfTracker: \<open>utils/performance_tracker.py\<close> and its connectors.
  \<^item> Lambdas, SubmitTasks with SubmitProps, CancelTasks, GetResults, TtlChecker: the handlers under
    \<open>control_plane/python/lambda\<close>.
  \<^item> Agent: \<open>compute_plane/python/agent/agent.py\<close>, function by function; AgentProps with its effect on table, queue and data
    plane, AgentFaults with its error paths, AgentTypes with the types of its counters, AgentRun with the agent on the services
    in memory.
  \<^item> Connector: the client library \<open>api/connector.py\<close>, method by method; ConnectorProps joins it with the submission
    lambda, the agent and the data plane, ConnectorRun runs it in memory.
  \<^item> CapacityDrain, CapacityController: \<open>drain.py\<close>, \<open>orb_client.py\<close> and \<open>ec2_capacity_controller.py\<close> of the capacity
    controller for EC2; CapacityProps with what a tick does, CapacityRun with the controller in memory.
  \<^item> Orchestrator, OrchestratorProps: \<open>orb_orchestrator/orb_lambda.py\<close>, the lambda in front of ORB; CapacityOrb joins it with
    the capacity controller, OrchestratorRun runs both in memory.
  \<^item> Drainer, DrainerProps, DrainerRun: the Kubernetes drainer, \<open>drainer/k8s_utils.py\<close> and \<open>drainer/handler.py\<close>, with its loops
    as \<open>partial_function\<close> and \<open>io_until\<close>.
  \<^item> ScalingMetrics: \<open>scaling_metrics/scaling_metrics.py\<close>.
  \<^item> MermaidText, MermaidGit, MermaidPage: of \<open>mermaid/mermaid.js\<close>, the text functions, the commit graph of git
    diagrams, and the configuration and \<open>mermaid.init\<close>.
  \<^item> UriComponent, GithubButtons, ButtonRequests, ButtonPage: \<open>encodeURIComponent\<close> and \<open>decodeURIComponent\<close>, and of \<open>js/buttons.js\<close> the
    options, the button, the shared requests and the order of events on a page.

  \<^bold>\<open>What is shown.\<close>  For the grid: an agent that claimed a task owns it until it is retried, cancelled, failed or
  submitted again; every reachable row is well formed; the exact effect and errors of the calls; pages,
  batches and partitions are read completely; queues deliver by priority and delete what was received, by the most
  recent receipt handle, for which alone SQS promises it; the data
  plane returns what was put; an agent changes the table only by its own claims, heartbeats and completions, a
  completion stores the output before the row is finished and deletes the message after; inputs reach the worker and
  outputs the client unchanged, and a poll with a timeout ends; a tick of the capacity controller covers deficit and surplus
  and terminates no working machine before its deadline, by the calls that it makes of EC2, SSM and the orchestrator
  (\<open>tick_calls\<close>), and also as ORB sees it through the orchestrator; nothing else
  terminates machines but requests for that; the Kubernetes drainer releases an instance only when its node is empty, abandons
  the action when the Kubernetes client fails, leaves the pods of daemon sets and of other nodes alone, and never returns as long as
  a disruption budget blocks one pod; a submission writes its rows before any message and
  answers with all tasks; cancel, results and TTL lambdas do to the table what they claim and nothing else.  For the
  scripts: diagrams terminate when the drawn ids are new, the merge test is ancestry, merges lose
  nothing; \<open>init\<close> draws an element at most once; options, URI components and entities survive their round trips; the host
  test is exact; requests are shared, every callback is called once and every link replaced once.  Several theorems fix what goes
  wrong: an expired task that stops the TTL run, a repeated id that loops, ids that collide, a failure of the orchestrator
  that the controller takes for an empty fleet, an eviction that is refused and dropped without a report.

  \<^bold>\<open>Bounds.\<close>  No fuel is used; \<open>json_loads\<close> recurses on the length of its text.  Times are integers in
  milliseconds, \<open>int(x * 1.1)\<close> is the integer part of eleven tenths, and the quotient of the backlog in the
  capacity controller is exact, as the code's is below \<open>2^52\<close>; floating point occurs nowhere else in what is modelled.

  \<^bold>\<open>Not modelled.\<close>  Logging and the error logger; the mock computation, which only sleeps; example clients and
  workloads; the constructors of boto3 clients; the diagram parsers and renderers and the libraries bundled in \<open>mermaid.js\<close>; page
  layout, style texts and the branches for old browsers of \<open>buttons.js\<close>; third-party scripts; deployment files.
\<close>

end
